(* ===== verification/Prelude.thy ===== *)
theory Prelude
  imports Main "HOL-Library.Word" "HOL-Library.Char_ord" "HOL-Library.List_Lexorder"
begin

text \<open>
  What every component shares: Go's integers and strings, its errors as values, and the
  sequencing of fallible operations over an explicit state.

  \<^item> A Go integer of a signed type is an \<open>int\<close>; every conversion \<open>int32(x)\<close>, \<open>int64(x)\<close>
    of the source is written as the wrap-around \<open>i32 x\<close>, \<open>i64 x\<close>.  Bytes and the
    unsigned checksum arithmetic are machine words.
  \<^item> A Go string is a sequence of bytes, here a \<open>string\<close>; a \<open>[]byte\<close> is a \<open>byte list\<close>.
  \<^item> A call that may fail is an action \<open>'s \<Rightarrow> (go_error + 'a) \<times> 's\<close>: the error or the value,
    and the state it leaves.  A Go panic is the error \<open>Panic\<close>, which no \<open>if err != nil\<close>
    wraps (\<open>wrap_err\<close>).
\<close>

unbundle bit_operations_syntax

type_synonym byte = "8 word"
type_synonym u16 = "16 word"
type_synonym u32 = "32 word"

subsection \<open>Signed integers of a fixed width\<close>

definition i32 :: "int \<Rightarrow> int" where
  "i32 x = signed_take_bit 31 x"

definition i64 :: "int \<Rightarrow> int" where
  "i64 x = signed_take_bit 63 x"

definition is_i32 :: "int \<Rightarrow> bool" where
  "is_i32 x \<longleftrightarrow> -(2 ^ 31) \<le> x \<and> x < 2 ^ 31"

definition is_i64 :: "int \<Rightarrow> bool" where
  "is_i64 x \<longleftrightarrow> -(2 ^ 63) \<le> x \<and> x < 2 ^ 63"

lemma i32_id [simp]: "is_i32 x \<Longrightarrow> i32 x = x"
  by (simp add: i32_def is_i32_def signed_take_bit_int_eq_self)

lemma i64_id [simp]: "is_i64 x \<Longrightarrow> i64 x = x"
  by (simp add: i64_def is_i64_def signed_take_bit_int_eq_self)

lemma i32_mod: "i32 (x mod 2 ^ 32) = i32 x"
  unfolding i32_def take_bit_eq_mod [symmetric] by (simp add: signed_take_bit_take_bit)

lemma i64_mod: "i64 (x mod 2 ^ 64) = i64 x"
  unfolding i64_def take_bit_eq_mod [symmetric] by (simp add: signed_take_bit_take_bit)

lemma is_i32_i32 [simp]: "is_i32 (i32 x)"
  unfolding is_i32_def i32_def
  by (rule conjI [OF signed_take_bit_int_greater_eq_minus_exp signed_take_bit_int_less_exp])

lemma is_i64_i64 [simp]: "is_i64 (i64 x)"
  unfolding is_i64_def i64_def
  by (rule conjI [OF signed_take_bit_int_greater_eq_minus_exp signed_take_bit_int_less_exp])

lemma is_i32_is_i64: "is_i32 x \<Longrightarrow> is_i64 x"
  by (simp add: is_i32_def is_i64_def)

lemma int_div_less: "0 < b \<Longrightarrow> x < m * b \<Longrightarrow> x div b < (m :: int)"
proof (rule ccontr)
  assume b: "0 < b" and x: "x < m * b" and "\<not> x div b < m"
  then have "m * b \<le> x div b * b" by (intro mult_right_mono) simp_all
  also have "\<dots> \<le> x" using div_mult_mod_eq [of x b] pos_mod_sign [OF b, of x] by linarith
  finally show False using x by simp
qed

lemma Suc_div: "n \<noteq> 0 \<Longrightarrow> (n + k) div n = Suc (k div n)"
  using div_add_self1 [of n k] by simp

subsection \<open>Errors\<close>

text \<open>
  \<open>EOF\<close> and \<open>UnexpectedEOF\<close> are the two errors of \<open>io.ReadFull\<close>, \<open>WriteFailed\<close> is any error
  of an \<open>io.Writer\<close>, \<open>NotExist\<close> and \<open>PathError\<close> those of opening a file, and
  \<open>Errorf fmt args\<close> is \<open>fmt.Errorf(fmt, args...)\<close>.  \<open>Panic\<close> is a Go run-time panic, and
  \<open>Diverged\<close> marks a loop whose fuel ran out.
\<close>

datatype go_error =
    EOF | UnexpectedEOF | WriteFailed
  | NotExist string | PathError string
  | Errorf string "fmt_arg list"
  | Panic string
  | Diverged
and fmt_arg = FInt int | FStr string | FErr go_error

definition fatal :: "go_error \<Rightarrow> bool" where
  "fatal e \<longleftrightarrow> (case e of Panic _ \<Rightarrow> True | Diverged \<Rightarrow> True | _ \<Rightarrow> False)"

lemma fatal_simps [simp]:
  "\<not> fatal EOF" "\<not> fatal UnexpectedEOF" "\<not> fatal WriteFailed" "\<not> fatal (NotExist s)"
  "\<not> fatal (PathError s)" "\<not> fatal (Errorf s as)" "fatal (Panic s)" "fatal Diverged"
  by (simp_all add: fatal_def)

subsection \<open>Actions: fallible operations on a state\<close>

type_synonym ('a, 's) act = "'s \<Rightarrow> (go_error + 'a) \<times> 's"

definition ret :: "'a \<Rightarrow> ('a, 's) act" where
  "ret a s = (Inr a, s)"

definition throw :: "go_error \<Rightarrow> ('a, 's) act" where
  "throw e s = (Inl e, s)"

definition bnd :: "('a, 's) act \<Rightarrow> ('a \<Rightarrow> ('b, 's) act) \<Rightarrow> ('b, 's) act" where
  "bnd m f s = (case m s of (Inl e, s') \<Rightarrow> (Inl e, s') | (Inr a, s') \<Rightarrow> f a s')"

text \<open>\<open>if err := m(); err != nil { return g(err) }\<close>: a panic is not an \<open>err\<close>.\<close>

definition wrap_err :: "(go_error \<Rightarrow> go_error) \<Rightarrow> ('a, 's) act \<Rightarrow> ('a, 's) act" where
  "wrap_err g m s = (case m s of (Inl e, s') \<Rightarrow> (Inl (if fatal e then e else g e), s')
                               | (Inr a, s') \<Rightarrow> (Inr a, s'))"

text \<open>A call whose error the caller looks at; a panic goes on.\<close>

definition attempt :: "('a, 's) act \<Rightarrow> (go_error + 'a, 's) act" where
  "attempt m s = (case m s of (Inl e, s') \<Rightarrow> (if fatal e then Inl e else Inr (Inl e), s')
                            | (Inr a, s') \<Rightarrow> (Inr (Inr a), s'))"

definition when_do :: "bool \<Rightarrow> (unit, 's) act \<Rightarrow> (unit, 's) act" where
  "when_do b m = (if b then m else ret ())"

definition get :: "('s \<Rightarrow> 'a) \<Rightarrow> ('a, 's) act" where
  "get f s = (Inr (f s), s)"

definition modify :: "('s \<Rightarrow> 's) \<Rightarrow> (unit, 's) act" where
  "modify f s = (Inr (), f s)"

fun for_each :: "('a \<Rightarrow> (unit, 's) act) \<Rightarrow> 'a list \<Rightarrow> (unit, 's) act" where
  "for_each f [] = ret ()"
| "for_each f (x # xs) = bnd (f x) (\<lambda>_. for_each f xs)"

fun times :: "nat \<Rightarrow> ('a, 's) act \<Rightarrow> ('a list, 's) act" where
  "times 0 m = ret []"
| "times (Suc n) m = bnd m (\<lambda>x. bnd (times n m) (\<lambda>xs. ret (x # xs)))"

fun traverse :: "('a \<Rightarrow> ('b, 's) act) \<Rightarrow> 'a list \<Rightarrow> ('b list, 's) act" where
  "traverse f [] = ret []"
| "traverse f (x # xs) = bnd (f x) (\<lambda>y. bnd (traverse f xs) (\<lambda>ys. ret (y # ys)))"

text \<open>
  \<open>run\<close> collects the rules that execute an action symbolically: \<open>simp add: run\<close> steps
  through a sequence as long as the outcome of each call is known to the simplifier.
\<close>

named_theorems run
named_theorems reads_intro
named_theorems stable_intro
named_theorems safe_intro

lemma ret_apply [run]: "ret a s = (Inr a, s)"
  by (simp add: ret_def)

lemma throw_apply [run]: "throw e s = (Inl e, s)"
  by (simp add: throw_def)

lemma get_apply [run]: "get f s = (Inr (f s), s)"
  by (simp add: get_def)

lemma modify_apply [run]: "modify f s = (Inr (), f s)"
  by (simp add: modify_def)

lemma bnd_Inr [run]: "m s = (Inr a, s') \<Longrightarrow> bnd m f s = f a s'"
  by (simp add: bnd_def)

lemma bnd_Inl [run]: "m s = (Inl e, s') \<Longrightarrow> bnd m f s = (Inl e, s')"
  by (simp add: bnd_def)

lemma bnd_step: "m s = (Inr a, s') \<Longrightarrow> f a s' = r \<Longrightarrow> bnd m f s = r"
  by (simp add: bnd_def)

lemma wrap_err_Inr [run]: "m s = (Inr a, s') \<Longrightarrow> wrap_err g m s = (Inr a, s')"
  by (simp add: wrap_err_def)

lemma wrap_err_Inl [run]:
  "m s = (Inl e, s') \<Longrightarrow> wrap_err g m s = (Inl (if fatal e then e else g e), s')"
  by (simp add: wrap_err_def)

lemma attempt_Inr [run]: "m s = (Inr a, s') \<Longrightarrow> attempt m s = (Inr (Inr a), s')"
  by (simp add: attempt_def)

lemma attempt_Inl [run]: "m s = (Inl e, s') \<Longrightarrow> attempt m s = (if fatal e then Inl e else Inr (Inl e), s')"
  by (simp add: attempt_def)

lemma snd_attempt [simp]: "snd (attempt m s) = snd (m s)"
  by (simp add: attempt_def split: prod.split sum.split)

lemma when_do_True [run]: "b \<Longrightarrow> when_do b m s = m s"
  by (simp add: when_do_def)

lemma when_do_False [run]: "\<not> b \<Longrightarrow> when_do b m s = (Inr (), s)"
  by (simp add: when_do_def ret_def)

lemma bnd_eq_Inr:
  "bnd m f s = (Inr b, t) \<longleftrightarrow> (\<exists>a s'. m s = (Inr a, s') \<and> f a s' = (Inr b, t))"
  by (auto simp: bnd_def split: prod.splits sum.splits)

lemma bnd_eq_Inl:
  "bnd m f s = (Inl e, t) \<longleftrightarrow>
     m s = (Inl e, t) \<or> (\<exists>a s'. m s = (Inr a, s') \<and> f a s' = (Inl e, t))"
  by (auto simp: bnd_def split: prod.splits sum.splits)

lemma wrap_err_eq_Inr: "wrap_err g m s = (Inr b, t) \<longleftrightarrow> m s = (Inr b, t)"
  by (auto simp: wrap_err_def split: prod.splits sum.splits)

lemma bnd_assoc: "bnd (bnd m f) g = bnd m (\<lambda>x. bnd (f x) g)"
  by (rule ext) (simp add: bnd_def split: prod.split sum.split)

lemma bnd_ret [simp]: "bnd (ret a) f = f a"
  by (rule ext) (simp add: bnd_def ret_def)

lemma bnd_throw [simp]: "bnd (throw e) f = throw e"
  by (rule ext) (simp add: bnd_def throw_def)

lemma for_each_append: "for_each f (xs @ ys) = bnd (for_each f xs) (\<lambda>_. for_each f ys)"
  by (induction xs) (simp_all add: bnd_assoc)

lemma times_length: "times n m s = (Inr xs, s') \<Longrightarrow> length xs = n"
  by (induction n arbitrary: s xs) (auto simp: bnd_eq_Inr ret_def)

text \<open>A safe action never panics and never loops.\<close>

definition safe :: "('a, 's) act \<Rightarrow> bool" where
  "safe m \<longleftrightarrow> (\<forall>s e s'. m s = (Inl e, s') \<longrightarrow> \<not> fatal e)"

lemma safeD: "safe m \<Longrightarrow> m s = (Inl e, s') \<Longrightarrow> \<not> fatal e"
  unfolding safe_def by blast

lemma safe_ret [safe_intro]: "safe (ret a)"
  by (simp add: safe_def ret_def)

lemma safe_throw [safe_intro]: "\<not> fatal e \<Longrightarrow> safe (throw e)"
  by (simp add: safe_def throw_def)

lemma safe_get [safe_intro]: "safe (get f)"
  by (simp add: safe_def get_def)

lemma safe_modify [safe_intro]: "safe (modify f)"
  by (simp add: safe_def modify_def)

lemma safe_bnd [safe_intro]: "safe m \<Longrightarrow> (\<And>a. safe (f a)) \<Longrightarrow> safe (bnd m f)"
  unfolding safe_def by (metis bnd_eq_Inl)

lemma safe_bnd_post:
  "safe m \<Longrightarrow> (\<And>s a s'. m s = (Inr a, s') \<Longrightarrow> P a) \<Longrightarrow> (\<And>a. P a \<Longrightarrow> safe (f a)) \<Longrightarrow> safe (bnd m f)"
  unfolding safe_def by (metis bnd_eq_Inl)

lemma safe_if [safe_intro]: "(b \<Longrightarrow> safe m) \<Longrightarrow> (\<not> b \<Longrightarrow> safe m') \<Longrightarrow> safe (if b then m else m')"
  by simp

lemma safe_when_do [safe_intro]: "safe m \<Longrightarrow> safe (when_do b m)"
  by (simp add: when_do_def safe_ret)

lemma safe_wrap_err [safe_intro]: "safe m \<Longrightarrow> (\<And>e. \<not> fatal e \<Longrightarrow> \<not> fatal (g e)) \<Longrightarrow> safe (wrap_err g m)"
  by (auto simp: safe_def wrap_err_def split: prod.splits sum.splits)

lemma safe_attempt [safe_intro]: "safe m \<Longrightarrow> safe (attempt m)"
  by (auto simp: safe_def attempt_def split: prod.splits sum.splits if_splits)

lemma safe_for_each [safe_intro]: "(\<And>x. x \<in> set xs \<Longrightarrow> safe (f x)) \<Longrightarrow> safe (for_each f xs)"
  by (induction xs) (auto intro!: safe_intro)

lemma safe_times [safe_intro]: "safe m \<Longrightarrow> safe (times n m)"
  by (induction n) (auto intro!: safe_intro)

subsection \<open>What an action keeps\<close>

text \<open>
  An action keeps a relation when the state it leaves is related to the one it found, whatever
  its outcome.  For a reflexive and transitive relation (a frame) this composes: the lemmas of
  the locale carry it from the operations of a component to everything built from them.
\<close>

definition keeps :: "('s \<Rightarrow> 's \<Rightarrow> bool) \<Rightarrow> ('a, 's) act \<Rightarrow> bool" where
  "keeps R m \<longleftrightarrow> (\<forall>s. R s (snd (m s)))"

lemma keepsI: "(\<And>s. R s (snd (m s))) \<Longrightarrow> keeps R m"
  by (simp add: keeps_def)

lemma keepsD: "keeps R m \<Longrightarrow> m s = (r, t) \<Longrightarrow> R s t"
  unfolding keeps_def by (metis snd_conv)

lemma keeps_mono: "keeps R m \<Longrightarrow> (\<And>s t. R s t \<Longrightarrow> Q s t) \<Longrightarrow> keeps Q m"
  by (auto simp: keeps_def)

locale frame =
  fixes R :: "'s \<Rightarrow> 's \<Rightarrow> bool"
  assumes frame_refl: "R s s" and frame_trans: "R s t \<Longrightarrow> R t u \<Longrightarrow> R s u"
begin

lemma keep_ret: "keeps R (ret a)"
  by (simp add: keeps_def ret_def frame_refl)

lemma keep_throw: "keeps R (throw e)"
  by (simp add: keeps_def throw_def frame_refl)

lemma keep_get: "keeps R (get f)"
  by (simp add: keeps_def get_def frame_refl)

lemma keep_bnd_value:
  assumes "keeps R m" "\<And>a s t. m s = (Inr a, t) \<Longrightarrow> keeps R (f a)"
  shows "keeps R (bnd m f)"
proof (rule keepsI)
  fix s
  obtain r t where m: "m s = (r, t)" by (cases "m s")
  with assms(1) have "R s t" by (rule keepsD)
  moreover have "R t (snd (f a t))" if "r = Inr a" for a using assms(2) m that by (auto simp: keeps_def)
  ultimately show "R s (snd (bnd m f s))" using m by (auto simp: bnd_def split: sum.split intro: frame_trans)
qed

lemma keep_bnd: "keeps R m \<Longrightarrow> (\<And>a. keeps R (f a)) \<Longrightarrow> keeps R (bnd m f)"
  by (rule keep_bnd_value)

text \<open>What the rest of a sequence does once its first action has run.\<close>

lemma after_bnd:
  assumes "\<And>a. keeps R (f a)" "bnd m f s = (r, t)"
  shows "\<exists>r1 s1. m s = (r1, s1) \<and> R s1 t"
proof -
  obtain r1 s1 where m: "m s = (r1, s1)" by (cases "m s")
  with assms show ?thesis
    by (auto simp: bnd_def frame_refl split: sum.splits dest: keepsD)
qed

lemma keep_attempt: "keeps R m \<Longrightarrow> keeps R (attempt m)"
  by (simp add: keeps_def)

lemma keep_wrap_err: "keeps R m \<Longrightarrow> keeps R (wrap_err g m)"
  by (auto simp: keeps_def wrap_err_def split: prod.split sum.split) (metis snd_conv)+

lemma keep_if: "keeps R m \<Longrightarrow> keeps R m' \<Longrightarrow> keeps R (if b then m else m')"
  by simp

lemma keep_when_do: "keeps R m \<Longrightarrow> keeps R (when_do b m)"
  by (simp add: when_do_def keep_ret)

lemma keep_for_each: "(\<And>x. x \<in> set xs \<Longrightarrow> keeps R (f x)) \<Longrightarrow> keeps R (for_each f xs)"
  by (induction xs) (auto intro: keep_ret keep_bnd)

text \<open>What holds after an action that returns: the relation, and \<open>Q\<close> of the value.\<close>

definition yields :: "('a \<Rightarrow> bool) \<Rightarrow> ('a, 's) act \<Rightarrow> bool" where
  "yields Q m \<longleftrightarrow> (\<forall>s a t. m s = (Inr a, t) \<longrightarrow> R s t \<and> Q a)"

lemma yieldsD: "yields Q m \<Longrightarrow> m s = (Inr a, t) \<Longrightarrow> R s t \<and> Q a"
  unfolding yields_def by blast

lemma yields_mono: "yields Q m \<Longrightarrow> (\<And>a. Q a \<Longrightarrow> Q' a) \<Longrightarrow> yields Q' m"
  unfolding yields_def by blast

lemma yield_ret: "Q a \<Longrightarrow> yields Q (ret a)"
  by (simp add: yields_def ret_def frame_refl)

lemma yield_throw: "yields Q (throw e)"
  by (simp add: yields_def throw_def)

lemma yield_bnd: "yields Q m \<Longrightarrow> (\<And>a. Q a \<Longrightarrow> yields Q' (f a)) \<Longrightarrow> yields Q' (bnd m f)"
  unfolding yields_def bnd_eq_Inr by (meson frame_trans)

lemma yield_attempt: "keeps R m \<Longrightarrow> yields Q m \<Longrightarrow> yields (\<lambda>r. \<forall>a. r = Inr a \<longrightarrow> Q a) (attempt m)"
  unfolding yields_def by (auto simp: attempt_def split: prod.splits sum.splits if_splits dest: keepsD)

lemma yield_for_each: "(\<And>x. x \<in> set xs \<Longrightarrow> yields Q (f x)) \<Longrightarrow> yields (\<lambda>_. True) (for_each f xs)"
  by (induction xs) (auto intro: yield_ret yield_bnd)

lemmas keep_intro = keep_ret keep_throw keep_get keep_bnd keep_attempt keep_wrap_err keep_if keep_when_do

end

subsection \<open>Bytes and strings\<close>

definition bytes_of_string :: "string \<Rightarrow> byte list" where
  "bytes_of_string s = map of_char s"

definition string_of_bytes :: "byte list \<Rightarrow> string" where
  "string_of_bytes bs = map (\<lambda>b. char_of (unat b)) bs"

lemma unat_of_char_byte: "unat (of_char c :: byte) = of_char c"
proof -
  have "(of_char c :: byte) = word_of_nat (of_char c)"
    by (rule of_nat_of_char [symmetric])
  moreover have "(of_char c :: nat) < 256"
    using of_char_of [of "of_char c :: nat"] by (metis char_of_char mod_less_divisor zero_less_numeral)
  ultimately show ?thesis
    by (simp add: unat_of_nat take_bit_nat_eq_self)
qed

lemma char_of_of_char_byte [simp]: "char_of (unat (of_char c :: byte)) = c"
  by (simp add: unat_of_char_byte)

lemma of_char_char_of_byte [simp]: "of_char (char_of (unat (b :: byte))) = b"
proof -
  have "unat b < 256"
    using unsigned_less [of b, where 'a = nat] by simp
  then have "(of_char (char_of (unat b)) :: nat) = unat b"
    by simp
  then have "unat (of_char (char_of (unat b)) :: byte) = unat b"
    by (simp only: unat_of_char_byte)
  then show ?thesis
    by (rule word_unat_eq_iff [THEN iffD2])
qed

lemma string_of_bytes_of_string [simp]: "string_of_bytes (bytes_of_string s) = s"
  by (induction s) (simp_all add: string_of_bytes_def bytes_of_string_def)

lemma bytes_of_string_of_bytes [simp]: "bytes_of_string (string_of_bytes bs) = bs"
  by (induction bs) (simp_all add: string_of_bytes_def bytes_of_string_def)

lemma length_bytes_of_string [simp]: "length (bytes_of_string s) = length s"
  by (simp add: bytes_of_string_def)

lemma length_string_of_bytes [simp]: "length (string_of_bytes bs) = length bs"
  by (simp add: string_of_bytes_def)

subsection \<open>Slices\<close>

text \<open>\<open>xs[a:a+n]\<close> for a slice expression that is in range.\<close>

definition slice :: "int \<Rightarrow> int \<Rightarrow> 'a list \<Rightarrow> 'a list" where
  "slice a n xs = take (nat n) (drop (nat a) xs)"

lemma length_slice [simp]:
  "0 \<le> a \<Longrightarrow> 0 \<le> n \<Longrightarrow> a + n \<le> int (length xs) \<Longrightarrow> length (slice a n xs) = nat n"
  by (simp add: slice_def)

lemma slice_0 [simp]: "slice a 0 xs = []"
  by (simp add: slice_def)

lemma slice_all: "n = int (length xs) \<Longrightarrow> slice 0 n xs = xs"
  by (simp add: slice_def)

lemma slice_append:
  assumes "0 \<le> a" "0 \<le> m" "0 \<le> n"
  shows "slice a m xs @ slice (a + m) n xs = slice a (m + n) xs"
  using assms by (simp add: slice_def nat_add_distrib take_add add.commute)

lemma slice_slice:
  assumes "0 \<le> a" "0 \<le> b" "0 \<le> n" "b + n \<le> m"
  shows "slice b n (slice a m xs) = slice (a + b) n xs"
  using assms by (simp add: slice_def nat_add_distrib drop_take add.commute min_absorb1 flip: nat_diff_distrib')

lemma slice_nth:
  assumes "0 \<le> a" "0 \<le> i" "i < n" "a + n \<le> int (length xs)"
  shows "slice a n xs ! nat i = xs ! nat (a + i)"
  using assms by (simp add: slice_def nat_add_distrib)

end
