(* ===== verification/Wire.thy ===== *)
theory Wire
  imports Prelude
begin

text \<open>
  \<open>internal/rsyncwire/wire.go\<close>: the connection and its integer encodings, the buffer that
  collects a message before it is sent, the byte counters, and the multiplexing of the
  server's stream into tagged frames.

  A connection is the bytes the peer will still send, up to the end of the stream, the
  list of \<open>Write\<close> calls made so far, and how many more of them will succeed (\<open>None\<close>: all
  of them; the code checks the error of each).  Components that keep more state than the
  connection extend the record.
\<close>

record conn =
  c_in :: "byte list"
  c_out :: "byte list list"
  c_budget :: "nat option"

subsection \<open>Reading and writing bytes\<close>

text \<open>\<open>io.ReadFull(c.Reader, buf)\<close> with \<open>len(buf) = n\<close>.\<close>

definition read_full :: "nat \<Rightarrow> (byte list, 'z conn_scheme) act" where
  "read_full n c =
     (if n \<le> length (c_in c)
      then (Inr (take n (c_in c)), c\<lparr>c_in := drop n (c_in c)\<rparr>)
      else (Inl (if c_in c = [] then EOF else UnexpectedEOF), c\<lparr>c_in := []\<rparr>))"

definition conn_write :: "byte list \<Rightarrow> (unit, 'z conn_scheme) act" where
  "conn_write p c =
     (if c_budget c = Some 0 then (Inl WriteFailed, c)
      else (Inr (), c\<lparr>c_out := c_out c @ [p],
                      c_budget := map_option (\<lambda>n. n - 1) (c_budget c)\<rparr>))"

text \<open>A reader takes a prefix of the input and leaves the rest of the state alone.\<close>

definition reads :: "('a, 'z conn_scheme) act \<Rightarrow> bool" where
  "reads m \<longleftrightarrow> (\<forall>c. \<exists>p. c_in c = p @ c_in (snd (m c)) \<and>
                       snd (m c) = c\<lparr>c_in := c_in (snd (m c))\<rparr>)"

lemma readsI:
  assumes "\<And>c. \<exists>p s. c_in c = p @ s \<and> snd (m c) = c\<lparr>c_in := s\<rparr>"
  shows "reads m"
  unfolding reads_def
proof
  fix c
  from assms [of c] obtain p s where "c_in c = p @ s" "snd (m c) = c\<lparr>c_in := s\<rparr>" by blast
  then have "c_in c = p @ c_in (snd (m c)) \<and> snd (m c) = c\<lparr>c_in := c_in (snd (m c))\<rparr>" by simp
  then show "\<exists>p. c_in c = p @ c_in (snd (m c)) \<and> snd (m c) = c\<lparr>c_in := c_in (snd (m c))\<rparr>" ..
qed

lemma reads_ret [reads_intro]: "reads (ret a)"
  by (rule readsI) (auto simp: ret_def intro: exI [of _ "[]"])

lemma reads_throw [reads_intro]: "reads (throw e)"
  by (rule readsI) (auto simp: throw_def intro: exI [of _ "[]"])

lemma reads_read_full [reads_intro]: "reads (read_full n :: (byte list, 'z conn_scheme) act)"
proof (rule readsI)
  fix c :: "'z conn_scheme"
  show "\<exists>p s. c_in c = p @ s \<and> snd (read_full n c) = c\<lparr>c_in := s\<rparr>"
  proof (cases "n \<le> length (c_in c)")
    case True
    then have "snd (read_full n c) = c\<lparr>c_in := drop n (c_in c)\<rparr>" by (simp add: read_full_def)
    then show ?thesis by (metis append_take_drop_id)
  next
    case False
    then have "snd (read_full n c) = c\<lparr>c_in := []\<rparr>" by (simp add: read_full_def)
    then show ?thesis by (metis append_Nil2)
  qed
qed

lemma readsE:
  assumes "reads m" "m c = (r, c')"
  obtains p where "c_in c = p @ c_in c'" "c' = c\<lparr>c_in := c_in c'\<rparr>"
  using assms unfolding reads_def by (metis snd_conv)

lemma reads_bnd [reads_intro]:
  assumes m: "reads m" and f: "\<And>a. reads (f a)"
  shows "reads (bnd m f)"
proof (rule readsI)
  fix c
  obtain r c' where mc: "m c = (r, c')" by (cases "m c")
  from m mc obtain p where p: "c_in c = p @ c_in c'" "c' = c\<lparr>c_in := c_in c'\<rparr>" by (rule readsE)
  show "\<exists>p s. c_in c = p @ s \<and> snd (bnd m f c) = c\<lparr>c_in := s\<rparr>"
  proof (cases r)
    case (Inl e)
    with mc have "snd (bnd m f c) = c'" by (simp add: bnd_def)
    with p show ?thesis by metis
  next
    case (Inr a)
    obtain r' c'' where fc: "f a c' = (r', c'')" by (cases "f a c'")
    from f fc obtain q where q: "c_in c' = q @ c_in c''" "c'' = c'\<lparr>c_in := c_in c''\<rparr>" by (rule readsE)
    have "c'' = c\<lparr>c_in := c_in c''\<rparr>" by (subst q(2), subst p(2)) simp
    moreover have "c_in c = (p @ q) @ c_in c''" using p(1) q(1) by simp
    moreover have "snd (bnd m f c) = c''" using mc fc Inr by (simp add: bnd_def)
    ultimately show ?thesis by metis
  qed
qed

lemma reads_if [reads_intro]: "reads m \<Longrightarrow> reads m' \<Longrightarrow> reads (if b then m else m')"
  by simp

lemma reads_when_do [reads_intro]: "reads m \<Longrightarrow> reads (when_do b m)"
  by (simp add: when_do_def reads_ret)

lemma reads_times [reads_intro]: "reads m \<Longrightarrow> reads (times n m)"
  by (induction n) (auto intro!: reads_intro)

lemma reads_wrap_err [reads_intro]:
  assumes "reads m" shows "reads (wrap_err g m)"
proof -
  have "snd (wrap_err g m c) = snd (m c)" for c
    by (auto simp: wrap_err_def split: prod.split sum.split)
  with assms show ?thesis by (simp add: reads_def)
qed

text \<open>What a reader leaves is never longer than what it was given.\<close>

lemma reads_length: "reads m \<Longrightarrow> m c = (r, c') \<Longrightarrow> length (c_in c') \<le> length (c_in c)"
  by (erule (1) readsE) (metis length_append le_add2)

lemma reads_frame: "reads m \<Longrightarrow> m c = (r, c') \<Longrightarrow> c' = c\<lparr>c_in := c_in c'\<rparr>"
  by (erule (1) readsE)

text \<open>Every operation leaves at most the input it found.\<close>

definition shrink_rel :: "'z conn_scheme \<Rightarrow> 'z conn_scheme \<Rightarrow> bool" where
  "shrink_rel s t \<longleftrightarrow> length (c_in t) \<le> length (c_in s)"

interpretation shrink: frame "shrink_rel :: 'z conn_scheme \<Rightarrow> 'z conn_scheme \<Rightarrow> bool"
  by unfold_locales (auto simp: shrink_rel_def)

abbreviation shrinks :: "('a, 'z conn_scheme) act \<Rightarrow> bool" where
  "shrinks m \<equiv> keeps shrink_rel m"

lemma shrinksD: "shrinks m \<Longrightarrow> m s = (r, s') \<Longrightarrow> length (c_in s') \<le> length (c_in s)"
  using keepsD [of shrink_rel] unfolding shrink_rel_def by blast

lemma shrinksI: "(\<And>s r s'. m s = (r, s') \<Longrightarrow> length (c_in s') \<le> length (c_in s)) \<Longrightarrow> shrinks m"
  unfolding keeps_def shrink_rel_def by (metis surjective_pairing)

lemma shrinks_reads: "reads m \<Longrightarrow> shrinks m"
  by (rule shrinksI) (rule reads_length)

lemma shrinks_conn_write: "shrinks (conn_write p)"
  by (rule shrinksI) (auto simp: conn_write_def split: if_splits)

text \<open>A stable reader returns the same value when more input follows: it does not look ahead.\<close>

definition stable :: "('a, 'z conn_scheme) act \<Rightarrow> bool" where
  "stable m \<longleftrightarrow> (\<forall>c a c' z. m c = (Inr a, c') \<longrightarrow>
                 m (c\<lparr>c_in := c_in c @ z\<rparr>) = (Inr a, c'\<lparr>c_in := c_in c' @ z\<rparr>))"

lemma stableD:
  "stable m \<Longrightarrow> m c = (Inr a, c') \<Longrightarrow> m (c\<lparr>c_in := c_in c @ z\<rparr>) = (Inr a, c'\<lparr>c_in := c_in c' @ z\<rparr>)"
  by (simp add: stable_def)

lemma stable_ret [stable_intro]: "stable (ret a)"
  by (simp add: stable_def ret_def)

lemma stable_throw [stable_intro]: "stable (throw e)"
  by (simp add: stable_def throw_def)

lemma stable_read_full [stable_intro]: "stable (read_full n)"
  by (auto simp: stable_def read_full_def split: if_splits)

lemma stable_bnd [stable_intro]: "stable m \<Longrightarrow> (\<And>a. stable (f a)) \<Longrightarrow> stable (bnd m f)"
  unfolding stable_def by (fastforce simp: bnd_eq_Inr)

lemma stable_if [stable_intro]: "stable m \<Longrightarrow> stable m' \<Longrightarrow> stable (if b then m else m')"
  by simp

lemma read_full_Inr:
  "read_full n c = (Inr bs, c') \<longleftrightarrow>
     n \<le> length (c_in c) \<and> bs = take n (c_in c) \<and> c' = c\<lparr>c_in := drop n (c_in c)\<rparr>"
  by (auto simp: read_full_def)

lemma read_full_append [run]:
  "c_in c = bs @ r \<Longrightarrow> length bs = n \<Longrightarrow> read_full n c = (Inr bs, c\<lparr>c_in := r\<rparr>)"
  by (simp add: read_full_def)

lemma read_full_short [run]:
  "length (c_in c) < n \<Longrightarrow>
     read_full n c = (Inl (if c_in c = [] then EOF else UnexpectedEOF), c\<lparr>c_in := []\<rparr>)"
  by (simp add: read_full_def)

lemma conn_write_ok [run]:
  "c_budget c = None \<Longrightarrow> conn_write p c = (Inr (), c\<lparr>c_out := c_out c @ [p]\<rparr>)"
  by (simp add: conn_write_def)

lemma conn_write_fails [run]: "c_budget c = Some 0 \<Longrightarrow> conn_write p c = (Inl WriteFailed, c)"
  by (simp add: conn_write_def)

lemma conn_unchanged: "c_in c = x \<Longrightarrow> c\<lparr>c_in := x\<rparr> = c"
  by (cases c) simp

text \<open>All the bytes written so far, whatever the \<open>Write\<close> calls they came in.\<close>

definition out_bytes :: "'z conn_scheme \<Rightarrow> byte list" where
  "out_bytes c = concat (c_out c)"

subsection \<open>Little-endian integers\<close>

text \<open>\<open>binary.LittleEndian\<close>: the \<open>n\<close> low bytes of \<open>x\<close>, and the number that bytes encode.\<close>

fun le_bytes :: "nat \<Rightarrow> int \<Rightarrow> byte list" where
  "le_bytes 0 x = []"
| "le_bytes (Suc n) x = word_of_int x # le_bytes n (x div 256)"

fun le_val :: "byte list \<Rightarrow> int" where
  "le_val [] = 0"
| "le_val (b # bs) = uint b + 256 * le_val bs"

lemma length_le_bytes [simp]: "length (le_bytes n x) = n"
  by (induction n arbitrary: x) auto

lemma le_val_le_bytes: "le_val (le_bytes n x) = x mod 256 ^ n"
proof (induction n arbitrary: x)
  case 0
  then show ?case by simp
next
  case (Suc n)
  have "x mod (256 * 256 ^ n) = 256 * (x div 256 mod 256 ^ n) + x mod 256"
    by (rule zmod_zmult2_eq) simp
  then show ?case
    by (simp add: Suc uint_word_of_int)
qed

lemma le_val_nonneg: "0 \<le> le_val bs"
  by (induction bs) simp_all

lemma le_val_less: "le_val bs < 256 ^ length bs"
proof (induction bs)
  case (Cons b bs)
  have "uint b < 256" using unsigned_less [of b, where 'a = int] by simp
  with Cons show ?case by simp
qed simp

lemma word_of_int_add_mult_256: "(word_of_int (uint (b :: byte) + 256 * y) :: byte) = b"
proof -
  have "(word_of_int (uint b + 256 * y) :: byte) = word_of_int (uint b)"
    by (simp only: word_of_int_eq_iff take_bit_eq_mod) simp
  then show ?thesis by simp
qed

lemma le_bytes_le_val: "le_bytes (length bs) (le_val bs) = bs"
proof (induction bs)
  case (Cons b bs)
  have "0 \<le> uint b" "uint b < 256" using unsigned_less [of b, where 'a = int] by simp_all
  then have "(uint b + 256 * le_val bs) div 256 = le_val bs" by simp
  with Cons show ?case by (simp add: word_of_int_add_mult_256 del: of_int_add of_int_mult)
qed simp

lemma i32_le_val_le_bytes [simp]: "i32 (le_val (le_bytes 4 x)) = i32 x"
  using i32_mod [of x] by (simp add: le_val_le_bytes)

lemma i64_le_val_le_bytes [simp]: "i64 (le_val (le_bytes 8 x)) = i64 x"
  using i64_mod [of x] by (simp add: le_val_le_bytes)

subsection \<open>The typed reads and writes of \<open>Conn\<close>\<close>

definition write_byte :: "byte \<Rightarrow> (unit, 'z conn_scheme) act" where
  "write_byte data = conn_write [data]"

definition write_int32 :: "int \<Rightarrow> (unit, 'z conn_scheme) act" where
  "write_int32 data = conn_write (le_bytes 4 data)"

definition write_int64 :: "int \<Rightarrow> (unit, 'z conn_scheme) act" where
  "write_int64 data =
     (if data \<le> 0x7FFFFFFF \<and> 0 \<le> data then write_int32 (i32 data)
      else bnd (write_int32 (-1)) (\<lambda>_. conn_write (le_bytes 8 data)))"

definition write_string :: "string \<Rightarrow> (unit, 'z conn_scheme) act" where
  "write_string data = conn_write (bytes_of_string data)"

definition read_byte :: "(byte, 'z conn_scheme) act" where
  "read_byte = bnd (read_full 1) (\<lambda>buf. ret (hd buf))"

definition read_int32 :: "(int, 'z conn_scheme) act" where
  "read_int32 = bnd (read_full 4) (\<lambda>buf. ret (i32 (le_val buf)))"

definition read_int64 :: "(int, 'z conn_scheme) act" where
  "read_int64 =
     bnd read_int32 (\<lambda>data.
       if data \<noteq> -1 then ret data
       else bnd (read_full 8) (\<lambda>buf. ret (i64 (le_val buf))))"

lemma reads_read_byte [reads_intro]: "reads read_byte"
  unfolding read_byte_def by (intro reads_intro)

lemma reads_read_int32 [reads_intro]: "reads read_int32"
  unfolding read_int32_def by (intro reads_intro)

lemma reads_read_int64 [reads_intro]: "reads read_int64"
  unfolding read_int64_def by (intro reads_intro)

lemma read_byte_Cons [run]: "c_in c = b # r \<Longrightarrow> read_byte c = (Inr b, c\<lparr>c_in := r\<rparr>)"
  by (simp add: read_byte_def bnd_def read_full_def ret_def)

lemma read_byte_Inr: "read_byte c = (Inr b, c') \<longleftrightarrow> c_in c = b # c_in c' \<and> c' = c\<lparr>c_in := c_in c'\<rparr>"
  by (cases "c_in c") (auto simp: read_byte_def bnd_eq_Inr read_full_Inr ret_def)

lemma read_int32_Inr:
  "read_int32 c = (Inr x, c') \<longleftrightarrow>
     4 \<le> length (c_in c) \<and> x = i32 (le_val (take 4 (c_in c))) \<and> c' = c\<lparr>c_in := drop 4 (c_in c)\<rparr>"
  by (auto simp: read_int32_def bnd_eq_Inr read_full_Inr ret_def)

lemma read_int32_is_i32: "read_int32 c = (Inr x, c') \<Longrightarrow> is_i32 x"
  by (auto simp: read_int32_Inr)

lemma read_int32_shorter: "read_int32 c = (Inr x, c') \<Longrightarrow> length (c_in c') < length (c_in c)"
  by (auto simp: read_int32_Inr)

lemma read_int32_le_bytes [run]:
  "c_in c = le_bytes 4 x @ r \<Longrightarrow> read_int32 c = (Inr (i32 x), c\<lparr>c_in := r\<rparr>)"
  unfolding read_int32_def by (subst bnd_Inr [OF read_full_append]) (auto simp: run)

text \<open>The same with the input in the state, for a sequence of reads.\<close>

lemma read_int32_next:
  "is_i32 x \<Longrightarrow> read_int32 (c\<lparr>c_in := le_bytes 4 x @ r\<rparr>) = (Inr x, c\<lparr>c_in := r\<rparr>)"
  by (subst read_int32_le_bytes) auto

lemma read_full_next:
  "length bs = n \<Longrightarrow> read_full n (c\<lparr>c_in := bs @ r\<rparr>) = (Inr bs, c\<lparr>c_in := r\<rparr>)"
  by (subst read_full_append) auto

lemma read_int32_short:
  "length (c_in c) < 4 \<Longrightarrow>
     read_int32 c = (Inl (if c_in c = [] then EOF else UnexpectedEOF), c\<lparr>c_in := []\<rparr>)"
  by (simp add: read_int32_def run)

lemma write_int32_ok [run]:
  "c_budget c = None \<Longrightarrow> write_int32 x c = (Inr (), c\<lparr>c_out := c_out c @ [le_bytes 4 x]\<rparr>)"
  by (simp add: write_int32_def run)

lemma write_byte_ok [run]:
  "c_budget c = None \<Longrightarrow> write_byte b c = (Inr (), c\<lparr>c_out := c_out c @ [[b]]\<rparr>)"
  by (simp add: write_byte_def run)

lemma write_string_ok [run]:
  "c_budget c = None \<Longrightarrow> write_string s c = (Inr (), c\<lparr>c_out := c_out c @ [bytes_of_string s]\<rparr>)"
  by (simp add: write_string_def run)

lemma safe_read_full [safe_intro]: "safe (read_full n)"
  by (auto simp: safe_def read_full_def)

lemma safe_conn_write [safe_intro]: "safe (conn_write p)"
  by (auto simp: safe_def conn_write_def)

lemma safe_typed [safe_intro]:
  "safe read_byte" "safe read_int32" "safe read_int64"
  "safe (write_byte b)" "safe (write_int32 x)" "safe (write_int64 x)" "safe (write_string s)"
  unfolding read_byte_def read_int32_def read_int64_def
    write_byte_def write_int32_def write_int64_def write_string_def
  by (intro safe_intro)+

text \<open>The bytes of an \<open>int64\<close> on the wire, as \<open>Buffer.WriteInt64\<close> appends them, too.\<close>

definition int64_bytes :: "int \<Rightarrow> byte list" where
  "int64_bytes data =
     (if data \<le> 0x7FFFFFFF \<and> 0 \<le> data then le_bytes 4 (i32 data)
      else le_bytes 4 (-1) @ le_bytes 8 data)"

lemma write_int64_out:
  "c_budget c = None \<Longrightarrow> out_bytes (snd (write_int64 x c)) = out_bytes c @ int64_bytes x"
  by (simp add: write_int64_def int64_bytes_def run out_bytes_def)

lemma is_i32_small: "x \<le> 0x7FFFFFFF \<Longrightarrow> 0 \<le> x \<Longrightarrow> is_i32 x"
  by (simp add: is_i32_def)

lemma read_int64_bytes [run]:
  assumes "is_i64 x" "c_in c = int64_bytes x @ r"
  shows "read_int64 c = (Inr x, c\<lparr>c_in := r\<rparr>)"
proof (cases "x \<le> 0x7FFFFFFF \<and> 0 \<le> x")
  case True
  with assms(2) have "read_int32 c = (Inr x, c\<lparr>c_in := r\<rparr>)"
    by (simp add: int64_bytes_def is_i32_small run)
  with True show ?thesis by (simp add: read_int64_def run)
next
  case False
  have i: "i32 (-1) = -1" by (simp add: is_i32_def)
  from False assms(2) have "read_int32 c = (Inr (-1), c\<lparr>c_in := le_bytes 8 x @ r\<rparr>)"
    by (subst read_int32_le_bytes) (auto simp: int64_bytes_def i)
  with assms(1) show ?thesis
    by (simp add: read_int64_def run read_full_append [where bs = "le_bytes 8 x" and r = r])
qed

subsection \<open>\<open>Buffer\<close>: a message collected before one \<open>Write\<close>\<close>

text \<open>\<open>bytes.Buffer\<close> never fails; its state is the bytes written into it.\<close>

definition buf_write_byte :: "byte \<Rightarrow> byte list \<Rightarrow> byte list" where
  "buf_write_byte data b = b @ [data]"

definition buf_write_int32 :: "int \<Rightarrow> byte list \<Rightarrow> byte list" where
  "buf_write_int32 data b = b @ le_bytes 4 data"

definition buf_write_int64 :: "int \<Rightarrow> byte list \<Rightarrow> byte list" where
  "buf_write_int64 data b =
     (if data \<le> 0x7FFFFFFF \<and> 0 \<le> data then buf_write_int32 (i32 data) b
      else buf_write_int32 (-1) b @ le_bytes 8 data)"

definition buf_write_string :: "string \<Rightarrow> byte list \<Rightarrow> byte list" where
  "buf_write_string data b = b @ bytes_of_string data"

lemma buf_write_int64_bytes: "buf_write_int64 x b = b @ int64_bytes x"
  by (simp add: buf_write_int64_def buf_write_int32_def int64_bytes_def)

lemmas buf_defs = buf_write_byte_def buf_write_int32_def buf_write_int64_bytes buf_write_string_def

subsection \<open>The contract of an encoding\<close>

text \<open>
  What a client of an encoding relies on: the decoder reads back a valid value from its
  bytes and leaves exactly what follows them.  Unique decodability and the decoding of a
  sequence follow once and for all.
\<close>

locale wire_codec =
  fixes enc :: "'a \<Rightarrow> byte list"
    and dec :: "('a, 'z conn_scheme) act"
    and valid :: "'a \<Rightarrow> bool"
  assumes dec_enc: "valid x \<Longrightarrow> c_in c = enc x @ r \<Longrightarrow> dec c = (Inr x, c\<lparr>c_in := r\<rparr>)"
begin

lemma enc_prefix_free:
  assumes "valid x" "valid y" "enc x @ r = enc y @ s"
  shows "x = y \<and> r = s"
proof -
  let ?c = "undefined\<lparr>c_in := enc x @ r\<rparr> :: 'z conn_scheme"
  have "dec ?c = (Inr x, ?c\<lparr>c_in := r\<rparr>)" by (rule dec_enc) (simp_all add: assms)
  moreover have "dec ?c = (Inr y, ?c\<lparr>c_in := s\<rparr>)" by (rule dec_enc) (simp_all add: assms)
  ultimately have "x = y" "?c\<lparr>c_in := r\<rparr> = ?c\<lparr>c_in := s\<rparr>" by simp_all
  from this(2) have "c_in (?c\<lparr>c_in := r\<rparr>) = c_in (?c\<lparr>c_in := s\<rparr>)" by (rule arg_cong)
  with \<open>x = y\<close> show ?thesis by simp
qed

lemma times_dec:
  assumes "\<forall>x \<in> set xs. valid x" "c_in c = concat (map enc xs) @ r" "n = length xs"
  shows "times n dec c = (Inr xs, c\<lparr>c_in := r\<rparr>)"
  using assms
proof (induction xs arbitrary: c n)
  case Nil
  then show ?case by (simp add: run)
next
  case (Cons x xs)
  let ?c = "c\<lparr>c_in := concat (map enc xs) @ r\<rparr>"
  have "dec c = (Inr x, ?c)" using Cons.prems by (intro dec_enc) simp_all
  moreover have "times (length xs) dec ?c = (Inr xs, ?c\<lparr>c_in := r\<rparr>)"
    by (rule Cons.IH) (use Cons.prems in simp_all)
  ultimately show ?case using Cons.prems(3) by (simp add: run)
qed

end

interpretation int32: wire_codec "le_bytes 4" read_int32 is_i32
  by unfold_locales (simp add: run)

interpretation int64: wire_codec int64_bytes read_int64 is_i64
  by unfold_locales (rule read_int64_bytes)

interpretation single_byte: wire_codec "\<lambda>b. [b]" read_byte "\<lambda>_. True"
  by unfold_locales (simp add: run)

subsection \<open>Multiplexing\<close>

definition MsgData :: byte where "MsgData = 0"
definition MsgErrorXfer :: byte where "MsgErrorXfer = 1"
definition MsgInfo :: byte where "MsgInfo = 2"
definition MsgError :: byte where "MsgError = 3"
definition MsgWarning :: byte where "MsgWarning = 4"
definition MsgErrorSocket :: byte where "MsgErrorSocket = 5"
definition MsgLog :: byte where "MsgLog = 6"
definition mplexBase :: byte where "mplexBase = 7"

lemmas msg_tags = MsgData_def MsgErrorXfer_def MsgInfo_def MsgError_def MsgWarning_def
  MsgErrorSocket_def MsgLog_def

definition maxMessageSize :: nat where "maxMessageSize = 256 * 1024"

definition mux_header :: "byte \<Rightarrow> nat \<Rightarrow> u32" where
  "mux_header tag len = push_bit 24 (ucast (mplexBase + tag)) OR word_of_nat len"

definition write_msg :: "byte \<Rightarrow> byte list \<Rightarrow> (unit, 'z conn_scheme) act" where
  "write_msg tag p =
     bnd (conn_write (le_bytes 4 (uint (mux_header tag (length p))))) (\<lambda>_. conn_write p)"

text \<open>\<open>MultiplexWriter.Write\<close>, the writer the server's connection is switched to.\<close>

definition mux_write :: "byte list \<Rightarrow> (unit, 'z conn_scheme) act" where
  "mux_write p = write_msg MsgData p"

definition read_msg :: "(byte \<times> byte list, 'z conn_scheme) act" where
  "read_msg =
     bnd (read_full 4) (\<lambda>headerBuf.
       let header = word_of_int (le_val headerBuf) :: u32;
           tag = ucast (drop_bit 24 header) - mplexBase;
           len = header AND 0x00FFFFFF
       in if unat len > maxMessageSize
          then throw (Errorf ''length %d exceeds max message size (%d)''
                        [FInt (uint len), FInt (int maxMessageSize)])
          else bnd (read_full (unat len)) (\<lambda>p. ret (tag, p)))"

text \<open>The reader's state: the connection, and what it logged when it has an environment.\<close>

record mux_conn = conn +
  m_env :: "string list option"

definition trim_newlines :: "string \<Rightarrow> string" where
  "trim_newlines s = rev (dropWhile (\<lambda>c. c = CHR 0x0A) (rev s))"

definition env_logf :: "string \<Rightarrow> string \<Rightarrow> (unit, mux_conn) act" where
  "env_logf prefix s = modify (\<lambda>c. c\<lparr>m_env := map_option (\<lambda>l. l @ [prefix @ s]) (m_env c)\<rparr>)"

definition mux_read :: "nat \<Rightarrow> (byte list, mux_conn) act" where
  "mux_read n =
     bnd read_msg (\<lambda>(tag, payload).
       if tag = MsgErrorXfer \<or> tag = MsgError \<or> tag = MsgWarning \<or> tag = MsgLog then
         bnd (env_logf ''rsync: '' (trim_newlines (string_of_bytes payload))) (\<lambda>_. ret [])
       else if tag = MsgInfo then
         bnd (env_logf ''info: '' (string_of_bytes payload)) (\<lambda>_. ret [])
       else if tag = MsgErrorSocket then
         throw (Errorf ''rsync socket error: %s''
                  [FStr (trim_newlines (string_of_bytes payload))])
       else if tag \<noteq> MsgData then
         throw (Errorf ''unexpected tag: got %v, want %v'' [FInt (uint tag), FInt 0])
       else if n < length payload then throw (Panic ''not enough buffer space!'')
       else ret payload)"

definition mux_frame :: "byte \<Rightarrow> byte list \<Rightarrow> byte list" where
  "mux_frame tag p = le_bytes 4 (uint (mux_header tag (length p))) @ p"

lemma write_msg_ok [run]:
  "c_budget c = None \<Longrightarrow> write_msg tag p c =
     (Inr (), c\<lparr>c_out := c_out c @ [le_bytes 4 (uint (mux_header tag (length p))), p]\<rparr>)"
  by (simp add: write_msg_def run)

lemma mux_header_length:
  assumes "len < 2 ^ 24"
  shows "mux_header tag len AND 0x00FFFFFF = word_of_nat len"
proof -
  have m: "(0x00FFFFFF :: u32) = mask 24" by (simp add: mask_eq_exp_minus_1)
  have "take_bit 24 (word_of_nat len :: u32) = word_of_nat len"
    using assms by (simp add: take_bit_word_eq_self unsigned_of_nat take_bit_nat_eq_self
        word_less_nat_alt flip: of_nat_take_bit)
  then show ?thesis
    by (simp add: mux_header_def m take_bit_or take_bit_push_bit flip: take_bit_eq_mask)
qed

lemma mux_header_tag:
  assumes "len < 2 ^ 24"
  shows "(ucast (drop_bit 24 (mux_header tag len)) :: byte) = mplexBase + tag"
proof -
  have "unat (word_of_nat len :: u32) = len"
    using assms by (simp add: unsigned_of_nat take_bit_nat_eq_self)
  then have "unat (drop_bit 24 (word_of_nat len :: u32)) = drop_bit 24 (take_bit 32 len)"
    by (simp only: unsigned_drop_bit_eq) simp
  also have "\<dots> = 0"
    using assms by (simp add: take_bit_nat_eq_self drop_bit_eq_div)
  finally have "unat (drop_bit 24 (word_of_nat len :: u32)) = 0" .
  then have "drop_bit 24 (word_of_nat len :: u32) = 0"
    by (simp add: unat_eq_0)
  moreover have "(ucast (drop_bit 24 (push_bit 24 (ucast b :: u32))) :: byte) = b" for b :: byte
    by (rule bit_word_eqI) (auto simp: bit_simps dest: bit_imp_le_length)
  ultimately show ?thesis
    by (simp add: mux_header_def drop_bit_or)
qed


lemma mux_header_value: "word_of_int (le_val (le_bytes 4 (uint (h :: u32)))) = h"
proof -
  have "uint h < 256 ^ 4" using unsigned_less [of h, where 'a = int] by simp
  then show ?thesis by (simp add: le_val_le_bytes)
qed

lemma read_msg_frame [run]:
  assumes "length p \<le> maxMessageSize" "c_in c = mux_frame tag p @ r"
  shows "read_msg c = (Inr (tag, p), c\<lparr>c_in := r\<rparr>)"
proof -
  let ?h = "mux_header tag (length p)"
  have len: "length p < 2 ^ 24" using assms(1) by (simp add: maxMessageSize_def)
  then have unat_len: "unat (word_of_nat (length p) :: u32) = length p"
    by (simp add: unsigned_of_nat take_bit_nat_eq_self)
  have "read_full 4 c = (Inr (le_bytes 4 (uint ?h)), c\<lparr>c_in := p @ r\<rparr>)"
    by (rule read_full_append) (simp_all add: assms(2) mux_frame_def)
  moreover have "read_full (length p) (c\<lparr>c_in := p @ r\<rparr>) = (Inr p, c\<lparr>c_in := r\<rparr>)"
    by (subst read_full_append) simp_all
  ultimately show ?thesis
    using assms(1)
    by (simp add: read_msg_def run Let_def mux_header_value mux_header_length [OF len]
        mux_header_tag [OF len] unat_len)
qed

interpretation mux_msg: wire_codec "\<lambda>(tag, p). mux_frame tag p" read_msg
    "\<lambda>(tag, p). length p \<le> maxMessageSize"
  by unfold_locales (auto intro: read_msg_frame)

lemma reads_read_msg [reads_intro]: "reads read_msg"
  unfolding read_msg_def Let_def by (intro reads_intro)

lemma read_msg_shorter: "read_msg c = (Inr x, c') \<Longrightarrow> length (c_in c') < length (c_in c)"
  by (auto simp: read_msg_def bnd_eq_Inr read_full_Inr Let_def ret_def throw_def split: if_splits)

lemma read_msg_size:
  "read_msg c = (Inr (tag, p), c') \<Longrightarrow> length p \<le> maxMessageSize"
  by (auto simp: read_msg_def bnd_eq_Inr read_full_Inr Let_def ret_def throw_def split: if_splits)

text \<open>
  Reading a frame never fails in any other way than the end of the stream or an announced
  length above the limit.
\<close>

lemma read_msg_error:
  "read_msg c = (Inl e, c') \<Longrightarrow> e = EOF \<or> e = UnexpectedEOF \<or> (\<exists>s as. e = Errorf s as)"
  by (auto simp: read_msg_def bnd_eq_Inl read_full_def Let_def ret_def throw_def split: if_splits)

lemma mux_read_shorter: "mux_read n c = (Inr d, c') \<Longrightarrow> length (c_in c') < length (c_in c)"
  by (auto simp: mux_read_def bnd_eq_Inr ret_def throw_def env_logf_def modify_def
      dest!: read_msg_shorter split: if_splits)

text \<open>
  The stream as \<open>bufio.Reader\<close> and \<open>io.ReadFull\<close> see it: \<open>Read\<close> is called again after an
  empty result, until it reports an error.
\<close>

function mux_drain :: "nat \<Rightarrow> mux_conn \<Rightarrow> byte list \<times> go_error \<times> mux_conn" where
  "mux_drain n c =
     (case mux_read n c of
        (Inl e, c') \<Rightarrow> ([], e, c')
      | (Inr d, c') \<Rightarrow> (case mux_drain n c' of (ds, e, c'') \<Rightarrow> (d @ ds, e, c'')))"
  by pat_completeness auto
termination
  by (relation "measure (\<lambda>(n, c). length (c_in c))") (auto dest!: mux_read_shorter [OF sym])

declare mux_drain.simps [simp del]

lemma mux_drain_Inr:
  "mux_read n c = (Inr d, c') \<Longrightarrow>
     mux_drain n c = (d @ fst (mux_drain n c'), snd (mux_drain n c'))"
  by (subst mux_drain.simps) (simp split: prod.split)

lemma mux_drain_Inl: "mux_read n c = (Inl e, c') \<Longrightarrow> mux_drain n c = ([], e, c')"
  by (subst mux_drain.simps) simp

definition log_line :: "byte \<Rightarrow> byte list \<Rightarrow> string" where
  "log_line tag p =
     (if tag = MsgInfo then ''info: '' @ string_of_bytes p
      else ''rsync: '' @ trim_newlines (string_of_bytes p))"

lemma mux_read_data [run]:
  "length p \<le> maxMessageSize \<Longrightarrow> length p \<le> n \<Longrightarrow> c_in c = mux_frame MsgData p @ r \<Longrightarrow>
     mux_read n c = (Inr p, c\<lparr>c_in := r\<rparr>)"
  by (simp add: mux_read_def run msg_tags)

lemma mux_read_log [run]:
  "length p \<le> maxMessageSize \<Longrightarrow> tag \<in> {MsgErrorXfer, MsgInfo, MsgError, MsgWarning, MsgLog} \<Longrightarrow>
     c_in c = mux_frame tag p @ r \<Longrightarrow>
     mux_read n c = (Inr [], c\<lparr>c_in := r,
                              m_env := map_option (\<lambda>l. l @ [log_line tag p]) (m_env c)\<rparr>)"
  by (auto simp: mux_read_def run msg_tags env_logf_def log_line_def)

lemma mux_drain_frames:
  assumes "\<forall>(tag, p) \<in> set msgs. length p \<le> maxMessageSize \<and>
             tag \<in> {MsgData, MsgErrorXfer, MsgInfo, MsgError, MsgWarning, MsgLog}"
    and "maxMessageSize \<le> n"
    and "c_in c = concat (map (\<lambda>(tag, p). mux_frame tag p) msgs)"
    and "m_env c = Some l"
  shows "mux_drain n c =
           (concat (map snd (filter (\<lambda>(tag, p). tag = MsgData) msgs)), EOF,
            c\<lparr>c_in := [],
              m_env := Some (l @ map (\<lambda>(tag, p). log_line tag p)
                                   (filter (\<lambda>(tag, p). tag \<noteq> MsgData) msgs))\<rparr>)"
  using assms
proof (induction msgs arbitrary: c l)
  case Nil
  have "read_msg c = (Inl EOF, c\<lparr>c_in := []\<rparr>)" using Nil.prems by (simp add: read_msg_def run)
  then have "mux_read n c = (Inl EOF, c\<lparr>c_in := []\<rparr>)" by (simp add: mux_read_def run)
  with Nil.prems show ?case by (simp add: mux_drain_Inl)
next
  case (Cons m msgs)
  obtain tag p where m: "m = (tag, p)" by (cases m)
  let ?r = "concat (map (\<lambda>(tag, p). mux_frame tag p) msgs)"
  show ?case
  proof (cases "tag = MsgData")
    case True
    then have "mux_read n c = (Inr p, c\<lparr>c_in := ?r\<rparr>)"
      using Cons.prems by (intro mux_read_data) (auto simp: m)
    moreover note Cons.IH [of "c\<lparr>c_in := ?r\<rparr>" l]
    ultimately show ?thesis using Cons.prems True by (simp add: mux_drain_Inr m)
  next
    case False
    let ?c = "c\<lparr>c_in := ?r, m_env := Some (l @ [log_line tag p])\<rparr>"
    have "mux_read n c = (Inr [], ?c)"
      using Cons.prems False by (subst mux_read_log [where tag = tag and p = p]) (auto simp: m)
    moreover note Cons.IH [of ?c "l @ [log_line tag p]"]
    ultimately show ?thesis using Cons.prems False by (simp add: mux_drain_Inr m)
  qed
qed

lemma write_msgs_out:
  "c_budget c = None \<Longrightarrow>
     out_bytes (snd (for_each (\<lambda>(tag, p). write_msg tag p) msgs c)) =
       out_bytes c @ concat (map (\<lambda>(tag, p). mux_frame tag p) msgs)"
  by (induction msgs arbitrary: c) (auto simp: run mux_frame_def out_bytes_def)

text \<open>
  C34: what the server multiplexes is what the client reads: draining the frames written by
  \<open>WriteMsg\<close> yields exactly the data payloads in order, then the end of the stream; every
  informational message is logged in order, and none of them aborts the transfer.
\<close>

theorem mux_roundtrip:
  assumes "\<forall>(tag, p) \<in> set msgs. length p \<le> maxMessageSize \<and>
             tag \<in> {MsgData, MsgErrorXfer, MsgInfo, MsgError, MsgWarning, MsgLog}"
    and "maxMessageSize \<le> n"
    and "c_budget w = None" "c_out w = []"
    and "c_in c = out_bytes (snd (for_each (\<lambda>(tag, p). write_msg tag p) msgs w))"
    and "m_env c = Some l"
  shows "mux_drain n c =
           (concat (map snd (filter (\<lambda>(tag, p). tag = MsgData) msgs)), EOF,
            c\<lparr>c_in := [],
              m_env := Some (l @ map (\<lambda>(tag, p). log_line tag p)
                                   (filter (\<lambda>(tag, p). tag \<noteq> MsgData) msgs))\<rparr>)"
proof (rule mux_drain_frames [OF assms(1,2) _ assms(6)])
  have "out_bytes w = []" by (simp add: out_bytes_def assms(4))
  then show "c_in c = concat (map (\<lambda>(tag, p). mux_frame tag p) msgs)"
    by (simp only: assms(5) write_msgs_out [OF assms(3)] append_Nil)
qed

text \<open>
  C36: whatever bytes a peer sends, \<open>MultiplexReader.Read\<close> into a buffer of the size the client
  allocates (at least the largest message) returns an error, never the buffer-size panic.
\<close>

theorem mux_read_never_panics:
  assumes "maxMessageSize \<le> n" and "mux_read n c = (Inl e, c')"
  shows "\<not> fatal e"
proof -
  have fatal_read: "read_msg c = (Inl e, s) \<Longrightarrow> \<not> fatal e" for s
    by (drule read_msg_error) auto
  show ?thesis
    using assms
    by (auto simp: mux_read_def bnd_eq_Inl ret_def throw_def env_logf_def modify_def fatal_read
        dest!: read_msg_size split: if_splits)
qed

definition mux_conn_of :: "byte list \<Rightarrow> mux_conn" where
  "mux_conn_of bs = \<lparr>c_in = bs, c_out = [], c_budget = None, m_env = Some []\<rparr>"

theorem mux_read_never_panics_witness:
  "\<exists>c'. mux_read maxMessageSize (mux_conn_of []) = (Inl EOF, c') \<and> \<not> fatal EOF"
proof -
  have "mux_read maxMessageSize (mux_conn_of []) = (Inl EOF, mux_conn_of [])"
    by (simp add: mux_read_def read_msg_def run mux_conn_of_def)
  from mux_read_never_panics [OF order_refl this] this show ?thesis by blast
qed

theorem mux_roundtrip_witness:
  "\<exists>c'. mux_drain maxMessageSize
      (mux_conn_of (out_bytes (snd (for_each (\<lambda>(tag, p). write_msg tag p)
        [(MsgData, [1, 2]), (MsgErrorXfer, [0x68, 0x0A]), (MsgData, [3])] (mux_conn_of [])))))
    = ([1, 2, 3], EOF, c') \<and> m_env c' = Some [''rsync: h'']"
proof -
  let ?msgs = "[(MsgData, [1, 2]), (MsgErrorXfer, [0x68, 0x0A]), (MsgData, [3])] :: (byte \<times> byte list) list"
  let ?c = "mux_conn_of (out_bytes (snd (for_each (\<lambda>(tag, p). write_msg tag p) ?msgs (mux_conn_of []))))"
  have *: "MsgErrorXfer \<noteq> MsgData" "log_line MsgErrorXfer [0x68, 0x0A] = ''rsync: h''"
    by (simp_all add: msg_tags log_line_def) code_simp
  have "mux_drain maxMessageSize ?c =
           (concat (map snd (filter (\<lambda>(tag, p). tag = MsgData) ?msgs)), EOF,
            ?c\<lparr>c_in := [], m_env := Some ([] @ map (\<lambda>(tag, p). log_line tag p)
                                   (filter (\<lambda>(tag, p). tag \<noteq> MsgData) ?msgs))\<rparr>)"
    by (rule mux_roundtrip [where w = "mux_conn_of []"]) (simp_all add: mux_conn_of_def maxMessageSize_def)
  then show ?thesis by (simp add: *)
qed

subsection \<open>Byte counters\<close>

record counted = conn +
  BytesRead :: int
  BytesWritten :: int

definition counting_read :: "('a, 'z counted_scheme) act \<Rightarrow> ('a, 'z counted_scheme) act" where
  "counting_read m s =
     (case m s of (r, s') \<Rightarrow>
        (r, s'\<lparr>BytesRead := i64 (BytesRead s + (int (length (c_in s)) - int (length (c_in s'))))\<rparr>))"

definition counting_write :: "byte list \<Rightarrow> (unit, 'z counted_scheme) act" where
  "counting_write p s =
     (case conn_write p s of
        (Inl e, s') \<Rightarrow> (Inl e, s')
      | (Inr _, s') \<Rightarrow> (Inr (), s'\<lparr>BytesWritten := i64 (BytesWritten s + int (length p))\<rparr>))"

definition counter_pair :: "byte list \<Rightarrow> nat option \<Rightarrow> counted" where
  "counter_pair r b = \<lparr>c_in = r, c_out = [], c_budget = b, BytesRead = 0, BytesWritten = 0\<rparr>"

text \<open>The counter agrees with what has been written, however many calls it took.\<close>

definition count_ok :: "'z counted_scheme \<Rightarrow> bool" where
  "count_ok s \<longleftrightarrow> BytesWritten s = i64 (int (length (out_bytes s)))"

lemma i64_add: "i64 (i64 x + y) = i64 (x + y)"
proof -
  have "i64 (i64 x + y) = i64 ((i64 x + y) mod 2 ^ 64)" by (simp only: i64_mod)
  also have "(i64 x + y) mod 2 ^ 64 = (i64 x mod 2 ^ 64 + y) mod 2 ^ 64" by (simp only: mod_add_left_eq)
  also have "i64 x mod 2 ^ 64 = x mod 2 ^ 64"
    unfolding i64_def take_bit_eq_mod [symmetric] by (simp add: take_bit_signed_take_bit)
  also have "i64 ((x mod 2 ^ 64 + y) mod 2 ^ 64) = i64 (x + y)" by (simp only: mod_add_left_eq i64_mod)
  finally show ?thesis .
qed

lemma counting_write_count_ok: "count_ok s \<Longrightarrow> count_ok (snd (counting_write p s))"
  by (auto simp: counting_write_def conn_write_def count_ok_def out_bytes_def i64_add)

end
