(* ===== verification/Varint.thy ===== *)
theory Varint
  imports Wire
begin

text \<open>
  \<open>internal/rsyncwire/varint.go\<close>: the variable-length integers of protocol 30 and later, and
  the timestamps built from them.  The first byte announces in its leading ones how many
  bytes follow; the rest is big-endian.
\<close>

definition varint_class :: "byte \<Rightarrow> nat \<times> byte" where
  "varint_class first =
     (if first AND 0xc0 = 0x80 then (1, 0x3f)
      else if first AND 0xe0 = 0xc0 then (2, 0x1f)
      else if first AND 0xf0 = 0xe0 then (3, 0x0f)
      else if first AND 0xf8 = 0xf0 then (4, 0x07)
      else if first AND 0xfc = 0xf8 then (5, 0x03)
      else if first AND 0xfe = 0xfc then (6, 0x01)
      else if first = 0xfe then (7, 0x00)
      else (8, 0x00))"

definition varint_shift :: "int \<Rightarrow> byte \<Rightarrow> int" where
  "varint_shift val b = i64 (push_bit 8 val OR uint b)"

definition read_varint :: "(int, 'z conn_scheme) act" where
  "read_varint =
     bnd (read_full 1) (\<lambda>b.
       let first = hd b in
       if first < 0x80 then ret (uint first)
       else case varint_class first of (cnt, msk) \<Rightarrow>
         bnd (read_full cnt) (\<lambda>buf. ret (foldl varint_shift (uint (first AND msk)) buf)))"

definition varint_bytes :: "int \<Rightarrow> byte list" where
  "varint_bytes val =
     (if val < 2 ^ 7 then [word_of_int val]
      else if val < 2 ^ 14 then
        [word_of_int (0x80 OR drop_bit 8 val), word_of_int (val AND 0xff)]
      else if val < 2 ^ 21 then
        [word_of_int (0xc0 OR drop_bit 16 val), word_of_int (drop_bit 8 val AND 0xff),
         word_of_int (val AND 0xff)]
      else if val < 2 ^ 28 then
        [word_of_int (0xe0 OR drop_bit 24 val), word_of_int (drop_bit 16 val AND 0xff),
         word_of_int (drop_bit 8 val AND 0xff), word_of_int (val AND 0xff)]
      else if val < 2 ^ 35 then
        [word_of_int (0xf0 OR drop_bit 32 val), word_of_int (drop_bit 24 val AND 0xff),
         word_of_int (drop_bit 16 val AND 0xff), word_of_int (drop_bit 8 val AND 0xff),
         word_of_int (val AND 0xff)]
      else if val < 2 ^ 42 then
        [word_of_int (0xf8 OR drop_bit 40 val), word_of_int (drop_bit 32 val AND 0xff),
         word_of_int (drop_bit 24 val AND 0xff), word_of_int (drop_bit 16 val AND 0xff),
         word_of_int (drop_bit 8 val AND 0xff), word_of_int (val AND 0xff)]
      else if val < 2 ^ 49 then
        [word_of_int (0xfc OR drop_bit 48 val), word_of_int (drop_bit 40 val AND 0xff),
         word_of_int (drop_bit 32 val AND 0xff), word_of_int (drop_bit 24 val AND 0xff),
         word_of_int (drop_bit 16 val AND 0xff), word_of_int (drop_bit 8 val AND 0xff),
         word_of_int (val AND 0xff)]
      else if val < 2 ^ 56 then
        [word_of_int (0xfe OR drop_bit 56 val), word_of_int (drop_bit 48 val AND 0xff),
         word_of_int (drop_bit 40 val AND 0xff), word_of_int (drop_bit 32 val AND 0xff),
         word_of_int (drop_bit 24 val AND 0xff), word_of_int (drop_bit 16 val AND 0xff),
         word_of_int (drop_bit 8 val AND 0xff), word_of_int (val AND 0xff)]
      else
        0xff # rev (le_bytes 8 val))"

definition write_varint :: "int \<Rightarrow> (unit, 'z conn_scheme) act" where
  "write_varint val =
     (if val < 0 then throw (Errorf ''negative varint not supported: %d'' [FInt val])
      else conn_write (varint_bytes val))"

definition read_varint32 :: "(int, 'z conn_scheme) act" where
  "read_varint32 = bnd read_varint (\<lambda>val. ret (i32 val))"

definition write_varint32 :: "int \<Rightarrow> (unit, 'z conn_scheme) act" where
  "write_varint32 val = write_varint val"

subsection \<open>Decoding what was encoded\<close>

lemma push_bit_8_or: "0 \<le> u \<Longrightarrow> u < 256 \<Longrightarrow> push_bit 8 v OR u = v * 256 + (u :: int)"
proof -
  assume u: "0 \<le> u" "u < 256"
  then have t: "take_bit 8 u = u" by (simp add: take_bit_int_eq_self)
  have "push_bit 8 v AND u = push_bit 8 v AND take_bit 8 u" by (simp only: t)
  also have "\<dots> = 0" by (rule bit_eqI) (simp add: bit_simps)
  finally have "push_bit 8 v + u = push_bit 8 v OR u" by (rule disjunctive_add_eq_or)
  then show ?thesis by (simp add: push_bit_eq_mult)
qed

lemma uint_low_byte: "uint (word_of_int (x AND 255) :: byte) = x mod 256"
proof -
  have "x AND 255 = take_bit 8 x" by (simp add: take_bit_eq_mask mask_eq_exp_minus_1)
  then show ?thesis unfolding uint_word_of_int take_bit_eq_mod by simp
qed

lemma uint_word_byte: "uint (word_of_int x :: byte) = x mod 256"
  by (simp add: uint_word_of_int)

lemma is_i64_between: "0 \<le> x \<Longrightarrow> x \<le> val \<Longrightarrow> val < 2 ^ 63 \<Longrightarrow> is_i64 x"
  by (simp add: is_i64_def)

lemma drop_bit_is_i64: "0 \<le> val \<Longrightarrow> val < 2 ^ 63 \<Longrightarrow> is_i64 (drop_bit n val)"
proof -
  assume v: "0 \<le> val" "val < 2 ^ 63"
  have "drop_bit n val \<le> val"
    using v int_div_less_self [of val "2 ^ n"]
    by (cases "val = 0 \<or> n = 0") (auto simp: drop_bit_eq_div intro: order_less_imp_le)
  with v show ?thesis by (intro is_i64_between) (simp_all add: drop_bit_eq_div pos_imp_zdiv_nonneg_iff)
qed

lemma varint_shift_step:
  assumes "0 \<le> val" "val < 2 ^ 63"
  shows "varint_shift (drop_bit (n + 8) val) (word_of_int (drop_bit n val AND 255)) = drop_bit n val"
    and "varint_shift (drop_bit (n + 8) val) (word_of_int (drop_bit n val)) = drop_bit n val"
proof -
  have "drop_bit (n + 8) val * 256 + drop_bit n val mod 256 = drop_bit n val"
    by (simp add: drop_bit_eq_div power_add div_mult2_eq zdiv_zmult2_eq)
  then have "i64 (push_bit 8 (drop_bit (n + 8) val) OR drop_bit n val mod 256) = drop_bit n val"
    using drop_bit_is_i64 [OF assms] by (simp add: push_bit_8_or)
  then show "varint_shift (drop_bit (n + 8) val) (word_of_int (drop_bit n val AND 255)) = drop_bit n val"
    and "varint_shift (drop_bit (n + 8) val) (word_of_int (drop_bit n val)) = drop_bit n val"
    unfolding varint_shift_def by (simp_all only: uint_low_byte) (simp only: uint_word_byte)
qed

text \<open>The first byte of each class, checked for every value of its payload bits.\<close>

definition head_ok :: "byte \<Rightarrow> byte \<Rightarrow> nat \<Rightarrow> int \<Rightarrow> bool" where
  "head_ok tag msk cnt h \<longleftrightarrow>
     (let b = word_of_int (uint tag OR h) :: byte in
      \<not> b < 0x80 \<and> varint_class b = (cnt, msk) \<and> uint (b AND msk) = h)"

lemma head_ok_all:
  "\<forall>h \<in> {0..<64}. head_ok 0x80 0x3f 1 h"
  "\<forall>h \<in> {0..<32}. head_ok 0xc0 0x1f 2 h"
  "\<forall>h \<in> {0..<16}. head_ok 0xe0 0x0f 3 h"
  "\<forall>h \<in> {0..<8}. head_ok 0xf0 0x07 4 h"
  "\<forall>h \<in> {0..<4}. head_ok 0xf8 0x03 5 h"
  "\<forall>h \<in> {0..<2}. head_ok 0xfc 0x01 6 h"
  by code_simp+

lemma head_ok:
  "0 \<le> h \<Longrightarrow> h < 64 \<Longrightarrow> head_ok 0x80 0x3f 1 h"
  "0 \<le> h \<Longrightarrow> h < 32 \<Longrightarrow> head_ok 0xc0 0x1f 2 h"
  "0 \<le> h \<Longrightarrow> h < 16 \<Longrightarrow> head_ok 0xe0 0x0f 3 h"
  "0 \<le> h \<Longrightarrow> h < 8 \<Longrightarrow> head_ok 0xf0 0x07 4 h"
  "0 \<le> h \<Longrightarrow> h < 4 \<Longrightarrow> head_ok 0xf8 0x03 5 h"
  "0 \<le> h \<Longrightarrow> h < 2 \<Longrightarrow> head_ok 0xfc 0x01 6 h"
  using head_ok_all by (meson atLeastLessThan_iff)+

definition low_bytes :: "nat list \<Rightarrow> int \<Rightarrow> byte list" where
  [simp]: "low_bytes ns val = map (\<lambda>n. word_of_int (drop_bit n val AND 255)) ns"

lemma head_ok_full: "head_ok 0xfe 0 7 0" "head_ok 0xff 0 8 0"
  by code_simp+

lemma read_varint_head:
  assumes "head_ok tag msk cnt h" and "c_in c = word_of_int (uint tag OR h) # buf @ r"
    and "length buf = cnt" and "foldl varint_shift h buf = val"
  shows "read_varint c = (Inr val, c\<lparr>c_in := r\<rparr>)"
proof -
  let ?c = "c\<lparr>c_in := buf @ r\<rparr>"
  have "read_full 1 c = (Inr [word_of_int (uint tag OR h)], ?c)"
    using assms(2) by (intro read_full_append) simp_all
  moreover have "read_full cnt ?c = (Inr buf, ?c\<lparr>c_in := r\<rparr>)"
    using assms(3) by (intro read_full_append) simp_all
  ultimately show ?thesis
    using assms(1,4) by (simp add: read_varint_def run head_ok_def Let_def)
qed

lemma drop_bit_bounds:
  assumes "0 \<le> val" "val < 2 ^ (n + k)"
  shows "0 \<le> drop_bit n val" and "drop_bit n val < (2 ^ k :: int)"
proof -
  show "0 \<le> drop_bit n val" using assms(1) by simp
  have "drop_bit n val * 2 ^ n \<le> val"
    using div_mult_mod_eq [of val "2 ^ n"] pos_mod_sign [of "2 ^ n" val, OF zero_less_power [of 2 n]]
    unfolding drop_bit_eq_div by linarith
  also have "val < 2 ^ k * 2 ^ n" using assms(2) by (simp only: power_add mult.commute)
  finally have "drop_bit n val * 2 ^ n < 2 ^ k * 2 ^ n" .
  then show "drop_bit n val < 2 ^ k" by (rule mult_right_less_imp_less) simp
qed

lemma rev_le_bytes_8:
  "rev (le_bytes 8 val) = map (\<lambda>n. word_of_int (drop_bit n val)) [56, 48, 40, 32, 24, 16, 8, 0]"
  by (simp add: eval_nat_numeral drop_bit_eq_div flip: zdiv_zmult2_eq)

lemma read_varint_bytes [run]:
  assumes "0 \<le> val" "val < 2 ^ 63" "c_in c = varint_bytes val @ r"
  shows "read_varint c = (Inr val, c\<lparr>c_in := r\<rparr>)"
proof -
  have step [simp]: "varint_shift (drop_bit m val) (word_of_int (drop_bit n val AND 255)) = drop_bit n val"
      "varint_shift (drop_bit m val) (word_of_int (drop_bit n val)) = drop_bit n val"
    if "m = n + 8" for m n
    using varint_shift_step [OF assms(1,2), of n] that by simp_all
  have step0 [simp]: "varint_shift (drop_bit 8 val) (word_of_int (val AND 255)) = val"
      "varint_shift (drop_bit 8 val) (word_of_int val) = val"
    using step [of 8 0] by simp_all
  note h = drop_bit_bounds [OF assms(1)]
  consider "val < 2 ^ 7" | "\<not> val < 2 ^ 7" "val < 2 ^ 14" | "\<not> val < 2 ^ 14" "val < 2 ^ 21"
    | "\<not> val < 2 ^ 21" "val < 2 ^ 28" | "\<not> val < 2 ^ 28" "val < 2 ^ 35"
    | "\<not> val < 2 ^ 35" "val < 2 ^ 42" | "\<not> val < 2 ^ 42" "val < 2 ^ 49"
    | "\<not> val < 2 ^ 49" "val < 2 ^ 56" | "\<not> val < 2 ^ 56"
    by blast
  then show ?thesis
  proof cases
    case 1
    then have "read_full 1 c = (Inr [word_of_int val], c\<lparr>c_in := r\<rparr>)"
      using assms(3) by (intro read_full_append) (simp_all add: varint_bytes_def)
    moreover have "uint (word_of_int val :: byte) = val"
      using 1 assms(1) by (simp add: uint_word_byte)
    ultimately show ?thesis
      using 1 by (simp add: read_varint_def run word_less_def)
  next
    case 2
    then show ?thesis using assms(1,3) h(2) [of 8 6]
      by (intro read_varint_head [OF head_ok(1), where buf = "low_bytes [0] val"])
        (simp_all add: varint_bytes_def, (simp only: step0 step)?)
  next
    case 3
    then show ?thesis using assms(1,3) h(2) [of 16 5]
      by (intro read_varint_head [OF head_ok(2), where buf = "low_bytes [8, 0] val"])
        (simp_all add: varint_bytes_def, (simp only: step0 step)?)
  next
    case 4
    then show ?thesis using assms(1,3) h(2) [of 24 4]
      by (intro read_varint_head [OF head_ok(3), where buf = "low_bytes [16, 8, 0] val"])
        (simp_all add: varint_bytes_def, (simp only: step0 step)?)
  next
    case 5
    then show ?thesis using assms(1,3) h(2) [of 32 3]
      by (intro read_varint_head [OF head_ok(4), where buf = "low_bytes [24, 16, 8, 0] val"])
        (simp_all add: varint_bytes_def, (simp only: step0 step)?)
  next
    case 6
    then show ?thesis using assms(1,3) h(2) [of 40 2]
      by (intro read_varint_head [OF head_ok(5), where buf = "low_bytes [32, 24, 16, 8, 0] val"])
        (simp_all add: varint_bytes_def, (simp only: step0 step)?)
  next
    case 7
    then show ?thesis using assms(1,3) h(2) [of 48 1]
      by (intro read_varint_head [OF head_ok(6), where buf = "low_bytes [40, 32, 24, 16, 8, 0] val"])
        (simp_all add: varint_bytes_def, (simp only: step0 step)?)
  next
    case 8
    then have top: "drop_bit 56 val = 0" using assms(1) by (simp add: drop_bit_eq_div)
    then have "varint_shift 0 (word_of_int (drop_bit 48 val AND 255)) = drop_bit 48 val"
      using step(1) [of 56 48] by simp
    then show ?thesis using assms(3) 8 top
      by (intro read_varint_head [OF head_ok_full(1), where buf = "low_bytes [48, 40, 32, 24, 16, 8, 0] val"])
        (simp_all add: varint_bytes_def, (simp only: step0 step)?)
  next
    case 9
    have "drop_bit 56 val < 256" "0 \<le> drop_bit 56 val"
      using h [of 56 7] assms(1,2) by simp_all
    then have "varint_shift 0 (word_of_int (drop_bit 56 val)) = drop_bit 56 val"
      using drop_bit_is_i64 [OF assms(1,2), of 56]
      by (simp add: varint_shift_def uint_word_byte)
    then show ?thesis using assms(3) 9
      by (intro read_varint_head [OF head_ok_full(2), where buf = "rev (le_bytes 8 val)"])
        (simp_all add: varint_bytes_def rev_le_bytes_8)
  qed
qed


lemma reads_read_varint [reads_intro]: "reads read_varint"
  unfolding read_varint_def Let_def case_prod_unfold by (intro reads_intro)

interpretation varint: wire_codec varint_bytes read_varint "\<lambda>val. 0 \<le> val \<and> val < 2 ^ 63"
  by unfold_locales (simp add: read_varint_bytes)

lemma stable_read_varint [stable_intro]: "stable read_varint"
  unfolding read_varint_def Let_def case_prod_unfold by (intro stable_intro)

lemma read_varint_error:
  "read_varint c = (Inl e, c') \<Longrightarrow> e = EOF \<or> e = UnexpectedEOF"
  by (auto simp: read_varint_def bnd_eq_Inl read_full_def Let_def ret_def split: if_splits prod.splits)

lemma varint_length: "length (varint_bytes val) \<le> 9"
  by (simp add: varint_bytes_def)

text \<open>
  C35: every non-negative \<open>int64\<close> that \<open>WriteVarInt\<close> encodes, \<open>ReadVarInt\<close> decodes to the same
  number, consuming exactly the bytes written (at most nine); a negative one is refused before
  anything is written.
\<close>

theorem varint_roundtrip:
  assumes "c_budget w = None" "c_out w = []" "is_i64 val"
    and "c_in c = out_bytes (snd (write_varint val w)) @ r"
  shows "(0 \<le> val \<longrightarrow> read_varint c = (Inr val, c\<lparr>c_in := r\<rparr>) \<and> length (c_in c) \<le> length r + 9) \<and>
    (val < 0 \<longrightarrow> write_varint val w = (Inl (Errorf ''negative varint not supported: %d'' [FInt val]), w))"
proof (intro conjI impI)
  assume v: "0 \<le> val"
  have w: "c_in c = varint_bytes val @ r"
    using v assms by (simp add: write_varint_def run out_bytes_def)
  then show "read_varint c = (Inr val, c\<lparr>c_in := r\<rparr>)"
    using v assms(3) by (intro read_varint_bytes) (simp_all add: is_i64_def)
  show "length (c_in c) \<le> length r + 9"
    using varint_length [of val] by (simp add: w)
qed (simp add: write_varint_def run)

theorem varint_roundtrip_witness:
  "read_varint (mux_conn_of (out_bytes (snd (write_varint 300 (mux_conn_of []))) @ [7]))
     = (Inr 300, mux_conn_of [7])"
proof -
  let ?c = "mux_conn_of (out_bytes (snd (write_varint 300 (mux_conn_of []))) @ [7])"
  have "(0 \<le> (300::int) \<longrightarrow> read_varint ?c = (Inr 300, ?c\<lparr>c_in := [7]\<rparr>) \<and> length (c_in ?c) \<le> length [7::byte] + 9) \<and>
    ((300::int) < 0 \<longrightarrow> write_varint 300 (mux_conn_of []) =
       (Inl (Errorf ''negative varint not supported: %d'' [FInt 300]), mux_conn_of []))"
    by (rule varint_roundtrip) (simp_all add: mux_conn_of_def is_i64_def)
  then show ?thesis by (simp add: mux_conn_of_def)
qed

subsection \<open>Timestamps\<close>

text \<open>
  A \<open>time.Time\<close> is its Unix seconds and the nanoseconds within the second; \<open>time.Unix\<close> carries
  nanoseconds outside \<open>[0, 10^9)\<close> into the seconds.
\<close>

record time =
  t_sec :: int
  t_nsec :: int

definition time_Unix :: "int \<Rightarrow> int \<Rightarrow> time" where
  "time_Unix sec nsec = \<lparr>t_sec = i64 (sec + nsec div 10 ^ 9), t_nsec = nsec mod 10 ^ 9\<rparr>"

definition time_ok :: "time \<Rightarrow> bool" where
  "time_ok t \<longleftrightarrow> is_i64 (t_sec t) \<and> 0 \<le> t_nsec t \<and> t_nsec t < 10 ^ 9"

definition read_time64 :: "(time, 'z conn_scheme) act" where
  "read_time64 =
     bnd read_varint (\<lambda>sec c.
       case read_varint c of
         (Inl e, c') \<Rightarrow> (Inr (time_Unix sec 0), c')
       | (Inr nsec, c') \<Rightarrow> (Inr (time_Unix sec nsec), c'))"

definition write_time64 :: "time \<Rightarrow> (unit, 'z conn_scheme) act" where
  "write_time64 t = bnd (write_varint (t_sec t)) (\<lambda>_. write_varint (t_nsec t))"

lemma time_Unix_ok: "time_ok t \<Longrightarrow> time_Unix (t_sec t) (t_nsec t) = t"
  by (simp add: time_Unix_def time_ok_def)

lemma write_time64_out:
  "time_ok t \<Longrightarrow> 0 \<le> t_sec t \<Longrightarrow> c_budget w = None \<Longrightarrow>
     write_time64 t w = (Inr (), w\<lparr>c_out := c_out w @ [varint_bytes (t_sec t), varint_bytes (t_nsec t)]\<rparr>)"
  by (simp add: write_time64_def write_varint_def run time_ok_def)

text \<open>
  A timestamp from 1970 on survives \<open>WriteTime64\<close> and \<open>ReadTime64\<close> with its nanoseconds; cut
  anywhere inside the nanoseconds, the stream still yields the whole seconds without an error.
\<close>

theorem time64_roundtrip:
  assumes "time_ok t" "0 \<le> t_sec t" "c_budget w = None" "c_out w = []"
    and "c_in c = take n (out_bytes (snd (write_time64 t w)))"
    and "length (varint_bytes (t_sec t)) \<le> n"
  shows "\<exists>c'. read_time64 c =
     (Inr (if length (out_bytes (snd (write_time64 t w))) \<le> n then t else t\<lparr>t_nsec := 0\<rparr>), c')"
proof -
  let ?s = "varint_bytes (t_sec t)" and ?ns = "varint_bytes (t_nsec t)"
  let ?k = "n - length ?s"
  let ?c = "c\<lparr>c_in := take ?k ?ns\<rparr>"
  have ns: "0 \<le> t_nsec t" "t_nsec t < 2 ^ 63" "t_sec t < 2 ^ 63"
    using assms(1) by (simp_all add: time_ok_def is_i64_def)
  have out: "out_bytes (snd (write_time64 t w)) = ?s @ ?ns"
    using assms by (simp add: write_time64_out out_bytes_def)
  have sec: "read_varint c = (Inr (t_sec t), ?c)"
    using assms ns by (intro read_varint_bytes) (simp_all add: out)
  show ?thesis
  proof (cases "length ?ns \<le> ?k")
    case True
    then have "read_varint ?c = (Inr (t_nsec t), ?c\<lparr>c_in := []\<rparr>)"
      using ns by (intro read_varint_bytes) simp_all
    with sec True assms(1,6) show ?thesis
      by (simp add: read_time64_def run out time_Unix_ok)
  next
    case False
    have "\<exists>e c'. read_varint ?c = (Inl e, c')"
    proof (rule ccontr)
      assume "\<not> ?thesis"
      then obtain v c' where r: "read_varint ?c = (Inr v, c')"
        by (metis sum.exhaust surj_pair)
      have full: "read_varint (c\<lparr>c_in := ?ns\<rparr>) = (Inr (t_nsec t), c\<lparr>c_in := []\<rparr>)"
        using ns read_varint_bytes [of "t_nsec t" "c\<lparr>c_in := ?ns\<rparr>" "[]"] by simp
      have "read_varint (?c\<lparr>c_in := c_in ?c @ drop ?k ?ns\<rparr>) = (Inr v, c'\<lparr>c_in := c_in c' @ drop ?k ?ns\<rparr>)"
        by (rule stableD [OF stable_read_varint r])
      with full have "c\<lparr>c_in := []\<rparr> = c'\<lparr>c_in := c_in c' @ drop ?k ?ns\<rparr>" by simp
      from arg_cong [OF this, of c_in] have "c_in c' @ drop ?k ?ns = []" by simp
      with False show False by simp
    qed
    with sec False assms(1) show ?thesis
      by (auto simp: read_time64_def run out time_Unix_def time_ok_def)
  qed
qed

definition sample_time :: time where
  "sample_time = \<lparr>t_sec = 1700000000, t_nsec = 123456789\<rparr>"

theorem time64_roundtrip_witness:
  "\<exists>c'. read_time64 (mux_conn_of (take 7 (out_bytes (snd (write_time64 sample_time (mux_conn_of []))))))
     = (Inr (sample_time\<lparr>t_nsec := 0\<rparr>), c')"
proof -
  have "\<exists>c'. read_time64 (mux_conn_of (take 7 (out_bytes (snd (write_time64 sample_time (mux_conn_of []))))))
     = (Inr (if length (out_bytes (snd (write_time64 sample_time (mux_conn_of [])))) \<le> 7 then sample_time
             else sample_time\<lparr>t_nsec := 0\<rparr>), c')"
    by (rule time64_roundtrip)
      (simp_all add: mux_conn_of_def sample_time_def time_ok_def is_i64_def varint_bytes_def)
  then show ?thesis
    by (simp add: write_time64_def write_varint_def run mux_conn_of_def out_bytes_def sample_time_def
        varint_bytes_def)
qed

end
