(* ===== verification/Checksum.thy ===== *)
theory Checksum
  imports Wire Go_Strings
begin

text \<open>
  \<open>internal/rsyncchecksum\<close>: the rolling checksum with its 16-bit tag, the strong checksum of a
  block, and the choice of an algorithm.  MD4 itself is a third-party package and stays a
  parameter \<open>md4\<close> of every definition that hashes.  \<open>RootChecksum\<close> opens a file below the
  destination and is \<open>ReaderChecksum\<close> of its contents.
\<close>

subsection \<open>The rolling checksum\<close>

definition tag2 :: "u16 \<Rightarrow> u16 \<Rightarrow> u16" where
  "tag2 s1 s2 = (s1 + s2) AND 0xFFFF"

definition tag :: "u32 \<Rightarrow> u16" where
  "tag sm = tag2 (ucast (sm AND 0xFFFF)) (ucast (drop_bit 16 sm))"

definition sign_extend :: "byte \<Rightarrow> u32" where
  "sign_extend b =
     (let val = ucast b :: u32 in word_of_int (drop_bit 24 (sint (push_bit 24 val))))"

text \<open>The unrolled loop of \<open>Checksum1\<close>, which runs while more than four bytes are left.\<close>

fun sum_quads :: "byte list \<Rightarrow> u32 \<Rightarrow> u32 \<Rightarrow> byte list \<times> u32 \<times> u32" where
  "sum_quads (b0 # b1 # b2 # b3 # b4 # bs) s1 s2 =
     sum_quads (b4 # bs)
       (s1 + (sign_extend b0 + sign_extend b1 + sign_extend b2 + sign_extend b3))
       (s2 + (4 * (s1 + sign_extend b0) + 3 * sign_extend b1 + 2 * sign_extend b2 + sign_extend b3))"
| "sum_quads bs s1 s2 = (bs, s1, s2)"

fun sum_rest :: "byte list \<Rightarrow> u32 \<Rightarrow> u32 \<Rightarrow> u32 \<times> u32" where
  "sum_rest [] s1 s2 = (s1, s2)"
| "sum_rest (b # bs) s1 s2 = (let s1' = s1 + sign_extend b in sum_rest bs s1' (s2 + s1'))"

definition checksum1 :: "byte list \<Rightarrow> u32" where
  "checksum1 buf =
     (case sum_quads buf 0 0 of (rest, s1, s2) \<Rightarrow>
        (case sum_rest rest s1 s2 of (s1', s2') \<Rightarrow> (s1' AND 0xffff) + push_bit 16 s2'))"

subsection \<open>The sums it computes\<close>

text \<open>
  The definition of the thesis: \<open>a\<close> is the sum of the bytes, \<open>b\<close> the sum of the bytes each
  weighted with the number of bytes from it to the end of the block.
\<close>

fun sum_a :: "byte list \<Rightarrow> u32" where
  "sum_a [] = 0"
| "sum_a (x # xs) = sign_extend x + sum_a xs"

fun sum_b :: "byte list \<Rightarrow> u32" where
  "sum_b [] = 0"
| "sum_b (x # xs) = of_nat (Suc (length xs)) * sign_extend x + sum_b xs"

lemma sum_rest_sums: "sum_rest bs s1 s2 = (s1 + sum_a bs, s2 + of_nat (length bs) * s1 + sum_b bs)"
  by (induction bs arbitrary: s1 s2) (simp_all add: Let_def algebra_simps)

lemma sum_quads_rest: "(case sum_quads bs s1 s2 of (r, t1, t2) \<Rightarrow> sum_rest r t1 t2) = sum_rest bs s1 s2"
  by (induction bs s1 s2 rule: sum_quads.induct) (simp_all add: Let_def algebra_simps)

lemma checksum1_sums: "checksum1 bs = (sum_a bs AND 0xffff) + push_bit 16 (sum_b bs)"
proof -
  obtain r s1 s2 where q: "sum_quads bs 0 0 = (r, s1, s2)" by (metis prod_cases3)
  with sum_quads_rest [of bs 0 0] have "sum_rest r s1 s2 = (sum_a bs, sum_b bs)"
    by (simp add: sum_rest_sums)
  with q show ?thesis by (simp add: checksum1_def)
qed

lemma sum_a_append [simp]: "sum_a (xs @ ys) = sum_a xs + sum_a ys"
  by (induction xs) (simp_all add: add.assoc)

lemma sum_b_append [simp]: "sum_b (xs @ ys) = sum_b xs + of_nat (length ys) * sum_a xs + sum_b ys"
  by (induction xs) (simp_all add: algebra_simps)

lemma sign_extend_scast: "sign_extend b = scast b"
proof -
  have m: "min 31 (24 + n) - 24 = min 7 n" for n :: nat by simp
  show ?thesis
    unfolding sign_extend_def Let_def
    by (rule bit_word_eqI) (auto simp: bit_simps m dest: bit_imp_le_length)
qed

subsection \<open>The two halves of the sum, and rolling them\<close>

text \<open>
  The search keeps the halves apart, each cut to 16 bits after every step (\<open>uint16(s1)\<close>).
\<close>

definition lo16 :: "u32 \<Rightarrow> u32" where
  "lo16 x = ucast (ucast x :: u16)"

lemma lo16_take_bit: "lo16 x = take_bit 16 x"
  unfolding lo16_def by (rule bit_word_eqI) (auto simp: bit_simps)

lemma lo16_and: "lo16 x = x AND 0xFFFF"
  by (simp add: lo16_take_bit take_bit_eq_mask mask_eq_exp_minus_1)

lemma lo16_lo16 [simp]: "lo16 (lo16 x) = lo16 x"
  by (simp add: lo16_take_bit)

lemma ucast_lo16 [simp]: "(ucast (lo16 x) :: u16) = ucast x"
  unfolding lo16_take_bit by (rule bit_word_eqI) (auto simp: bit_simps)

lemma lo16_cong: "take_bit 16 x = take_bit 16 y \<Longrightarrow> lo16 x = lo16 y"
  by (simp add: lo16_take_bit)

lemma ucast16_add: "(ucast (x + y :: u32) :: u16) = ucast x + ucast y"
  by (simp add: word_uint_eq_iff uint_word_ariths unsigned_ucast_eq take_bit_eq_mod mod_simps mod_mod_cancel)

lemma ucast_ucast16 [simp]: "(ucast (ucast (z :: u16) :: u32) :: u16) = z"
  by (rule bit_word_eqI) (auto simp: bit_simps dest: bit_imp_le_length)

lemma lo16_add_left [simp]: "lo16 (lo16 x + y) = lo16 (x + y)"
  unfolding lo16_def by (simp add: ucast16_add)

lemma checksum1_or: "checksum1 bs = lo16 (sum_a bs) OR push_bit 16 (sum_b bs)"
proof -
  have "lo16 (sum_a bs) AND push_bit 16 (sum_b bs) = 0"
    unfolding lo16_take_bit by (rule bit_word_eqI) (auto simp: bit_simps)
  then show ?thesis
    unfolding checksum1_sums by (simp add: disjunctive_add_eq_or flip: lo16_and)
qed

lemma checksum1_lo: "checksum1 bs AND 0xFFFF = lo16 (sum_a bs)"
  unfolding checksum1_or lo16_and [symmetric] unfolding lo16_take_bit
  by (rule bit_word_eqI) (auto simp: bit_simps)

lemma checksum1_hi: "drop_bit 16 (checksum1 bs) = lo16 (sum_b bs)"
  unfolding checksum1_or lo16_take_bit
  by (rule bit_word_eqI) (auto simp: bit_simps dest: bit_imp_le_length)

lemma checksum1_of_halves:
  "(lo16 (sum_a bs) AND 0xFFFF) OR push_bit 16 (lo16 (sum_b bs)) = checksum1 bs"
  unfolding checksum1_or lo16_and [symmetric] unfolding lo16_take_bit
  by (rule bit_word_eqI) (auto simp: bit_simps)

lemma tag_of_halves: "tag2 (ucast (lo16 (sum_a bs))) (ucast (lo16 (sum_b bs))) = tag (checksum1 bs)"
  by (simp add: tag_def checksum1_lo checksum1_hi)

text \<open>Sliding the window over \<open>x # bs\<close> by one byte.\<close>

lemma lo16_diff_left: "lo16 (lo16 x - y + z) = lo16 (x - y + z)"
  using lo16_add_left [of x "z - y"] by (simp add: algebra_simps)

lemma lo16_diff_left0: "lo16 (lo16 x - y) = lo16 (x - y)"
  using lo16_diff_left [of x y 0] by simp

lemma roll_a: "lo16 (lo16 (sum_a (x # bs)) - sign_extend x + sign_extend y) = lo16 (sum_a (bs @ [y]))"
  unfolding lo16_diff_left by simp

lemma roll_b:
  "lo16 (lo16 (sum_b (x # bs)) - of_nat (Suc (length bs)) * sign_extend x
          + (lo16 (sum_a (x # bs)) - sign_extend x + sign_extend y))
     = lo16 (sum_b (bs @ [y]))"
proof -
  let ?a = "sum_a (x # bs)" and ?k = "of_nat (Suc (length bs)) * sign_extend x"
  have "lo16 (lo16 (sum_b (x # bs)) - ?k + (lo16 ?a - sign_extend x + sign_extend y))
      = lo16 (lo16 ?a + (sum_b (x # bs) - ?k - sign_extend x + sign_extend y))"
    unfolding lo16_diff_left by (simp add: algebra_simps)
  also have "\<dots> = lo16 (?a + (sum_b (x # bs) - ?k - sign_extend x + sign_extend y))"
    by (rule lo16_add_left)
  also have "?a + (sum_b (x # bs) - ?k - sign_extend x + sign_extend y) = sum_b (bs @ [y])"
    by (simp add: algebra_simps)
  finally show ?thesis .
qed

lemma roll_a_last: "lo16 (lo16 (sum_a (x # bs)) - sign_extend x) = lo16 (sum_a bs)"
  unfolding lo16_diff_left0 by simp

lemma roll_b_last:
  "lo16 (lo16 (sum_b (x # bs)) - of_nat (Suc (length bs)) * sign_extend x) = lo16 (sum_b bs)"
  unfolding lo16_diff_left0 by simp

text \<open>
  C33: \<open>Checksum1\<close>, whose loop is unrolled four bytes at a time, computes the two sums of the
  signature definition: the low half is the sum of the sign-extended bytes, the high half the
  sum weighted with the distance to the end of the block, each modulo 2^16.
\<close>

theorem checksum1_definition:
  "checksum1 buf AND 0xFFFF = (\<Sum>i<length buf. sign_extend (buf ! i)) AND 0xFFFF \<and>
   drop_bit 16 (checksum1 buf) =
     (\<Sum>i<length buf. of_nat (length buf - i) * sign_extend (buf ! i)) AND 0xFFFF"
proof (rule conjI)
  have a: "sum_a bs = (\<Sum>i<length bs. sign_extend (bs ! i))" for bs
    by (induction bs) (simp_all add: sum.lessThan_Suc_shift del: sum.lessThan_Suc)
  have b: "sum_b bs = (\<Sum>i<length bs. of_nat (length bs - i) * sign_extend (bs ! i))" for bs
    by (induction bs) (simp_all add: sum.lessThan_Suc_shift del: sum.lessThan_Suc)
  show "checksum1 buf AND 0xFFFF = (\<Sum>i<length buf. sign_extend (buf ! i)) AND 0xFFFF"
    unfolding checksum1_lo a lo16_and ..
  show "drop_bit 16 (checksum1 buf) =
     (\<Sum>i<length buf. of_nat (length buf - i) * sign_extend (buf ! i)) AND 0xFFFF"
    unfolding checksum1_hi b lo16_and ..
qed

subsection \<open>The strong checksum\<close>

text \<open>A \<open>hash.Hash\<close> is the bytes written into it; \<open>md4\<close> maps them to \<open>Sum(nil)\<close>.\<close>

definition md4_Size :: nat where "md4_Size = 16"

definition checksum2 :: "(byte list \<Rightarrow> byte list) \<Rightarrow> int \<Rightarrow> byte list \<Rightarrow> byte list" where
  "checksum2 md4 seed buf = md4 (buf @ le_bytes 4 seed)"

definition reader_checksum :: "(byte list \<Rightarrow> byte list) \<Rightarrow> go_error + byte list \<Rightarrow> go_error + byte list" where
  "reader_checksum md4 r = (case r of Inl e \<Rightarrow> Inl e | Inr bs \<Rightarrow> Inr (md4 bs))"

definition root_checksum ::
  "(byte list \<Rightarrow> byte list) \<Rightarrow> (string \<Rightarrow> go_error + (go_error + byte list)) \<Rightarrow> string \<Rightarrow> go_error + byte list" where
  "root_checksum md4 open fn = (case open fn of Inl e \<Rightarrow> Inl e | Inr f \<Rightarrow> reader_checksum md4 f)"

subsection \<open>Choosing an algorithm\<close>

definition supported_algorithms :: "string list" where
  "supported_algorithms = [''xxhash'', ''sha1'', ''md4'', ''md5'']"

fun first_supported :: "string list \<Rightarrow> string option" where
  "first_supported [] = None"
| "first_supported (algo # rest) =
     (case find (\<lambda>supp. equal_fold (trim_space algo) supp) supported_algorithms of
        Some supp \<Rightarrow> Some supp
      | None \<Rightarrow> first_supported rest)"

definition negotiate_checksum_algorithm :: "string \<Rightarrow> go_error + string" where
  "negotiate_checksum_algorithm clientList =
     (if clientList = [] then Inr ''md4''
      else case first_supported (split_on (CHR '' '') clientList) of
        Some supp \<Rightarrow> Inr supp
      | None \<Rightarrow> Inl (Errorf ''no supported checksum algorithm found in client list: %q'' [FStr clientList]))"

definition names_algorithm :: "string \<Rightarrow> string \<Rightarrow> bool" where
  "names_algorithm w supp \<longleftrightarrow> supp \<in> set supported_algorithms \<and> equal_fold (trim_space w) supp"

lemma first_supported_Some:
  "first_supported ws = Some supp \<Longrightarrow>
     \<exists>i < length ws. names_algorithm (ws ! i) supp \<and> (\<forall>j < i. \<forall>s. \<not> names_algorithm (ws ! j) s)"
proof (induction ws)
  case (Cons w ws)
  show ?case
  proof (cases "find (\<lambda>s. equal_fold (trim_space w) s) supported_algorithms")
    case None
    with Cons obtain i where "i < length ws" "names_algorithm (ws ! i) supp"
        "\<forall>j < i. \<forall>s. \<not> names_algorithm (ws ! j) s" by auto
    moreover have "\<not> names_algorithm w s" for s
      using None by (auto simp: find_None_iff names_algorithm_def)
    ultimately show ?thesis by (intro exI [of _ "Suc i"]) (auto simp: less_Suc_eq_0_disj)
  next
    case (Some s)
    with Cons.prems have "names_algorithm w supp"
      by (auto simp: names_algorithm_def find_Some_iff in_set_conv_nth)
    then show ?thesis by (intro exI [of _ 0]) simp
  qed
qed simp

lemma first_supported_None: "first_supported ws = None \<Longrightarrow> w \<in> set ws \<Longrightarrow> \<not> names_algorithm w s"
  by (induction ws) (auto simp: names_algorithm_def find_None_iff split: option.splits)

text \<open>
  The negotiated algorithm is the first word of the client's list that names a supported
  one, up to the letters' case; the default only for an empty list, an error only when no word
  names any.
\<close>

theorem negotiate_first:
  "case negotiate_checksum_algorithm l of
     Inr algo \<Rightarrow> (l = [] \<and> algo = ''md4'') \<or>
       (l \<noteq> [] \<and> (let ws = split_on (CHR '' '') l in
          \<exists>i < length ws. names_algorithm (ws ! i) algo \<and> list_all (\<lambda>w. \<not> list_ex (names_algorithm w) supported_algorithms) (take i ws)))
   | Inl e \<Rightarrow> l \<noteq> [] \<and> list_all (\<lambda>w. \<not> list_ex (names_algorithm w) supported_algorithms) (split_on (CHR '' '') l)"
proof (cases "first_supported (split_on (CHR '' '') l)")
  case None
  then show ?thesis
    by (auto simp: negotiate_checksum_algorithm_def list_all_iff list_ex_iff dest: first_supported_None)
next
  case (Some algo)
  from first_supported_Some [OF this] obtain i where
    i: "i < length (split_on (CHR '' '') l)" "names_algorithm (split_on (CHR '' '') l ! i) algo"
      "\<forall>j < i. \<forall>s. \<not> names_algorithm (split_on (CHR '' '') l ! j) s" by blast
  then have "\<forall>w \<in> set (take i (split_on (CHR '' '') l)). \<forall>s. \<not> names_algorithm w s"
    by (auto simp: in_set_conv_nth)
  with i Some show ?thesis
    by (auto simp: negotiate_checksum_algorithm_def list_all_iff list_ex_iff Let_def)
qed

end
