(* ===== verification/Blocks.thy ===== *)
theory Blocks
  imports Checksum
begin

text \<open>
  The block checksums that the receiver's generator sends and the sender reads: \<open>SumHead\<close> and
  \<open>SumBuf\<close> of \<open>types.go\<close>, the block size of \<open>internal/rsynccommon\<close>, \<open>generateAndSendSums\<close> of
  the generator and \<open>receiveSums\<close> of the sender.
\<close>

record sum_buf =
  Offset :: int
  Len :: int
  Index :: int
  Sum1 :: u32
  Sum2 :: "byte list"

record sum_head =
  ChecksumCount :: int
  BlockLength :: int
  ChecksumLength :: int
  RemainderLength :: int
  Sums :: "sum_buf list"

definition maxBlockLen :: int where "maxBlockLen = 2 ^ 29"

definition zero_head :: sum_head where
  "zero_head = \<lparr>ChecksumCount = 0, BlockLength = 0, ChecksumLength = 0, RemainderLength = 0, Sums = []\<rparr>"

definition read_from :: "(sum_head, 'z conn_scheme) act" where
  "read_from =
     bnd read_int32 (\<lambda>count.
     if count < 0 then throw (Errorf ''invalid checksum count %d'' [FInt count]) else
     bnd read_int32 (\<lambda>blen.
     if blen < 0 \<or> blen > maxBlockLen then throw (Errorf ''invalid block length %d'' [FInt blen]) else
     bnd read_int32 (\<lambda>clen.
     if clen < 0 \<or> clen > 32 then throw (Errorf ''invalid checksum length %d'' [FInt clen]) else
     bnd read_int32 (\<lambda>rem.
     if rem < 0 \<or> rem > blen then throw (Errorf ''invalid remainder length %d'' [FInt rem]) else
     ret \<lparr>ChecksumCount = count, BlockLength = blen, ChecksumLength = clen,
          RemainderLength = rem, Sums = []\<rparr>))))"

definition head_bytes :: "sum_head \<Rightarrow> byte list" where
  "head_bytes sh =
     buf_write_int32 (RemainderLength sh)
       (buf_write_int32 (ChecksumLength sh)
         (buf_write_int32 (BlockLength sh) (buf_write_int32 (ChecksumCount sh) [])))"

definition write_to :: "sum_head \<Rightarrow> (unit, 'z conn_scheme) act" where
  "write_to sh = write_string (string_of_bytes (head_bytes sh))"

definition head_ok :: "sum_head \<Rightarrow> bool" where
  "head_ok sh \<longleftrightarrow> 0 \<le> ChecksumCount sh \<and> is_i32 (ChecksumCount sh) \<and>
     0 \<le> BlockLength sh \<and> BlockLength sh \<le> maxBlockLen \<and>
     0 \<le> ChecksumLength sh \<and> ChecksumLength sh \<le> 32 \<and>
     0 \<le> RemainderLength sh \<and> RemainderLength sh \<le> BlockLength sh"

subsection \<open>The size of a block\<close>

text \<open>
  \<open>int64(math.Sqrt(float64(n)))\<close>, which is the integer square root as long as \<open>n\<close> is exact
  as a \<open>float64\<close> (below \<open>2^52\<close>); the theorems stay in that range.
\<close>

fun isqrt :: "nat \<Rightarrow> nat" where
  "isqrt n = (if n = 0 then 0 else let r = 2 * isqrt (n div 4) in if (r + 1) ^ 2 \<le> n then r + 1 else r)"

declare isqrt.simps [simp del]

lemma isqrt_bounds: "isqrt n ^ 2 \<le> n \<and> n < (isqrt n + 1) ^ 2"
proof (induction n rule: isqrt.induct)
  case (1 n)
  show ?case
  proof (cases "n = 0")
    case False
    let ?q = "isqrt (n div 4)"
    from 1 [OF False] have q: "?q ^ 2 \<le> n div 4" "n div 4 < (?q + 1) ^ 2" by simp_all
    from q(1) have lo: "(2 * ?q) ^ 2 \<le> n" by (simp add: power_mult_distrib)
    from q(2) have "n div 4 + 1 \<le> (?q + 1) ^ 2" by simp
    then have "4 * (n div 4) + 4 \<le> 4 * (?q + 1) ^ 2" by linarith
    moreover have "n < 4 * (n div 4) + 4" by presburger
    ultimately have "n < 4 * (?q + 1) ^ 2" by linarith
    then have hi: "n < (2 * ?q + 2) ^ 2" by (simp add: power2_eq_square algebra_simps)
    show ?thesis
      using False lo hi by (subst (1 2) isqrt.simps) (simp add: Let_def)
  qed (simp add: isqrt.simps)
qed

definition blockSize :: int where "blockSize = 700"

definition sum_sizes_sqroot :: "int \<Rightarrow> sum_head" where
  "sum_sizes_sqroot contentLen =
     (let blockLength = max (i32 (int (isqrt (nat contentLen)))) blockSize in
      \<lparr>ChecksumCount = i32 ((contentLen + (blockLength - 1)) div blockLength),
       BlockLength = blockLength,
       ChecksumLength = 16,
       RemainderLength = i32 (contentLen mod blockLength),
       Sums = []\<rparr>)"

subsection \<open>Sending and receiving the sums\<close>

fun sums_loop ::
  "(byte list \<Rightarrow> byte list) \<Rightarrow> int \<Rightarrow> sum_head \<Rightarrow> nat \<Rightarrow> int \<Rightarrow> byte list \<Rightarrow> (unit, 'z conn_scheme) act" where
  "sums_loop md4 seed sh 0 remaining rest = ret ()"
| "sums_loop md4 seed sh (Suc n) remaining rest =
     (let n1 = min (BlockLength sh) remaining in
      if n1 < 0 then throw (Panic ''slice bounds out of range'')
      else if length rest < nat n1 then throw (if rest = [] then EOF else UnexpectedEOF)
      else let b = take (nat n1) rest in
        bnd (write_int32 (i32 (uint (checksum1 b)))) (\<lambda>_.
        bnd (conn_write (checksum2 md4 seed b)) (\<lambda>_.
        sums_loop md4 seed sh n (remaining - n1) (drop (nat n1) rest))))"

text \<open>\<open>data\<close> is what the opened file contains, \<open>fileLen\<close> the size its \<open>Lstat\<close> reported.\<close>

definition generate_and_send_sums ::
  "(byte list \<Rightarrow> byte list) \<Rightarrow> int \<Rightarrow> byte list \<Rightarrow> int \<Rightarrow> (unit, 'z conn_scheme) act" where
  "generate_and_send_sums md4 seed data fileLen =
     (let sh = sum_sizes_sqroot fileLen in
      bnd (write_to sh) (\<lambda>_. sums_loop md4 seed sh (nat (ChecksumCount sh)) fileLen data))"

fun receive_loop :: "sum_head \<Rightarrow> nat \<Rightarrow> int \<Rightarrow> int \<Rightarrow> sum_buf list \<Rightarrow> (sum_buf list, 'z conn_scheme) act" where
  "receive_loop head 0 i offset acc = ret acc"
| "receive_loop head (Suc n) i offset acc =
     bnd read_int32 (\<lambda>shortChecksum.
     let len = (if i = ChecksumCount head - 1 \<and> RemainderLength head \<noteq> 0
                then RemainderLength head else BlockLength head) in
     if ChecksumLength head > 16 then throw (Panic ''slice bounds out of range'') else
     bnd (read_full (nat (ChecksumLength head))) (\<lambda>s2.
     let sb = \<lparr>Offset = offset, Len = len, Index = i, Sum1 = word_of_int shortChecksum,
               Sum2 = s2 @ replicate (16 - length s2) 0\<rparr> in
     receive_loop head n (i + 1) (offset + len) (acc @ [sb])))"

definition receive_sums :: "(sum_head, 'z conn_scheme) act" where
  "receive_sums =
     bnd read_from (\<lambda>head.
     bnd (receive_loop head (nat (ChecksumCount head)) 0 0 []) (\<lambda>sums.
     ret (head\<lparr>Sums := sums\<rparr>)))"

subsection \<open>The header on the wire\<close>

lemmas head_ok_simps = head_ok_def maxBlockLen_def is_i32_def

lemma head_bytes_simp: "head_bytes sh =
    le_bytes 4 (ChecksumCount sh) @ le_bytes 4 (BlockLength sh) @
    le_bytes 4 (ChecksumLength sh) @ le_bytes 4 (RemainderLength sh)"
  by (simp add: head_bytes_def buf_write_int32_def)

lemma read_from_head [run]:
  assumes "head_ok sh" "c_in c = head_bytes sh @ r"
  shows "read_from c = (Inr (sh\<lparr>Sums := []\<rparr>), c\<lparr>c_in := r\<rparr>)"
proof -
  have i: "is_i32 (ChecksumCount sh)" "is_i32 (BlockLength sh)"
      "is_i32 (ChecksumLength sh)" "is_i32 (RemainderLength sh)"
    using assms(1) by (auto simp: head_ok_simps)
  have "read_from (c\<lparr>c_in := head_bytes sh @ r\<rparr>) = (Inr (sh\<lparr>Sums := []\<rparr>), c\<lparr>c_in := r\<rparr>)"
    using assms(1)
    by (simp add: read_from_def head_bytes_simp bnd_def ret_def read_int32_next i head_ok_def)
  then show ?thesis by (simp only: conn_unchanged [OF assms(2)])
qed

interpretation sum_head: wire_codec head_bytes read_from "\<lambda>sh. head_ok sh \<and> Sums sh = []"
proof unfold_locales
  fix sh :: sum_head and c :: "'z conn_scheme" and r
  assume "head_ok sh \<and> Sums sh = []" "c_in c = head_bytes sh @ r"
  then show "read_from c = (Inr sh, c\<lparr>c_in := r\<rparr>)"
    using read_from_head [of sh c r] by (cases sh) simp
qed

lemma reads_read_from [reads_intro]: "reads read_from"
  unfolding read_from_def by (intro reads_intro)

lemma read_from_ok: "read_from c = (Inr sh, c') \<Longrightarrow> head_ok sh \<and> Sums sh = []"
  by (auto simp: read_from_def bnd_eq_Inr throw_def ret_def head_ok_def
      dest!: read_int32_is_i32 split: if_splits)

lemma safe_read_from [safe_intro]: "safe read_from"
  unfolding read_from_def by (intro safe_intro fatal_simps)

lemma write_to_ok [run]:
  "c_budget c = None \<Longrightarrow> write_to sh c = (Inr (), c\<lparr>c_out := c_out c @ [head_bytes sh]\<rparr>)"
  by (simp add: write_to_def run)

subsection \<open>The blocks of a file\<close>

function chunks :: "nat \<Rightarrow> 'a list \<Rightarrow> 'a list list" where
  "chunks n xs = (if n = 0 \<or> xs = [] then [] else take n xs # chunks n (drop n xs))"
  by pat_completeness auto
termination by (relation "measure (\<lambda>(n, xs). length xs)") auto

declare chunks.simps [simp del]

lemma chunks_Nil [simp]: "chunks n [] = []"
  by (simp add: chunks.simps)

lemma concat_chunks: "0 < n \<Longrightarrow> concat (chunks n xs) = xs"
  by (induction n xs rule: chunks.induct) (subst chunks.simps, simp)

lemma length_chunks: "0 < n \<Longrightarrow> length (chunks n xs) = (length xs + (n - 1)) div n"
proof (induction n xs rule: chunks.induct)
  case (1 n xs)
  show ?case
  proof (cases "xs = []")
    case False
    have n: "n \<noteq> 0" using 1(2) by simp
    have "(length xs + (n - 1)) div n = Suc ((length xs - n + (n - 1)) div n)"
    proof (cases "n \<le> length xs")
      case True
      then have e: "length xs + (n - 1) = n + (length xs - n + (n - 1))" by simp
      show ?thesis unfolding e by (rule Suc_div [OF n])
    next
      case F: False
      have e: "length xs + (n - 1) = n + (length xs - 1)" using n False by (cases xs) simp_all
      have "(length xs - 1) div n = 0" "(length xs - n + (n - 1)) div n = 0"
        using F n by simp_all
      then show ?thesis unfolding e Suc_div [OF n] by (simp only:)
    qed
    with 1 False show ?thesis by (subst chunks.simps) simp
  qed (use 1 in simp)
qed

lemma chunks_nth:
  "0 < n \<Longrightarrow> i < length (chunks n xs) \<Longrightarrow> chunks n xs ! i = take n (drop (i * n) xs)"
proof (induction n xs arbitrary: i rule: chunks.induct)
  case (1 n xs)
  then have ne: "xs \<noteq> []" by (auto simp: chunks.simps)
  show ?case
  proof (cases i)
    case 0
    with 1 ne show ?thesis by (subst chunks.simps) simp
  next
    case (Suc j)
    from 1(3) Suc ne 1(2) have "j < length (chunks n (drop n xs))" by (subst (asm) chunks.simps) simp
    with 1 ne Suc show ?thesis by (subst chunks.simps) (simp add: add.commute)
  qed
qed

fun bufs :: "(byte list \<Rightarrow> byte list) \<Rightarrow> int \<Rightarrow> int \<Rightarrow> int \<Rightarrow> byte list list \<Rightarrow> sum_buf list" where
  "bufs md4 seed off i [] = []"
| "bufs md4 seed off i (b # bs) =
     \<lparr>Offset = off, Len = int (length b), Index = i, Sum1 = checksum1 b,
      Sum2 = checksum2 md4 seed b\<rparr> # bufs md4 seed (off + int (length b)) (i + 1) bs"

definition file_blocks :: "byte list \<Rightarrow> byte list list" where
  "file_blocks data = chunks (nat (BlockLength (sum_sizes_sqroot (int (length data))))) data"

text \<open>What the sender ought to know of a file: its head with one \<open>SumBuf\<close> per block.\<close>

definition sums_of :: "(byte list \<Rightarrow> byte list) \<Rightarrow> int \<Rightarrow> byte list \<Rightarrow> sum_head" where
  "sums_of md4 seed data =
     (sum_sizes_sqroot (int (length data)))\<lparr>Sums := bufs md4 seed 0 0 (file_blocks data)\<rparr>"

definition small_file :: "byte list \<Rightarrow> bool" where
  "small_file data \<longleftrightarrow> int (length data) < 2 ^ 52"

definition sum_bytes :: "(byte list \<Rightarrow> byte list) \<Rightarrow> int \<Rightarrow> byte list \<Rightarrow> byte list" where
  "sum_bytes md4 seed b = le_bytes 4 (uint (checksum1 b)) @ checksum2 md4 seed b"

lemma isqrt_le: "n < 2 ^ 52 \<Longrightarrow> isqrt n < 2 ^ 26"
proof (rule ccontr)
  assume n: "n < 2 ^ 52" and "\<not> isqrt n < 2 ^ 26"
  then have "(2 ^ 26) ^ 2 \<le> isqrt n ^ 2" by (intro power_mono) simp_all
  with isqrt_bounds [of n] n show False by (simp flip: power_mult)
qed

lemma block_length_bounds:
  assumes "0 \<le> n" "n < 2 ^ 52"
  shows "blockSize \<le> BlockLength (sum_sizes_sqroot n)" "BlockLength (sum_sizes_sqroot n) \<le> 2 ^ 26"
    and "BlockLength (sum_sizes_sqroot n) = max (int (isqrt (nat n))) blockSize"
proof -
  have "isqrt (nat n) < 2 ^ 26" using assms by (intro isqrt_le) simp
  then have "int (isqrt (nat n)) < 2 ^ 26" by simp
  moreover from this have "is_i32 (int (isqrt (nat n)))" by (simp add: is_i32_def)
  ultimately show "blockSize \<le> BlockLength (sum_sizes_sqroot n)"
      "BlockLength (sum_sizes_sqroot n) \<le> 2 ^ 26"
      "BlockLength (sum_sizes_sqroot n) = max (int (isqrt (nat n))) blockSize"
    by (simp_all add: sum_sizes_sqroot_def Let_def blockSize_def)
qed

lemma sum_sizes_fields:
  "ChecksumCount (sum_sizes_sqroot n) =
     i32 ((n + (BlockLength (sum_sizes_sqroot n) - 1)) div BlockLength (sum_sizes_sqroot n))"
  "RemainderLength (sum_sizes_sqroot n) = i32 (n mod BlockLength (sum_sizes_sqroot n))"
  "ChecksumLength (sum_sizes_sqroot n) = 16" "Sums (sum_sizes_sqroot n) = []"
  by (simp_all add: sum_sizes_sqroot_def Let_def)

lemma checksum_count:
  assumes "0 \<le> n" "n < 2 ^ 52"
  shows "ChecksumCount (sum_sizes_sqroot n) =
           (n + (BlockLength (sum_sizes_sqroot n) - 1)) div BlockLength (sum_sizes_sqroot n)"
    and "0 \<le> ChecksumCount (sum_sizes_sqroot n)" "ChecksumCount (sum_sizes_sqroot n) < 2 ^ 31"
    and "RemainderLength (sum_sizes_sqroot n) = n mod BlockLength (sum_sizes_sqroot n)"
proof -
  let ?b = "BlockLength (sum_sizes_sqroot n)"
  note b = block_length_bounds [OF assms]
  have b0: "0 < ?b" using b(1) by (simp add: blockSize_def)
  define s where "s = int (isqrt (nat n))"
  have s: "s \<le> ?b" "0 \<le> s" by (simp_all add: b(3) s_def)
  have "nat n < (isqrt (nat n) + 1) ^ 2" using isqrt_bounds by simp
  then have "int (nat n) < int ((isqrt (nat n) + 1) ^ 2)" by (simp only: of_nat_less_iff)
  then have "n < (s + 1) ^ 2" using assms(1) by (simp add: s_def add.commute)
  also have "(s + 1) ^ 2 \<le> (?b + 1) * (?b + 1)"
    unfolding power2_eq_square using s by (intro mult_mono) simp_all
  finally have "n + (?b - 1) < (?b + 4) * ?b" using b0 b(1) by (simp add: algebra_simps blockSize_def)
  then have q: "(n + (?b - 1)) div ?b < ?b + 4"
    by (rule int_div_less [OF b0])
  have q0: "0 \<le> (n + (?b - 1)) div ?b" using b0 assms(1) by (simp add: pos_imp_zdiv_nonneg_iff)
  have i: "is_i32 ((n + (?b - 1)) div ?b)" using q q0 b(2) unfolding is_i32_def by simp
  have j: "is_i32 (n mod ?b)"
    using pos_mod_bound [OF b0, of n] pos_mod_sign [OF b0, of n] b(2) unfolding is_i32_def by simp
  show count: "ChecksumCount (sum_sizes_sqroot n) = (n + (?b - 1)) div ?b"
    by (simp only: sum_sizes_fields i32_id [OF i])
  show "0 \<le> ChecksumCount (sum_sizes_sqroot n)" "ChecksumCount (sum_sizes_sqroot n) < 2 ^ 31"
    unfolding count using q q0 b(2) by simp_all
  show "RemainderLength (sum_sizes_sqroot n) = n mod ?b"
    by (simp only: sum_sizes_fields i32_id [OF j])
qed

lemma le_bytes_mod: "le_bytes n (x mod 256 ^ n) = le_bytes n x"
  using le_bytes_le_val [of "le_bytes n x"] by (simp add: le_val_le_bytes)

lemma le_bytes_i32 [simp]: "le_bytes 4 (i32 x) = le_bytes 4 x"
proof -
  have "i32 x mod 2 ^ 32 = x mod 2 ^ 32"
    unfolding i32_def take_bit_eq_mod [symmetric] by (simp add: take_bit_signed_take_bit)
  then show ?thesis using le_bytes_mod [of 4 "i32 x"] le_bytes_mod [of 4 x] by simp
qed

lemma word_of_int_i32_uint: "(word_of_int (i32 (uint (w :: u32))) :: u32) = w"
proof -
  have "take_bit 32 (i32 (uint w)) = take_bit 32 (uint w)"
    unfolding i32_def by (simp add: take_bit_signed_take_bit)
  then have "uint (word_of_int (i32 (uint w)) :: u32) = uint w"
    using unsigned_less [of w, where 'a = int] by (simp add: unsigned_of_int take_bit_int_eq_self)
  then show ?thesis by (rule word_uint_eq_iff [THEN iffD2])
qed

lemma sums_loop_out:
  assumes "c_budget c = None" "0 < BlockLength sh"
  shows "\<exists>w. sums_loop md4 seed sh (length (chunks (nat (BlockLength sh)) rest)) (int (length rest)) rest c =
          (Inr (), c\<lparr>c_out := w\<rparr>) \<and>
         concat w = out_bytes c @ concat (map (sum_bytes md4 seed) (chunks (nat (BlockLength sh)) rest))"
  using assms
proof (induction "nat (BlockLength sh)" rest arbitrary: c rule: chunks.induct)
  case (1 rest)
  show ?case
  proof (cases "rest = []")
    case True
    then show ?thesis
      by (intro exI [of _ "c_out c"]) (simp add: run out_bytes_def)
  next
    case False
    let ?n = "nat (BlockLength sh)"
    let ?b = "take ?n rest" and ?rest = "drop ?n rest"
    let ?c = "c\<lparr>c_out := c_out c @ [le_bytes 4 (uint (checksum1 ?b)), checksum2 md4 seed ?b]\<rparr>"
    have n: "0 < ?n" using 1(3) by simp
    have split: "chunks ?n rest = ?b # chunks ?n ?rest" using False n by (subst chunks.simps) simp
    have len: "nat (min (BlockLength sh) (int (length rest))) = min ?n (length rest)" by simp
    have rem: "int (length rest) - min (BlockLength sh) (int (length rest)) = int (length ?rest)"
      using 1(3) by simp
    have eq: "take (min ?n (length rest)) rest = ?b" "drop (min ?n (length rest)) rest = ?rest"
      by (simp_all add: min_def)
    from 1(1) [of ?c] False n 1(2,3) obtain w where
      "sums_loop md4 seed sh (length (chunks ?n ?rest)) (int (length ?rest)) ?rest ?c =
         (Inr (), ?c\<lparr>c_out := w\<rparr>)"
      "concat w = out_bytes ?c @ concat (map (sum_bytes md4 seed) (chunks ?n ?rest))" by auto
    then show ?thesis
      using 1(2,3) unfolding split
      by (intro exI [of _ w])
        (simp add: Let_def run len rem eq sum_bytes_def out_bytes_def)
  qed
qed

text \<open>The lengths that the sender assigns to the blocks it reads.\<close>

definition block_len :: "sum_head \<Rightarrow> int \<Rightarrow> int" where
  "block_len head i =
     (if i = ChecksumCount head - 1 \<and> RemainderLength head \<noteq> 0 then RemainderLength head
      else BlockLength head)"

fun lens_ok :: "sum_head \<Rightarrow> int \<Rightarrow> byte list list \<Rightarrow> bool" where
  "lens_ok head i [] \<longleftrightarrow> True"
| "lens_ok head i (b # bs) \<longleftrightarrow> int (length b) = block_len head i \<and> lens_ok head (i + 1) bs"

lemma receive_loop_sums:
  assumes "\<forall>x. length (md4 x) = 16" "ChecksumLength head = 16" "lens_ok head i bs"
    and "c_in c = concat (map (sum_bytes md4 seed) bs) @ r"
  shows "receive_loop head (length bs) i off acc c =
           (Inr (acc @ bufs md4 seed off i bs), c\<lparr>c_in := r\<rparr>)"
  using assms(3,4)
proof (induction bs arbitrary: i off acc c)
  case Nil
  then show ?case by (simp add: run conn_unchanged)
next
  case (Cons b bs)
  let ?r = "concat (map (sum_bytes md4 seed) bs) @ r"
  let ?s2 = "checksum2 md4 seed b"
  have l: "length ?s2 = 16" using assms(1) by (simp add: checksum2_def)
  have "read_int32 c = (Inr (i32 (uint (checksum1 b))), c\<lparr>c_in := ?s2 @ ?r\<rparr>)"
    using Cons.prems(2) by (subst read_int32_le_bytes) (auto simp: sum_bytes_def [of _ _ b])
  moreover have "read_full 16 (c\<lparr>c_in := ?s2 @ ?r\<rparr>) = (Inr ?s2, c\<lparr>c_in := ?r\<rparr>)"
    by (rule read_full_next [OF l])
  ultimately have "receive_loop head (length (b # bs)) i off acc c =
      receive_loop head (length bs) (i + 1) (off + int (length b))
        (acc @ [\<lparr>Offset = off, Len = int (length b), Index = i, Sum1 = checksum1 b, Sum2 = ?s2\<rparr>])
        (c\<lparr>c_in := ?r\<rparr>)"
    using Cons.prems(1) assms(2) l
    by (simp add: run Let_def block_len_def word_of_int_i32_uint)
  also have "\<dots> = (Inr (acc @ bufs md4 seed off i (b # bs)), c\<lparr>c_in := r\<rparr>)"
    using Cons.prems(1) by (subst Cons.IH) simp_all
  finally show ?case .
qed

lemma lens_ok_chunks:
  assumes "0 < n" "BlockLength head = int n"
    and "ChecksumCount head = i + int (length (chunks n xs))"
    and "RemainderLength head = int (length xs mod n)"
  shows "lens_ok head i (chunks n xs)"
  using assms
proof (induction n xs arbitrary: i rule: chunks.induct)
  case (1 n xs)
  show ?case
  proof (cases "xs = []")
    case False
    let ?xs = "drop n xs"
    have split: "chunks n xs = take n xs # chunks n ?xs" using False 1(2) by (subst chunks.simps) simp
    have count: "ChecksumCount head = (i + 1) + int (length (chunks n ?xs))"
      using 1(4) unfolding split by simp
    have last: "i = ChecksumCount head - 1 \<longleftrightarrow> length xs \<le> n"
      using count 1(2) by (auto simp: length_chunks div_eq_0_iff)
    have rest: "lens_ok head (i + 1) (chunks n ?xs)"
    proof (cases "length xs < n")
      case False
      then have "RemainderLength head = int (length ?xs mod n)"
        using 1(5) by (simp add: le_mod_geq)
      then show ?thesis using 1 \<open>xs \<noteq> []\<close> count by (intro 1(1)) simp_all
    qed simp
    have "int (length (take n xs)) = block_len head i"
      using last 1(2,3,5) False by (cases "length xs = n") (auto simp: block_len_def)
    with rest show ?thesis unfolding split by simp
  qed simp
qed

lemma head_ok_sqroot: "0 \<le> n \<Longrightarrow> n < 2 ^ 52 \<Longrightarrow> head_ok (sum_sizes_sqroot n)"
proof -
  assume n: "0 \<le> n" "n < 2 ^ 52"
  let ?b = "BlockLength (sum_sizes_sqroot n)"
  have "0 < ?b" using block_length_bounds [OF n] by (simp add: blockSize_def)
  then have "0 \<le> n mod ?b" "n mod ?b \<le> ?b" by (simp_all add: less_imp_le)
  then show ?thesis
    using block_length_bounds(2) [OF n] checksum_count [OF n] \<open>0 < ?b\<close>
    by (simp add: head_ok_def is_i32_def maxBlockLen_def sum_sizes_fields(3))
qed

lemma file_blocks_facts:
  assumes "small_file data"
  shows "0 < BlockLength (sum_sizes_sqroot (int (length data)))"
    and "nat (ChecksumCount (sum_sizes_sqroot (int (length data)))) = length (file_blocks data)"
    and "lens_ok (sum_sizes_sqroot (int (length data))) 0 (file_blocks data)"
    and "concat (file_blocks data) = data"
proof -
  let ?n = "int (length data)" and ?sh = "sum_sizes_sqroot (int (length data))"
  let ?b = "BlockLength ?sh"
  have n: "0 \<le> ?n" "?n < 2 ^ 52" using assms by (simp_all add: small_file_def)
  show b: "0 < ?b" using block_length_bounds(1) [OF n] by (simp add: blockSize_def)
  then have bn: "int (nat ?b) = ?b" "0 < nat ?b" by simp_all
  have "int (length (file_blocks data)) = (?n + (?b - 1)) div ?b"
    unfolding file_blocks_def length_chunks [OF bn(2)] using b
    by (simp add: zdiv_int of_nat_diff bn(1) add_diff_eq)
  then have count: "ChecksumCount ?sh = 0 + int (length (file_blocks data))"
    by (simp add: checksum_count(1) [OF n])
  then show "nat (ChecksumCount ?sh) = length (file_blocks data)" by simp
  have "RemainderLength ?sh = int (length data mod nat ?b)"
    using b by (simp add: checksum_count(4) [OF n] zmod_int)
  then show "lens_ok ?sh 0 (file_blocks data)"
    using count using b unfolding file_blocks_def by (intro lens_ok_chunks) simp_all
  show "concat (file_blocks data) = data"
    unfolding file_blocks_def by (rule concat_chunks [OF bn(2)])
qed

lemma generate_out:
  assumes "small_file data" "c_budget w = None"
  shows "\<exists>v. generate_and_send_sums md4 seed data (int (length data)) w = (Inr (), w\<lparr>c_out := v\<rparr>) \<and>
           concat v = out_bytes w @ head_bytes (sum_sizes_sqroot (int (length data))) @
                      concat (map (sum_bytes md4 seed) (file_blocks data))"
proof -
  let ?sh = "sum_sizes_sqroot (int (length data))"
  note f = file_blocks_facts [OF assms(1)]
  let ?w = "w\<lparr>c_out := c_out w @ [head_bytes ?sh]\<rparr>"
  from sums_loop_out [of ?w ?sh md4 seed data] assms(2) f(1) obtain v where
    "sums_loop md4 seed ?sh (length (file_blocks data)) (int (length data)) data ?w = (Inr (), ?w\<lparr>c_out := v\<rparr>)"
    "concat v = out_bytes w @ head_bytes ?sh @ concat (map (sum_bytes md4 seed) (file_blocks data))"
    by (auto simp: file_blocks_def out_bytes_def)
  then show ?thesis
    using assms(2) by (intro exI [of _ v]) (simp add: generate_and_send_sums_def Let_def run f(2))
qed

lemma receive_sums_of:
  assumes "\<forall>x. length (md4 x) = 16" "small_file data"
    and c: "c_in c = head_bytes (sum_sizes_sqroot (int (length data))) @
                      concat (map (sum_bytes md4 seed) (file_blocks data)) @ r"
  shows "receive_sums c = (Inr (sums_of md4 seed data), c\<lparr>c_in := r\<rparr>)"
proof -
  let ?sh = "sum_sizes_sqroot (int (length data))"
  let ?sums = "concat (map (sum_bytes md4 seed) (file_blocks data))"
  note f = file_blocks_facts [OF assms(2)]
  have ok: "head_ok ?sh" using assms(2) by (intro head_ok_sqroot) (simp_all add: small_file_def)
  have "?sh\<lparr>Sums := []\<rparr> = ?sh" by (simp add: sum_sizes_sqroot_def Let_def)
  then have "read_from c = (Inr ?sh, c\<lparr>c_in := ?sums @ r\<rparr>)"
    using read_from_head [OF ok c] by simp
  moreover have "receive_loop ?sh (length (file_blocks data)) 0 0 [] (c\<lparr>c_in := ?sums @ r\<rparr>) =
      (Inr ([] @ bufs md4 seed 0 0 (file_blocks data)), c\<lparr>c_in := ?sums @ r\<rparr>\<lparr>c_in := r\<rparr>)"
    by (rule receive_loop_sums [OF assms(1) _ f(3)]) (simp_all add: sum_sizes_fields)
  ultimately show ?thesis by (simp add: receive_sums_def run f(2) sums_of_def)
qed

text \<open>
  C19: what the generator sends about the file it has, \<open>receiveSums\<close> reads as exactly one
  \<open>SumBuf\<close> per block: the head of the file's size, the blocks in order with their offsets and
  lengths, each with the rolling and the strong checksum of its bytes; nothing of what follows
  in the stream is consumed.
\<close>

theorem block_sums_roundtrip:
  assumes "\<forall>x. length (md4 x) = 16" "small_file data" "c_budget w = None" "c_out w = []"
    and "c_in c = out_bytes (snd (generate_and_send_sums md4 seed data (int (length data)) w)) @ r"
  shows "receive_sums c = (Inr (sums_of md4 seed data), c\<lparr>c_in := r\<rparr>)"
proof -
  obtain v where "generate_and_send_sums md4 seed data (int (length data)) w = (Inr (), w\<lparr>c_out := v\<rparr>)"
    and v: "concat v = out_bytes w @ head_bytes (sum_sizes_sqroot (int (length data))) @
                      concat (map (sum_bytes md4 seed) (file_blocks data))"
    using generate_out [OF assms(2,3)] by blast
  then show ?thesis
    by (intro receive_sums_of [OF assms(1,2)]) (simp add: assms(4,5) out_bytes_def)
qed

definition sample_data :: "byte list" where "sample_data = replicate 703 1 @ [2]"

definition toy_md4 :: "byte list \<Rightarrow> byte list" where
  "toy_md4 bs = le_bytes 16 (le_val bs)"

theorem block_sums_roundtrip_witness:
  "receive_sums (mux_conn_of (out_bytes (snd (generate_and_send_sums toy_md4 7 sample_data
      (int (length sample_data)) (mux_conn_of []))) @ [9]))
     = (Inr (sums_of toy_md4 7 sample_data), mux_conn_of [9])"
proof -
  have "receive_sums (mux_conn_of (out_bytes (snd (generate_and_send_sums toy_md4 7 sample_data
      (int (length sample_data)) (mux_conn_of []))) @ [9]))
     = (Inr (sums_of toy_md4 7 sample_data), (mux_conn_of (out_bytes (snd (generate_and_send_sums toy_md4 7 sample_data
      (int (length sample_data)) (mux_conn_of []))) @ [9]))\<lparr>c_in := [9]\<rparr>)"
    by (rule block_sums_roundtrip [where w = "mux_conn_of []" and data = sample_data])
      (simp_all add: toy_md4_def small_file_def sample_data_def mux_conn_of_def)
  then show ?thesis by (simp add: mux_conn_of_def)
qed

subsection \<open>What \<open>receiveSums\<close> accepts\<close>

fun bufs_ok :: "sum_head \<Rightarrow> int \<Rightarrow> sum_buf list \<Rightarrow> bool" where
  "bufs_ok head i [] \<longleftrightarrow> True"
| "bufs_ok head i (sb # sbs) \<longleftrightarrow>
     Offset sb = i * BlockLength head \<and> Len sb = block_len head i \<and> Index sb = i \<and>
     length (Sum2 sb) = 16 \<and> bufs_ok head (i + 1) sbs"

definition sums_wf :: "sum_head \<Rightarrow> bool" where
  "sums_wf head \<longleftrightarrow> head_ok head \<and> bufs_ok head 0 (Sums head) \<and>
     int (length (Sums head)) = ChecksumCount head \<and>
     (Sums head \<noteq> [] \<longrightarrow> ChecksumLength head \<le> 16)"

lemma bufs_ok_append:
  "bufs_ok head i (xs @ ys) \<longleftrightarrow> bufs_ok head i xs \<and> bufs_ok head (i + int (length xs)) ys"
  by (induction xs arbitrary: i) (simp_all add: add_ac)

lemma bufs_ok_nth:
  "bufs_ok head i sbs \<Longrightarrow> k < length sbs \<Longrightarrow>
     Offset (sbs ! k) = (i + int k) * BlockLength head \<and> Len (sbs ! k) = block_len head (i + int k) \<and>
     Index (sbs ! k) = i + int k \<and> length (Sum2 (sbs ! k)) = 16"
proof (induction sbs arbitrary: i k)
  case (Cons sb sbs)
  show ?case
  proof (cases k)
    case (Suc j)
    with Cons.IH [of "i + 1" j] Cons.prems show ?thesis by (simp add: add_ac)
  qed (use Cons in simp)
qed simp

lemma receive_loop_ok:
  assumes "receive_loop head n i off acc c = (Inr sbs, c')" "bufs_ok head 0 acc"
    and "i = int (length acc)" "off = i * BlockLength head" "0 \<le> ChecksumLength head"
    and "i + int n = ChecksumCount head" "acc \<noteq> [] \<longrightarrow> ChecksumLength head \<le> 16"
  shows "bufs_ok head 0 sbs \<and> length sbs = length acc + n \<and> (sbs \<noteq> [] \<longrightarrow> ChecksumLength head \<le> 16)"
  using assms
proof (induction n arbitrary: i off acc c)
  case 0
  then show ?case by (simp add: ret_def)
next
  case (Suc n)
  obtain x c1 s2 c2 where clen: "ChecksumLength head \<le> 16"
    and s2: "read_full (nat (ChecksumLength head)) c1 = (Inr s2, c2)"
    and nxt: "receive_loop head n (i + 1) (off + block_len head i)
        (acc @ [\<lparr>Offset = off, Len = block_len head i, Index = i, Sum1 = word_of_int x,
                 Sum2 = s2 @ replicate (16 - length s2) 0\<rparr>]) c2 = (Inr sbs, c')"
    using Suc.prems(1)
    by (auto simp: bnd_eq_Inr Let_def throw_def block_len_def split: if_splits)
  have l: "length s2 \<le> 16" using s2 clen by (auto simp: read_full_Inr)
  show ?case
  proof (cases n)
    case 0
    then have "sbs = acc @ [\<lparr>Offset = off, Len = block_len head i, Index = i, Sum1 = word_of_int x,
                 Sum2 = s2 @ replicate (16 - length s2) 0\<rparr>]"
      using nxt by (simp add: ret_def)
    then show ?thesis using Suc.prems clen l 0 by (simp add: bufs_ok_append)
  next
    case (Suc m)
    have len: "block_len head i = BlockLength head"
      using Suc Suc.prems(6) by (simp add: block_len_def)
    have "bufs_ok head 0 sbs \<and>
        length sbs = length (acc @ [\<lparr>Offset = off, Len = block_len head i, Index = i, Sum1 = word_of_int x,
                 Sum2 = s2 @ replicate (16 - length s2) 0\<rparr>]) + n \<and>
        (sbs \<noteq> [] \<longrightarrow> ChecksumLength head \<le> 16)"
      by (rule Suc.IH [OF nxt]) (use Suc.prems clen l in \<open>simp_all add: bufs_ok_append len [unfolded Suc.prems(3)] distrib_right\<close>)
    then show ?thesis by simp
  qed
qed

lemma receive_sums_wf: "receive_sums c = (Inr head, c') \<Longrightarrow> sums_wf head"
proof -
  assume "receive_sums c = (Inr head, c')"
  then obtain h c1 sbs where h: "read_from c = (Inr h, c1)"
    and l: "receive_loop h (nat (ChecksumCount h)) 0 0 [] c1 = (Inr sbs, c')"
    and head: "head = h\<lparr>Sums := sbs\<rparr>"
    by (auto simp: receive_sums_def bnd_eq_Inr ret_def)
  have ok: "head_ok h" using read_from_ok [OF h] ..
  then have "bufs_ok h 0 sbs \<and> length sbs = length ([] :: sum_buf list) + nat (ChecksumCount h) \<and>
      (sbs \<noteq> [] \<longrightarrow> ChecksumLength h \<le> 16)"
    by (intro receive_loop_ok [OF l]) (simp_all add: head_ok_def)
  moreover have "bufs_ok (h\<lparr>Sums := sbs\<rparr>) i xs = bufs_ok h i xs" for i xs
    by (induction xs arbitrary: i) (simp_all add: block_len_def)
  ultimately show ?thesis
    using ok by (simp add: sums_wf_def head head_ok_def)
qed

lemma safe_receive_loop: "ChecksumLength head \<le> 16 \<Longrightarrow> safe (receive_loop head n i off acc)"
  by (induction n arbitrary: i off acc) (auto simp: Let_def intro!: safe_intro)

text \<open>
  \<open>receiveSums\<close> panics on exactly one kind of input a peer can send: a head that announces
  at least one block and a strong checksum longer than the 16 bytes of \<open>SumBuf.Sum2\<close> (which
  \<open>ReadFrom\<close> admits up to 32), followed by the first block's rolling checksum.
\<close>

theorem receive_sums_panic_iff:
  assumes "read_from c = (Inr head, c1)"
  shows "(\<exists>e c'. receive_sums c = (Inl e, c') \<and> fatal e) \<longleftrightarrow>
           16 < ChecksumLength head \<and> 0 < ChecksumCount head \<and> 4 \<le> length (c_in c1)"
proof (cases "16 < ChecksumLength head \<and> 0 < ChecksumCount head")
  case True
  then obtain n where n: "nat (ChecksumCount head) = Suc n"
    by (metis gr0_implies_Suc zero_less_nat_eq)
  show ?thesis
  proof (cases "4 \<le> length (c_in c1)")
    case len: True
    then obtain x c2 where "read_int32 c1 = (Inr x, c2)" by (simp add: read_int32_Inr)
    then have "receive_sums c = (Inl (Panic ''slice bounds out of range''), c2)"
      using True by (simp add: receive_sums_def assms run n Let_def)
    with True len show ?thesis by auto
  next
    case False
    then have "receive_sums c = (Inl (if c_in c1 = [] then EOF else UnexpectedEOF), c1\<lparr>c_in := []\<rparr>)"
      by (simp add: receive_sums_def assms run n read_int32_short)
    with False show ?thesis by auto
  qed
next
  case False
  have "safe (receive_loop head (nat (ChecksumCount head)) 0 0 [])"
  proof (cases "ChecksumLength head \<le> 16")
    case True
    then show ?thesis by (rule safe_receive_loop)
  next
    case F: False
    with False have "nat (ChecksumCount head) = 0" by simp
    then show ?thesis by (simp add: safe_ret)
  qed
  then have "safe (bnd (receive_loop head (nat (ChecksumCount head)) 0 0 []) (\<lambda>sums. ret (head\<lparr>Sums := sums\<rparr>)))"
    by (intro safe_intro)
  moreover have "receive_sums c =
      bnd (receive_loop head (nat (ChecksumCount head)) 0 0 []) (\<lambda>sums. ret (head\<lparr>Sums := sums\<rparr>)) c1"
    by (simp add: receive_sums_def assms run)
  ultimately show ?thesis using False by (auto dest: safeD)
qed

theorem receive_sums_panic_iff_witness:
  "\<exists>e c'. receive_sums (mux_conn_of (head_bytes \<lparr>ChecksumCount = 1, BlockLength = 700,
      ChecksumLength = 20, RemainderLength = 0, Sums = []\<rparr> @ replicate 24 0)) = (Inl e, c') \<and> fatal e"
proof -
  let ?h = "\<lparr>ChecksumCount = 1, BlockLength = 700, ChecksumLength = 20, RemainderLength = 0, Sums = []\<rparr>"
  let ?c = "mux_conn_of (head_bytes ?h @ replicate 24 0)"
  have "read_from ?c = (Inr (?h\<lparr>Sums := []\<rparr>), ?c\<lparr>c_in := replicate 24 0\<rparr>)"
    by (rule read_from_head) (simp_all add: head_ok_simps mux_conn_of_def)
  from receive_sums_panic_iff [OF this] show ?thesis by simp
qed

lemma sums_wf_sums_of:
  assumes "\<forall>x. length (md4 x) = 16" "small_file data"
  shows "sums_wf (sums_of md4 seed data)"
proof -
  let ?c = "mux_conn_of (head_bytes (sum_sizes_sqroot (int (length data))) @
                      concat (map (sum_bytes md4 seed) (file_blocks data)))"
  have "receive_sums ?c = (Inr (sums_of md4 seed data), ?c\<lparr>c_in := []\<rparr>)"
    by (rule receive_sums_of [OF assms]) (simp add: mux_conn_of_def)
  then show ?thesis by (rule receive_sums_wf)
qed

lemma sums_of_facts:
  assumes "small_file data"
  shows "0 < BlockLength (sums_of md4 seed data)" "Sums (sums_of md4 seed data) = [] \<longleftrightarrow> data = []"
proof -
  note f = file_blocks_facts [OF assms]
  show "0 < BlockLength (sums_of md4 seed data)" using f(1) by (simp add: sums_of_def)
  have "bufs md4 seed 0 0 bs = [] \<longleftrightarrow> bs = []" for bs by (cases bs) simp_all
  moreover have "file_blocks data = [] \<longleftrightarrow> data = []"
    using f(1) by (auto simp: file_blocks_def chunks.simps)
  ultimately show "Sums (sums_of md4 seed data) = [] \<longleftrightarrow> data = []" by (simp add: sums_of_def)
qed

lemma bufs_nth:
  "k < length bs \<Longrightarrow> bufs md4 seed off i bs ! k =
     \<lparr>Offset = off + int (length (concat (take k bs))), Len = int (length (bs ! k)), Index = i + int k,
      Sum1 = checksum1 (bs ! k), Sum2 = checksum2 md4 seed (bs ! k)\<rparr>"
proof (induction bs arbitrary: k off i)
  case (Cons b bs)
  then show ?case by (cases k) (simp_all add: add_ac)
qed simp

lemma length_bufs [simp]: "length (bufs md4 seed off i bs) = length bs"
  by (induction bs arbitrary: off i) simp_all

lemma concat_split: "k < length bs \<Longrightarrow> concat bs = concat (take k bs) @ bs ! k @ concat (drop (Suc k) bs)"
  by (metis concat.simps(2) concat_append id_take_nth_drop)

text \<open>The block of index \<open>k\<close> in the old file, as the receiver addresses it.\<close>

lemma sums_of_block:
  assumes "\<forall>x. length (md4 x) = 16" "small_file old" "k < length (Sums (sums_of md4 seed old))"
  shows "Offset (Sums (sums_of md4 seed old) ! k) = int k * BlockLength (sums_of md4 seed old)"
    and "Offset (Sums (sums_of md4 seed old) ! k) + Len (Sums (sums_of md4 seed old) ! k) \<le> int (length old)"
    and "Len (Sums (sums_of md4 seed old) ! k) = block_len (sums_of md4 seed old) (int k)"
proof -
  let ?h = "sums_of md4 seed old"
  have "sums_wf ?h" by (rule sums_wf_sums_of [OF assms(1,2)])
  then have "bufs_ok ?h 0 (Sums ?h)" by (simp add: sums_wf_def)
  from bufs_ok_nth [OF this assms(3)]
  show "Offset (Sums ?h ! k) = int k * BlockLength ?h" "Len (Sums ?h ! k) = block_len ?h (int k)" by simp_all
  have k: "k < length (file_blocks old)" using assms(3) by (simp add: sums_of_def)
  have "length old = length (concat (take k (file_blocks old))) + length (file_blocks old ! k) +
      length (concat (drop (Suc k) (file_blocks old)))"
    using concat_split [OF k] file_blocks_facts(4) [OF assms(2)] by (metis add.assoc length_append)
  then show "Offset (Sums ?h ! k) + Len (Sums ?h ! k) \<le> int (length old)"
    using k by (simp add: sums_of_def bufs_nth)
qed

end
