(* ===== verification/Tokens.thy ===== *)
theory Tokens
  imports Blocks
begin

text \<open>
  The token stream between sender and receiver, stated independently of either: literal data,
  references to blocks of the old file, and the zero token that ends a file.  \<open>explains\<close> is
  what the stream promises about the file it encodes.
\<close>

datatype token = Data "byte list" | Match int

definition chunkSize :: int where "chunkSize = 32 * 1024"

fun token_bytes :: "token \<Rightarrow> byte list" where
  "token_bytes (Data bs) = le_bytes 4 (int (length bs)) @ bs"
| "token_bytes (Match i) = le_bytes 4 (- (i + 1))"

definition tokens_bytes :: "token list \<Rightarrow> byte list" where
  "tokens_bytes ts = concat (map token_bytes ts)"

definition end_token :: "byte list" where "end_token = le_bytes 4 0"

lemma tokens_bytes_simps [simp]:
  "tokens_bytes [] = []" "tokens_bytes (t # ts) = token_bytes t @ tokens_bytes ts"
  "tokens_bytes (ts @ us) = tokens_bytes ts @ tokens_bytes us"
  by (simp_all add: tokens_bytes_def)

text \<open>A block of the file that carries the sums the receiver sent for one of its blocks.\<close>

definition block_matches ::
  "(byte list \<Rightarrow> byte list) \<Rightarrow> int \<Rightarrow> sum_head \<Rightarrow> sum_buf \<Rightarrow> byte list \<Rightarrow> bool" where
  "block_matches md4 seed head sb b \<longleftrightarrow>
     Sum1 sb = checksum1 b \<and> Len sb = int (length b) \<and>
     take (nat (ChecksumLength head)) (checksum2 md4 seed b) =
       take (nat (ChecksumLength head)) (Sum2 sb)"

text \<open>The tokens describe \<open>data\<close> from \<open>pos\<close> to \<open>fin\<close>, without gaps or overlaps.\<close>

fun explains ::
  "(byte list \<Rightarrow> byte list) \<Rightarrow> int \<Rightarrow> sum_head \<Rightarrow> byte list \<Rightarrow> int \<Rightarrow> token list \<Rightarrow> int \<Rightarrow> bool" where
  "explains md4 seed head data pos [] fin \<longleftrightarrow> pos = fin"
| "explains md4 seed head data pos (Data bs # ts) fin \<longleftrightarrow>
     bs \<noteq> [] \<and> int (length bs) \<le> 256 * 1024 \<and> pos + int (length bs) \<le> int (length data) \<and>
     slice pos (int (length bs)) data = bs \<and>
     explains md4 seed head data (pos + int (length bs)) ts fin"
| "explains md4 seed head data pos (Match i # ts) fin \<longleftrightarrow>
     0 \<le> i \<and> i < int (length (Sums head)) \<and>
     (let sb = Sums head ! nat i in
      pos + Len sb \<le> int (length data) \<and>
      block_matches md4 seed head sb (slice pos (Len sb) data) \<and>
      explains md4 seed head data (pos + Len sb) ts fin)"

lemma explains_append:
  "explains md4 seed head data pos (ts @ us) fin \<longleftrightarrow>
     (\<exists>mid. explains md4 seed head data pos ts mid \<and> explains md4 seed head data mid us fin)"
  by (induction md4 seed head data pos ts fin rule: explains.induct) (auto simp: Let_def)

lemma explains_trans:
  "explains md4 seed head data pos ts mid \<Longrightarrow> explains md4 seed head data mid us fin \<Longrightarrow>
     explains md4 seed head data pos (ts @ us) fin"
  by (auto simp: explains_append)

lemma explains_Data:
  assumes "0 \<le> pos" "0 < n" "n \<le> 256 * 1024" "pos + n \<le> int (length data)"
  shows "explains md4 seed head data pos [Data (slice pos n data)] (pos + n)"
proof -
  have "length (slice pos n data) = nat n" using assms by simp
  moreover from this assms(2) have "slice pos n data \<noteq> []" by force
  ultimately show ?thesis using assms by simp
qed

end
