(* ===== verification/File_Modes.thy ===== *)
theory File_Modes
  imports Prelude
begin

text \<open>
  \<open>consts.go\<close>: the bits of a mode and of the flags of a file list entry on the wire, and the bits
  of Go's \<open>fs.FileMode\<close>.
\<close>

subsection \<open>Mode bits\<close>

definition S_IFMT :: int where "S_IFMT = 0xF000"
definition S_IFDIR :: int where "S_IFDIR = 0x4000"
definition S_IFCHR :: int where "S_IFCHR = 0x2000"
definition S_IFBLK :: int where "S_IFBLK = 0x6000"
definition S_IFREG :: int where "S_IFREG = 0x8000"
definition S_IFIFO :: int where "S_IFIFO = 0x1000"
definition S_IFLNK :: int where "S_IFLNK = 0xA000"
definition S_IFSOCK :: int where "S_IFSOCK = 0xC000"

definition ModePerm :: int where "ModePerm = 0x1FF"
definition S_IWUSR :: int where "S_IWUSR = 0x80"

lemmas mode_bits = S_IFMT_def S_IFDIR_def S_IFCHR_def S_IFBLK_def S_IFREG_def S_IFIFO_def
  S_IFLNK_def S_IFSOCK_def ModePerm_def S_IWUSR_def

definition type_of :: "int \<Rightarrow> int" where
  "type_of mode = mode AND S_IFMT"

definition is_dev :: "int \<Rightarrow> bool" where
  "is_dev mode \<longleftrightarrow> type_of mode = S_IFCHR \<or> type_of mode = S_IFBLK"

definition is_special :: "int \<Rightarrow> bool" where
  "is_special mode \<longleftrightarrow> type_of mode = S_IFIFO \<or> type_of mode = S_IFSOCK"

subsection \<open>\<open>fs.FileMode\<close>\<close>

text \<open>The type bits of \<open>fs.FileMode\<close>.\<close>

definition ModeDir :: int where "ModeDir = 2 ^ 31"
definition ModeSymlink :: int where "ModeSymlink = 2 ^ 27"
definition ModeDevice :: int where "ModeDevice = 2 ^ 26"
definition ModeNamedPipe :: int where "ModeNamedPipe = 2 ^ 25"
definition ModeSocket :: int where "ModeSocket = 2 ^ 24"
definition ModeCharDevice :: int where "ModeCharDevice = 2 ^ 21"
definition ModeIrregular :: int where "ModeIrregular = 2 ^ 19"

lemmas go_mode_bits = ModeDir_def ModeSymlink_def ModeDevice_def ModeNamedPipe_def ModeSocket_def
  ModeCharDevice_def ModeIrregular_def

definition ModeType :: int where
  "ModeType = ModeDir OR ModeSymlink OR ModeNamedPipe OR ModeSocket OR ModeDevice OR ModeCharDevice OR
     ModeIrregular"

definition is_regular :: "int \<Rightarrow> bool" where
  "is_regular mode \<longleftrightarrow> mode AND ModeType = 0"

subsection \<open>Flags of a file list entry\<close>

definition XMIT_TOP_DIR :: int where "XMIT_TOP_DIR = 1"
definition XMIT_SAME_MODE :: int where "XMIT_SAME_MODE = 2"
definition XMIT_SAME_RDEV_pre28 :: int where "XMIT_SAME_RDEV_pre28 = 4"
definition XMIT_SAME_UID :: int where "XMIT_SAME_UID = 8"
definition XMIT_SAME_GID :: int where "XMIT_SAME_GID = 16"
definition XMIT_SAME_NAME :: int where "XMIT_SAME_NAME = 32"
definition XMIT_LONG_NAME :: int where "XMIT_LONG_NAME = 64"
definition XMIT_SAME_TIME :: int where "XMIT_SAME_TIME = 128"

lemmas xmit_flags = XMIT_TOP_DIR_def XMIT_SAME_MODE_def XMIT_SAME_RDEV_pre28_def XMIT_SAME_UID_def
  XMIT_SAME_GID_def XMIT_SAME_NAME_def XMIT_LONG_NAME_def XMIT_SAME_TIME_def

end
