(* ===== verification/Dest.thy ===== *)
theory Dest
  imports Varint Go_Strings Tokens File_Modes
begin

text \<open>
  The receiving side's state: the connection, the destination tree behind \<open>DestRoot\<close>
  (\<open>os.Root\<close>) or a \<open>WritableFS\<close>, and the fields of \<open>receiver.Transfer\<close> that change.

  The tree maps cleaned relative names to nodes.  What the operating system decides is part of
  the state and constant: \<open>rt_deny op name\<close> says that it refuses an operation, \<open>rt_new\<close> gives
  the attributes of a newly created entry, \<open>rt_link\<close> the file a name with symbolic links leads
  to, \<open>rt_readdir\<close> the entries of a directory in order, each with whether it is a directory,
  \<open>rt_lookup\<close> the \<open>Uid\<close> of a user or the \<open>Gid\<close> of a group (\<open>user.Lookup\<close>, \<open>user.LookupGroup\<close>).
  The atomic replacement of \<open>renameio\<close> and \<open>unix.Mknodat\<close> are third-party code: they are
  the parameters \<open>rt_replace\<close> and \<open>rt_mknod\<close>, and what is relied on of the first is
  \<open>atomic_replace\<close>.  \<open>rt_temps\<close> are the temporary files of a \<open>WritableFS\<close> that exist, and
  \<open>rt_temp\<close> is the name its \<open>CreateTemp\<close> gives to the next one; the temporary files of \<open>renameio\<close>
  are its own and gone when it returns.
\<close>

datatype node_kind = KReg "byte list" | KDir | KLink string | KChr | KBlk | KFifo | KSock

record node =
  n_kind :: node_kind
  n_perm :: int
  n_mtime :: time
  n_uid :: int
  n_gid :: int

type_synonym tree = "string \<Rightarrow> node option"

text \<open>\<open>receiver.File\<close>, an entry of the file list.\<close>

record rfile =
  Name :: string
  Length :: int
  ModTime :: time
  Mode :: int
  Uid :: int
  Gid :: int
  LinkTarget :: string
  Rdev :: int
  FChecksum :: "byte list"

text \<open>What the receiver prints: a line of a listing, a name, or a formatted message.\<close>

datatype out_line = ListLine rfile | NameLine string | Message string "fmt_arg list"

text \<open>\<open>mapping\<close> of \<open>uidlist.go\<close>: the name of a remote id and the local id of that name.\<close>

record id_mapping =
  im_Name :: string
  im_LocalId :: int

record recv = conn +
  rt_fs :: tree
  rt_out :: "out_line list"
  IOErrors :: int
  rt_Users :: "int \<rightharpoonup> id_mapping"
  rt_Groups :: "int \<rightharpoonup> id_mapping"
  rt_lookup :: "bool \<Rightarrow> string \<Rightarrow> string option"
  retouchDirPerms :: bool
  rt_deny :: "string \<Rightarrow> string \<Rightarrow> bool"
  rt_new :: "node_kind \<Rightarrow> int \<Rightarrow> node"
  rt_link :: "string \<Rightarrow> string option"
  rt_replace :: "tree \<Rightarrow> string \<Rightarrow> node \<Rightarrow> go_error + tree"
  rt_mknod :: "tree \<Rightarrow> string \<Rightarrow> node_kind \<Rightarrow> int \<Rightarrow> int \<Rightarrow> go_error + tree"
  rt_readdir :: "tree \<Rightarrow> string \<Rightarrow> go_error + (string \<times> bool) list"
  rt_temps :: "string list"
  rt_temp :: "string list \<Rightarrow> string"

text \<open>
  \<open>receiver.TransferOpts\<close> with the fields of \<open>Transfer\<close> that configure it.  \<open>SysStat\<close> says
  whether \<open>Sys()\<close> of a \<open>WritableFS\<close>'s \<open>FileInfo\<close> is a \<open>*syscall.Stat_t\<close>, \<open>HasRoot\<close> and
  \<open>HasStdout\<close> whether \<open>DestRoot\<close> and \<open>Env.Stdout\<close> are set.
\<close>

record recv_opts =
  DryRun :: bool
  Server :: bool
  Progress :: bool
  DeleteMode :: bool
  PreserveGid :: bool
  PreserveUid :: bool
  PreserveLinks :: bool
  PreservePerms :: bool
  PreserveDevices :: bool
  PreserveTimes :: bool
  IgnoreTimes :: bool
  SizeOnly :: bool
  AlwaysChecksum :: bool
  WholeFile :: bool
  WritableFS :: bool
  SysStat :: bool
  HasRoot :: bool
  HasStdout :: bool
  DestName :: string
  amRoot :: bool
  inGroup :: "int \<Rightarrow> bool"

text \<open>\<open>uint32(x)\<close> of an \<open>int32\<close>.\<close>

definition u32_of :: "int \<Rightarrow> int" where
  "u32_of x = x mod 2 ^ 32"

subsection \<open>Operations on the destination\<close>

text \<open>A name escapes when a \<open>..\<close> leads above the root.\<close>

fun climbs :: "nat \<Rightarrow> string list \<Rightarrow> bool" where
  "climbs d [] \<longleftrightarrow> False"
| "climbs d (w # ws) \<longleftrightarrow>
     (if w = ''..'' then (case d of 0 \<Rightarrow> True | Suc d' \<Rightarrow> climbs d' ws)
      else if w = '''' \<or> w = ''.'' then climbs d ws
      else climbs (Suc d) ws)"

definition escapes :: "string \<Rightarrow> bool" where
  "escapes name \<longleftrightarrow> name = [] \<or> has_prefix name ''/'' \<or> climbs 0 (split_on (CHR ''/'') name)"

definition nil_root :: go_error where
  "nil_root = Panic ''invalid memory address or nil pointer dereference''"

definition print_out :: "recv_opts \<Rightarrow> out_line \<Rightarrow> (unit, recv) act" where
  "print_out opts line s =
     (if HasStdout opts then (Inr (), s\<lparr>rt_out := rt_out s @ [line]\<rparr>) else (Inl nil_root, s))"

definition fs_check :: "recv_opts \<Rightarrow> string \<Rightarrow> string \<Rightarrow> (unit, recv) act" where
  "fs_check opts operation name s =
     (if \<not> HasRoot opts then (Inl nil_root, s)
      else if escapes name then (Inl (PathError ''path escapes from parent''), s)
      else if rt_deny s operation name then (Inl (PathError operation), s)
      else (Inr (), s))"

definition fs_get :: "string \<Rightarrow> (node, recv) act" where
  "fs_get name s = (case rt_fs s name of None \<Rightarrow> (Inl (NotExist name), s) | Some nd \<Rightarrow> (Inr nd, s))"

definition fs_set :: "string \<Rightarrow> node option \<Rightarrow> (unit, recv) act" where
  "fs_set name nd = modify (\<lambda>s. s\<lparr>rt_fs := (rt_fs s)(name := nd)\<rparr>)"

definition fs_lstat :: "recv_opts \<Rightarrow> string \<Rightarrow> (node, recv) act" where
  "fs_lstat opts name = bnd (fs_check opts ''lstat'' name) (\<lambda>_. fs_get name)"

definition below :: "string \<Rightarrow> string \<Rightarrow> bool" where
  "below dir name \<longleftrightarrow> (if dir = ''.'' then name \<noteq> ''.'' else has_prefix name (dir @ ''/''))"

text \<open>\<open>Remove\<close> unlinks anything but a directory that still has entries.\<close>

definition fs_unlink :: "string \<Rightarrow> node \<Rightarrow> (unit, recv) act" where
  "fs_unlink name nd s =
     (if n_kind nd = KDir \<and> rt_readdir s (rt_fs s) name \<noteq> Inr [] then (Inl (PathError ''unlinkat''), s)
      else fs_set name None s)"

definition fs_remove :: "recv_opts \<Rightarrow> string \<Rightarrow> (unit, recv) act" where
  "fs_remove opts name =
     bnd (fs_check opts ''unlink'' name) (\<lambda>_.
     bnd (fs_get name) (\<lambda>nd.
     fs_unlink name nd))"

definition fs_remove_all :: "recv_opts \<Rightarrow> string \<Rightarrow> (unit, recv) act" where
  "fs_remove_all opts name =
     bnd (fs_check opts ''unlink'' name) (\<lambda>_.
     modify (\<lambda>s. s\<lparr>rt_fs := (\<lambda>n. if n = name \<or> below name n then None else rt_fs s n)\<rparr>))"

definition fs_chmod :: "recv_opts \<Rightarrow> string \<Rightarrow> int \<Rightarrow> (unit, recv) act" where
  "fs_chmod opts name perm =
     bnd (fs_check opts ''chmod'' name) (\<lambda>_.
     bnd (fs_get name) (\<lambda>nd. fs_set name (Some (nd\<lparr>n_perm := perm\<rparr>))))"

text \<open>\<open>Chtimes\<close> of \<open>DestRoot\<close> and of a \<open>WritableFS\<close>; the latter has no root to check.\<close>

definition fs_chtimes :: "recv_opts \<Rightarrow> string \<Rightarrow> time \<Rightarrow> (unit, recv) act" where
  "fs_chtimes opts name t =
     bnd (if WritableFS opts then ret () else fs_check opts ''chtimes'' name) (\<lambda>_.
     bnd (fs_get name) (\<lambda>nd. fs_set name (Some (nd\<lparr>n_mtime := t\<rparr>))))"

definition fs_lchown :: "recv_opts \<Rightarrow> string \<Rightarrow> int \<Rightarrow> int \<Rightarrow> (unit, recv) act" where
  "fs_lchown opts name uid gid =
     bnd (fs_check opts ''lchown'' name) (\<lambda>_.
     bnd (fs_get name) (\<lambda>nd. fs_set name (Some (nd\<lparr>n_uid := uid, n_gid := gid\<rparr>))))"

text \<open>The directories on the way to a name, outermost first, the name itself last.\<close>

definition path_prefixes :: "string \<Rightarrow> string list" where
  "path_prefixes name =
     (let ws = split_on (CHR ''/'') name
      in map (\<lambda>k. join_with (CHR ''/'') (take (Suc k) ws)) [0..<length ws])"

text \<open>A directory, or a symbolic link to one.\<close>

definition is_dir_at :: "recv \<Rightarrow> string \<Rightarrow> node \<Rightarrow> bool" where
  "is_dir_at s name nd \<longleftrightarrow>
     (case n_kind nd of
        KDir \<Rightarrow> True
      | KLink _ \<Rightarrow> (case rt_link s name of
                     None \<Rightarrow> False
                   | Some dest \<Rightarrow> (case rt_fs s dest of None \<Rightarrow> False | Some nd' \<Rightarrow> n_kind nd' = KDir))
      | _ \<Rightarrow> False)"

definition mkdir_one :: "int \<Rightarrow> string \<Rightarrow> (unit, recv) act" where
  "mkdir_one perm name s =
     (case rt_fs s name of
        Some nd \<Rightarrow> (if is_dir_at s name nd then (Inr (), s) else (Inl (PathError ''mkdirat''), s))
      | None \<Rightarrow> (if rt_deny s ''mkdirat'' name then (Inl (PathError ''mkdirat''), s)
                else fs_set name (Some (rt_new s KDir perm)) s))"

definition fs_mkdir_all :: "recv_opts \<Rightarrow> string \<Rightarrow> int \<Rightarrow> (unit, recv) act" where
  "fs_mkdir_all opts name perm =
     bnd (if WritableFS opts then ret () else fs_check opts ''mkdir'' name) (\<lambda>_.
     for_each (mkdir_one perm) (path_prefixes name))"

definition fs_readlink :: "recv_opts \<Rightarrow> string \<Rightarrow> (string, recv) act" where
  "fs_readlink opts name =
     bnd (fs_check opts ''readlink'' name) (\<lambda>_.
     bnd (fs_get name) (\<lambda>nd.
     case n_kind nd of KLink target \<Rightarrow> ret target | _ \<Rightarrow> throw (PathError ''readlink'')))"

text \<open>\<open>Open\<close>, which follows symbolic links below the root.\<close>

definition fs_open :: "recv_opts \<Rightarrow> string \<Rightarrow> (node, recv) act" where
  "fs_open opts name =
     bnd (fs_check opts ''open'' name) (\<lambda>_.
     bnd (fs_get name) (\<lambda>nd.
     case n_kind nd of
       KLink target \<Rightarrow> (\<lambda>s. case rt_link s name of
                             None \<Rightarrow> (Inl (NotExist name), s)
                           | Some dest \<Rightarrow> fs_get dest s)
     | _ \<Rightarrow> ret nd))"

definition atomic_replace :: "(tree \<Rightarrow> string \<Rightarrow> node \<Rightarrow> go_error + tree) \<Rightarrow> bool" where
  "atomic_replace f \<longleftrightarrow>
     (\<forall>fs name nd. case f fs name nd of Inl e \<Rightarrow> \<not> fatal e | Inr fs' \<Rightarrow> fs' = fs(name \<mapsto> nd))"

definition fs_replace :: "string \<Rightarrow> node \<Rightarrow> (unit, recv) act" where
  "fs_replace name nd s =
     (case rt_replace s (rt_fs s) name nd of
        Inl e \<Rightarrow> (Inl e, s)
      | Inr fs' \<Rightarrow> (Inr (), s\<lparr>rt_fs := fs'\<rparr>))"

subsection \<open>Operations touch one name\<close>

text \<open>Everything but the tree stays, and in the tree only \<open>N\<close> may change.\<close>

definition names_rel :: "string set \<Rightarrow> recv \<Rightarrow> recv \<Rightarrow> bool" where
  "names_rel N s t \<longleftrightarrow> (\<forall>n. n \<notin> N \<longrightarrow> rt_fs t n = rt_fs s n) \<and> t = s\<lparr>rt_fs := rt_fs t\<rparr>"

interpretation names: frame "names_rel N" for N
proof
  fix s show "names_rel N s s" by (simp add: names_rel_def)
next
  fix s t u assume st: "names_rel N s t" and tu: "names_rel N t u"
  from tu have "u = t\<lparr>rt_fs := rt_fs u\<rparr>" by (simp add: names_rel_def)
  also from st have "t = s\<lparr>rt_fs := rt_fs t\<rparr>" by (simp add: names_rel_def)
  finally have "u = s\<lparr>rt_fs := rt_fs u\<rparr>" by simp
  with st tu show "names_rel N s u" by (simp add: names_rel_def)
qed

abbreviation only_names :: "string set \<Rightarrow> ('a, recv) act \<Rightarrow> bool" where
  "only_names N m \<equiv> keeps (names_rel N) m"

lemma only_namesD: "only_names N m \<Longrightarrow> m s = (r, t) \<Longrightarrow> n \<notin> N \<Longrightarrow> rt_fs t n = rt_fs s n"
  using keepsD [of "names_rel N"] unfolding names_rel_def by blast

lemma only_names_frame: "only_names N m \<Longrightarrow> m s = (r, t) \<Longrightarrow> t = s\<lparr>rt_fs := rt_fs t\<rparr>"
  using keepsD [of "names_rel N" m s r t] unfolding names_rel_def by (rule conjunct2)

lemma only_names_conn: "only_names N m \<Longrightarrow> m s = (r, t) \<Longrightarrow> c_in t = c_in s \<and> c_out t = c_out s \<and> rt_out t = rt_out s"
proof -
  assume "only_names N m" "m s = (r, t)"
  then have t: "t = s\<lparr>rt_fs := rt_fs t\<rparr>" by (rule only_names_frame)
  show ?thesis using arg_cong [OF t, of c_in] arg_cong [OF t, of c_out] arg_cong [OF t, of rt_out] by simp
qed

lemma only_names_mono: "only_names M m \<Longrightarrow> M \<subseteq> N \<Longrightarrow> only_names N m"
  unfolding keeps_def names_rel_def by blast

lemma only_names_check: "only_names N (fs_check opts opn name)"
  by (simp add: keeps_def names_rel_def fs_check_def)

lemma only_names_get: "only_names N (fs_get name)"
  by (simp add: keeps_def names_rel_def fs_get_def split: option.split)

lemma only_names_set: "name \<in> N \<Longrightarrow> only_names N (fs_set name nd)"
  by (auto simp: keeps_def names_rel_def fs_set_def modify_def)

lemma only_names_unlink: "name \<in> N \<Longrightarrow> only_names N (fs_unlink name nd)"
  using only_names_set [of name N None] names.frame_refl by (simp add: keeps_def fs_unlink_def)

lemmas only_names_intro = names.keep_intro only_names_check only_names_get only_names_set only_names_unlink

lemma only_names_ops:
  assumes "name \<in> N"
  shows "only_names N (fs_lstat opts name)" "only_names N (fs_remove opts name)"
    "only_names N (fs_chmod opts name p)" "only_names N (fs_chtimes opts name t)"
    "only_names N (fs_lchown opts name u g)"
  unfolding fs_lstat_def fs_remove_def fs_chmod_def fs_chtimes_def fs_lchown_def
  by (intro only_names_intro assms)+

end
