(* ===== verification/Receiver.thy ===== *)
theory Receiver
  imports Dest
begin

text \<open>
  \<open>internal/receiver/receiver.go\<close>, \<open>token.go\<close>, \<open>pendingfile.go\<close> and the permission handling of
  \<open>generator.go\<close>/\<open>generatoruid.go\<close>: receiving the files.  A file is written to a pending file
  and replaces the destination only after its checksum has been compared.
\<close>

subsection \<open>Times, owners and permissions\<close>

text \<open>\<open>t.Truncate(time.Second)\<close> drops the nanoseconds.\<close>

definition truncate_second :: "time \<Rightarrow> time" where
  "truncate_second t = t\<lparr>t_nsec := 0\<rparr>"

definition mod_time_equal :: "time \<Rightarrow> time \<Rightarrow> bool" where
  "mod_time_equal a b \<longleftrightarrow> truncate_second a = truncate_second b"

text \<open>\<open>setUid\<close>; \<open>st.Sys().(*syscall.Stat_t)\<close> panics for the \<open>FileInfo\<close> of most \<open>WritableFS\<close>.\<close>

definition set_uid :: "recv_opts \<Rightarrow> rfile \<Rightarrow> node \<Rightarrow> (unit, recv) act" where
  "set_uid opts f st =
     (if WritableFS opts \<and> \<not> SysStat opts then throw (Panic ''interface conversion'') else
      let changeUid = (PreserveUid opts \<and> amRoot opts \<and> n_uid st \<noteq> u32_of (Uid f));
          changeGid = (PreserveGid opts \<and> (amRoot opts \<or> inGroup opts (u32_of (Gid f))) \<and>
                       n_gid st \<noteq> u32_of (Gid f));
          uid = (if changeUid then u32_of (Uid f) else n_uid st);
          gid = (if changeGid then u32_of (Gid f) else n_gid st)
      in if \<not> changeUid \<and> \<not> changeGid then ret ()
         else bnd (fs_lchown opts (Name f) uid gid) (\<lambda>_.
              bnd (fs_lstat opts (Name f)) (\<lambda>_. ret ())))"

text \<open>The \<open>Stat\<close> that \<open>setPerms\<close> and the generator start with: \<open>None\<close> for a nil \<open>FileInfo\<close>.\<close>

definition stat_dest :: "recv_opts \<Rightarrow> string \<Rightarrow> (node option, recv) act" where
  "stat_dest opts name =
     (if WritableFS opts then bnd (fs_get name) (\<lambda>nd. ret (Some nd))
      else if HasRoot opts then bnd (fs_lstat opts name) (\<lambda>nd. ret (Some nd))
      else ret None)"

definition set_perms_of :: "recv_opts \<Rightarrow> rfile \<Rightarrow> int \<Rightarrow> node \<Rightarrow> (unit, recv) act" where
  "set_perms_of opts f mode st =
     (let perm = mode AND ModePerm; typ = mode AND S_IFMT in
      bnd (when_do (PreserveTimes opts \<and> typ \<noteq> S_IFLNK \<and> \<not> mod_time_equal (n_mtime st) (ModTime f))
             (fs_chtimes opts (Name f) (ModTime f))) (\<lambda>_.
      bnd (set_uid opts f st) (\<lambda>_.
      when_do (typ \<noteq> S_IFLNK \<and> HasRoot opts \<and> n_perm st \<noteq> perm)
        (fs_chmod opts (Name f) perm))))"

definition set_perms :: "recv_opts \<Rightarrow> rfile \<Rightarrow> int \<Rightarrow> (unit, recv) act" where
  "set_perms opts f mode =
     (if DryRun opts then ret ()
      else bnd (attempt (stat_dest opts (Name f))) (\<lambda>r.
        case r of
          Inl e \<Rightarrow> if WritableFS opts then ret () else throw e
        | Inr None \<Rightarrow> throw nil_root
        | Inr (Some st) \<Rightarrow> set_perms_of opts f mode st))"

subsection \<open>Receiving the contents of a file\<close>

definition recv_token :: "(int \<times> byte list, 'z conn_scheme) act" where
  "recv_token =
     bnd read_int32 (\<lambda>token.
     if token \<le> 0 then ret (token, [])
     else bnd (read_full (nat token)) (\<lambda>data. ret (token, data)))"

text \<open>\<open>localFile.ReadAt\<close>.\<close>

definition read_at :: "byte list \<Rightarrow> int \<Rightarrow> int \<Rightarrow> go_error + byte list" where
  "read_at old off n =
     (if off < 0 then Inl (PathError ''negative offset'')
      else if n = 0 then Inr []
      else if off + n \<le> int (length old) then Inr (slice off n old) else Inl EOF)"

definition copy_block :: "sum_head \<Rightarrow> rfile \<Rightarrow> byte list option \<Rightarrow> int \<Rightarrow> go_error + byte list" where
  "copy_block sh f localFile tok =
     (case localFile of
        None \<Rightarrow> Inl (Errorf ''BUG: local file %s not open for copying chunk'' [FStr (Name f)])
      | Some old \<Rightarrow>
          let token = i32 (- (tok + 1));
              offset2 = token * BlockLength sh;
              dataLen = (if token = ChecksumCount sh - 1 \<and> RemainderLength sh \<noteq> 0
                         then RemainderLength sh else BlockLength sh)
          in read_at old offset2 dataLen)"

lemma recv_token_shorter: "recv_token s = (Inr x, s') \<Longrightarrow> length (c_in s') < length (c_in s)"
  by (auto simp: recv_token_def bnd_eq_Inr ret_def read_full_Inr read_int32_Inr split: if_splits)

lemma reads_recv_token [reads_intro]: "reads recv_token"
  unfolding recv_token_def by (intro reads_intro)

text \<open>\<open>acc\<close> is what \<open>wr.Write\<close> has put into the pending file and the running MD4 alike.\<close>

function recv_loop :: "sum_head \<Rightarrow> rfile \<Rightarrow> byte list option \<Rightarrow> byte list \<Rightarrow> (byte list, recv) act" where
  "recv_loop sh f localFile acc s =
     (case recv_token s of
        (Inl e, s') \<Rightarrow> (Inl e, s')
      | (Inr (token, data), s') \<Rightarrow>
          if token = 0 then (Inr acc, s')
          else case (if token > 0 then Inr data else copy_block sh f localFile token) of
            Inl e \<Rightarrow> (Inl e, s')
          | Inr piece \<Rightarrow>
              if rt_deny s' ''write'' (Name f) then (Inl (PathError ''write''), s')
              else recv_loop sh f localFile (acc @ piece) s')"
  by pat_completeness auto
termination
  by (relation "measure (\<lambda>(sh, f, lf, acc, s). length (c_in s))") (auto dest!: recv_token_shorter [OF sym])

declare recv_loop.simps [simp del]

text \<open>
  \<open>newPendingFile\<close>: \<open>CreateTemp\<close> of a \<open>WritableFS\<close> adds a temporary file, whose name is kept;
  otherwise the file is one of \<open>renameio\<close>.
\<close>

definition new_pending_file :: "recv_opts \<Rightarrow> rfile \<Rightarrow> (string option, recv) act" where
  "new_pending_file opts f s =
     (if rt_deny s ''create'' (Name f) then (Inl (PathError ''create''), s)
      else if WritableFS opts then
        (let tmp = rt_temp s (rt_temps s) in (Inr (Some tmp), s\<lparr>rt_temps := tmp # rt_temps s\<rparr>))
      else (Inr None, s))"

text \<open>\<open>Cleanup\<close>: the error of \<open>Remove\<close> is ignored.\<close>

definition remove_temp :: "string \<Rightarrow> recv \<Rightarrow> recv" where
  "remove_temp tmp s = (if rt_deny s ''remove'' tmp then s else s\<lparr>rt_temps := remove1 tmp (rt_temps s)\<rparr>)"

definition clean_up :: "string option \<Rightarrow> recv \<Rightarrow> recv" where
  "clean_up pending s = (case pending of None \<Rightarrow> s | Some tmp \<Rightarrow> remove_temp tmp s)"

text \<open>
  The deferred \<open>Cleanup\<close> acts when an error (or a panic) ends the function before
  \<open>CloseAtomicallyReplace\<close>.
\<close>

definition or_clean_up :: "string option \<Rightarrow> ('a, recv) act \<Rightarrow> ('a, recv) act" where
  "or_clean_up pending m s =
     (case m s of
        (Inl e, s') \<Rightarrow> (Inl e, clean_up pending s')
      | (Inr x, s') \<Rightarrow> (Inr x, s'))"

text \<open>
  \<open>CloseAtomicallyReplace\<close>.  After \<open>Rename\<close>, successful or not, \<open>v.f\<close> is nil and the deferred
  \<open>Cleanup\<close> does nothing: the temporary file of a failed \<open>Rename\<close> stays.
\<close>

definition close_atomically_replace :: "string option \<Rightarrow> rfile \<Rightarrow> byte list \<Rightarrow> (unit, recv) act" where
  "close_atomically_replace pending f acc s =
     (let new = rt_new s (KReg acc) 0x180 in
      case pending of
        None \<Rightarrow> fs_replace (Name f) new s
      | Some tmp \<Rightarrow>
          if rt_deny s ''close'' tmp then (Inl (PathError ''close''), remove_temp tmp s)
          else bnd (fs_replace (Name f) new) (\<lambda>_. modify (\<lambda>s. s\<lparr>rt_temps := remove1 tmp (rt_temps s)\<rparr>)) s)"

text \<open>What comes up to the comparison of the checksums: the contents of the pending file.\<close>

definition receive_checked ::
  "(byte list \<Rightarrow> byte list) \<Rightarrow> int \<Rightarrow> sum_head \<Rightarrow> rfile \<Rightarrow> byte list option \<Rightarrow> (byte list, recv) act" where
  "receive_checked md4 seed sh f localFile =
     bnd (recv_loop sh f localFile []) (\<lambda>acc.
     let localSum = md4 (le_bytes 4 seed @ acc) in
     bnd (read_full (length localSum)) (\<lambda>remoteSum.
     if localSum \<noteq> remoteSum then throw (Errorf ''file corruption in %s'' [FStr (Name f)])
     else ret acc))"

definition receive_data ::
  "(byte list \<Rightarrow> byte list) \<Rightarrow> int \<Rightarrow> recv_opts \<Rightarrow> rfile \<Rightarrow> byte list option \<Rightarrow> (unit, recv) act" where
  "receive_data md4 seed opts f localFile =
     bnd read_from (\<lambda>sh.
     bnd (new_pending_file opts f) (\<lambda>pending.
     bnd (or_clean_up pending (receive_checked md4 seed sh f localFile)) (\<lambda>acc.
     bnd (close_atomically_replace pending f acc) (\<lambda>_.
     set_perms opts f (Mode f)))))"

text \<open>
  \<open>openLocalFile\<close> gives the old contents, and the entry: without \<open>-p\<close> it takes over the
  permissions of the existing file.
\<close>

definition open_local_file :: "recv_opts \<Rightarrow> rfile \<Rightarrow> (byte list option \<times> rfile, recv) act" where
  "open_local_file opts f =
     (if WritableFS opts \<or> \<not> HasRoot opts then ret (None, f) else
      bnd (fs_open opts (Name f)) (\<lambda>st.
      case n_kind st of
        KDir \<Rightarrow> throw (Errorf ''%s is a directory'' [FStr (Name f)])
      | KReg old \<Rightarrow>
          ret (Some old, if PreservePerms opts then f else f\<lparr>Mode := n_perm st\<rparr>)
      | _ \<Rightarrow> ret (None, f)))"

definition recv_file1 ::
  "(byte list \<Rightarrow> byte list) \<Rightarrow> int \<Rightarrow> recv_opts \<Rightarrow> rfile \<Rightarrow> (unit, recv) act" where
  "recv_file1 md4 seed opts f =
     (if DryRun opts then
        when_do (\<not> Server opts) (print_out opts (NameLine (Name f)))
      else (\<lambda>s.
        case open_local_file opts f s of
          (Inl e, s') \<Rightarrow> (if fatal e then (Inl e, s') else receive_data md4 seed opts f None s')
        | (Inr (localFile, f'), s') \<Rightarrow> receive_data md4 seed opts f' localFile s'))"

subsection \<open>The loop over the files\<close>

lemma shrinks_only_names: "only_names N m \<Longrightarrow> shrinks m"
  by (rule shrinksI) (simp add: only_names_conn)

lemma only_names_stat_dest: "only_names N (stat_dest opts name)"
  unfolding stat_dest_def fs_lstat_def by (intro only_names_intro)

lemma only_names_set_uid: "only_names {Name f} (set_uid opts f st)"
  unfolding set_uid_def Let_def
  by (intro only_names_intro only_names_ops) simp_all

text \<open>Whatever happens, \<open>setPerms\<close> changes nothing but the entry of its file.\<close>

lemma only_names_set_perms: "only_names {Name f} (set_perms opts f mode)"
proof -
  have "only_names {Name f} (set_perms_of opts f mode st)" for st
    unfolding set_perms_of_def Let_def
    by (intro only_names_intro only_names_ops only_names_set_uid) simp_all
  then have cont: "only_names {Name f} (case r of Inl e \<Rightarrow> if WritableFS opts then ret () else throw e
      | Inr None \<Rightarrow> throw nil_root | Inr (Some st) \<Rightarrow> set_perms_of opts f mode st)" for r
    by (auto simp: names.keep_ret names.keep_throw split: sum.split option.split)
  show ?thesis
    unfolding set_perms_def by (intro only_names_intro only_names_stat_dest cont)
qed

lemma recv_loop_shrinks: "recv_loop sh f lf acc s = (r, s') \<Longrightarrow> length (c_in s') \<le> length (c_in s)"
proof (induction sh f lf acc s arbitrary: r s' rule: recv_loop.induct)
  case (1 sh f lf acc s)
  obtain r1 s1 where r1: "recv_token s = (r1, s1)" by (cases "recv_token s")
  have len: "length (c_in s1) \<le> length (c_in s)"
    using shrinksD [OF shrinks_reads [OF reads_recv_token] r1] .
  show ?case
    using 1(2) r1 len 1(1) [OF r1 [symmetric]]
    by (subst (asm) recv_loop.simps) (fastforce split: sum.splits prod.splits if_splits)
qed

lemma shrinks_set_perms: "shrinks (set_perms opts f mode)"
  by (rule shrinks_only_names [OF only_names_set_perms])

lemma clean_up_conn [simp]: "c_in (clean_up pending s) = c_in s" "rt_fs (clean_up pending s) = rt_fs s"
  by (simp_all add: clean_up_def remove_temp_def split: option.split)

lemma shrinks_or_clean_up: "shrinks m \<Longrightarrow> shrinks (or_clean_up pending m)"
  by (rule shrinksI) (auto simp: or_clean_up_def split: sum.splits prod.splits dest: shrinksD)

lemma shrinks_receive_data: "shrinks (receive_data md4 seed opts f lf)"
proof -
  have loop: "shrinks (recv_loop sh f lf [])" for sh
    by (rule shrinksI) (rule recv_loop_shrinks)
  have np: "shrinks (new_pending_file opts f)" and cl: "shrinks (close_atomically_replace pending f acc)" for pending acc
    by (auto simp: keeps_def shrink_rel_def new_pending_file_def close_atomically_replace_def fs_replace_def
        remove_temp_def Let_def bnd_def modify_def split: sum.split option.split)
  have "shrinks (receive_checked md4 seed sh f lf)" for sh
    unfolding receive_checked_def Let_def
    by (intro shrink.keep_intro loop shrinks_reads [OF reads_read_full])
  then have "shrinks (or_clean_up pending (receive_checked md4 seed sh f lf))" for pending sh
    by (rule shrinks_or_clean_up)
  then show ?thesis
    unfolding receive_data_def
    by (intro shrink.keep_intro np cl shrinks_set_perms shrinks_reads [OF reads_read_from])
qed

lemma shrinks_open_local_file: "shrinks (open_local_file opts f)"
proof -
  have "shrinks (fs_open opts (Name f))"
    by (auto simp: keeps_def shrink_rel_def fs_open_def bnd_def fs_check_def fs_get_def ret_def
        split: node_kind.split option.split prod.split sum.split)
  then show ?thesis
    unfolding open_local_file_def
    by (intro shrink.keep_intro) (auto simp: shrink.keep_intro split: node_kind.split)
qed

lemma recv_file1_shrinks: "recv_file1 md4 seed opts f s = (r, s') \<Longrightarrow> length (c_in s') \<le> length (c_in s)"
proof (cases "DryRun opts")
  case True
  then show "recv_file1 md4 seed opts f s = (r, s') \<Longrightarrow> length (c_in s') \<le> length (c_in s)"
    by (auto simp: recv_file1_def when_do_def ret_def print_out_def split: if_splits)
next
  case False
  assume r: "recv_file1 md4 seed opts f s = (r, s')"
  obtain r1 s1 where o: "open_local_file opts f s = (r1, s1)" by (cases "open_local_file opts f s")
  have "length (c_in s1) \<le> length (c_in s)" by (rule shrinksD [OF shrinks_open_local_file o])
  moreover have "receive_data md4 seed opts f' lf s1 = (r, s') \<Longrightarrow> length (c_in s') \<le> length (c_in s1)" for f' lf
    by (rule shrinksD [OF shrinks_receive_data])
  ultimately show "length (c_in s') \<le> length (c_in s)"
    using r False o by (fastforce simp: recv_file1_def split: sum.splits prod.splits if_splits)
qed

text \<open>
  One turn of the loop of \<open>RecvFiles\<close>, giving the phase to go on with: the index -1 ends the
  first phase, the second -1 the transfer.  An index outside the file list is a Go panic.
\<close>

definition recv_files_step ::
  "(byte list \<Rightarrow> byte list) \<Rightarrow> int \<Rightarrow> recv_opts \<Rightarrow> rfile list \<Rightarrow> int \<Rightarrow> (int option, recv) act" where
  "recv_files_step md4 seed opts fileList phase =
     bnd read_int32 (\<lambda>idx.
     if idx = -1 then ret (if phase = 0 then Some (phase + 1) else None)
     else if idx < 0 \<or> int (length fileList) \<le> idx then throw (Panic ''index out of range'')
     else let f = fileList ! nat idx in
       bnd (when_do (Progress opts) (print_out opts (NameLine (Name f)))) (\<lambda>_.
       bnd (recv_file1 md4 seed opts f) (\<lambda>_.
       ret (Some phase))))"

lemma shrinks_recv_file1: "shrinks (recv_file1 md4 seed opts f)"
  by (rule shrinksI) (rule recv_file1_shrinks)

lemma shrinks_print_out: "shrinks (print_out opts line)"
  by (auto simp: keeps_def shrink_rel_def print_out_def)

lemma recv_files_step_shorter:
  assumes "recv_files_step md4 seed opts fl phase s = (Inr r, s')"
  shows "length (c_in s') < length (c_in s)"
proof -
  let ?rest = "\<lambda>idx. if idx = -1 then ret (if phase = 0 then Some (phase + 1) else None)
      else if idx < 0 \<or> int (length fl) \<le> idx then throw (Panic ''index out of range'')
      else let f = fl ! nat idx in
       bnd (when_do (Progress opts) (print_out opts (NameLine (Name f)))) (\<lambda>_.
       bnd (recv_file1 md4 seed opts f) (\<lambda>_. ret (Some phase)))"
  obtain idx s1 where idx: "read_int32 s = (Inr idx, s1)" and rest: "?rest idx s1 = (Inr r, s')"
    using assms unfolding recv_files_step_def bnd_eq_Inr by blast
  have "shrinks (?rest idx)"
    unfolding Let_def by (intro shrink.keep_intro shrinks_recv_file1 shrinks_print_out)
  then have "length (c_in s') \<le> length (c_in s1)" using rest by (rule shrinksD)
  with read_int32_shorter [OF idx] show ?thesis by simp
qed

function recv_files_loop ::
  "(byte list \<Rightarrow> byte list) \<Rightarrow> int \<Rightarrow> recv_opts \<Rightarrow> rfile list \<Rightarrow> int \<Rightarrow> (unit, recv) act" where
  "recv_files_loop md4 seed opts fileList phase s =
     (case recv_files_step md4 seed opts fileList phase s of
        (Inl e, s') \<Rightarrow> (Inl e, s')
      | (Inr None, s') \<Rightarrow> (Inr (), s')
      | (Inr (Some p), s') \<Rightarrow> recv_files_loop md4 seed opts fileList p s')"
  by pat_completeness auto
termination
  by (relation "measure (\<lambda>(md4, seed, opts, fl, phase, s). length (c_in s))")
    (auto dest!: recv_files_step_shorter [OF sym])

declare recv_files_loop.simps [simp del]

definition recv_files ::
  "(byte list \<Rightarrow> byte list) \<Rightarrow> int \<Rightarrow> recv_opts \<Rightarrow> rfile list \<Rightarrow> (unit, recv) act" where
  "recv_files md4 seed opts fileList = recv_files_loop md4 seed opts fileList 0"

subsection \<open>What ends up in the destination\<close>

text \<open>\<open>setPerms\<close> keeps what kind of entry a name is, and the contents of a file.\<close>

definition kinds :: "tree \<Rightarrow> string \<Rightarrow> node_kind option" where
  "kinds fs n = map_option n_kind (fs n)"

definition kinds_rel :: "recv \<Rightarrow> recv \<Rightarrow> bool" where
  "kinds_rel s t \<longleftrightarrow> kinds (rt_fs t) = kinds (rt_fs s)"

interpretation kind: frame kinds_rel
  by unfold_locales (simp_all add: kinds_rel_def)

abbreviation keeps_kinds :: "('a, recv) act \<Rightarrow> bool" where
  "keeps_kinds m \<equiv> keeps kinds_rel m"

lemma keeps_kindsD: "keeps_kinds m \<Longrightarrow> m s = (r, t) \<Longrightarrow> kinds (rt_fs t) = kinds (rt_fs s)"
  using keepsD [of kinds_rel] unfolding kinds_rel_def by blast

lemma keeps_kinds_simple: "keeps_kinds (fs_check opts opn name)" "keeps_kinds (fs_get name)"
  by (auto simp: keeps_def kinds_rel_def fs_check_def fs_get_def split: option.split)

lemma keeps_kinds_update:
  assumes "\<And>nd. n_kind (g nd) = n_kind nd"
  shows "keeps_kinds (bnd (fs_get name) (\<lambda>nd. fs_set name (Some (g nd))))"
  using assms by (auto simp: keeps_def kinds_rel_def kinds_def bnd_def fs_get_def fs_set_def modify_def split: option.split)

lemma keeps_kinds_set_uid: "keeps_kinds (set_uid opts f st)"
  unfolding set_uid_def Let_def fs_lchown_def fs_lstat_def
  by (intro kind.keep_if kind.keep_throw kind.keep_ret kind.keep_bnd keeps_kinds_simple keeps_kinds_update) simp

lemma keeps_kinds_set_perms: "keeps_kinds (set_perms opts f mode)"
proof -
  have ops: "keeps_kinds (fs_chtimes opts n t)" "keeps_kinds (fs_chmod opts n p)" for n t p
    unfolding fs_chtimes_def fs_chmod_def
    by (intro kind.keep_bnd kind.keep_if kind.keep_ret keeps_kinds_simple keeps_kinds_update; simp)+
  have stat: "keeps_kinds (stat_dest opts (Name f))"
    unfolding stat_dest_def fs_lstat_def by (intro kind.keep_intro keeps_kinds_simple)
  have "keeps_kinds (set_perms_of opts f mode st)" for st
    unfolding set_perms_of_def Let_def by (intro kind.keep_intro ops keeps_kinds_set_uid)
  then have cont: "keeps_kinds (case r of Inl e \<Rightarrow> if WritableFS opts then ret () else throw e
      | Inr None \<Rightarrow> throw nil_root | Inr (Some st) \<Rightarrow> set_perms_of opts f mode st)" for r
    by (auto simp: kind.keep_ret kind.keep_throw split: sum.split option.split)
  show ?thesis
    unfolding set_perms_def by (intro kind.keep_intro stat cont)
qed

text \<open>What the environment is assumed to do: new entries have the kind they were created with.\<close>

definition env_ok :: "recv \<Rightarrow> bool" where
  "env_ok s \<longleftrightarrow> (\<forall>k p. n_kind (rt_new s k p) = k) \<and> atomic_replace (rt_replace s)"

lemma recv_loop_frame:
  "recv_loop sh f lf acc s = (r, s') \<Longrightarrow> s' = s\<lparr>c_in := c_in s'\<rparr> \<and> (\<exists>p. c_in s = p @ c_in s')"
proof (induction sh f lf acc s arbitrary: r s' rule: recv_loop.induct)
  case (1 sh f lf acc s)
  obtain r1 s1 where r1: "recv_token s = (r1, s1)" by (cases "recv_token s")
  obtain p where p: "c_in s = p @ c_in s1" and fr: "s1 = s\<lparr>c_in := c_in s1\<rparr>"
    using readsE [OF reads_recv_token r1] .
  have step: "(s' = s1) \<or> (s' = s1\<lparr>c_in := c_in s'\<rparr> \<and> (\<exists>p. c_in s1 = p @ c_in s'))"
    using 1(2) r1 1(1) [OF r1 [symmetric]]
    by (subst (asm) recv_loop.simps) (fastforce split: sum.splits prod.splits if_splits)
  show ?case
  proof (cases "s' = s1")
    case False
    with step obtain q where q: "s' = s1\<lparr>c_in := c_in s'\<rparr>" "c_in s1 = q @ c_in s'" by blast
    have "s' = s\<lparr>c_in := c_in s'\<rparr>" by (subst q(1), subst fr) simp
    moreover have "c_in s = (p @ q) @ c_in s'" using p q(2) by simp
    ultimately show ?thesis by blast
  qed (use p fr in blast)
qed

lemma fs_of_update: "rt_fs (s\<lparr>rt_fs := fs\<rparr>) = fs"
  by simp

lemma atomic_replaceD: "atomic_replace g \<Longrightarrow> g fs name nd = Inr fs' \<Longrightarrow> fs' = fs(name \<mapsto> nd)"
  unfolding atomic_replace_def by (drule spec [of _ fs], drule spec [of _ name], drule spec [of _ nd]) simp

lemma receive_checked_frame:
  assumes "receive_checked md4 seed sh f lf s = (r, s')"
  shows "\<exists>q. s' = s\<lparr>c_in := q\<rparr>"
proof -
  obtain r2 s2 where r2: "recv_loop sh f lf [] s = (r2, s2)" by (cases "recv_loop sh f lf [] s")
  then obtain q where q: "s2 = s\<lparr>c_in := q\<rparr>" using recv_loop_frame by blast
  have "\<exists>q'. t = s\<lparr>c_in := q'\<rparr>" if "read_full n s2 = (x, t)" for n x t
  proof -
    have "t = s2\<lparr>c_in := c_in t\<rparr>" by (rule reads_frame [OF reads_read_full that])
    then have "t = s\<lparr>c_in := c_in t\<rparr>" unfolding q by simp
    then show ?thesis ..
  qed
  with assms r2 q show ?thesis
    by (cases r2) (auto simp: receive_checked_def bnd_def Let_def throw_def ret_def split: sum.splits prod.splits if_splits)
qed

text \<open>The contents are accepted when the bytes behind the end token are their seeded MD4.\<close>

lemma receive_checked_Inr:
  assumes "receive_checked md4 seed sh f lf s = (Inr acc, s')"
  shows "\<exists>q. recv_loop sh f lf [] s = (Inr acc, s\<lparr>c_in := md4 (le_bytes 4 seed @ acc) @ q\<rparr>) \<and> s' = s\<lparr>c_in := q\<rparr>"
proof -
  let ?sum = "md4 (le_bytes 4 seed @ acc)"
  obtain s2 where r2: "recv_loop sh f lf [] s = (Inr acc, s2)" and r3: "read_full (length ?sum) s2 = (Inr ?sum, s')"
    using assms by (auto simp: receive_checked_def bnd_eq_Inr Let_def ret_def throw_def split: if_splits)
  obtain q where q: "s2 = s\<lparr>c_in := q\<rparr>" using recv_loop_frame [OF r2] by blast
  have sum: "q = ?sum @ c_in s'" using r3 by (auto simp: read_full_Inr q) (metis append_take_drop_id)
  have "s' = s2\<lparr>c_in := c_in s'\<rparr>" by (rule reads_frame [OF reads_read_full r3])
  then have "s' = s\<lparr>c_in := c_in s'\<rparr>" unfolding q by simp
  with r2 q sum show ?thesis by metis
qed

text \<open>The temporary file is gone afterwards, or there is a reason why it is not.\<close>

definition temps_left :: "recv_opts \<Rightarrow> rfile \<Rightarrow> go_error \<Rightarrow> recv \<Rightarrow> recv \<Rightarrow> bool" where
  "temps_left opts f e s s' \<longleftrightarrow>
     rt_temps s' = rt_temps s \<or>
     (WritableFS opts \<and> rt_temps s' = rt_temp s (rt_temps s) # rt_temps s \<and>
      (rt_deny s ''remove'' (rt_temp s (rt_temps s)) \<or>
       (\<exists>acc. rt_replace s (rt_fs s) (Name f) (rt_new s (KReg acc) 0x180) = Inl e)))"

lemma temps_left_in: "temps_left opts f e (s\<lparr>c_in := q\<rparr>) s' = temps_left opts f e s s'"
  by (simp add: temps_left_def)

lemma clean_up_left:
  assumes "new_pending_file opts f s = (Inr pending, s1)"
  shows "rt_fs (clean_up pending (s1\<lparr>c_in := q\<rparr>)) = rt_fs s" "temps_left opts f e s (clean_up pending (s1\<lparr>c_in := q\<rparr>))"
  using assms
  by (auto simp: new_pending_file_def clean_up_def remove_temp_def temps_left_def Let_def split: if_splits)

text \<open>The last step: the pending file replaces the old one, or nothing changes.\<close>

lemma commit_effect:
  assumes "env_ok s" "new_pending_file opts f s = (Inr pending, s1)"
    and "close_atomically_replace pending f acc (s1\<lparr>c_in := q\<rparr>) = (r, s')"
  shows "(r = Inr () \<and> s' = s\<lparr>c_in := q, rt_fs := (rt_fs s)(Name f \<mapsto> rt_new s (KReg acc) 0x180)\<rparr>) \<or>
     (\<exists>e. r = Inl e \<and> rt_fs s' = rt_fs s \<and> temps_left opts f e s s')"
proof -
  have upd: "rt_replace s (rt_fs s) (Name f) nd = Inr fs' \<Longrightarrow> fs' = (rt_fs s)(Name f \<mapsto> nd)" for nd fs'
    using assms(1) unfolding env_ok_def by (blast intro: atomic_replaceD)
  let ?tmp = "rt_temp s (rt_temps s)"
  consider "pending = None" "s1 = s"
    | "pending = Some ?tmp" "s1 = s\<lparr>rt_temps := ?tmp # rt_temps s\<rparr>" "WritableFS opts"
    using assms(2) by (auto simp: new_pending_file_def Let_def split: if_splits)
  then show ?thesis
  proof cases
    case 1
    then show ?thesis
      using assms(3) upd
      by (auto simp: close_atomically_replace_def fs_replace_def temps_left_def Let_def split: sum.splits)
  next
    case 2
    then show ?thesis
      using assms(3) upd
      by (auto simp: close_atomically_replace_def fs_replace_def temps_left_def remove_temp_def Let_def
          bnd_def modify_def split: sum.splits if_splits)
  qed
qed

text \<open>
  C5: what \<open>receiveData\<close> does to the destination, whatever the peer sends, in terms of the result it
  returns.  Either the file is replaced by the contents that the received tokens describe: then the bytes behind
  them are the seeded MD4 of these contents, no other name changes, and the result is the one
  of \<open>setPerms\<close>, the only thing left that can fail; or the result is an error and the tree
  is the one before: a broken stream, a refused operation, a wrong checksum or a failing replacement.
  Success therefore means that the file has the checked contents.  A temporary file is only left
  behind by a \<open>WritableFS\<close> whose \<open>Remove\<close> or \<open>Rename\<close> failed.
\<close>

theorem receive_data_integrity:
  assumes "env_ok s" "receive_data md4 seed opts f lf s = (r, s')"
  shows "(\<exists>sh s0 pending s1 acc q. read_from s = (Inr sh, s0) \<and> new_pending_file opts f s0 = (Inr pending, s1) \<and>
            recv_loop sh f lf [] s1 = (Inr acc, s1\<lparr>c_in := md4 (le_bytes 4 seed @ acc) @ q\<rparr>) \<and>
            set_perms opts f (Mode f) (s\<lparr>c_in := q, rt_fs := (rt_fs s)(Name f \<mapsto> rt_new s (KReg acc) 0x180)\<rparr>) = (r, s') \<and>
            kinds (rt_fs s') = (kinds (rt_fs s))(Name f \<mapsto> KReg acc) \<and>
            (\<forall>n. n \<noteq> Name f \<longrightarrow> rt_fs s' n = rt_fs s n) \<and> rt_temps s' = rt_temps s) \<or>
         (\<exists>e. r = Inl e \<and> rt_fs s' = rt_fs s \<and> temps_left opts f e s s')"
    (is "?replaced \<or> ?failed")
proof -
  obtain r0 s0 where r0: "read_from s = (r0, s0)" by (cases "read_from s")
  obtain q0 where s0: "s0 = s\<lparr>c_in := q0\<rparr>" using reads_frame [OF reads_read_from r0] by blast
  have env: "env_ok s0" using assms(1) by (simp add: s0 env_ok_def)
  obtain r1 s1 where r1: "new_pending_file opts f s0 = (r1, s1)" by (cases "new_pending_file opts f s0")
  show ?thesis
  proof (cases "isl r0 \<or> isl r1")
    case True
    with r1 have "\<exists>e. r = Inl e" "s' = s0"
      using assms(2) r0 by (auto simp: receive_data_def bnd_def new_pending_file_def Let_def isl_def split: sum.splits if_splits)
    then have ?failed by (simp add: s0 temps_left_def)
    then show ?thesis ..
  next
    case False
    then obtain sh pending where inr: "r0 = Inr sh" "r1 = Inr pending" by (cases r0; cases r1) auto
    note np = r1 [unfolded inr]
    obtain r2 s2 where r2: "receive_checked md4 seed sh f lf s1 = (r2, s2)" by (cases "receive_checked md4 seed sh f lf s1")
    show ?thesis
    proof (cases r2)
      case (Inl e)
      obtain q where q: "s2 = s1\<lparr>c_in := q\<rparr>" using receive_checked_frame [OF r2] by blast
      have "r = Inl e" "s' = clean_up pending s2"
        using assms(2) r0 np r2 Inl inr by (simp_all add: receive_data_def bnd_def or_clean_up_def)
      with clean_up_left [OF np] q have ?failed by (auto simp: s0 temps_left_in)
      then show ?thesis ..
    next
      case (Inr acc)
      obtain q where q: "recv_loop sh f lf [] s1 = (Inr acc, s1\<lparr>c_in := md4 (le_bytes 4 seed @ acc) @ q\<rparr>)"
        "s2 = s1\<lparr>c_in := q\<rparr>" using receive_checked_Inr [OF r2 [unfolded Inr]] by blast
      obtain r3 s3 where r3: "close_atomically_replace pending f acc s2 = (r3, s3)"
        by (cases "close_atomically_replace pending f acc s2")
      have run: "(r, s') = (case r3 of Inl e \<Rightarrow> (Inl e, s3) | Inr _ \<Rightarrow> set_perms opts f (Mode f) s3)"
        using assms(2) r0 np r2 Inr inr r3 by (simp add: receive_data_def bnd_def or_clean_up_def)
      from commit_effect [OF env np r3 [unfolded q(2)]] show ?thesis
      proof (elim disjE)
        assume "\<exists>e. r3 = Inl e \<and> rt_fs s3 = rt_fs s0 \<and> temps_left opts f e s0 s3"
        with run have ?failed by (auto simp: s0 temps_left_in)
        then show ?thesis ..
      next
        let ?s3 = "s\<lparr>c_in := q, rt_fs := (rt_fs s)(Name f \<mapsto> rt_new s (KReg acc) 0x180)\<rparr>"
        assume "r3 = Inr () \<and> s3 = s0\<lparr>c_in := q, rt_fs := (rt_fs s0)(Name f \<mapsto> rt_new s0 (KReg acc) 0x180)\<rparr>"
        then have set: "set_perms opts f (Mode f) ?s3 = (r, s')" using run by (simp add: s0)
        have "rt_temps s' = rt_temps s" by (subst only_names_frame [OF only_names_set_perms set]) simp
        moreover have "kinds (rt_fs s') = (kinds (rt_fs s))(Name f \<mapsto> KReg acc)"
          using keeps_kindsD [OF keeps_kinds_set_perms set] assms(1)
          by (auto simp: kinds_def env_ok_def)
        moreover have "\<forall>n. n \<noteq> Name f \<longrightarrow> rt_fs s' n = rt_fs s n"
          using only_namesD [OF only_names_set_perms set] by simp
        ultimately have ?replaced using r0 np inr q(1) set by blast
        then show ?thesis ..
      qed
    qed
  qed
qed

subsection \<open>A concrete receiver\<close>

definition sample_node :: "node_kind \<Rightarrow> int \<Rightarrow> node" where
  "sample_node k p = \<lparr>n_kind = k, n_perm = p, n_mtime = \<lparr>t_sec = 0, t_nsec = 0\<rparr>, n_uid = 0, n_gid = 0\<rparr>"

definition sample_recv :: recv where
  "sample_recv = \<lparr>c_in = [], c_out = [], c_budget = None, rt_fs = [''a'' \<mapsto> sample_node (KReg [1, 2, 3]) 0x1A4],
     rt_out = [], IOErrors = 0, rt_Users = Map.empty, rt_Groups = Map.empty, rt_lookup = (\<lambda>_ _. None), retouchDirPerms = False, rt_deny = (\<lambda>_ _. False), rt_new = sample_node,
     rt_link = (\<lambda>_. None), rt_replace = (\<lambda>fs n nd. Inr (fs(n \<mapsto> nd))), rt_mknod = (\<lambda>fs n k p d. Inr fs),
     rt_readdir = (\<lambda>fs d. Inr []), rt_temps = [], rt_temp = (\<lambda>ts. ''temp-rsync-'' @ replicate (length ts) CHR ''1'')\<rparr>"

definition sample_opts :: recv_opts where
  "sample_opts = \<lparr>DryRun = False, Server = False, Progress = False, DeleteMode = False, PreserveGid = False,
     PreserveUid = False, PreserveLinks = True, PreservePerms = True, PreserveDevices = False,
     PreserveTimes = True, IgnoreTimes = False, SizeOnly = False, AlwaysChecksum = False, WholeFile = False,
     WritableFS = False, SysStat = True, HasRoot = True, HasStdout = True, DestName = ''dest'', amRoot = False, inGroup = (\<lambda>_. False)\<rparr>"

definition sample_rfile :: rfile where
  "sample_rfile = \<lparr>Name = ''a'', Length = 3, ModTime = \<lparr>t_sec = 5, t_nsec = 0\<rparr>, Mode = 0x81A4, Uid = 0, Gid = 0,
     LinkTarget = '''', Rdev = 0, FChecksum = []\<rparr>"

lemma env_ok_sample: "env_ok (sample_recv\<lparr>c_in := x\<rparr>)"
  by (simp add: env_ok_def sample_recv_def atomic_replace_def sample_node_def)

text \<open>A transfer: an empty head, three bytes of data, the end, the checksum.\<close>

definition sample_transfer :: "byte list" where
  "sample_transfer = replicate 16 0 @ le_bytes 4 3 @ [7, 8, 9] @ le_bytes 4 0 @ toy_md4 (le_bytes 4 7 @ [7, 8, 9])"

theorem receive_data_integrity_witness:
  "\<exists>s'. receive_data toy_md4 7 sample_opts sample_rfile None (sample_recv\<lparr>c_in := sample_transfer\<rparr>) = (Inr (), s') \<and>
     kinds (rt_fs s') = [''a'' \<mapsto> KReg [7, 8, 9]] \<and> rt_temps s' = []"
proof -
  let ?s = "sample_recv\<lparr>c_in := sample_transfer\<rparr>"
  have "case receive_data toy_md4 7 sample_opts sample_rfile None ?s of
      (r, s') \<Rightarrow> r = Inr () \<and> map_option n_kind (rt_fs s' ''a'') = Some (KReg [7, 8, 9])"
    by code_simp
  then obtain s' where run: "receive_data toy_md4 7 sample_opts sample_rfile None ?s = (Inr (), s')"
    and a: "kinds (rt_fs s') ''a'' = Some (KReg [7, 8, 9])"
    by (auto simp: kinds_def)
  from receive_data_integrity [OF env_ok_sample run] a have "kinds (rt_fs s') = (kinds (rt_fs ?s))(''a'' \<mapsto> KReg [7, 8, 9])"
    "rt_temps s' = rt_temps ?s"
    by (auto simp: sample_rfile_def)
  with run show ?thesis by (auto simp: sample_recv_def kinds_def)
qed

end
