(* ===== verification/Go_Path.thy ===== *)
theory Go_Path
  imports Go_Strings
begin

text \<open>
  What the program uses of Go's \<open>path\<close> and \<open>path/filepath\<close> on Unix: \<open>Clean\<close>, \<open>Join\<close>, \<open>Base\<close>,
  \<open>Dir\<close>.
\<close>

subsection \<open>\<open>Clean\<close>\<close>

text \<open>The components of a path: \<open>.\<close> and empty ones go, \<open>..\<close> takes back the one before.\<close>

fun clean_step :: "bool \<Rightarrow> string list \<Rightarrow> string \<Rightarrow> string list" where
  "clean_step rooted acc w =
     (if w = '''' \<or> w = ''.'' then acc
      else if w = ''..'' then
        (case acc of
           [] \<Rightarrow> if rooted then [] else [''..'']
         | v # vs \<Rightarrow> if v = ''..'' then ''..'' # acc else vs)
      else w # acc)"

definition clean_comps :: "bool \<Rightarrow> string list \<Rightarrow> string list" where
  "clean_comps rooted ws = rev (foldl (clean_step rooted) [] ws)"

definition clean :: "string \<Rightarrow> string" where
  "clean p =
     (let rooted = has_prefix p ''/'';
          s = join_with (CHR ''/'') (clean_comps rooted (split_on (CHR ''/'') p))
      in if rooted then CHR ''/'' # s else if s = '''' then ''.'' else s)"

definition join2 :: "string \<Rightarrow> string \<Rightarrow> string" where
  "join2 a b = (if a \<noteq> '''' then clean (a @ CHR ''/'' # b) else if b \<noteq> '''' then clean b else '''')"

text \<open>\<open>Base\<close>: trailing slashes go, then everything up to the last slash.\<close>

definition strip_slashes :: "string \<Rightarrow> string" where
  "strip_slashes p = rev (dropWhile (\<lambda>c. c = CHR ''/'') (rev p))"

definition base :: "string \<Rightarrow> string" where
  "base p =
     (if p = '''' then ''.''
      else let s = last (split_on (CHR ''/'') (strip_slashes p)) in if s = '''' then ''/'' else s)"

text \<open>\<open>Dir\<close>: the path up to the last slash, cleaned.\<close>

definition dir_of :: "string \<Rightarrow> string" where
  "dir_of p = clean (rev (dropWhile (\<lambda>c. c \<noteq> CHR ''/'') (rev p)))"

subsection \<open>Cleaned paths\<close>

text \<open>A path that \<open>Clean\<close> leaves as it is: proper components, \<open>..\<close> only in front.\<close>

definition proper :: "string \<Rightarrow> bool" where
  "proper w \<longleftrightarrow> w \<noteq> '''' \<and> w \<noteq> ''.'' \<and> CHR ''/'' \<notin> set w"

fun ups_first :: "string list \<Rightarrow> bool" where
  "ups_first [] \<longleftrightarrow> True"
| "ups_first (w # ws) \<longleftrightarrow> (if w = ''..'' then ups_first ws else ''..'' \<notin> set ws)"

definition clean_rel :: "string list \<Rightarrow> bool" where
  "clean_rel ws \<longleftrightarrow> (\<forall>w \<in> set ws. proper w) \<and> ups_first ws"

lemma ups_first_snoc:
  "ups_first (ws @ [w]) \<longleftrightarrow> ups_first ws \<and> (w = ''..'' \<longrightarrow> (\<forall>v \<in> set ws. v = ''..''))"
  by (induction ws) auto

lemma clean_relI:
  assumes "\<And>w. w \<in> set ws \<Longrightarrow> proper w" "ups_first ws"
  shows "clean_rel ws"
  using assms by (simp add: clean_rel_def)

lemma clean_step_rel:
  assumes c: "clean_rel (rev acc)" and w: "CHR ''/'' \<notin> set w"
  shows "clean_rel (rev (clean_step False acc w))"
proof -
  have p: "\<And>v. v \<in> set acc \<Longrightarrow> proper v" and u: "ups_first (rev acc)"
    using c by (simp_all add: clean_rel_def)
  consider "w = '''' \<or> w = ''.''" | "w = ''..''" | "w \<noteq> ''''" "w \<noteq> ''.''" "w \<noteq> ''..''" by blast
  then show ?thesis
  proof cases
    case 1
    then have "clean_step False acc w = acc" by simp
    then show ?thesis using c by simp
  next
    case 2
    have ups: "proper ''..''" by (simp add: proper_def)
    show ?thesis
    proof (cases acc)
      case Nil
      with 2 ups show ?thesis by (simp add: clean_rel_def)
    next
      case (Cons v vs)
      have u': "ups_first (rev vs)" "v = ''..'' \<longrightarrow> (\<forall>x \<in> set vs. x = ''..'')"
        using u Cons by (simp_all add: ups_first_snoc)
      show ?thesis
      proof (cases "v = ''..''")
        case True
        with 2 Cons have s: "clean_step False acc w = ''..'' # acc" by simp
        have "ups_first (rev acc @ [''..''])"
          unfolding ups_first_snoc using u u' True Cons by simp
        then show ?thesis unfolding s using p ups by (auto intro!: clean_relI)
      next
        case False
        with 2 Cons have s: "clean_step False acc w = vs" by simp
        show ?thesis unfolding s using p u' Cons by (auto intro!: clean_relI)
      qed
    qed
  next
    case 3
    then have s: "clean_step False acc w = w # acc" by simp
    have "ups_first (rev acc @ [w])" unfolding ups_first_snoc using u 3 by simp
    moreover have "proper w" using 3 w by (simp add: proper_def)
    ultimately show ?thesis unfolding s using p by (auto intro!: clean_relI)
  qed
qed

lemma split_no_sep: "w \<in> set (split_on c s) \<Longrightarrow> c \<notin> set w"
proof (induction s arbitrary: w)
  case (Cons x s)
  then show ?case by (cases "split_on c s") (auto split: if_splits)
qed simp

lemma foldl_clean_rel:
  "clean_rel (rev acc) \<Longrightarrow> \<forall>w \<in> set ws. CHR ''/'' \<notin> set w \<Longrightarrow> clean_rel (rev (foldl (clean_step False) acc ws))"
  by (induction ws arbitrary: acc) (auto simp del: clean_step.simps intro: clean_step_rel)

lemma clean_comps_rel: "clean_rel (clean_comps False (split_on (CHR ''/'') p))"
  unfolding clean_comps_def
  by (rule foldl_clean_rel) (auto simp: clean_rel_def split_no_sep)

lemma foldl_clean_id:
  assumes "clean_rel (rev acc @ ws)"
  shows "foldl (clean_step False) acc ws = rev ws @ acc"
  using assms
proof (induction ws arbitrary: acc)
  case (Cons w ws)
  have p: "proper w" and ups: "ups_first (rev acc @ w # ws)" using Cons.prems by (auto simp: clean_rel_def)
  have "w = ''..'' \<Longrightarrow> \<forall>v \<in> set acc. v = ''..''"
  proof -
    assume w: "w = ''..''"
    have "ups_first (us @ w # ws) \<Longrightarrow> \<forall>v \<in> set us. v = ''..''" for us
      using w by (induction us) (auto split: if_splits)
    from this [OF ups] show ?thesis by simp
  qed
  then have step: "clean_step False acc w = w # acc"
    using p by (cases acc) (auto simp: proper_def)
  have "foldl (clean_step False) (w # acc) ws = rev ws @ w # acc" by (rule Cons.IH) (use Cons.prems in simp)
  then show ?case unfolding foldl_Cons step by simp
qed simp

lemma clean_comps_id: "clean_rel ws \<Longrightarrow> clean_comps False ws = ws"
  unfolding clean_comps_def using foldl_clean_id [of "[]" ws] by simp

lemma join_with_hd: "ws \<noteq> [] \<Longrightarrow> hd ws \<noteq> '''' \<Longrightarrow> join_with c ws \<noteq> [] \<and> hd (join_with c ws) = hd (hd ws)"
  by (cases ws; cases "tl ws") auto

lemma clean_join:
  assumes "clean_rel ws" "ws \<noteq> []"
  shows "clean (join_with (CHR ''/'') ws) = join_with (CHR ''/'') ws"
proof -
  have p: "\<forall>w \<in> set ws. proper w" using assms(1) by (simp add: clean_rel_def)
  then have h: "hd ws \<noteq> ''''" "hd (hd ws) \<noteq> CHR ''/''" using assms(2)
    by (cases ws; auto simp: proper_def; metis list.set_sel(1))+
  then have "\<not> has_prefix (join_with (CHR ''/'') ws) ''/''" "join_with (CHR ''/'') ws \<noteq> ''''"
    using join_with_hd [OF assms(2), of "CHR ''/''"] by (auto simp: has_prefix_def neq_Nil_conv take_Suc)
  moreover have "split_on (CHR ''/'') (join_with (CHR ''/'') ws) = ws"
    by (rule split_join [OF assms(2)]) (use p in \<open>simp add: proper_def\<close>)
  ultimately show ?thesis using clean_comps_id [OF assms(1)] by (simp add: clean_def)
qed

text \<open>\<open>Clean\<close> is idempotent on relative paths.\<close>

lemma clean_clean:
  assumes "\<not> has_prefix p ''/''"
  shows "clean (clean p) = clean p"
proof (cases "clean_comps False (split_on (CHR ''/'') p) = []")
  case True
  then have "clean p = ''.''" using assms by (simp add: clean_def)
  then show ?thesis by (simp add: clean_def has_prefix_def clean_comps_def)
next
  case False
  let ?ws = "clean_comps False (split_on (CHR ''/'') p)"
  have "join_with (CHR ''/'') ?ws \<noteq> ''''"
  proof -
    have "proper (hd ?ws)" using clean_comps_rel [of p] False by (simp add: clean_rel_def)
    then show ?thesis using join_with_hd [OF False] by (auto simp: proper_def)
  qed
  then have "clean p = join_with (CHR ''/'') ?ws" using assms by (simp add: clean_def)
  then show ?thesis using clean_join [OF clean_comps_rel False] by simp
qed

end
