(* ===== verification/Go_Walk.thy ===== *)
theory Go_Walk
  imports Go_Path
begin

text \<open>
  Go's \<open>fs.WalkDir\<close>, over the two things it asks of its caller: how to list a directory and what
  to do with an entry.  The depth bounds the nesting of directories; \<open>walk_returns\<close> says how
  much is enough.
\<close>

text \<open>What a \<open>WalkDirFunc\<close> returns besides an error.\<close>

datatype walk_sig = Continue | SkipDir

text \<open>The entries of one directory: \<open>SkipDir\<close> leaves out the rest of them.\<close>

fun walk_entries ::
  "(string \<Rightarrow> 'd \<Rightarrow> (walk_sig, 's) act) \<Rightarrow> string \<Rightarrow> (string \<times> 'd) list \<Rightarrow> (walk_sig, 's) act" where
  "walk_entries walk name [] = ret Continue"
| "walk_entries walk name ((b, d) # es) =
     bnd (walk (join2 name b) d) (\<lambda>sig.
     case sig of SkipDir \<Rightarrow> ret Continue | Continue \<Rightarrow> walk_entries walk name es)"

primrec walk_dir ::
  "nat \<Rightarrow> (string \<Rightarrow> ((string \<times> 'd) list, 's) act) \<Rightarrow> ('d \<Rightarrow> bool) \<Rightarrow>
   (string \<Rightarrow> 'd option \<Rightarrow> go_error option \<Rightarrow> (walk_sig, 's) act) \<Rightarrow>
   string \<Rightarrow> 'd \<Rightarrow> (walk_sig, 's) act" where
  "walk_dir 0 readdir isdir fn name d = throw Diverged"
| "walk_dir (Suc n) readdir isdir fn name d =
     bnd (fn name (Some d) None) (\<lambda>sig.
     if sig = SkipDir then ret (if isdir d then Continue else SkipDir)
     else if \<not> isdir d then ret Continue
     else bnd (attempt (readdir name)) (\<lambda>r.
       case r of
         Inl e \<Rightarrow> bnd (fn name (Some d) (Some e)) (\<lambda>_. ret Continue)
       | Inr es \<Rightarrow> walk_entries (walk_dir n readdir isdir fn) name es))"

definition walk_root ::
  "nat \<Rightarrow> (string \<Rightarrow> ('d, 's) act) \<Rightarrow> (string \<Rightarrow> ((string \<times> 'd) list, 's) act) \<Rightarrow> ('d \<Rightarrow> bool) \<Rightarrow>
   (string \<Rightarrow> 'd option \<Rightarrow> go_error option \<Rightarrow> (walk_sig, 's) act) \<Rightarrow> string \<Rightarrow> (unit, 's) act" where
  "walk_root n stat readdir isdir fn root =
     bnd (attempt (stat root)) (\<lambda>r.
     bnd (case r of Inl e \<Rightarrow> fn root None (Some e) | Inr d \<Rightarrow> walk_dir n readdir isdir fn root d) (\<lambda>_.
     ret ()))"

subsection \<open>What a walk keeps\<close>

context frame
begin

lemma keep_walk_entries:
  "(\<And>nm d. keeps R (walk nm d)) \<Longrightarrow> keeps R (walk_entries walk name es)"
  by (induction walk name es rule: walk_entries.induct)
    (auto intro!: keep_ret keep_bnd split: walk_sig.split)

lemma keep_walk_dir:
  assumes "\<And>nm. keeps R (readdir nm)" "\<And>nm d e. keeps R (fn nm d e)"
  shows "keeps R (walk_dir n readdir isdir fn name d)"
proof (induction n arbitrary: name d)
  case (Suc n)
  show ?case
    unfolding walk_dir.simps
    by (intro keep_intro assms)
      (auto intro!: keep_walk_entries Suc.IH keep_bnd keep_ret assms split: sum.split)
qed (simp add: keep_throw)

lemma keep_walk_root:
  assumes "\<And>nm. keeps R (stat nm)" "\<And>nm. keeps R (readdir nm)" "\<And>nm d e. keeps R (fn nm d e)"
  shows "keeps R (walk_root n stat readdir isdir fn root)"
  unfolding walk_root_def
  by (intro keep_intro assms) (auto intro!: keep_walk_dir assms split: sum.split)

text \<open>The same for what holds when the walk returns, with what is known of the entries.\<close>

lemma yield_walk_entries:
  assumes "\<And>nm d. (nm, d) \<in> set es \<Longrightarrow> yields (\<lambda>_. True) (walk (join2 name nm) d)"
  shows "yields (\<lambda>_. True) (walk_entries walk name es)"
  using assms
proof (induction walk name es rule: walk_entries.induct)
  case (2 walk name b d es)
  then show ?case
    by (auto intro!: yield_bnd [where Q = "\<lambda>_. True"] yield_ret split: walk_sig.split)
qed (simp add: yield_ret)

lemma yield_walk_dir:
  assumes "\<And>nm. keeps R (readdir nm)" "\<And>nm. yields (\<lambda>es. \<forall>(b, d) \<in> set es. Q d) (readdir nm)"
    and "\<And>nm d e. Q d \<Longrightarrow> yields (\<lambda>_. True) (fn nm (Some d) e)" "Q d"
  shows "yields (\<lambda>_. True) (walk_dir n readdir isdir fn name d)"
  using assms(4)
proof (induction n arbitrary: name d)
  case (Suc n)
  have "yields (\<lambda>_. True) (case r of Inl e \<Rightarrow> bnd (fn name (Some d) (Some e)) (\<lambda>_. ret Continue)
       | Inr es \<Rightarrow> walk_entries (walk_dir n readdir isdir fn) name es)"
    if "\<forall>es. r = Inr es \<longrightarrow> (\<forall>(b, d) \<in> set es. Q d)" for r
    using that Suc
    by (fastforce intro!: yield_walk_entries yield_bnd [OF assms(3) yield_ret] split: sum.split)
  then show ?case
    using Suc.prems
    by (auto intro!: yield_bnd [OF assms(3)] yield_ret yield_bnd [OF yield_attempt [OF assms(1,2)]])
qed (simp add: yield_throw)

lemma yield_walk_root:
  fixes stat :: "string \<Rightarrow> ('d, 's) act"
  assumes "\<And>nm. keeps R (stat nm)" "\<And>nm. yields Q (stat nm)"
    and "\<And>nm. keeps R (readdir nm)" "\<And>nm. yields (\<lambda>es. \<forall>(b, d) \<in> set es. Q d) (readdir nm)"
    and "\<And>nm d e. Q d \<Longrightarrow> yields (\<lambda>_. True) (fn nm (Some d) e)" "\<And>nm e. yields (\<lambda>_. True) (fn nm None e)"
  shows "yields (\<lambda>_. True) (walk_root n stat readdir isdir fn root)"
  unfolding walk_root_def
proof (rule yield_bnd [OF yield_attempt [OF assms(1,2)]])
  fix r :: "go_error + 'd" assume r: "\<forall>d. r = Inr d \<longrightarrow> Q d"
  have dir: "yields (\<lambda>_. True) (walk_dir n readdir isdir fn root d)" if "Q d" for d
    using assms(3,4,5) that by (rule yield_walk_dir)
  show "yields (\<lambda>_. True) (bnd (case r of Inl e \<Rightarrow> fn root None (Some e)
      | Inr d \<Rightarrow> walk_dir n readdir isdir fn root d) (\<lambda>_. ret ()))"
    using r by (auto intro!: yield_bnd [where Q = "\<lambda>_. True"] yield_ret assms(6) dir split: sum.split)
qed

end

subsection \<open>A walk returns\<close>

text \<open>
  An action is good for an invariant of the state when it keeps it and does not run out of
  depth or panic in a state that satisfies it.
\<close>

definition good :: "('s \<Rightarrow> bool) \<Rightarrow> ('a, 's) act \<Rightarrow> bool" where
  "good P m \<longleftrightarrow> (\<forall>s. P s \<longrightarrow> P (snd (m s)) \<and> (\<forall>e t. m s = (Inl e, t) \<longrightarrow> \<not> fatal e))"

lemma goodD: "good P m \<Longrightarrow> P s \<Longrightarrow> m s = (r, t) \<Longrightarrow> P t \<and> (\<forall>e. r = Inl e \<longrightarrow> \<not> fatal e)"
  unfolding good_def by (metis snd_conv)

lemma goodI: "(\<And>s r t. P s \<Longrightarrow> m s = (r, t) \<Longrightarrow> P t \<and> (\<forall>e. r = Inl e \<longrightarrow> \<not> fatal e)) \<Longrightarrow> good P m"
  unfolding good_def by (metis surjective_pairing)

lemma good_ret: "good P (ret a)"
  by (simp add: good_def ret_def)

lemma good_throw: "\<not> fatal e \<Longrightarrow> good P (throw e)"
  by (simp add: good_def throw_def)

lemma good_bnd_res:
  assumes "good P m" "\<And>s a t. P s \<Longrightarrow> m s = (Inr a, t) \<Longrightarrow> P t \<Longrightarrow> P (snd (f a t)) \<and> (\<forall>e u. f a t = (Inl e, u) \<longrightarrow> \<not> fatal e)"
  shows "good P (bnd m f)"
proof (rule goodI)
  fix s r u
  assume s: "P s" and run: "bnd m f s = (r, u)"
  obtain r1 t where m: "m s = (r1, t)" by (cases "m s")
  note g = goodD [OF assms(1) s m]
  show "P u \<and> (\<forall>e. r = Inl e \<longrightarrow> \<not> fatal e)"
  proof (cases r1)
    case (Inl e)
    with run m have "r = Inl e" "u = t" by (auto simp: bnd_def)
    with g Inl show ?thesis by simp
  next
    case (Inr a)
    with run m have "f a t = (r, u)" by (simp add: bnd_def)
    with assms(2) [OF s m [unfolded Inr]] g show ?thesis by auto
  qed
qed

lemma good_bnd: "good P m \<Longrightarrow> (\<And>a. good P (f a)) \<Longrightarrow> good P (bnd m f)"
  by (erule good_bnd_res) (auto simp: good_def)

lemma good_attempt: "good P m \<Longrightarrow> good P (attempt m)"
  by (auto simp: good_def attempt_def split: prod.split sum.split if_splits)

lemma good_attempt_res:
  "attempt m s = (Inr (Inr a), t) \<Longrightarrow> m s = (Inr a, t)"
  by (auto simp: attempt_def split: prod.splits sum.splits if_splits)

lemma attempt_not_fatal: "attempt m s = (Inr r, t) \<Longrightarrow> r = Inl e \<Longrightarrow> \<not> fatal e"
  by (auto simp: attempt_def split: prod.splits sum.splits if_splits)

text \<open>
  A walk of enough depth returns: the rank of a directory bounds how deep its entries go.
\<close>

lemma walk_entries_good:
  assumes "\<And>b d. (b, d) \<in> set es \<Longrightarrow> good P (walk (join2 name b) d)"
  shows "good P (walk_entries walk name es)"
  using assms
proof (induction es)
  case (Cons e es)
  obtain b d where e: "e = (b, d)" by (cases e)
  have "good P (walk (join2 name b) d)" using Cons.prems e by simp
  moreover have "good P (walk_entries walk name es)" by (rule Cons.IH) (use Cons.prems in auto)
  ultimately show ?case unfolding e walk_entries.simps
    by (intro good_bnd) (auto intro: good_ret split: walk_sig.split)
qed (simp add: good_ret)

lemma walk_returns:
  assumes readdir: "\<And>nm. good P (readdir nm)"
    and fn: "\<And>nm d e. (\<And>x. e = Some x \<Longrightarrow> \<not> fatal x) \<Longrightarrow> good P (fn nm d e)"
    and rank: "\<And>nm s es t b d. P s \<Longrightarrow> readdir nm s = (Inr es, t) \<Longrightarrow> (b, d) \<in> set es \<Longrightarrow> rank (join2 nm b) < rank nm"
    and n: "rank name < n"
  shows "good P (walk_dir n readdir isdir fn name d)"
  using n
proof (induction n arbitrary: name d)
  case (Suc n)
  have entries: "good P (walk_entries (walk_dir n readdir isdir fn) name es)"
    if "P s" "readdir name s = (Inr es, t)" for s es t
  proof (rule walk_entries_good)
    fix b d
    assume "(b, d) \<in> set es"
    then have "rank (join2 name b) < rank name" by (rule rank [OF that])
    then have "rank (join2 name b) < n" using Suc.prems by simp
    then show "good P (walk_dir n readdir isdir fn (join2 name b) d)" by (rule Suc.IH)
  qed
  have "good P (bnd (attempt (readdir name)) (\<lambda>r. case r of
         Inl e \<Rightarrow> bnd (fn name (Some d) (Some e)) (\<lambda>_. ret Continue)
       | Inr es \<Rightarrow> walk_entries (walk_dir n readdir isdir fn) name es))"
  proof (rule good_bnd_res [OF good_attempt [OF readdir]])
    fix s r t
    assume s: "P s" and r: "attempt (readdir name) s = (Inr r, t)" and t: "P t"
    let ?f = "case r of
         Inl e \<Rightarrow> bnd (fn name (Some d) (Some e)) (\<lambda>_. ret Continue)
       | Inr es \<Rightarrow> walk_entries (walk_dir n readdir isdir fn) name es"
    have "good P ?f"
    proof (cases r)
      case (Inl e)
      with r have "\<not> fatal e" by (rule attempt_not_fatal)
      then have "good P (fn name (Some d) (Some e))" by (intro fn) simp
      then show ?thesis by (auto simp: Inl intro!: good_bnd good_ret)
    next
      case (Inr es)
      have "readdir name s = (Inr es, t)" by (rule good_attempt_res) (use r Inr in simp)
      with entries [OF s] Inr show ?thesis by simp
    qed
    with t show "P (snd (?f t)) \<and> (\<forall>e u. ?f t = (Inl e, u) \<longrightarrow> \<not> fatal e)" by (simp add: good_def)
  qed
  then show ?case unfolding walk_dir.simps
    by (intro good_bnd [OF fn]) (auto intro: good_ret)
qed simp

end
