(* ===== verification/Generator.thy ===== *)
theory Generator
  imports Receiver Go_Walk
begin

text \<open>
  \<open>internal/receiver/generator.go\<close>, \<open>generatormknod_linux.go\<close> and \<open>do.go\<close>: the generator walks
  the file list, brings directories, links and devices into place and requests the files that
  are not up to date; \<open>Do\<close> deletes what the sender no longer has, runs generator and receiver
  side by side and touches up the directories.
\<close>

subsection \<open>Modes\<close>

definition file_mode :: "rfile \<Rightarrow> int" where
  "file_mode f =
     (let perm = Mode f AND ModePerm; typ = type_of (Mode f)
      in if typ = S_IFCHR then perm OR ModeCharDevice
         else if typ = S_IFBLK then perm OR ModeDevice
         else if typ = S_IFIFO then perm OR ModeNamedPipe
         else if typ = S_IFSOCK then perm OR ModeSocket
         else if typ = S_IFLNK then perm OR ModeSymlink
         else if typ = S_IFDIR then perm OR ModeDir
         else perm)"

subsection \<open>Operations of the destination that only the generator uses\<close>

text \<open>\<open>renameio.SymlinkRoot\<close>.\<close>

definition symlink :: "recv_opts \<Rightarrow> string \<Rightarrow> string \<Rightarrow> (unit, recv) act" where
  "symlink opts oldname newname =
     (if \<not> HasRoot opts then throw nil_root
      else (\<lambda>s. fs_replace newname (rt_new s (KLink oldname) ModePerm) s))"

text \<open>\<open>unix.Mknodat\<close>, \<open>Mkfifoat\<close> or \<open>Bind\<close> in the directory that was opened below the root.\<close>

definition fs_mknod :: "string \<Rightarrow> node_kind \<Rightarrow> int \<Rightarrow> int \<Rightarrow> (unit, recv) act" where
  "fs_mknod name kind perm rdev s =
     (case rt_mknod s (rt_fs s) name kind perm rdev of
        Inl e \<Rightarrow> (Inl e, s)
      | Inr fs' \<Rightarrow> (Inr (), s\<lparr>rt_fs := fs'\<rparr>))"

definition create_device :: "recv_opts \<Rightarrow> rfile \<Rightarrow> node option \<Rightarrow> (unit, recv) act" where
  "create_device opts f st =
     bnd (wrap_err (\<lambda>e. Errorf ''Open(parent(%s)): %v'' [FStr (Name f), FErr e])
            (fs_open opts (dir_of (Name f)))) (\<lambda>_.
     let perm = Mode f AND ModePerm; typ = type_of (Mode f); kind = map_option n_kind st in
     if typ = S_IFCHR then
       (if kind = Some KChr then ret () else fs_mknod (Name f) KChr perm (Rdev f))
     else if typ = S_IFBLK then
       (if kind = Some KChr \<or> kind = Some KBlk then ret () else fs_mknod (Name f) KBlk perm (Rdev f))
     else if typ = S_IFSOCK then
       (if kind = Some KSock then ret () else fs_mknod (Name f) KSock ModePerm 0)
     else if typ = S_IFIFO then
       (if kind = Some KFifo then ret () else fs_mknod (Name f) KFifo perm 0)
     else ret ())"

subsection \<open>Is the file up to date?\<close>

definition node_size :: "node \<Rightarrow> int" where
  "node_size nd = (case n_kind nd of KReg bs \<Rightarrow> int (length bs) | _ \<Rightarrow> 0)"

definition skip_file :: "(byte list \<Rightarrow> byte list) \<Rightarrow> recv_opts \<Rightarrow> rfile \<Rightarrow> node \<Rightarrow> (bool, recv) act" where
  "skip_file md4 opts f st =
     (if node_size st \<noteq> Length f then ret False
      else if AlwaysChecksum opts then
        bnd (fs_open opts (Name f)) (\<lambda>nd.
        case n_kind nd of
          KReg bs \<Rightarrow> ret (FChecksum f = md4 bs)
        | _ \<Rightarrow> throw (PathError ''read''))
      else if SizeOnly opts then ret True
      else if IgnoreTimes opts then ret False
      else ret (mod_time_equal (n_mtime st) (ModTime f)))"

subsection \<open>\<open>recvGenerator\<close>\<close>

definition request_full_file :: "recv_opts \<Rightarrow> int \<Rightarrow> (unit, recv) act" where
  "request_full_file opts idx =
     bnd (write_int32 (i32 idx)) (\<lambda>_.
     if DryRun opts then ret () else write_to zero_head)"

text \<open>A directory: what is in its way goes, then it is created and gets its permissions.\<close>

definition gen_dir :: "recv_opts \<Rightarrow> rfile \<Rightarrow> go_error + node option \<Rightarrow> (unit, recv) act" where
  "gen_dir opts f st =
     (if DryRun opts then ret () else
      bnd (case st of
             Inr None \<Rightarrow> throw nil_root
           | Inr (Some nd) \<Rightarrow>
               if n_kind nd = KDir then ret False
               else bnd (wrap_err (\<lambda>e. Errorf ''unlinking to make room for directory: %v'' [FErr e])
                           (fs_remove opts (Name f))) (\<lambda>_. ret True)
           | Inl _ \<Rightarrow> ret True) (\<lambda>missing.
      bnd (when_do missing
             (wrap_err (\<lambda>e. if WritableFS opts
                            then Errorf ''mkdir %s failed: %v'' [FStr (join2 (DestName opts) (Name f)), FErr e]
                            else e)
                (fs_mkdir_all opts (Name f) (Mode f AND ModePerm)))) (\<lambda>_.
      bnd (when_do (Mode f AND S_IWUSR = 0) (modify (\<lambda>s. s\<lparr>retouchDirPerms := True\<rparr>))) (\<lambda>_.
      set_perms opts f (Mode f OR S_IWUSR)))))"

definition gen_symlink :: "recv_opts \<Rightarrow> rfile \<Rightarrow> go_error + node option \<Rightarrow> (unit, recv) act" where
  "gen_symlink opts f st =
     bnd (case st of
            Inl _ \<Rightarrow> ret False
          | Inr _ \<Rightarrow> bnd (attempt (fs_readlink opts (Name f))) (\<lambda>r. ret (r = Inr (LinkTarget f)))) (\<lambda>same.
     bnd (when_do (\<not> same) (symlink opts (LinkTarget f) (Name f))) (\<lambda>_.
     set_perms opts f (Mode f)))"

text \<open>A regular file that exists: skip it, or request it with the sums of what is there.\<close>

definition gen_existing ::
  "(byte list \<Rightarrow> byte list) \<Rightarrow> int \<Rightarrow> recv_opts \<Rightarrow> int \<Rightarrow> rfile \<Rightarrow> node \<Rightarrow> (unit, recv) act" where
  "gen_existing md4 seed opts idx f nd =
     bnd (skip_file md4 opts f nd) (\<lambda>skip.
     if skip then set_perms opts f (Mode f)
     else if DryRun opts then write_int32 (i32 idx)
     else if WholeFile opts then request_full_file opts idx
     else bnd (attempt (fs_open opts (Name f))) (\<lambda>r.
       case r of
         Inl _ \<Rightarrow> request_full_file opts idx
       | Inr nd' \<Rightarrow>
           bnd (write_int32 (i32 idx)) (\<lambda>_.
           case n_kind nd' of
             KReg bs \<Rightarrow> generate_and_send_sums md4 seed bs (node_size nd)
           | _ \<Rightarrow> throw (PathError ''read''))))"

definition gen_regular ::
  "(byte list \<Rightarrow> byte list) \<Rightarrow> int \<Rightarrow> recv_opts \<Rightarrow> int \<Rightarrow> rfile \<Rightarrow> go_error + node option \<Rightarrow> (unit, recv) act" where
  "gen_regular md4 seed opts idx f st =
     (case st of
        Inl (NotExist _) \<Rightarrow> request_full_file opts idx
      | Inl e \<Rightarrow> throw e
      | Inr None \<Rightarrow> throw nil_root
      | Inr (Some nd) \<Rightarrow>
          (case n_kind nd of
             KReg _ \<Rightarrow> gen_existing md4 seed opts idx f nd
           | _ \<Rightarrow> bnd (wrap_err (\<lambda>e. Errorf ''unlinking to make room for regular file: %v'' [FErr e])
                        (fs_remove opts (Name f))) (\<lambda>_.
                 request_full_file opts idx)))"

definition recv_generator ::
  "(byte list \<Rightarrow> byte list) \<Rightarrow> int \<Rightarrow> recv_opts \<Rightarrow> int \<Rightarrow> rfile \<Rightarrow> (unit, recv) act" where
  "recv_generator md4 seed opts idx f =
     (if DestName opts = '''' then print_out opts (ListLine f) else
      bnd (attempt (stat_dest opts (Name f))) (\<lambda>st.
      let typ = type_of (Mode f) in
      if typ = S_IFDIR then gen_dir opts f st
      else if PreserveLinks opts \<and> typ = S_IFLNK then gen_symlink opts f st
      else if PreserveDevices opts \<and> (typ = S_IFCHR \<or> typ = S_IFBLK \<or> typ = S_IFSOCK \<or> typ = S_IFIFO)
      then create_device opts f (case st of Inl _ \<Rightarrow> None | Inr nd \<Rightarrow> nd)
      else if \<not> is_regular (file_mode f) then ret ()
      else gen_regular md4 seed opts idx f st))"

fun generate_loop ::
  "(byte list \<Rightarrow> byte list) \<Rightarrow> int \<Rightarrow> recv_opts \<Rightarrow> int \<Rightarrow> rfile list \<Rightarrow> (unit, recv) act" where
  "generate_loop md4 seed opts idx [] = ret ()"
| "generate_loop md4 seed opts idx (f # fs) =
     bnd (recv_generator md4 seed opts idx f) (\<lambda>_. generate_loop md4 seed opts (idx + 1) fs)"

definition generate_end :: "(unit, recv) act" where
  "generate_end = bnd (write_int32 (-1)) (\<lambda>_. write_int32 (-1))"

definition generate_files ::
  "(byte list \<Rightarrow> byte list) \<Rightarrow> int \<Rightarrow> recv_opts \<Rightarrow> rfile list \<Rightarrow> (unit, recv) act" where
  "generate_files md4 seed opts fileList =
     bnd (generate_loop md4 seed opts 0 fileList) (\<lambda>_. generate_end)"

definition touch_up_dir :: "recv_opts \<Rightarrow> rfile \<Rightarrow> (unit, recv) act" where
  "touch_up_dir opts f =
     (if type_of (Mode f) \<noteq> S_IFDIR \<or> DryRun opts \<or> Mode f AND S_IWUSR > 0 then ret ()
      else set_perms opts f (Mode f))"

definition touch_up_dirs :: "recv_opts \<Rightarrow> rfile list \<Rightarrow> (unit, recv) act" where
  "touch_up_dirs opts fileList = for_each (touch_up_dir opts) fileList"

subsection \<open>Deleting what the sender does not have\<close>

definition is_top_dir :: "rfile \<Rightarrow> bool" where
  "is_top_dir f \<longleftrightarrow> Name f = ''.''"

text \<open>\<open>sort.Search(n, p)\<close> between \<open>i\<close> and \<open>j\<close>.\<close>

function sort_search :: "(nat \<Rightarrow> bool) \<Rightarrow> nat \<Rightarrow> nat \<Rightarrow> nat" where
  "sort_search p i j =
     (if i < j then let h = (i + j) div 2 in if \<not> p h then sort_search p (h + 1) j else sort_search p i h
      else i)"
  by pat_completeness auto
termination
  by (relation "measure (\<lambda>(p, i, j). j - i)") auto

declare sort_search.simps [simp del]

definition find_in_file_list :: "rfile list \<Rightarrow> string \<Rightarrow> bool" where
  "find_in_file_list fl name =
     (let i = sort_search (\<lambda>i. name \<le> Name (fl ! i)) 0 (length fl)
      in i < length fl \<and> Name (fl ! i) = name)"

definition fs_readdir :: "string \<Rightarrow> ((string \<times> bool) list, recv) act" where
  "fs_readdir name s = (rt_readdir s (rt_fs s) name, s)"

definition fs_is_dir :: "recv_opts \<Rightarrow> string \<Rightarrow> (bool, recv) act" where
  "fs_is_dir opts name = bnd (fs_lstat opts name) (\<lambda>nd. ret (n_kind nd = KDir))"

definition delete_entry ::
  "recv_opts \<Rightarrow> rfile list \<Rightarrow> string \<Rightarrow> bool option \<Rightarrow> go_error option \<Rightarrow> (walk_sig, recv) act" where
  "delete_entry opts fl path d err =
     (case err of
        Some e \<Rightarrow> throw e
      | None \<Rightarrow>
          if find_in_file_list fl path \<or> DryRun opts then ret Continue
          else bnd (attempt (fs_remove_all opts path)) (\<lambda>_. ret SkipDir))"

fun delete_loop :: "nat \<Rightarrow> recv_opts \<Rightarrow> rfile list \<Rightarrow> rfile list \<Rightarrow> (unit, recv) act" where
  "delete_loop depth opts fl [] = ret ()"
| "delete_loop depth opts fl (f # fs) =
     (if \<not> is_top_dir f then delete_loop depth opts fl fs
      else bnd (attempt (walk_root depth (fs_is_dir opts) fs_readdir (\<lambda>d. d) (delete_entry opts fl) ''.'')) (\<lambda>r.
        case r of
          Inl (NotExist _) \<Rightarrow> ret ()
        | Inl e \<Rightarrow> throw e
        | Inr _ \<Rightarrow> delete_loop depth opts fl fs))"

definition delete_files :: "nat \<Rightarrow> recv_opts \<Rightarrow> rfile list \<Rightarrow> (unit, recv) act" where
  "delete_files depth opts fl =
     bnd (get IOErrors) (\<lambda>errs. if errs > 0 then ret () else delete_loop depth opts fl fl)"

end
