(* ===== verification/Recv_Do.thy ===== *)
theory Recv_Do
  imports Generator
begin

text \<open>
  \<open>internal/receiver/do.go\<close>: the whole receiving side.  Generator and receiver are two
  goroutines that share the destination; every interleaving of their turns, one entry of the
  file list or one received file at a time, is a path of the step relation.
\<close>

subsection \<open>The two goroutines\<close>

datatype gen_state = GNext int "rfile list" | GDone | GFailed go_error
datatype recv_state = RPhase int | RDone | RFailed go_error

type_synonym do_state = "gen_state \<times> recv_state \<times> recv"

inductive do_step ::
  "(byte list \<Rightarrow> byte list) \<Rightarrow> int \<Rightarrow> recv_opts \<Rightarrow> rfile list \<Rightarrow> do_state \<Rightarrow> do_state \<Rightarrow> bool"
  for md4 seed opts fl where
  gen_file: "recv_generator md4 seed opts idx f s = (Inr (), s') \<Longrightarrow>
     do_step md4 seed opts fl (GNext idx (f # fs), r, s) (GNext (idx + 1) fs, r, s')"
| gen_fail: "recv_generator md4 seed opts idx f s = (Inl e, s') \<Longrightarrow>
     do_step md4 seed opts fl (GNext idx (f # fs), r, s) (GFailed e, r, s')"
| gen_end: "generate_end s = (Inr (), s') \<Longrightarrow>
     do_step md4 seed opts fl (GNext idx [], r, s) (GDone, r, s')"
| gen_end_fail: "generate_end s = (Inl e, s') \<Longrightarrow>
     do_step md4 seed opts fl (GNext idx [], r, s) (GFailed e, r, s')"
| recv_more: "recv_files_step md4 seed opts fl phase s = (Inr (Some phase'), s') \<Longrightarrow>
     do_step md4 seed opts fl (g, RPhase phase, s) (g, RPhase phase', s')"
| recv_end: "recv_files_step md4 seed opts fl phase s = (Inr None, s') \<Longrightarrow>
     do_step md4 seed opts fl (g, RPhase phase, s) (g, RDone, s')"
| recv_fail: "recv_files_step md4 seed opts fl phase s = (Inl e, s') \<Longrightarrow>
     do_step md4 seed opts fl (g, RPhase phase, s) (g, RFailed e, s')"

code_pred do_step .

inductive_cases do_step_gen: "do_step md4 seed opts fl (GNext idx fs, r, s) c"
inductive_cases do_step_any: "do_step md4 seed opts fl (g, r, s) (g', r', s')"

abbreviation do_steps ::
  "(byte list \<Rightarrow> byte list) \<Rightarrow> int \<Rightarrow> recv_opts \<Rightarrow> rfile list \<Rightarrow> do_state \<Rightarrow> do_state \<Rightarrow> bool" where
  "do_steps md4 seed opts fl \<equiv> (do_step md4 seed opts fl)\<^sup>*\<^sup>*"

subsection \<open>\<open>Do\<close>\<close>

record stats =
  st_Read :: int
  st_Written :: int
  st_Size :: int

definition report :: "(stats, 'z conn_scheme) act" where
  "report =
     bnd read_int64 (\<lambda>read.
     bnd read_int64 (\<lambda>written.
     bnd read_int64 (\<lambda>size.
     ret \<lparr>st_Read = read, st_Written = written, st_Size = size\<rparr>)))"

definition do_finish :: "recv_opts \<Rightarrow> rfile list \<Rightarrow> bool \<Rightarrow> (stats option, recv) act" where
  "do_finish opts fl noReport =
     bnd (get retouchDirPerms) (\<lambda>retouch.
     bnd (when_do retouch (touch_up_dirs opts fl)) (\<lambda>_.
     bnd (if noReport then ret None else bnd report (\<lambda>st. ret (Some st))) (\<lambda>st.
     bnd (write_int32 (-1)) (\<lambda>_.
     ret st))))"

text \<open>
  A run of \<open>Do\<close>: the deletions, an interleaving of both goroutines until both are done or one has
  failed (\<open>eg.Wait\<close> gives the first error), the final steps.
\<close>

inductive do_recv ::
  "(byte list \<Rightarrow> byte list) \<Rightarrow> int \<Rightarrow> nat \<Rightarrow> recv_opts \<Rightarrow> rfile list \<Rightarrow> bool \<Rightarrow>
   recv \<Rightarrow> go_error + stats option \<Rightarrow> recv \<Rightarrow> bool"
  for md4 seed depth opts fl noReport where
  delete_fail: "when_do (DeleteMode opts) (delete_files depth opts fl) s = (Inl e, s') \<Longrightarrow>
     do_recv md4 seed depth opts fl noReport s (Inl e) s'"
| gen_error: "when_do (DeleteMode opts) (delete_files depth opts fl) s = (Inr (), s1) \<Longrightarrow>
     do_steps md4 seed opts fl (GNext 0 fl, RPhase 0, s1) (GFailed e, r, s') \<Longrightarrow>
     do_recv md4 seed depth opts fl noReport s (Inl e) s'"
| recv_error: "when_do (DeleteMode opts) (delete_files depth opts fl) s = (Inr (), s1) \<Longrightarrow>
     do_steps md4 seed opts fl (GNext 0 fl, RPhase 0, s1) (g, RFailed e, s') \<Longrightarrow>
     do_recv md4 seed depth opts fl noReport s (Inl e) s'"
| finish: "when_do (DeleteMode opts) (delete_files depth opts fl) s = (Inr (), s1) \<Longrightarrow>
     do_steps md4 seed opts fl (GNext 0 fl, RPhase 0, s1) (GDone, RDone, s2) \<Longrightarrow>
     do_finish opts fl noReport s2 = (res, s') \<Longrightarrow>
     do_recv md4 seed depth opts fl noReport s res s'"

end
