(* ===== verification/Os_Root.thy ===== *)
theory Os_Root
  imports Dest Go_Path
begin

text \<open>
  How \<open>os.Root\<close> looks up a name (\<open>os/root_openat.go\<close> of the Go library): component by component
  from the root, \<open>..\<close> and absolute targets that lead out of it refused, symbolic links in front of
  the last component followed.  The operations of \<open>Dest\<close> take a name for the entry of this name;
  \<open>root_resolve_literal\<close> says when that is what \<open>os.Root\<close> does.
\<close>

subsection \<open>Looking up a name\<close>

definition escape_error :: go_error where
  "escape_error = PathError ''path escapes from parent''"

text \<open>\<open>at\<close> is the directory that has been reached, \<open>k\<close> the number of links that may still be followed.\<close>

fun root_walk :: "nat \<Rightarrow> tree \<Rightarrow> string list \<Rightarrow> string list \<Rightarrow> go_error + string list" where
  "root_walk k fs at [] = Inr at"
| "root_walk k fs at (w # ws) =
     (if w = ''..'' then (if at = [] then Inl escape_error else root_walk k fs (butlast at) ws)
      else if w = '''' \<or> w = ''.'' then root_walk k fs at ws
      else if ws = [] then Inr (at @ [w])
      else (case fs (join_with (CHR ''/'') (at @ [w])) of
              None \<Rightarrow> Inl (NotExist (join_with (CHR ''/'') (at @ [w])))
            | Some nd \<Rightarrow>
                (case n_kind nd of
                   KDir \<Rightarrow> root_walk k fs (at @ [w]) ws
                 | KLink target \<Rightarrow>
                     (case k of
                        0 \<Rightarrow> Inl (PathError ''too many levels of symbolic links'')
                      | Suc k' \<Rightarrow>
                          if has_prefix target ''/'' then Inl escape_error
                          else root_walk k' fs at (split_on (CHR ''/'') target @ ws))
                 | _ \<Rightarrow> Inl (PathError ''not a directory''))))"

definition root_resolve :: "nat \<Rightarrow> tree \<Rightarrow> string \<Rightarrow> go_error + string" where
  "root_resolve k fs name =
     (if name = '''' \<or> has_prefix name ''/'' then Inl escape_error
      else map_sum id (\<lambda>ws. if ws = [] then ''.'' else join_with (CHR ''/'') ws)
             (root_walk k fs [] (split_on (CHR ''/'') name)))"

text \<open>A symbolic link on the way redirects a name to another one below the root.\<close>

lemma link_redirects:
  "root_resolve 8 [''l'' \<mapsto> \<lparr>n_kind = KLink ''sub'', n_perm = 0, n_mtime = \<lparr>t_sec = 0, t_nsec = 0\<rparr>, n_uid = 0, n_gid = 0\<rparr>,
     ''sub'' \<mapsto> \<lparr>n_kind = KDir, n_perm = 0, n_mtime = \<lparr>t_sec = 0, t_nsec = 0\<rparr>, n_uid = 0, n_gid = 0\<rparr>] ''l/f'' = Inr ''sub/f''"
  by code_simp

subsection \<open>Nothing outside the root\<close>

definition real_name :: "string \<Rightarrow> bool" where
  "real_name w \<longleftrightarrow> w \<notin> {'''', ''.'', ''..''} \<and> CHR ''/'' \<notin> set w"

lemma climbs_real: "\<forall>w \<in> set ws. real_name w \<Longrightarrow> \<not> climbs d ws"
  by (induction ws arbitrary: d) (auto simp: real_name_def)

lemma escapes_real:
  assumes "\<forall>w \<in> set ws. real_name w" "ws \<noteq> []"
  shows "\<not> escapes (join_with (CHR ''/'') ws)"
proof -
  have "split_on (CHR ''/'') (join_with (CHR ''/'') ws) = ws"
    by (rule split_join [OF assms(2)]) (use assms(1) in \<open>simp add: real_name_def\<close>)
  moreover have "hd ws \<noteq> ''''" "CHR ''/'' \<notin> set (hd ws)" using assms by (auto simp: real_name_def)
  then have "join_with (CHR ''/'') ws \<noteq> []" "hd (join_with (CHR ''/'') ws) \<noteq> CHR ''/''"
    using join_with_hd [OF assms(2)] hd_in_set by metis+
  ultimately show ?thesis
    using climbs_real [OF assms(1)] by (auto simp: escapes_def has_prefix_def neq_Nil_conv)
qed

lemma root_walk_real:
  assumes "root_walk k fs at ws = Inr vs" "\<forall>w \<in> set at. real_name w" "\<forall>w \<in> set ws. CHR ''/'' \<notin> set w"
  shows "\<forall>w \<in> set vs. real_name w"
  using assms
proof (induction k fs at ws rule: root_walk.induct)
  case (2 k fs at w ws)
  note up = 2(1) and skip = 2(2) and dir = 2(3) and link = 2(4) and walk = 2(5) and at = 2(6) and ws = 2(7)
  consider "w = ''..''" | "w = '''' \<or> w = ''.''" | "w \<notin> {'''', ''.'', ''..''}" by blast
  then show ?case
  proof cases
    case 1
    then show ?thesis using up walk at ws by (auto split: if_splits dest: in_set_butlastD)
  next
    case 2
    then show ?thesis using skip walk at ws by auto
  next
    case 3
    then have w: "\<forall>v \<in> set (at @ [w]). real_name v" using at ws by (auto simp: real_name_def)
    show ?thesis
    proof (cases "ws = []")
      case True
      then show ?thesis using 3 walk w by simp
    next
      case False
      let ?n = "join_with (CHR ''/'') (at @ [w])"
      obtain nd where nd: "fs ?n = Some nd" using 3 False walk by (auto split: option.splits)
      show ?thesis
      proof (cases "n_kind nd")
        case KDir
        then show ?thesis using dir 3 False nd walk w ws by simp
      next
        case (KLink target)
        then obtain k' where k': "k = Suc k'" "\<not> has_prefix target ''/''"
          "root_walk k' fs at (split_on (CHR ''/'') target @ ws) = Inr vs"
          using 3 False nd walk by (auto split: nat.splits if_splits)
        moreover have "\<forall>v \<in> set (split_on (CHR ''/'') target @ ws). CHR ''/'' \<notin> set v"
          using ws by (auto dest: split_no_sep)
        ultimately show ?thesis using link 3 False nd KLink at by auto
      qed (use 3 False nd walk in auto)
    qed
  qed
qed simp

theorem root_resolve_inside: "root_resolve k fs name = Inr m \<Longrightarrow> \<not> escapes m"
proof -
  assume res: "root_resolve k fs name = Inr m"
  then obtain vs where vs: "root_walk k fs [] (split_on (CHR ''/'') name) = Inr vs"
    "m = (if vs = [] then ''.'' else join_with (CHR ''/'') vs)"
    by (cases "root_walk k fs [] (split_on (CHR ''/'') name)") (auto simp: root_resolve_def split: if_splits)
  have "\<forall>w \<in> set vs. real_name w" by (rule root_walk_real [OF vs(1)]) (simp_all add: split_no_sep)
  then show ?thesis
    using escapes_real by (simp add: vs(2)) (simp add: escapes_def has_prefix_def)
qed

subsection \<open>Names without links on the way\<close>

definition is_link :: "tree \<Rightarrow> string \<Rightarrow> bool" where
  "is_link fs n \<longleftrightarrow> (case fs n of Some nd \<Rightarrow> (case n_kind nd of KLink t \<Rightarrow> True | _ \<Rightarrow> False) | None \<Rightarrow> False)"

lemma root_walk_literal:
  assumes "root_walk k fs at ws = Inr vs" "\<forall>w \<in> set ws. real_name w"
    and "\<forall>j. Suc j < length ws \<longrightarrow> \<not> is_link fs (join_with (CHR ''/'') (at @ take (Suc j) ws))"
  shows "vs = at @ ws"
  using assms
proof (induction ws arbitrary: at)
  case (Cons w ws)
  have w: "w \<noteq> ''..''" "w \<noteq> ''''" "w \<noteq> ''.''" using Cons.prems(2) by (auto simp: real_name_def)
  show ?case
  proof (cases "ws = []")
    case False
    have "\<not> is_link fs (join_with (CHR ''/'') (at @ [w]))" using Cons.prems(3) False by force
    with Cons.prems(1) w False have walk: "root_walk k fs (at @ [w]) ws = Inr vs"
      by (auto simp: is_link_def split: option.splits node_kind.splits)
    have "\<not> is_link fs (join_with (CHR ''/'') ((at @ [w]) @ take (Suc j) ws))" if "Suc j < length ws" for j
      using Cons.prems(3) [rule_format, of "Suc j"] that by simp
    with Cons.IH [OF walk] Cons.prems(2) show ?thesis by simp
  qed (use Cons.prems(1) w in simp)
qed simp

text \<open>A cleaned name below the root is the root itself or consists of real names.\<close>

lemma clean_real:
  assumes "clean name = name" "\<not> escapes name" "name \<noteq> ''.''"
  shows "\<forall>w \<in> set (split_on (CHR ''/'') name). real_name w"
proof -
  let ?ws = "clean_comps False (split_on (CHR ''/'') name)"
  have rel: "\<not> has_prefix name ''/''" using assms(2) by (simp add: escapes_def)
  have cr: "clean_rel ?ws" by (rule clean_comps_rel)
  have name: "name = join_with (CHR ''/'') ?ws"
    using assms(1,3) rel by (simp add: clean_def Let_def split: if_splits)
  have ne: "?ws \<noteq> []" using name assms(2) by (auto simp: escapes_def)
  have "\<forall>w \<in> set ?ws. CHR ''/'' \<notin> set w" using cr by (simp add: clean_rel_def proper_def)
  then have split: "split_on (CHR ''/'') name = ?ws" using split_join [OF ne] name by metis
  have "\<not> climbs 0 ?ws" using assms(2) split by (simp add: escapes_def)
  then have "hd ?ws \<noteq> ''..''" using ne by (cases ?ws) auto
  then have "''..'' \<notin> set ?ws" using cr ne unfolding clean_rel_def by (cases ?ws) auto
  then show ?thesis using cr split by (auto simp: clean_rel_def proper_def real_name_def)
qed

theorem root_resolve_literal:
  assumes "root_resolve k fs name = Inr m" "clean name = name" "\<not> escapes name"
    and "\<forall>p \<in> set (path_prefixes name). p \<noteq> name \<longrightarrow> \<not> is_link fs p"
  shows "m = name"
proof (cases "name = ''.''")
  case True
  then show ?thesis using assms(1) by (simp add: root_resolve_def has_prefix_def)
next
  case False
  let ?ws = "split_on (CHR ''/'') name"
  have real: "\<forall>w \<in> set ?ws. real_name w" by (rule clean_real [OF assms(2,3) False])
  obtain vs where vs: "root_walk k fs [] ?ws = Inr vs" "m = (if vs = [] then ''.'' else join_with (CHR ''/'') vs)"
    using assms(1) by (cases "root_walk k fs [] ?ws") (auto simp: root_resolve_def split: if_splits)
  have "\<not> is_link fs (join_with (CHR ''/'') (take (Suc j) ?ws))" if j: "Suc j < length ?ws" for j
  proof -
    let ?p = "join_with (CHR ''/'') (take (Suc j) ?ws)"
    have "split_on (CHR ''/'') ?p = take (Suc j) ?ws"
      by (rule split_join) (auto simp: split_no_sep dest: in_set_takeD)
    then have "?p \<noteq> name" using j by (metis length_take min.absorb4 nat_neq_iff)
    moreover have "?p \<in> set (path_prefixes name)" using j by (auto simp: path_prefixes_def Let_def)
    ultimately show ?thesis using assms(4) by blast
  qed
  then have "vs = ?ws" using root_walk_literal [OF vs(1) real] by simp
  then show ?thesis using vs(2) by (simp add: join_split)
qed

end
