(* ===== verification/Recv_Safety.thy ===== *)
theory Recv_Safety
  imports Recv_Do Os_Root
begin

text \<open>
  What no run of the receiving side does, whatever the peer sends and however the goroutines
  interleave: change a name outside the destination or outside the file list, make a listed
  name lead through a symbolic link that was not there, or run forever.
\<close>

subsection \<open>Names below the root\<close>

lemma climbs_append: "climbs d ws \<Longrightarrow> climbs d (ws @ vs)"
  by (induction d ws rule: climbs.induct) (auto split: nat.splits)

lemma hd_split_on: "hd (split_on c s) = [] \<longleftrightarrow> s = [] \<or> hd s = c"
  by (cases s) (auto split: list.split)

lemma has_prefix_slash: "has_prefix s [c] \<longleftrightarrow> s \<noteq> [] \<and> hd s = c"
  by (cases s) (auto simp: has_prefix_def)

lemma escapes_hd:
  "escapes name \<longleftrightarrow> hd (split_on (CHR ''/'') name) = [] \<or> climbs 0 (split_on (CHR ''/'') name)"
  by (auto simp: escapes_def hd_split_on has_prefix_slash)

lemma path_prefixes_inside:
  assumes "\<not> escapes name" "p \<in> set (path_prefixes name)"
  shows "\<not> escapes p"
proof -
  let ?ws = "split_on (CHR ''/'') name"
  obtain k where k: "k < length ?ws" "p = join_with (CHR ''/'') (take (Suc k) ?ws)"
    using assms(2) by (auto simp: path_prefixes_def Let_def)
  have sep: "\<forall>w \<in> set ?ws. CHR ''/'' \<notin> set w" by (simp add: split_no_sep)
  have "split_on (CHR ''/'') p = take (Suc k) ?ws"
    unfolding k(2) by (rule split_join) (use k(1) sep in \<open>auto dest: in_set_takeD\<close>)
  moreover have "hd (take (Suc k) ?ws) = hd ?ws" by (simp add: hd_conv_nth)
  moreover have "climbs 0 (take (Suc k) ?ws) \<Longrightarrow> climbs 0 ?ws"
    using climbs_append [of 0 "take (Suc k) ?ws" "drop (Suc k) ?ws"] by simp
  ultimately show ?thesis using assms(1) by (auto simp: escapes_hd)
qed

lemma self_prefix: "name \<in> set (path_prefixes name)"
proof -
  let ?ws = "split_on (CHR ''/'') name"
  have "path_prefixes name ! (length ?ws - 1) = join_with (CHR ''/'') ?ws"
    by (simp add: path_prefixes_def Let_def)
  moreover have "length ?ws - 1 < length (path_prefixes name)" by (simp add: path_prefixes_def Let_def)
  ultimately show ?thesis by (metis join_split nth_mem)
qed

text \<open>
  What an entry may touch: its own name and its parents, as far as they are below the root (a
  \<open>WritableFS\<close> has no root).
\<close>

definition touched :: "recv_opts \<Rightarrow> rfile \<Rightarrow> string set" where
  "touched opts f = {n \<in> set (path_prefixes (Name f)). escapes n \<longrightarrow> WritableFS opts}"

subsection \<open>The environment and what is kept\<close>

text \<open>
  What is assumed of the environment: \<open>renameio\<close> and \<open>mknod\<close> work below the root they are
  given, and put one entry of the right kind in place or fail.
\<close>

definition confined :: "recv \<Rightarrow> bool" where
  "confined s \<longleftrightarrow>
     (\<forall>fs name nd fs'. rt_replace s fs name nd = Inr fs' \<longrightarrow> \<not> escapes name \<and> fs' = fs(name \<mapsto> nd)) \<and>
     (\<forall>fs name k p d fs'. rt_mknod s fs name k p d = Inr fs' \<longrightarrow>
        \<not> escapes name \<and> (\<exists>nd. n_kind nd = k \<and> fs' = fs(name \<mapsto> nd))) \<and>
     (\<forall>k p. n_kind (rt_new s k p) = k)"

definition env_of :: "recv \<Rightarrow> _" where
  "env_of s = (rt_deny s, rt_new s, rt_link s, rt_replace s, rt_mknod s, rt_readdir s)"

text \<open>Only the names of \<open>N\<close> change, and only those of \<open>L\<close> become symbolic links.\<close>

definition tree_rel :: "string set \<Rightarrow> string set \<Rightarrow> recv \<Rightarrow> recv \<Rightarrow> bool" where
  "tree_rel N L s t \<longleftrightarrow> env_of t = env_of s \<and> length (c_in t) \<le> length (c_in s) \<and>
     (confined s \<longrightarrow> (\<forall>n. n \<notin> N \<longrightarrow> rt_fs t n = rt_fs s n) \<and>
        (\<forall>n. is_link (rt_fs t) n \<longrightarrow> is_link (rt_fs s) n \<or> n \<in> L))"

lemma confined_env: "env_of t = env_of s \<Longrightarrow> confined t = confined s"
  by (simp add: confined_def env_of_def)

interpretation tree: frame "tree_rel N L" for N L
  by unfold_locales (auto simp: tree_rel_def dest: confined_env)

abbreviation stays :: "string set \<Rightarrow> string set \<Rightarrow> ('a, recv) act \<Rightarrow> bool" where
  "stays N L m \<equiv> keeps (tree_rel N L) m"

lemma stays_mono: "stays M L m \<Longrightarrow> M \<subseteq> N \<Longrightarrow> L \<subseteq> K \<Longrightarrow> stays N K m"
  by (erule keeps_mono) (auto simp: tree_rel_def)

lemma is_link_kinds: "is_link fs n \<longleftrightarrow> (\<exists>t. kinds fs n = Some (KLink t))"
  by (auto simp: is_link_def kinds_def split: option.split node_kind.split)

lemma only_names_env:
  assumes "only_names N m" "m s = (r, t)"
  shows "env_of t = env_of s"
  by (subst only_names_frame [OF assms]) (simp add: env_of_def)

text \<open>What an operation on names of \<open>N\<close> has to show: no link comes into being.\<close>

lemma stays_only_names_links:
  assumes "only_names N m" "\<And>s r t n. m s = (r, t) \<Longrightarrow> confined s \<Longrightarrow> is_link (rt_fs t) n \<Longrightarrow> is_link (rt_fs s) n \<or> n \<in> L"
  shows "stays N L m"
proof (rule keepsI)
  fix s
  obtain r t where m: "m s = (r, t)" by (cases "m s")
  have "\<forall>n. n \<notin> N \<longrightarrow> rt_fs t n = rt_fs s n" using only_namesD [OF assms(1) m] by blast
  moreover have "c_in t = c_in s" using only_names_conn [OF assms(1) m] by simp
  ultimately show "tree_rel N L s (snd (m s))"
    using only_names_env [OF assms(1) m] assms(2) [OF m] by (auto simp: tree_rel_def m)
qed

lemma stays_only_names:
  assumes "only_names N m" "keeps_kinds m"
  shows "stays N L m"
  by (rule stays_only_names_links [OF assms(1)]) (simp add: is_link_kinds keeps_kindsD [OF assms(2)])

lemma stays_reads:
  assumes "reads m"
  shows "stays N L m"
proof (rule keepsI)
  fix s
  obtain r t where m: "m s = (r, t)" by (cases "m s")
  have t: "t = s\<lparr>c_in := c_in t\<rparr>" by (rule reads_frame [OF assms m])
  have "env_of t = env_of s \<and> rt_fs t = rt_fs s" by (subst (1 2) t) (simp add: env_of_def)
  moreover have "length (c_in t) \<le> length (c_in s)" by (rule reads_length [OF assms m])
  ultimately show "tree_rel N L s (snd (m s))" by (simp add: tree_rel_def m)
qed

text \<open>An operation on a name that escapes fails in its check.\<close>

lemma stays_check_bnd:
  assumes "\<not> escapes name \<Longrightarrow> stays N L (k ())"
  shows "stays N L (bnd (fs_check opts opn name) k)"
proof (cases "escapes name")
  case True
  then have "snd (bnd (fs_check opts opn name) k s) = s" for s
    by (simp add: bnd_def fs_check_def)
  then show ?thesis by (simp add: keeps_def tree.frame_refl)
next
  case False
  then show ?thesis by (intro tree.keep_bnd stays_only_names [OF only_names_check keeps_kinds_simple(1)]) (simp add: assms)
qed

lemma stays_simple:
  "stays N L (fs_get name)" "stays N L (fs_check opts opn name)" "stays N L (stat_dest opts name)"
  "stays N L (fs_lstat opts name)" "stays N L (print_out opts line)" "stays N L (write_int32 x)"
  "stays N L (write_to sh)" "stays N L (conn_write p)" "stays N L (modify (\<lambda>s. s\<lparr>retouchDirPerms := b\<rparr>))"
proof -
  show "stays N L (fs_get name)" by (rule stays_only_names [OF only_names_get keeps_kinds_simple(2)])
  show "stays N L (fs_check opts opn name)" by (rule stays_only_names [OF only_names_check keeps_kinds_simple(1)])
  have lstat: "stays N L (fs_lstat opts name)" for name
    unfolding fs_lstat_def
    by (intro stays_only_names only_names_intro kind.keep_bnd keeps_kinds_simple)
  then show "stays N L (fs_lstat opts name)" .
  show "stays N L (stat_dest opts name)" unfolding stat_dest_def
    by (intro tree.keep_intro lstat stays_only_names [OF only_names_get keeps_kinds_simple(2)])
  show "stays N L (print_out opts line)" "stays N L (modify (\<lambda>s. s\<lparr>retouchDirPerms := b\<rparr>))"
    by (auto simp: keeps_def tree_rel_def env_of_def print_out_def modify_def)
  show w: "stays N L (conn_write p)" for p
    by (auto simp: keeps_def tree_rel_def env_of_def conn_write_def)
  show "stays N L (write_int32 x)" "stays N L (write_to sh)"
    unfolding write_int32_def write_to_def write_string_def by (rule w)+
qed

lemma stays_update0:
  assumes "name \<in> N" "\<And>nd. n_kind (g nd) = n_kind nd"
  shows "stays N L (bnd (fs_get name) (\<lambda>nd. fs_set name (Some (g nd))))"
  by (intro stays_only_names only_names_intro assms(1) keeps_kinds_update assms(2))

lemma stays_update:
  assumes "\<not> escapes name \<Longrightarrow> name \<in> N" "\<And>nd. n_kind (g nd) = n_kind nd"
  shows "stays N L (bnd (fs_check opts opn name) (\<lambda>_. bnd (fs_get name) (\<lambda>nd. fs_set name (Some (g nd)))))"
  by (intro stays_check_bnd stays_update0 assms)

lemma stays_unlink: "name \<in> N \<Longrightarrow> stays N L (fs_unlink name nd)"
  by (rule stays_only_names_links [OF only_names_unlink])
    (auto simp: fs_unlink_def fs_set_def modify_def is_link_def split: if_splits option.splits)

lemma stays_ops:
  assumes "(escapes name \<longrightarrow> WritableFS opts) \<Longrightarrow> name \<in> N"
  shows "stays N L (fs_remove opts name)" "stays N L (fs_chmod opts name p)"
    "stays N L (fs_chtimes opts name t)" "stays N L (fs_lchown opts name u g)"
    "stays N L (fs_readlink opts name)"
proof -
  have nm: "\<not> escapes name \<Longrightarrow> name \<in> N" using assms by blast
  show "stays N L (fs_remove opts name)" unfolding fs_remove_def
    by (intro stays_check_bnd tree.keep_bnd stays_simple stays_unlink nm)
  show "stays N L (fs_chmod opts name p)" unfolding fs_chmod_def by (rule stays_update [OF nm]) simp_all
  show "stays N L (fs_chtimes opts name t)"
  proof (cases "WritableFS opts")
    case True
    with assms have "name \<in> N" by blast
    with True show ?thesis unfolding fs_chtimes_def by (simp add: tree.keep_bnd tree.keep_ret stays_update0)
  next
    case False
    with stays_update [OF nm] show ?thesis by (simp add: fs_chtimes_def)
  qed
  show "stays N L (fs_lchown opts name u g)" unfolding fs_lchown_def by (rule stays_update [OF nm]) simp_all
  show "stays N L (fs_readlink opts name)" unfolding fs_readlink_def
    by (intro tree.keep_bnd stays_simple) (auto simp: tree.keep_intro split: node_kind.split)
qed

lemma stays_mkdir_one: "name \<in> N \<Longrightarrow> stays N L (mkdir_one perm name)"
  by (auto simp: keeps_def tree_rel_def env_of_def mkdir_one_def fs_set_def modify_def confined_def is_link_def
      split: option.split)

lemma stays_mkdir_all:
  assumes "\<And>p. p \<in> set (path_prefixes name) \<Longrightarrow> (escapes p \<longrightarrow> WritableFS opts) \<Longrightarrow> p \<in> N"
  shows "stays N L (fs_mkdir_all opts name perm)"
proof -
  have each: "stays N L (for_each (mkdir_one perm) (path_prefixes name))" if "escapes name \<longrightarrow> WritableFS opts"
  proof (intro tree.keep_for_each stays_mkdir_one)
    fix p assume "p \<in> set (path_prefixes name)"
    with that show "p \<in> N" using assms path_prefixes_inside by blast
  qed
  show ?thesis
  proof (cases "WritableFS opts")
    case True
    with each show ?thesis by (simp add: fs_mkdir_all_def)
  next
    case False
    have "stays N L (bnd (fs_check opts ''mkdir'' name) (\<lambda>_. for_each (mkdir_one perm) (path_prefixes name)))"
      by (rule stays_check_bnd) (simp add: each)
    with False show ?thesis by (simp add: fs_mkdir_all_def)
  qed
qed

lemma is_link_upd: "is_link (fs(name \<mapsto> nd)) n \<longleftrightarrow> (if n = name then (\<exists>t. n_kind nd = KLink t) else is_link fs n)"
  by (auto simp: is_link_def split: node_kind.split option.split)

lemma stays_replace:
  assumes "\<not> escapes name \<Longrightarrow> name \<in> N" "\<And>s t. confined s \<Longrightarrow> n_kind (g s) = KLink t \<Longrightarrow> name \<in> L"
  shows "stays N L (\<lambda>s. fs_replace name (g s) s)"
proof (rule keepsI)
  fix s
  have "(\<forall>n. n \<notin> N \<longrightarrow> fs' n = rt_fs s n) \<and> (\<forall>n. is_link fs' n \<longrightarrow> is_link (rt_fs s) n \<or> n \<in> L)"
    if "rt_replace s (rt_fs s) name (g s) = Inr fs'" "confined s" for fs'
  proof -
    have "\<not> escapes name" "fs' = (rt_fs s)(name \<mapsto> g s)" using that unfolding confined_def by blast+
    with assms that(2) show ?thesis by (auto simp: is_link_upd split: if_splits)
  qed
  then show "tree_rel N L s (snd (fs_replace name (g s) s))"
    by (auto simp: tree_rel_def env_of_def fs_replace_def split: sum.split)
qed

lemma stays_mknod:
  assumes "\<not> escapes name \<Longrightarrow> name \<in> N" "\<And>t. k \<noteq> KLink t"
  shows "stays N L (fs_mknod name k p d)"
proof (rule keepsI)
  fix s
  have "(\<forall>n. n \<notin> N \<longrightarrow> fs' n = rt_fs s n) \<and> (\<forall>n. is_link fs' n \<longrightarrow> is_link (rt_fs s) n \<or> n \<in> L)"
    if "rt_mknod s (rt_fs s) name k p d = Inr fs'" "confined s" for fs'
  proof -
    have "\<not> escapes name \<and> (\<exists>nd. n_kind nd = k \<and> fs' = (rt_fs s)(name \<mapsto> nd))" using that unfolding confined_def by blast
    with assms show ?thesis by (auto simp: is_link_upd split: if_splits)
  qed
  then show "tree_rel N L s (snd (fs_mknod name k p d s))"
    by (auto simp: tree_rel_def env_of_def fs_mknod_def split: sum.split)
qed

lemma stays_fs_open: "stays N L (fs_open opts name)"
  unfolding fs_open_def
proof (intro tree.keep_bnd stays_simple)
  fix nd
  have "stays N L (\<lambda>s. case rt_link s name of None \<Rightarrow> (Inl (NotExist name), s) | Some dest \<Rightarrow> fs_get dest s)"
    using stays_simple(1) by (auto simp: keeps_def tree.frame_refl split: option.split)
  then show "stays N L (case n_kind nd of KLink target \<Rightarrow>
      (\<lambda>s. case rt_link s name of None \<Rightarrow> (Inl (NotExist name), s) | Some dest \<Rightarrow> fs_get dest s) | _ \<Rightarrow> ret nd)"
    by (auto simp: tree.keep_intro split: node_kind.split)
qed

lemma stays_set_perms:
  assumes "(escapes (Name f) \<longrightarrow> WritableFS opts) \<Longrightarrow> Name f \<in> N"
  shows "stays N L (set_perms opts f mode)"
proof -
  note ops = stays_ops [OF assms]
  have "stays N L (set_uid opts f st)" for st
    unfolding set_uid_def Let_def by (intro tree.keep_intro ops stays_simple)
  then have "stays N L (set_perms_of opts f mode st)" for st
    unfolding set_perms_of_def Let_def by (intro tree.keep_intro ops)
  then have "stays N L (case r of Inl e \<Rightarrow> if WritableFS opts then ret () else throw e
      | Inr None \<Rightarrow> throw nil_root | Inr (Some st) \<Rightarrow> set_perms_of opts f mode st)" for r
    by (auto simp: tree.keep_intro split: sum.split option.split)
  then show ?thesis unfolding set_perms_def by (intro tree.keep_intro stays_simple)
qed

lemma stays_sums: "stays N L (generate_and_send_sums md4 seed data n)"
proof -
  have "stays N L (sums_loop md4 seed sh k rem rest)" for sh k rem rest
  proof (induction k arbitrary: rem rest)
    case (Suc k)
    show ?case unfolding sums_loop.simps Let_def by (intro tree.keep_intro stays_simple Suc.IH)
  qed (simp add: tree.keep_ret)
  then show ?thesis unfolding generate_and_send_sums_def Let_def by (intro tree.keep_intro stays_simple)
qed

subsection \<open>The generator\<close>

lemma stays_case_node:
  "(\<And>bs. stays N L (g bs)) \<Longrightarrow> stays N L m \<Longrightarrow> stays N L (case n_kind nd of KReg bs \<Rightarrow> g bs | _ \<Rightarrow> m)"
  by (simp split: node_kind.split)

lemma touched_self: "(escapes (Name f) \<longrightarrow> WritableFS opts) \<Longrightarrow> Name f \<in> touched opts f"
  by (simp add: touched_def self_prefix)

text \<open>A symbolic link is only made for an entry that is one.\<close>

definition link_name :: "rfile \<Rightarrow> string set" where
  "link_name f = (if type_of (Mode f) = S_IFLNK then {Name f} else {})"

lemma stays_gen_symlink:
  assumes "type_of (Mode f) = S_IFLNK"
  shows "stays (touched opts f) (link_name f) (gen_symlink opts f st)"
proof -
  let ?N = "touched opts f" and ?L = "link_name f"
  have L: "Name f \<in> ?L" using assms by (simp add: link_name_def)
  have "stays ?N ?L (case st of Inl _ \<Rightarrow> ret False
        | Inr _ \<Rightarrow> bnd (attempt (fs_readlink opts (Name f))) (\<lambda>r. ret (r = Inr (LinkTarget f))))"
    by (auto intro!: tree.keep_intro stays_ops [OF touched_self] split: sum.split)
  moreover have "stays ?N ?L (symlink opts (LinkTarget f) (Name f))"
    unfolding symlink_def
    by (intro tree.keep_if tree.keep_throw stays_replace L) (simp add: touched_self)
  ultimately show ?thesis
    unfolding gen_symlink_def by (intro tree.keep_intro stays_set_perms [OF touched_self])
qed

lemma stays_create_device: "stays (touched opts f) L (create_device opts f st)"
proof -
  have nm: "\<not> escapes (Name f) \<Longrightarrow> Name f \<in> touched opts f" by (simp add: touched_self)
  have "stays (touched opts f) L (fs_mknod (Name f) KChr p d)" "stays (touched opts f) L (fs_mknod (Name f) KBlk p d)"
    "stays (touched opts f) L (fs_mknod (Name f) KSock p d)" "stays (touched opts f) L (fs_mknod (Name f) KFifo p d)" for p d
    by (rule stays_mknod [OF nm]; simp)+
  then show ?thesis
    unfolding create_device_def Let_def by (intro tree.keep_intro stays_fs_open)
qed

lemma stays_recv_generator: "stays (touched opts f) (link_name f) (recv_generator md4 seed opts idx f)"
proof -
  let ?N = "touched opts f" and ?L = "link_name f"
  have pre: "p \<in> set (path_prefixes (Name f)) \<Longrightarrow> (escapes p \<longrightarrow> WritableFS opts) \<Longrightarrow> p \<in> ?N" for p
    by (simp add: touched_def)
  note intro = tree.keep_intro stays_simple stays_ops [OF touched_self] stays_mkdir_all [OF pre]
    stays_set_perms [OF touched_self] stays_fs_open stays_sums stays_case_node
  have full: "stays ?N ?L (request_full_file opts idx)" unfolding request_full_file_def by (intro intro)
  have skip: "stays ?N ?L (skip_file md4 opts f nd)" for nd unfolding skip_file_def by (intro intro)
  have dir: "stays ?N ?L (gen_dir opts f st)" for st
  proof -
    have "stays ?N ?L (case st of Inr None \<Rightarrow> throw nil_root
           | Inr (Some nd) \<Rightarrow>
               if n_kind nd = KDir then ret False
               else bnd (wrap_err (\<lambda>e. Errorf ''unlinking to make room for directory: %v'' [FErr e])
                           (fs_remove opts (Name f))) (\<lambda>_. ret True)
           | Inl _ \<Rightarrow> ret True)"
      by (auto intro!: intro split: sum.split option.split)
    then show ?thesis unfolding gen_dir_def by (intro intro)
  qed
  have existing: "stays ?N ?L (gen_existing md4 seed opts idx f nd)" for nd
  proof -
    have "stays ?N ?L (case r of Inl _ \<Rightarrow> request_full_file opts idx
       | Inr nd' \<Rightarrow> bnd (write_int32 (i32 idx)) (\<lambda>_. case n_kind nd' of
             KReg bs \<Rightarrow> generate_and_send_sums md4 seed bs (node_size nd) | _ \<Rightarrow> throw (PathError ''read'')))" for r
      by (cases r) (simp_all, intro full, intro intro)
    then show ?thesis unfolding gen_existing_def by (intro intro full skip)
  qed
  have reg: "stays ?N ?L (gen_regular md4 seed opts idx f st)" for st
    unfolding gen_regular_def
    by (auto intro!: intro full existing split: sum.split option.split go_error.split)
  have link: "stays ?N ?L (if PreserveLinks opts \<and> type_of (Mode f) = S_IFLNK then gen_symlink opts f st else m)"
    if "stays ?N ?L m" for st m
    using that stays_gen_symlink by simp
  show ?thesis unfolding recv_generator_def Let_def by (intro intro dir link stays_create_device reg)
qed

subsection \<open>The receiver\<close>

lemma stays_recv_loop: "stays N L (recv_loop sh f lf acc)"
proof (rule keepsI)
  fix s
  obtain r s' where r: "recv_loop sh f lf acc s = (r, s')" by (cases "recv_loop sh f lf acc s")
  have s': "s' = s\<lparr>c_in := c_in s'\<rparr>" using recv_loop_frame [OF r] by blast
  have "env_of s' = env_of s \<and> rt_fs s' = rt_fs s" by (subst (1 2) s') (simp add: env_of_def)
  then show "tree_rel N L s (snd (recv_loop sh f lf acc s))"
    using recv_loop_shrinks [OF r] by (simp add: tree_rel_def r)
qed

lemma stays_clean_up: "tree_rel N L s t \<Longrightarrow> tree_rel N L s (clean_up pending t)"
  by (auto simp: tree_rel_def env_of_def clean_up_def remove_temp_def split: option.split)

lemma stays_or_clean_up: "stays N L m \<Longrightarrow> stays N L (or_clean_up pending m)"
  by (rule keepsI) (auto simp: or_clean_up_def split: sum.splits prod.splits dest: keepsD intro: stays_clean_up)

lemma stays_close:
  assumes "\<not> escapes (Name f) \<Longrightarrow> Name f \<in> N"
  shows "stays N L (close_atomically_replace pending f acc)"
proof (rule keepsI)
  fix s
  let ?m = "\<lambda>s. fs_replace (Name f) (rt_new s (KReg acc) 0x180) s"
  have "stays N L ?m"
    by (rule stays_replace [OF assms]) (simp_all add: confined_def)
  then have rep: "tree_rel N L s (snd (?m s))" by (simp add: keeps_def)
  have rm: "tree_rel N L s (remove_temp tmp s)" for tmp
    using stays_clean_up [OF tree.frame_refl, of N L s "Some tmp"] by (simp add: clean_up_def)
  have temps: "tree_rel N L s t \<Longrightarrow> tree_rel N L s (t\<lparr>rt_temps := x\<rparr>)" for t x
    by (simp add: tree_rel_def env_of_def)
  show "tree_rel N L s (snd (close_atomically_replace pending f acc s))"
    using rep rm
    by (cases "?m s") (auto simp: close_atomically_replace_def Let_def bnd_def modify_def temps
        split: option.split sum.split)
qed

lemma stays_receive_data:
  assumes "(escapes (Name f) \<longrightarrow> WritableFS opts) \<Longrightarrow> Name f \<in> N"
  shows "stays N L (receive_data md4 seed opts f lf)"
proof -
  have nm: "\<not> escapes (Name f) \<Longrightarrow> Name f \<in> N" using assms by blast
  have new: "stays N L (new_pending_file opts f)"
    by (auto simp: keeps_def tree.frame_refl new_pending_file_def Let_def tree_rel_def env_of_def)
  have close: "stays N L (close_atomically_replace pending f acc)" for pending acc
    by (rule stays_close [OF nm])
  have "stays N L (receive_checked md4 seed sh f lf)" for sh
    unfolding receive_checked_def Let_def
    by (intro tree.keep_intro stays_reads [OF reads_read_full] stays_recv_loop)
  then have "stays N L (or_clean_up pending (receive_checked md4 seed sh f lf))" for pending sh
    by (rule stays_or_clean_up)
  then show ?thesis
    unfolding receive_data_def
    by (intro tree.keep_intro new close stays_reads [OF reads_read_from] stays_set_perms [OF assms])
qed

lemma stays_recv_files_step:
  "stays (\<Union>f \<in> set fl. touched opts f) L (recv_files_step md4 seed opts fl phase)"
proof -
  let ?N = "\<Union>f \<in> set fl. touched opts f"
  have fil: "stays ?N L (recv_file1 md4 seed opts f)" if "f \<in> set fl" for f
  proof -
    have nm: "(escapes (Name f) \<longrightarrow> WritableFS opts) \<Longrightarrow> Name f \<in> ?N" using touched_self that by blast
    have data: "stays ?N L (receive_data md4 seed opts (f\<lparr>Mode := m\<rparr>) lf)" for m lf
      by (rule stays_receive_data) (use nm in simp)
    have opn: "stays ?N L (open_local_file opts f)"
      unfolding open_local_file_def
      by (intro tree.keep_intro stays_fs_open) (auto simp: tree.keep_intro split: node_kind.split)
    show ?thesis
    proof (cases "DryRun opts")
      case True
      then show ?thesis unfolding recv_file1_def by (simp add: tree.keep_when_do stays_simple)
    next
      case False
      have "tree_rel ?N L s (snd (recv_file1 md4 seed opts f s))" for s
      proof -
        obtain r s' where o: "open_local_file opts f s = (r, s')" by (cases "open_local_file opts f s")
        have 1: "tree_rel ?N L s s'" by (rule keepsD [OF opn o])
        have 2: "tree_rel ?N L s' (snd (receive_data md4 seed opts (f\<lparr>Mode := m\<rparr>) lf s'))" for m lf
          using data by (simp add: keeps_def)
        have "\<exists>m. f' = f\<lparr>Mode := m\<rparr>" if "r = Inr (lf, f')" for lf f'
        proof -
          have "f' = f \<or> f' = f\<lparr>Mode := Mode f'\<rparr>"
            using o that by (auto simp: open_local_file_def ret_def throw_def bnd_eq_Inr split: if_splits node_kind.splits)
          then show ?thesis by (metis rfile.surjective rfile.update_convs(4))
        qed
        then show ?thesis
          using o False 1 2 [of "Mode f"] 2
          by (auto simp: recv_file1_def split: sum.split intro!: tree.frame_trans [OF 1])
      qed
      then show ?thesis by (simp add: keeps_def)
    qed
  qed
  have "stays ?N L (if idx = -1 then ret (if phase = 0 then Some (phase + 1) else None)
     else if idx < 0 \<or> int (length fl) \<le> idx then throw (Panic ''index out of range'')
     else let f = fl ! nat idx in
       bnd (when_do (Progress opts) (print_out opts (NameLine (Name f)))) (\<lambda>_.
       bnd (recv_file1 md4 seed opts f) (\<lambda>_. ret (Some phase))))" for idx
    unfolding Let_def by (auto intro!: tree.keep_intro stays_simple fil)
  then show ?thesis
    unfolding recv_files_step_def by (intro tree.keep_bnd stays_reads [OF reads_read_int32])
qed

subsection \<open>Every run\<close>

fun gen_left :: "gen_state \<Rightarrow> rfile list" where
  "gen_left (GNext idx fs) = fs"
| "gen_left _ = []"

fun gen_weight :: "gen_state \<Rightarrow> nat" where
  "gen_weight (GNext idx fs) = Suc (length fs)"
| "gen_weight _ = 0"

fun recv_weight :: "recv_state \<Rightarrow> nat" where
  "recv_weight (RPhase p) = 1"
| "recv_weight _ = 0"

lemma do_step_stays:
  assumes "do_step md4 seed opts fl (g, r, s) (g', r', s')" "set (gen_left g) \<subseteq> set fl"
  shows "tree_rel (\<Union>f \<in> set fl. touched opts f) (\<Union>f \<in> set fl. link_name f) s s' \<and> set (gen_left g') \<subseteq> set fl"
proof -
  let ?N = "\<Union>f \<in> set fl. touched opts f" and ?L = "\<Union>f \<in> set fl. link_name f"
  have gen: "f \<in> set fl \<Longrightarrow> recv_generator md4 seed opts idx f s = (x, s') \<Longrightarrow> tree_rel ?N ?L s s'" for idx f x
    by (rule keepsD [OF stays_mono [OF stays_recv_generator]]) auto
  have fin: "generate_end s = (x, s') \<Longrightarrow> tree_rel ?N ?L s s'" for x
    unfolding generate_end_def by (rule keepsD [OF tree.keep_bnd]) (rule stays_simple)+
  have rec: "recv_files_step md4 seed opts fl phase s = (x, s') \<Longrightarrow> tree_rel ?N ?L s s'" for phase x
    by (rule keepsD [OF stays_recv_files_step])
  show ?thesis
    using assms(1) by (cases rule: do_step_any) (use assms(2) in \<open>auto dest: gen fin rec\<close>)
qed

lemma do_steps_stays:
  assumes "do_steps md4 seed opts fl (g, r, s) (g', r', s')" "set (gen_left g) \<subseteq> set fl"
  shows "tree_rel (\<Union>f \<in> set fl. touched opts f) (\<Union>f \<in> set fl. link_name f) s s'"
proof -
  let ?N = "\<Union>f \<in> set fl. touched opts f" and ?L = "\<Union>f \<in> set fl. link_name f"
  have "tree_rel ?N ?L s (snd (snd c)) \<and> set (gen_left (fst c)) \<subseteq> set fl"
    if "do_steps md4 seed opts fl (g, r, s) c" for c
    using that
  proof (induction rule: rtranclp_induct)
    case base
    then show ?case using assms(2) by (simp add: tree.frame_refl)
  next
    case (step c d)
    obtain g1 r1 s1 g2 r2 s2 where cd: "c = (g1, r1, s1)" "d = (g2, r2, s2)" by (metis surj_pair)
    show ?case
      using do_step_stays [of md4 seed opts fl g1 r1 s1 g2 r2 s2] step cd
      by (auto intro: tree.frame_trans)
  qed
  from this [OF assms(1)] show ?thesis by simp
qed

lemma stays_touch_up_dirs: "stays (\<Union>f \<in> set fl. touched opts f) L (touch_up_dirs opts fl)"
  unfolding touch_up_dirs_def touch_up_dir_def
proof (intro tree.keep_for_each tree.keep_if tree.keep_ret stays_set_perms)
  fix f
  assume "f \<in> set fl" "escapes (Name f) \<longrightarrow> WritableFS opts"
  then show "Name f \<in> (\<Union>f \<in> set fl. touched opts f)" using touched_self by blast
qed

lemma stays_do_finish: "stays (\<Union>f \<in> set fl. touched opts f) L (do_finish opts fl noReport)"
proof -
  have "stays N L report" for N
    unfolding report_def by (intro stays_reads reads_intro)
  then show ?thesis
    unfolding do_finish_def by (intro tree.keep_intro stays_touch_up_dirs stays_simple)
qed

subsection \<open>Links on the way to a listed name\<close>

text \<open>
  No listed name leads through a symbolic link, one that is there or one of the list, and only an entry
  that is a link itself may be the name of one.
\<close>

definition links_apart :: "rfile list \<Rightarrow> tree \<Rightarrow> bool" where
  "links_apart fl fs \<longleftrightarrow>
     (\<forall>f \<in> set fl. \<forall>p \<in> set (path_prefixes (Name f)).
        is_link fs p \<or> (\<exists>g \<in> set fl. p \<in> link_name g) \<longrightarrow> p = Name f \<and> type_of (Mode f) = S_IFLNK)"

lemma links_apart_stays:
  assumes "links_apart fl (rt_fs s)" "tree_rel N (\<Union>f \<in> set fl. link_name f) s t" "confined s"
  shows "links_apart fl (rt_fs t)"
proof -
  have "is_link (rt_fs t) n \<Longrightarrow> is_link (rt_fs s) n \<or> (\<exists>g \<in> set fl. n \<in> link_name g)" for n
    using assms(2,3) unfolding tree_rel_def by blast
  with assms(1) show ?thesis unfolding links_apart_def by blast
qed

lemma links_apart_literal:
  assumes "links_apart fl fs" "f \<in> set fl" "clean (Name f) = Name f" "\<not> escapes (Name f)"
    and "root_resolve k fs (Name f) = Inr m"
  shows "m = Name f"
proof (rule root_resolve_literal [OF assms(5,3,4)])
  show "\<forall>p \<in> set (path_prefixes (Name f)). p \<noteq> Name f \<longrightarrow> \<not> is_link fs p"
    using assms(1,2) unfolding links_apart_def by blast
qed

text \<open>
  C6: whatever the peer sends and however the two goroutines interleave, a run of the receiving
  side below an \<open>os.Root\<close>, without deletions, changes no entry of the destination but those of
  the listed names and their parents, and no name that leads out of the root, however it ends.
  This is about lists that do not use symbolic links to redirect names: no listed name may lead
  through a link of the destination or of the list.  In every state that the run reaches this is still so, and the lookup of \<open>os.Root\<close>,
  which follows links, then takes each listed name for the entry of this name or refuses it.
\<close>

theorem do_confined:
  assumes "do_recv md4 seed depth opts fl noReport s res s'" "\<not> DeleteMode opts" "\<not> WritableFS opts" "confined s"
    and "\<forall>f \<in> set fl. clean (Name f) = Name f" "links_apart fl (rt_fs s)"
  shows "(\<forall>n. rt_fs s' n \<noteq> rt_fs s n \<longrightarrow>
            (\<exists>f \<in> set fl. n \<in> set (path_prefixes (Name f))) \<and> \<not> escapes n) \<and>
         (\<forall>g r t. do_steps md4 seed opts fl (GNext 0 fl, RPhase 0, s) (g, r, t) \<or> t = s' \<longrightarrow>
            links_apart fl (rt_fs t) \<and>
            (\<forall>f \<in> set fl. \<forall>k m. \<not> escapes (Name f) \<longrightarrow> root_resolve k (rt_fs t) (Name f) = Inr m \<longrightarrow> m = Name f))"
proof -
  let ?N = "\<Union>f \<in> set fl. touched opts f" and ?L = "\<Union>f \<in> set fl. link_name f"
  have del: "when_do (DeleteMode opts) (delete_files depth opts fl) s = (x, s1) \<longleftrightarrow> x = Inr () \<and> s1 = s" for x s1
    using assms(2) by (auto simp: when_do_def ret_def)
  have run: "tree_rel ?N ?L s t" if "do_steps md4 seed opts fl (GNext 0 fl, RPhase 0, s) (g, r, t)" for g r t
    by (rule do_steps_stays [OF that]) simp
  have fin: "tree_rel ?N ?L s s'"
    using assms(1)
    by cases (auto simp: del dest: run intro: tree.frame_trans keepsD [OF stays_do_finish])
  have "n \<in> ?N" if "rt_fs s' n \<noteq> rt_fs s n" for n
    using fin that assms(4) unfolding tree_rel_def by blast
  then have names: "(\<exists>f \<in> set fl. n \<in> set (path_prefixes (Name f))) \<and> \<not> escapes n" if "rt_fs s' n \<noteq> rt_fs s n" for n
    using that assms(3) by (auto simp: touched_def)
  have "links_apart fl (rt_fs t)"
    if "do_steps md4 seed opts fl (GNext 0 fl, RPhase 0, s) (g, r, t) \<or> t = s'" for g r t
    using links_apart_stays [OF assms(6) _ assms(4)] that fin run by blast
  with names links_apart_literal assms(5) show ?thesis by metis
qed

definition sample_dir :: rfile where
  "sample_dir = sample_rfile\<lparr>Name := ''d'', Mode := S_IFDIR + 0x1ED\<rparr>"

lemma confined_sample: "confined (sample_recv\<lparr>rt_replace := (\<lambda>fs n nd. if escapes n then Inl (PathError n) else Inr (fs(n \<mapsto> nd))),
    rt_mknod := (\<lambda>fs n k p d. Inl (PathError n)), c_in := x\<rparr>)"
  by (simp add: confined_def sample_recv_def sample_node_def)

theorem do_confined_witness:
  "\<exists>s s'. do_recv toy_md4 7 9 sample_opts [sample_dir] True s (Inl EOF) s' \<and> rt_fs s ''d'' = None \<and>
     rt_fs s' ''d'' \<noteq> None \<and> (\<exists>f \<in> set [sample_dir]. ''d'' \<in> set (path_prefixes (Name f))) \<and>
     links_apart [sample_dir] (rt_fs s')"
proof -
  let ?s = "sample_recv\<lparr>rt_replace := (\<lambda>fs n nd. if escapes n then Inl (PathError n) else Inr (fs(n \<mapsto> nd))),
    rt_mknod := (\<lambda>fs n k p d. Inl (PathError n)), c_in := []\<rparr>"
  obtain t where gen: "recv_generator toy_md4 7 sample_opts 0 sample_dir ?s = (Inr (), t)"
    and t: "rt_fs t ''d'' \<noteq> None" "c_in t = []"
    by (simp add: recv_generator_def gen_dir_def stat_dest_def fs_lstat_def fs_mkdir_all_def set_perms_def
        set_perms_of_def set_uid_def fs_chtimes_def mkdir_one_def path_prefixes_def fs_check_def fs_get_def
        fs_set_def escapes_def has_prefix_def type_of_def mode_bits sample_dir_def sample_opts_def
        sample_rfile_def sample_recv_def sample_node_def mod_time_equal_def truncate_second_def Let_def run)
  have rec: "recv_files_step toy_md4 7 sample_opts [sample_dir] 0 t = (Inl EOF, t)"
    using t(2) by (simp add: recv_files_step_def read_int32_short run conn_unchanged)
  have "do_steps toy_md4 7 sample_opts [sample_dir] (GNext 0 [sample_dir], RPhase 0, ?s) (GNext (0 + 1) [], RFailed EOF, t)"
    by (rule converse_rtranclp_into_rtranclp [OF gen_file [OF gen] r_into_rtranclp [of "do_step _ _ _ _", OF recv_fail [OF rec]]])
  then have run: "do_recv toy_md4 7 9 sample_opts [sample_dir] True ?s (Inl EOF) t"
    by (intro recv_error) (simp_all add: sample_opts_def when_do_def ret_def)
  have s: "rt_fs ?s ''d'' = None" by (simp add: sample_recv_def)
  have apart: "links_apart [sample_dir] (rt_fs ?s)"
    by (simp add: links_apart_def sample_dir_def path_prefixes_def link_name_def is_link_def sample_recv_def
        type_of_def mode_bits)
  have c: "\<not> DeleteMode sample_opts" "\<not> WritableFS sample_opts" "\<forall>f \<in> set [sample_dir]. clean (Name f) = Name f"
    by (simp_all add: sample_opts_def sample_dir_def clean_def clean_comps_def has_prefix_def)
  note res = do_confined [OF run c(1,2) confined_sample c(3) apart]
  have "rt_fs t ''d'' \<noteq> rt_fs ?s ''d''" using s t(1) by simp
  then have "\<exists>f \<in> set [sample_dir]. ''d'' \<in> set (path_prefixes (Name f))" using conjunct1 [OF res] by blast
  moreover have "links_apart [sample_dir] (rt_fs t)" using conjunct2 [OF res] by blast
  ultimately show ?thesis using run s t(1) by (intro exI [of _ ?s] exI [of _ t] conjI)
qed

text \<open>The weight of a state bounds the number of steps that are left.\<close>

definition do_weight :: "do_state \<Rightarrow> nat" where
  "do_weight = (\<lambda>(g, r, s). gen_weight g + recv_weight r + length (c_in s))"

lemma do_step_weight:
  assumes "do_step md4 seed opts fl c c'"
  shows "do_weight c' < do_weight c"
proof -
  obtain g r s g' r' s' where c: "c = (g, r, s)" "c' = (g', r', s')" by (metis surj_pair)
  have gen: "recv_generator md4 seed opts idx f s = (x, s') \<Longrightarrow> length (c_in s') \<le> length (c_in s)" for idx f x
    using keepsD [OF stays_recv_generator] by (auto simp: tree_rel_def)
  have fin: "generate_end s = (x, s') \<Longrightarrow> length (c_in s') \<le> length (c_in s)" for x
    unfolding generate_end_def
    using keepsD [OF tree.keep_bnd [OF stays_simple(6) [where N = "{}" and L = "{}"] stays_simple(6)]] by (auto simp: tree_rel_def)
  have rec: "recv_files_step md4 seed opts fl phase s = (x, s') \<Longrightarrow> length (c_in s') \<le> length (c_in s)" for phase x
    using keepsD [OF stays_recv_files_step] by (auto simp: tree_rel_def)
  from assms show ?thesis unfolding c
    by (cases rule: do_step_any) (auto simp: do_weight_def dest: gen fin rec recv_files_step_shorter)
qed

lemma gen_moves: "\<exists>c'. do_step md4 seed opts fl (GNext idx fs, r, s) c'"
proof (cases fs)
  case Nil
  obtain x t where "generate_end s = (x, t)" by (cases "generate_end s")
  then show ?thesis unfolding Nil by (cases x) (auto intro: gen_end gen_end_fail)
next
  case (Cons f fs')
  obtain x t where "recv_generator md4 seed opts idx f s = (x, t)" by (cases "recv_generator md4 seed opts idx f s")
  then show ?thesis unfolding Cons by (cases x) (auto intro: gen_file gen_fail)
qed

lemma recv_moves: "\<exists>c'. do_step md4 seed opts fl (g, RPhase phase, s) c'"
proof -
  obtain x t where x: "recv_files_step md4 seed opts fl phase s = (x, t)"
    by (cases "recv_files_step md4 seed opts fl phase s")
  consider e where "x = Inl e" | "x = Inr None" | p where "x = Inr (Some p)"
    by (cases x) (auto intro: option.exhaust)
  then show ?thesis using x by cases (auto intro: recv_more recv_end recv_fail)
qed

text \<open>
  Every sequence of turns is finite, and only ends when both goroutines have finished or failed; the input is
  what the peer will ever send, so that waiting for it is the error of a closed connection.
\<close>

lemma do_terminates:
  "wfp (\<lambda>c' c. do_step md4 seed opts fl c c') \<and>
   ((\<nexists>c'. do_step md4 seed opts fl (g, r, s) c') \<longleftrightarrow>
      (\<forall>idx fs. g \<noteq> GNext idx fs) \<and> (\<forall>phase. r \<noteq> RPhase phase))"
proof
  show "wfp (\<lambda>c' c. do_step md4 seed opts fl c c')"
    by (rule wfp_if_convertible_to_nat [of _ do_weight]) (rule do_step_weight)
  show "(\<nexists>c'. do_step md4 seed opts fl (g, r, s) c') \<longleftrightarrow>
      (\<forall>idx fs. g \<noteq> GNext idx fs) \<and> (\<forall>phase. r \<noteq> RPhase phase)"
    (is "?stuck \<longleftrightarrow> ?done")
  proof
    assume ?stuck
    then show ?done by (metis gen_moves recv_moves)
  qed (auto elim!: do_step.cases)
qed

end
