(* ===== verification/Recv_Delete.thy ===== *)
theory Recv_Delete
  imports Recv_Safety
begin

text \<open>
  What \<open>deleteFiles\<close> of \<open>do.go\<close> deletes, what it leaves, and that it returns.
\<close>

subsection \<open>Looking up a name in the sorted list\<close>

definition upwards :: "(nat \<Rightarrow> bool) \<Rightarrow> nat \<Rightarrow> nat \<Rightarrow> bool" where
  "upwards p i j \<longleftrightarrow> (\<forall>a b. i \<le> a \<longrightarrow> a \<le> b \<longrightarrow> b < j \<longrightarrow> p a \<longrightarrow> p b)"

lemma upwardsD: "upwards p i j \<Longrightarrow> i \<le> a \<Longrightarrow> a \<le> b \<Longrightarrow> b < j \<Longrightarrow> p a \<Longrightarrow> p b"
  unfolding upwards_def by blast

lemma upwards_sub: "upwards p i j \<Longrightarrow> i \<le> i' \<Longrightarrow> j' \<le> j \<Longrightarrow> upwards p i' j'"
  unfolding upwards_def by (meson le_trans less_le_trans)

lemma sort_search_least:
  assumes "upwards p i j" "i \<le> j"
  shows "i \<le> sort_search p i j \<and> sort_search p i j \<le> j \<and>
         (\<forall>a. i \<le> a \<longrightarrow> a < sort_search p i j \<longrightarrow> \<not> p a) \<and>
         (\<forall>a. sort_search p i j \<le> a \<longrightarrow> a < j \<longrightarrow> p a)"
  using assms
proof (induction p i j rule: sort_search.induct)
  case (1 p i j)
  show ?case
  proof (cases "i < j")
    case True
    define h where "h = (i + j) div 2"
    have h: "i \<le> h" "h < j" using True by (auto simp: h_def)
    show ?thesis
    proof (cases "p h")
      case ph: True
      have eq: "sort_search p i j = sort_search p i h"
        using True ph by (subst sort_search.simps) (simp add: h_def Let_def)
      have "upwards p i h" by (rule upwards_sub [OF 1(3)]) (use h in simp_all)
      note ih = 1(2) [OF True h_def _ this h(1)]
      have "p a" if "h \<le> a" "a < j" for a by (rule upwardsD [OF 1(3) h(1) that ph])
      then have "\<forall>a. sort_search p i h \<le> a \<longrightarrow> a < j \<longrightarrow> p a" using ih ph by (meson linorder_not_less)
      then show ?thesis unfolding eq using ih ph h by simp
    next
      case ph: False
      have eq: "sort_search p i j = sort_search p (h + 1) j"
        using True ph by (subst sort_search.simps) (simp add: h_def Let_def)
      have "upwards p (h + 1) j" by (rule upwards_sub [OF 1(3)]) (use h in simp_all)
      note ih = 1(1) [OF True h_def ph this]
      have "\<not> p a" if "i \<le> a" "a \<le> h" for a using upwardsD [OF 1(3) that h(2)] ph by blast
      moreover have "\<not> p a" if "h + 1 \<le> a" "a < sort_search p (h + 1) j" for a using ih h that by simp
      ultimately have "\<forall>a. i \<le> a \<longrightarrow> a < sort_search p (h + 1) j \<longrightarrow> \<not> p a"
        by (metis Suc_eq_plus1 not_less_eq_eq)
      then show ?thesis unfolding eq using ih h by simp
    qed
  qed (use 1(4) in \<open>simp add: sort_search.simps\<close>)
qed

lemma find_in_file_list_aux:
  assumes "sorted (map Name fl)"
  shows "find_in_file_list fl name \<longleftrightarrow> name \<in> Name ` set fl"
proof -
  let ?p = "\<lambda>i. name \<le> Name (fl ! i)" and ?n = "length fl"
  let ?i = "sort_search ?p 0 ?n"
  have mono: "Name (fl ! a) \<le> Name (fl ! b)" if "a \<le> b" "b < ?n" for a b
    using sorted_nth_mono [OF assms that(1)] that by simp
  have up: "upwards ?p 0 ?n"
    unfolding upwards_def
  proof (intro allI impI)
    fix a b
    assume "a \<le> b" "b < ?n" "?p a"
    with mono [of a b] show "?p b" by (meson order_trans)
  qed
  have s: "?i \<le> ?n" "\<forall>a. 0 \<le> a \<longrightarrow> a < ?i \<longrightarrow> \<not> ?p a" "\<forall>a. ?i \<le> a \<longrightarrow> a < ?n \<longrightarrow> ?p a"
    using sort_search_least [OF up le0] by blast+
  show ?thesis
  proof
    assume "find_in_file_list fl name"
    then have "?i < ?n" "Name (fl ! ?i) = name" by (simp_all add: find_in_file_list_def Let_def)
    then show "name \<in> Name ` set fl" by (metis imageI nth_mem)
  next
    assume "name \<in> Name ` set fl"
    then obtain k where k: "k < ?n" "Name (fl ! k) = name" by (metis imageE in_set_conv_nth)
    then have "?i \<le> k" using s(2) by (metis not_le order_refl le0)
    then have "name \<le> Name (fl ! ?i)" "Name (fl ! ?i) \<le> name" using mono [of ?i k] s(3) k by auto
    then have "Name (fl ! ?i) = name" by simp
    with \<open>?i \<le> k\<close> k show "find_in_file_list fl name" by (simp add: find_in_file_list_def Let_def)
  qed
qed

text \<open>
  C23: in a list sorted by name, as \<open>ReceiveFileList\<close> leaves it, the binary search of
  \<open>findInFileList\<close> finds exactly the listed names.
\<close>

theorem find_in_file_list_correct:
  assumes "sorted (map Name fl)"
  shows "find_in_file_list fl name \<longleftrightarrow> name \<in> Name ` set fl"
  by (rule find_in_file_list_aux [OF assms])

theorem find_in_file_list_correct_witness:
  "find_in_file_list [sample_rfile, sample_rfile\<lparr>Name := ''b''\<rparr>, sample_rfile\<lparr>Name := ''d''\<rparr>] ''b'' \<and>
   \<not> find_in_file_list [sample_rfile, sample_rfile\<lparr>Name := ''b''\<rparr>, sample_rfile\<lparr>Name := ''d''\<rparr>] ''c''"
proof -
  have "sorted (map Name [sample_rfile, sample_rfile\<lparr>Name := ''b''\<rparr>, sample_rfile\<lparr>Name := ''d''\<rparr>])"
    by (simp add: sample_rfile_def less_eq_char_def less_char_def)
  from find_in_file_list_correct [OF this] show ?thesis by (simp add: sample_rfile_def)
qed

subsection \<open>What is deleted\<close>

definition del_rel :: "recv_opts \<Rightarrow> rfile list \<Rightarrow> recv \<Rightarrow> recv \<Rightarrow> bool" where
  "del_rel opts fl s t \<longleftrightarrow> env_of t = env_of s \<and>
     (\<forall>n. rt_fs t n = rt_fs s n \<or>
        (rt_fs t n = None \<and> \<not> DryRun opts \<and>
         (\<exists>p. \<not> escapes p \<and> \<not> find_in_file_list fl p \<and> (n = p \<or> below p n))))"

interpretation del: frame "del_rel opts fl" for opts fl
proof
  fix s t u assume "del_rel opts fl s t" "del_rel opts fl t u"
  then show "del_rel opts fl s u" unfolding del_rel_def by metis
qed (simp add: del_rel_def)

lemma del_only_names:
  assumes "only_names {} m"
  shows "keeps (del_rel opts fl) m"
proof (rule keepsI)
  fix s
  obtain r t where m: "m s = (r, t)" by (cases "m s")
  have "rt_fs t n = rt_fs s n" for n by (rule only_namesD [OF assms m]) simp
  then show "del_rel opts fl s (snd (m s))" using only_names_env [OF assms m] by (simp add: del_rel_def m)
qed

lemma del_remove_all:
  assumes "\<not> find_in_file_list fl path" "\<not> DryRun opts"
  shows "keeps (del_rel opts fl) (fs_remove_all opts path)"
  using assms by (auto simp: keeps_def del_rel_def fs_remove_all_def bnd_def fs_check_def modify_def env_of_def)

lemma delete_entry_err: "delete_entry opts fl path d (Some e) = throw e"
  by (simp add: delete_entry_def)

lemma del_delete_entry: "keeps (del_rel opts fl) (delete_entry opts fl path d err)"
  unfolding delete_entry_def
  by (auto intro!: del.keep_intro del_remove_all split: option.split)

lemma only_names_readdir: "only_names {} (fs_readdir nm)"
  by (simp add: keeps_def fs_readdir_def names.frame_refl)

lemma only_names_is_dir: "only_names {} (fs_is_dir opts nm)"
  unfolding fs_is_dir_def fs_lstat_def by (intro only_names_intro)

lemma del_walk:
  "keeps (del_rel opts fl) (walk_root depth (fs_is_dir opts) fs_readdir (\<lambda>d. d) (delete_entry opts fl) root)"
  by (intro del.keep_walk_root del_delete_entry del_only_names only_names_readdir only_names_is_dir)

lemma del_delete_loop: "keeps (del_rel opts fl) (delete_loop depth opts fl fs)"
proof (induction fs)
  case (Cons f fs)
  have "keeps (del_rel opts fl) (case r of Inl (NotExist _) \<Rightarrow> ret () | Inl e \<Rightarrow> throw e
      | Inr _ \<Rightarrow> delete_loop depth opts fl fs)" for r :: "go_error + unit"
    using Cons by (auto simp: del.keep_intro split: sum.split go_error.split)
  then show ?case unfolding delete_loop.simps by (intro del.keep_intro del_walk Cons)
qed (simp add: del.keep_ret)

lemma delete_loop_no_top: "\<forall>f \<in> set fs. Name f \<noteq> ''.'' \<Longrightarrow> delete_loop depth opts fl fs = ret ()"
  by (induction fs) (simp_all add: is_top_dir_def)

text \<open>
  C15: \<open>deleteFiles\<close> only ever deletes a name that the sender did not list, with everything below
  it, inside the root; it deletes nothing in a dry run, after an I/O error of the sender, or when
  the sender did not list the top directory.
\<close>

theorem delete_only_extraneous:
  assumes "delete_files depth opts fl s = (r, s')" "sorted (map Name fl)" "rt_fs s' n \<noteq> rt_fs s n"
  shows "rt_fs s' n = None \<and> \<not> DryRun opts \<and> IOErrors s \<le> 0 \<and> (\<exists>f \<in> set fl. Name f = ''.'') \<and>
    (\<exists>p. p \<notin> Name ` set fl \<and> \<not> escapes p \<and> (n = p \<or> below p n))"
proof -
  have run: "IOErrors s \<le> 0" "delete_loop depth opts fl fl s = (r, s')"
    using assms(1,3) by (auto simp: delete_files_def bnd_def get_def ret_def split: if_splits)
  have "\<exists>f \<in> set fl. Name f = ''.''"
  proof (rule ccontr)
    assume "\<not> ?thesis"
    then have "delete_loop depth opts fl fl = ret ()" by (intro delete_loop_no_top) blast
    with run(2) assms(3) show False by (simp add: ret_def)
  qed
  moreover have "del_rel opts fl s s'" by (rule keepsD [OF del_delete_loop run(2)])
  ultimately show ?thesis
    using run(1) assms(3) find_in_file_list_aux [OF assms(2)] unfolding del_rel_def by metis
qed

definition sample_top :: rfile where
  "sample_top = sample_rfile\<lparr>Name := ''.'', Mode := S_IFDIR + 0x1ED\<rparr>"

definition sample_tree :: tree where
  "sample_tree = [''.'' \<mapsto> sample_node KDir 0x1ED, ''a'' \<mapsto> sample_node (KReg [1]) 0x1A4,
     ''b'' \<mapsto> sample_node (KReg [2]) 0x1A4]"

definition sample_readdir :: "tree \<Rightarrow> string \<Rightarrow> go_error + (string \<times> bool) list" where
  "sample_readdir fs d =
     (if d = ''.'' then Inr (map (\<lambda>n. (n, False)) (filter (\<lambda>n. fs n \<noteq> None) [''a'', ''b''])) else Inr [])"

definition sample_dest :: recv where
  "sample_dest = sample_recv\<lparr>rt_fs := sample_tree, rt_readdir := sample_readdir\<rparr>"

lemmas sample_dest_defs = sample_dest_def sample_recv_def sample_tree_def sample_readdir_def sample_opts_def
  sample_top_def sample_rfile_def sample_node_def

subsection \<open>The first deleted file ends its directory\<close>

text \<open>
  \<open>fs.SkipDir\<close> for anything but a directory skips the rest of the directory it is in.
\<close>

lemma walk_listed:
  assumes "\<forall>(b, d) \<in> set es0. \<not> d \<and> join2 ''.'' b = b \<and> find_in_file_list fl b"
  shows "walk_entries (walk_dir (Suc n) fs_readdir (\<lambda>d. d) (delete_entry opts fl)) ''.'' (es0 @ es) s =
         walk_entries (walk_dir (Suc n) fs_readdir (\<lambda>d. d) (delete_entry opts fl)) ''.'' es s"
  using assms
proof (induction es0)
  case (Cons e es0)
  obtain b d where e: "e = (b, d)" by (cases e)
  then have "\<not> d" "join2 ''.'' b = b" "find_in_file_list fl b" using Cons.prems by auto
  then have "walk_dir (Suc n) fs_readdir (\<lambda>d. d) (delete_entry opts fl) (join2 ''.'' b) d = ret Continue"
    by (simp add: delete_entry_def)
  then have "walk_entries (walk_dir (Suc n) fs_readdir (\<lambda>d. d) (delete_entry opts fl)) ''.'' (e # es0 @ es) =
      walk_entries (walk_dir (Suc n) fs_readdir (\<lambda>d. d) (delete_entry opts fl)) ''.'' (es0 @ es)"
    by (simp add: e del: walk_dir.simps)
  moreover have "walk_entries (walk_dir (Suc n) fs_readdir (\<lambda>d. d) (delete_entry opts fl)) ''.'' (es0 @ es) s =
      walk_entries (walk_dir (Suc n) fs_readdir (\<lambda>d. d) (delete_entry opts fl)) ''.'' es s"
    by (rule Cons.IH) (use Cons.prems in simp)
  ultimately show ?case by (simp only: append_Cons)
qed (simp only: append_Nil)

lemma delete_loop_one:
  assumes "filter is_top_dir fs = [f]"
    and "walk_root depth (fs_is_dir opts) fs_readdir (\<lambda>d. d) (delete_entry opts fl) ''.'' s = (Inr (), s')"
  shows "delete_loop depth opts fl fs s = (Inr (), s')"
  using assms
proof (induction fs)
  case (Cons g fs)
  show ?case
  proof (cases "is_top_dir g")
    case True
    then have "\<forall>x \<in> set fs. Name x \<noteq> ''.''" using Cons.prems(1) by (auto simp: filter_empty_conv is_top_dir_def)
    then have "delete_loop depth opts fl fs = ret ()" by (rule delete_loop_no_top)
    then show ?thesis using True Cons.prems(2) by (simp add: run)
  qed (use Cons in simp)
qed simp

lemma delete_first:
  assumes "HasRoot opts" "\<not> DryRun opts" "\<not> rt_deny s ''unlink'' a" "\<not> escapes a"
    and "join2 ''.'' a = a" "\<not> find_in_file_list fl a"
  shows "walk_entries (walk_dir (Suc n) fs_readdir (\<lambda>d. d) (delete_entry opts fl)) ''.'' ((a, False) # es) s =
         (Inr Continue, s\<lparr>rt_fs := (\<lambda>n. if n = a \<or> below a n then None else rt_fs s n)\<rparr>)"
  using assms by (simp add: delete_entry_def fs_remove_all_def fs_check_def run)

lemma walk_root_first:
  assumes "HasRoot opts" "\<not> DryRun opts" "\<forall>op n. \<not> rt_deny s op n"
    and "map_option n_kind (rt_fs s ''.'') = Some KDir" "find_in_file_list fl ''.''"
    and "rt_readdir s (rt_fs s) ''.'' = Inr (es0 @ (a, False) # es)"
    and "\<forall>(b, d) \<in> set es0. \<not> d \<and> join2 ''.'' b = b \<and> find_in_file_list fl b"
    and "join2 ''.'' a = a" "\<not> escapes a" "\<not> find_in_file_list fl a"
  shows "walk_root (Suc (Suc n)) (fs_is_dir opts) fs_readdir (\<lambda>d. d) (delete_entry opts fl) ''.'' s =
    (Inr (), s\<lparr>rt_fs := (\<lambda>n. if n = a \<or> below a n then None else rt_fs s n)\<rparr>)"
proof -
  let ?s' = "s\<lparr>rt_fs := (\<lambda>n. if n = a \<or> below a n then None else rt_fs s n)\<rparr>"
  have esc: "\<not> escapes ''.''" by (simp add: escapes_def has_prefix_def)
  have stat: "fs_is_dir opts ''.'' s = (Inr True, s)"
    using assms(1,3,4) esc by (auto simp: fs_is_dir_def fs_lstat_def fs_check_def fs_get_def run)
  have ents: "walk_entries (walk_dir (Suc n) fs_readdir (\<lambda>d. d) (delete_entry opts fl)) ''.''
      (es0 @ (a, False) # es) s = (Inr Continue, ?s')"
    unfolding walk_listed [OF assms(7)] by (rule delete_first) (use assms in simp_all)
  have "walk_dir (Suc (Suc n)) fs_readdir (\<lambda>d. d) (delete_entry opts fl) ''.'' True s = (Inr Continue, ?s')"
    using ents assms(5,6)
    by (subst walk_dir.simps) (simp add: delete_entry_def fs_readdir_def attempt_def run del: walk_dir.simps)
  then show ?thesis by (simp add: walk_root_def stat run del: walk_dir.simps)
qed

text \<open>
  C20: in the top directory, deletion stops at the first file that the sender does not list:
  whatever follows it there in the listing, files and whole directories, is neither deleted nor
  looked at.
\<close>

theorem delete_skips_siblings:
  assumes "HasRoot opts" "\<not> DryRun opts" "IOErrors s \<le> 0" "\<forall>op n. \<not> rt_deny s op n"
    and "map_option n_kind (rt_fs s ''.'') = Some KDir" "filter is_top_dir fl = [f]" "find_in_file_list fl ''.''"
    and "rt_readdir s (rt_fs s) ''.'' = Inr (es0 @ (a, False) # es)"
    and "\<forall>(b, d) \<in> set es0. \<not> d \<and> join2 ''.'' b = b \<and> find_in_file_list fl b"
    and "join2 ''.'' a = a" "\<not> escapes a" "\<not> find_in_file_list fl a"
  shows "delete_files (Suc (Suc n)) opts fl s =
    (Inr (), s\<lparr>rt_fs := (\<lambda>n. if n = a \<or> below a n then None else rt_fs s n)\<rparr>)"
  using delete_loop_one [OF assms(6) walk_root_first [OF assms(1,2,4,5,7-12), of n]] assms(3)
  by (simp add: delete_files_def run)

lemma sample_first:
  "join2 ''.'' ''a'' = ''a''" "\<not> escapes ''a''"
  "find_in_file_list [sample_top] ''.''" "\<not> find_in_file_list [sample_top] ''a''"
  "HasRoot sample_opts" "\<not> DryRun sample_opts" "\<forall>op n. \<not> rt_deny sample_dest op n" "IOErrors sample_dest \<le> 0"
  "map_option n_kind (rt_fs sample_dest ''.'') = Some KDir" "filter is_top_dir [sample_top] = [sample_top]"
  "rt_readdir sample_dest (rt_fs sample_dest) ''.'' = Inr ([] @ (''a'', False) # [(''b'', False)])"
  "\<forall>(b, d) \<in> set []. \<not> d \<and> join2 ''.'' b = b \<and> find_in_file_list [sample_top] b"
  by (simp_all add: join2_def clean_def clean_comps_def Let_def find_in_file_list_aux is_top_dir_def
      escapes_def has_prefix_def sample_dest_defs)

theorem delete_skips_siblings_witness:
  "rt_fs (snd (delete_files (Suc (Suc 0)) sample_opts [sample_top] sample_dest)) ''a'' = None \<and>
   rt_fs (snd (delete_files (Suc (Suc 0)) sample_opts [sample_top] sample_dest)) ''b'' \<noteq> None"
  unfolding delete_skips_siblings [OF sample_first(5,6,8,7,9,10,3,11,12,1,2,4)]
  by (simp add: sample_dest_defs below_def has_prefix_def)

theorem delete_only_extraneous_witness:
  "\<exists>s'. delete_files (Suc (Suc 0)) sample_opts [sample_top] sample_dest = (Inr (), s') \<and>
   rt_fs s' ''a'' = None \<and> (\<exists>p. p \<notin> Name ` set [sample_top] \<and> \<not> escapes p \<and> (''a'' = p \<or> below p ''a''))"
proof -
  let ?s' = "sample_dest\<lparr>rt_fs := (\<lambda>n. if n = ''a'' \<or> below ''a'' n then None else rt_fs sample_dest n)\<rparr>"
  have run: "delete_files (Suc (Suc 0)) sample_opts [sample_top] sample_dest = (Inr (), ?s')"
    using delete_loop_one [OF sample_first(10) walk_root_first [OF sample_first(5,6,7,9,3,11,12,1,2,4), of 0]] sample_first(8)
    by (simp add: delete_files_def run)
  have "rt_fs ?s' ''a'' \<noteq> rt_fs sample_dest ''a''" by (simp add: sample_dest_defs)
  from delete_only_extraneous [OF run _ this] run show ?thesis
    by (intro exI [of _ ?s']) (simp add: sample_top_def)
qed

subsection \<open>Deletion returns\<close>

text \<open>The directories are nested less deep than the walk goes.\<close>

definition nested :: "recv \<Rightarrow> (string \<Rightarrow> nat) \<Rightarrow> bool" where
  "nested s rank \<longleftrightarrow> (\<forall>fs nm. case rt_readdir s fs nm of
     Inl e \<Rightarrow> \<not> fatal e | Inr es \<Rightarrow> (\<forall>(b, d) \<in> set es. rank (join2 nm b) < rank nm))"

lemma nestedD:
  assumes "nested s rank"
  shows "rt_readdir s fs nm = Inl e \<Longrightarrow> \<not> fatal e"
    and "rt_readdir s fs nm = Inr es \<Longrightarrow> (b, d) \<in> set es \<Longrightarrow> rank (join2 nm b) < rank nm"
proof -
  have n: "case rt_readdir s fs nm of Inl e \<Rightarrow> \<not> fatal e | Inr es \<Rightarrow> (\<forall>(b, d) \<in> set es. rank (join2 nm b) < rank nm)"
    using assms unfolding nested_def by blast
  show "rt_readdir s fs nm = Inl e \<Longrightarrow> \<not> fatal e" using n by simp
  show "rt_readdir s fs nm = Inr es \<Longrightarrow> (b, d) \<in> set es \<Longrightarrow> rank (join2 nm b) < rank nm" using n by auto
qed

lemma good_nested_names:
  assumes "only_names N m" "\<And>s e t. m s = (Inl e, t) \<Longrightarrow> \<not> fatal e"
  shows "good (\<lambda>s. nested s rank) m"
proof (rule goodI)
  fix s r t
  assume "nested s rank" "m s = (r, t)"
  with only_names_env [OF assms(1)] have "nested t rank" by (simp add: nested_def env_of_def)
  with assms(2) \<open>m s = (r, t)\<close> show "nested t rank \<and> (\<forall>e. r = Inl e \<longrightarrow> \<not> fatal e)" by blast
qed

lemma good_delete_entry:
  assumes "HasRoot opts" "\<And>x. err = Some x \<Longrightarrow> \<not> fatal x"
  shows "good (\<lambda>s. nested s rank) (delete_entry opts fl path d err)"
proof -
  have "good (\<lambda>s. nested s rank) (fs_remove_all opts path)"
    using assms(1)
    by (auto simp: good_def nested_def fs_remove_all_def bnd_def fs_check_def modify_def)
  then show ?thesis
    using assms(2) unfolding delete_entry_def
    by (auto intro!: good_bnd good_attempt good_ret good_throw split: option.split)
qed

lemma good_delete_loop:
  assumes "HasRoot opts" "rank ''.'' < depth"
  shows "good (\<lambda>s. nested s rank) (delete_loop depth opts fl fs)"
proof (induction fs)
  case (Cons f fs)
  have stat: "good (\<lambda>s. nested s rank) (fs_is_dir opts nm)" for nm
    by (rule good_nested_names [OF only_names_is_dir])
      (use assms(1) in \<open>auto simp: fs_is_dir_def fs_lstat_def bnd_def fs_check_def fs_get_def ret_def
        split: if_splits option.splits prod.splits sum.splits\<close>)
  have rd: "good (\<lambda>s. nested s rank) (fs_readdir nm)" for nm
    by (rule goodI) (auto simp: fs_readdir_def dest: nestedD(1))
  have walk: "good (\<lambda>s. nested s rank) (walk_dir depth fs_readdir (\<lambda>d. d) (delete_entry opts fl) ''.'' d)" for d
  proof (rule walk_returns [where rank = rank])
    fix nm s es t b e
    assume "nested s rank" "fs_readdir nm s = (Inr es, t)" "(b, e) \<in> set es"
    then show "rank (join2 nm b) < rank nm" by (auto simp: fs_readdir_def intro: nestedD(2))
  qed (use assms in \<open>auto intro: rd good_delete_entry\<close>)
  have "good (\<lambda>s. nested s rank) (walk_root depth (fs_is_dir opts) fs_readdir (\<lambda>d. d) (delete_entry opts fl) ''.'')"
    unfolding walk_root_def
  proof (rule good_bnd_res [OF good_attempt [OF stat]])
    fix s r t
    assume "attempt (fs_is_dir opts ''.'') s = (Inr r, t)" "nested t rank"
    moreover from this(1) have "\<And>e. r = Inl e \<Longrightarrow> \<not> fatal e" by (rule attempt_not_fatal)
    then have "good (\<lambda>s. nested s rank) (bnd (case r of Inl e \<Rightarrow> delete_entry opts fl ''.'' None (Some e)
        | Inr d \<Rightarrow> walk_dir depth fs_readdir (\<lambda>d. d) (delete_entry opts fl) ''.'' d) (\<lambda>_. ret ()))" (is "good _ ?m")
      by (auto intro!: good_bnd good_ret good_delete_entry assms(1) walk split: sum.split)
    ultimately show "nested (snd (?m t)) rank \<and> (\<forall>e u. ?m t = (Inl e, u) \<longrightarrow> \<not> fatal e)"
      by (simp add: good_def)
  qed
  note walk_good = this
  have "good (\<lambda>s. nested s rank) (bnd (attempt (walk_root depth (fs_is_dir opts) fs_readdir (\<lambda>d. d)
      (delete_entry opts fl) ''.'')) (\<lambda>r. case r of Inl (NotExist _) \<Rightarrow> ret () | Inl e \<Rightarrow> throw e
      | Inr _ \<Rightarrow> delete_loop depth opts fl fs))"
  proof (rule good_bnd_res [OF good_attempt [OF walk_good]])
    fix s r t
    assume "attempt (walk_root depth (fs_is_dir opts) fs_readdir (\<lambda>d. d) (delete_entry opts fl) ''.'') s = (Inr r, t)"
      "nested t rank"
    moreover from this(1) have "\<And>e. r = Inl e \<Longrightarrow> \<not> fatal e" by (rule attempt_not_fatal)
    then have "good (\<lambda>s. nested s rank) (case r of Inl (NotExist _) \<Rightarrow> ret () | Inl e \<Rightarrow> throw e
      | Inr _ \<Rightarrow> delete_loop depth opts fl fs)" (is "good _ ?m")
      using Cons by (auto intro!: good_ret good_throw split: sum.split go_error.split)
    ultimately show "nested (snd (?m t)) rank \<and> (\<forall>e u. ?m t = (Inl e, u) \<longrightarrow> \<not> fatal e)"
      by (simp add: good_def)
  qed
  then show ?case using Cons by simp
qed (simp add: good_ret)

text \<open>
  The depth given to the walk is no restriction: one deeper than the nesting of the directories
  never runs out, whatever is refused or deleted on the way.
\<close>

lemma delete_returns:
  assumes "HasRoot opts" "nested s rank" "rank ''.'' < depth"
    and "delete_files depth opts fl s = (Inl e, s')"
  shows "\<not> fatal e"
proof -
  have "good (\<lambda>s. nested s rank) (delete_files depth opts fl)"
    unfolding delete_files_def
  proof (rule good_bnd)
    show "good (\<lambda>s. nested s rank) (get IOErrors)"
      by (rule good_nested_names [OF names.keep_get]) (simp add: get_def)
    show "good (\<lambda>s. nested s rank) (if errs > 0 then ret () else delete_loop depth opts fl fl)" for errs
      using good_delete_loop [of opts rank depth fl fl] assms(1,3) by (simp add: good_ret)
  qed
  from goodD [OF this assms(2,4)] show ?thesis by simp
qed

end
