(* ===== verification/File_Map.thy ===== *)
theory File_Map
  imports Prelude
begin

text \<open>
  \<open>internal/sender/fileio.go\<close>: the sliding window through which the sender reads a file.  \<open>ptr\<close>
  answers from the window when it can and otherwise moves the window, keeping the overlap, and
  reads the rest from the file.  Offsets are unbounded integers here; the code's \<open>int64\<close> would
  overflow only for files of more than \<open>2^62\<close> bytes.
\<close>

subsection \<open>The file\<close>

text \<open>
  A file has its contents, the cursor, and how many bytes one \<open>Read\<close> at a position returns at
  most (at least one, by the contract of \<open>io.Reader\<close> for the files the program opens), or with
  which error it fails.
\<close>

record go_file =
  f_data :: "byte list"
  f_pos :: int
  f_short :: "int \<Rightarrow> nat"
  f_fail :: "int \<Rightarrow> go_error option"

definition file_read :: "nat \<Rightarrow> (byte list, go_file) act" where
  "file_read n f =
     (if n = 0 then (Inr [], f)
      else if f_fail f (f_pos f) \<noteq> None then (Inl (the (f_fail f (f_pos f))), f)
      else if length (f_data f) \<le> nat (f_pos f) then (Inl EOF, f)
      else let bs = take (min n (max 1 (f_short f (f_pos f)))) (drop (nat (f_pos f)) (f_data f))
           in (Inr bs, f\<lparr>f_pos := f_pos f + int (length bs)\<rparr>))"

definition file_seek :: "int \<Rightarrow> (unit, go_file) act" where
  "file_seek off f =
     (if off < 0 then (Inl (PathError ''seek''), f) else (Inr (), f\<lparr>f_pos := off\<rparr>))"

lemma file_read_pos:
  "file_read n f = (Inr bs, f') \<Longrightarrow> 0 < n \<Longrightarrow> 0 < length bs \<and> length bs \<le> n"
  by (auto simp: file_read_def Let_def split: if_splits)

subsection \<open>The window\<close>

record map_struct =
  fileSize :: int
  pOffset :: int
  pFdOffset :: int
  window :: "byte list"
  pSize :: int
  pLen :: int
  defWindowSize :: int
  ms_f :: go_file

definition alignBoundary :: int where "alignBoundary = 1024"

definition aligned_length :: "int \<Rightarrow> int" where
  "aligned_length l = ((l - 1) OR (alignBoundary - 1)) + 1"

definition aligned_overshoot :: "int \<Rightarrow> int" where
  "aligned_overshoot off = off AND (alignBoundary - 1)"

definition map_file :: "go_file \<Rightarrow> int \<Rightarrow> int \<Rightarrow> int \<Rightarrow> map_struct" where
  "map_file f len readSize blkSize =
     (let readSize' = (if blkSize > 0 \<and> readSize mod blkSize \<noteq> 0
                       then readSize + (blkSize - readSize mod blkSize) else readSize)
      in \<lparr>fileSize = len, pOffset = 0, pFdOffset = 0, window = [], pSize = 0, pLen = 0,
          defWindowSize = aligned_length readSize', ms_f = f\<rparr>)"

text \<open>\<open>ms.window[a : a+n]\<close>, with the bounds check of a slice expression.\<close>

definition window_slice :: "int \<Rightarrow> int \<Rightarrow> (byte list, map_struct) act" where
  "window_slice a n ms =
     (if 0 \<le> a \<and> 0 \<le> n \<and> a + n \<le> int (length (window ms)) then (Inr (slice a n (window ms)), ms)
      else (Inl (Panic ''slice bounds out of range''), ms))"

text \<open>\<open>for readSize > 0 { n, err := ms.f.Read(ms.window[readOffset : readOffset+readSize]) ... }\<close>\<close>

function read_loop :: "int \<Rightarrow> int \<Rightarrow> (unit, map_struct) act" where
  "read_loop readOffset readSize ms =
     (if readSize \<le> 0 then (Inr (), ms)
      else if readOffset < 0 \<or> int (length (window ms)) < readOffset + readSize
      then (Inl (Panic ''slice bounds out of range''), ms)
      else case file_read (nat readSize) (ms_f ms) of
             (Inl e, f') \<Rightarrow> (Inl (Errorf ''file has changed mid-transfer'' []), ms\<lparr>ms_f := f'\<rparr>)
           | (Inr bs, f') \<Rightarrow>
               read_loop (readOffset + int (length bs)) (readSize - int (length bs))
                 (ms\<lparr>ms_f := f', pFdOffset := pFdOffset ms + int (length bs),
                     window := take (nat readOffset) (window ms) @ bs @
                               drop (nat readOffset + length bs) (window ms)\<rparr>))"
  by pat_completeness auto
termination
  by (relation "measure (\<lambda>(ro, rs, ms). nat rs)") (auto dest!: file_read_pos [OF sym])

declare read_loop.simps [simp del]

text \<open>The steps of \<open>ptr\<close> when the region is not in the window: its new size, the buffer,
  the overlap that is moved to the front, and the read of the rest.\<close>

definition window_size :: "int \<Rightarrow> int \<Rightarrow> map_struct \<Rightarrow> int" where
  "window_size offset len ms =
     (let alignFudge = aligned_overshoot offset;
          windowStart = offset - alignFudge;
          windowSize = (if windowStart + defWindowSize ms > fileSize ms
                        then fileSize ms - windowStart else defWindowSize ms)
      in if windowSize < len + alignFudge then aligned_length (len + alignFudge) else windowSize)"

definition grow_window :: "int \<Rightarrow> map_struct \<Rightarrow> map_struct" where
  "grow_window windowSize ms =
     (if windowSize > pSize ms
      then ms\<lparr>window := take (nat windowSize)
                (window ms @ replicate (nat windowSize - length (window ms)) 0),
              pSize := windowSize\<rparr>
      else ms)"

definition keep_overlap :: "int \<Rightarrow> (unit, map_struct) act" where
  "keep_overlap readOffset =
     bnd (get pLen) (\<lambda>plen.
     bnd (window_slice (plen - readOffset) readOffset) (\<lambda>kept.
     modify (\<lambda>m. m\<lparr>window := kept @ drop (length kept) (window m)\<rparr>)))"

definition fill_window :: "int \<Rightarrow> int \<Rightarrow> int \<Rightarrow> int \<Rightarrow> (unit, map_struct) act" where
  "fill_window windowStart windowSize readStart readOffset =
     (let readSize = windowSize - readOffset in
      if readSize \<le> 0 then throw (Errorf ''invalid readSize: %d <= 0'' [FInt readSize]) else
      bnd (\<lambda>m. if pFdOffset m = readStart then (Inr (), m)
               else case file_seek readStart (ms_f m) of
                 (Inl e, f') \<Rightarrow> (Inl (Errorf ''seek error: %v'' [FErr e]), m\<lparr>ms_f := f'\<rparr>)
               | (Inr _, f') \<Rightarrow> (Inr (), m\<lparr>ms_f := f', pFdOffset := readStart\<rparr>)) (\<lambda>_.
      bnd (modify (\<lambda>m. m\<lparr>pOffset := windowStart, pLen := windowSize\<rparr>)) (\<lambda>_.
      read_loop readOffset readSize)))"

definition ptr :: "int \<Rightarrow> int \<Rightarrow> (byte list, map_struct) act" where
  "ptr offset len ms =
     (if len = 0 then (Inr [], ms)
      else if len < 0 then (Inl (Errorf ''invalid length: %d < 0'' [FInt len]), ms)
      else if pOffset ms \<le> offset \<and> offset + len \<le> pOffset ms + pLen ms then
        window_slice (offset - pOffset ms) len ms
      else
        let alignFudge = aligned_overshoot offset;
            windowStart = offset - alignFudge;
            windowSize = window_size offset len ms;
            reuse = (pOffset ms \<le> windowStart \<and> windowStart < pOffset ms + pLen ms \<and>
                     pOffset ms + pLen ms \<le> windowStart + windowSize);
            readStart = (if reuse then pOffset ms + pLen ms else windowStart);
            readOffset = readStart - windowStart
        in bnd (when_do reuse (keep_overlap readOffset)) (\<lambda>_.
           bnd (fill_window windowStart windowSize readStart readOffset) (\<lambda>_.
           window_slice alignFudge len)) (grow_window windowSize ms))"

subsection \<open>What \<open>ptr\<close> returns\<close>

definition ms_ok :: "byte list \<Rightarrow> map_struct \<Rightarrow> bool" where
  "ms_ok data ms \<longleftrightarrow>
     f_data (ms_f ms) = data \<and> f_fail (ms_f ms) = (\<lambda>_. None) \<and>
     fileSize ms = int (length data) \<and> f_pos (ms_f ms) = pFdOffset ms \<and> pSize ms = int (length (window ms)) \<and> 0 \<le> pOffset ms \<and> 0 \<le> pLen ms \<and> pLen ms \<le> pSize ms \<and>
     pOffset ms + pLen ms \<le> fileSize ms \<and>
     slice 0 (pLen ms) (window ms) = slice (pOffset ms) (pLen ms) data"

lemma read_loop_reads:
  assumes "f_data (ms_f ms) = data" "f_pos (ms_f ms) = pFdOffset ms" "0 \<le> pFdOffset ms"
    and "pFdOffset ms + n \<le> int (length data)" "0 \<le> ro" "0 \<le> n" "ro + n \<le> int (length (window ms))"
    and "f_fail (ms_f ms) = (\<lambda>_. None)"
  shows "\<exists>f'. read_loop ro n ms =
           (Inr (), ms\<lparr>ms_f := f', pFdOffset := pFdOffset ms + n,
                       window := take (nat ro) (window ms) @ slice (pFdOffset ms) n data @
                                 drop (nat (ro + n)) (window ms)\<rparr>) \<and>
         f_data f' = data \<and> f_pos f' = pFdOffset ms + n \<and> f_short f' = f_short (ms_f ms) \<and>
         f_fail f' = (\<lambda>_. None)"
  using assms
proof (induction ro n ms rule: read_loop.induct)
  case (1 ro n ms)
  show ?case
  proof (cases "n = 0")
    case True
    then show ?thesis
      using 1(2,3,4,6,9) by (intro exI [of _ "ms_f ms"]) (subst read_loop.simps, simp)
  next
    case False
    with 1(7) have n: "0 < n" by simp
    let ?p = "pFdOffset ms"
    define k where "k = min (nat n) (max 1 (f_short (ms_f ms) ?p))"
    define bs where "bs = take k (drop (nat ?p) data)"
    have len: "length bs = k" "0 < k" "int k \<le> n"
      using 1(4,5) n by (auto simp: bs_def k_def)
    have bs: "bs = slice ?p (int k) data" by (simp add: bs_def slice_def)
    let ?f = "(ms_f ms)\<lparr>f_pos := ?p + int k\<rparr>"
    let ?w = "take (nat ro) (window ms) @ bs @ drop (nat ro + length bs) (window ms)"
    let ?ms = "ms\<lparr>ms_f := ?f, pFdOffset := ?p + int k, window := ?w\<rparr>"
    have "\<not> length data \<le> nat ?p" using 1(4,5) n by simp
    then have read: "file_read (nat n) (ms_f ms) = (Inr bs, ?f)"
      using 1(2-5,9) n len by (simp add: file_read_def Let_def k_def bs_def)
    have step: "read_loop ro n ms = read_loop (ro + int k) (n - int k) ?ms"
      using n 1(6,8) len(1) by (subst read_loop.simps) (simp add: read)
    have w: "int (length ?w) = int (length (window ms))"
      using 1(6,8) len by simp
    obtain f' where f': "read_loop (ro + int k) (n - int k) ?ms =
           (Inr (), ?ms\<lparr>ms_f := f', pFdOffset := ?p + n,
                       window := take (nat (ro + int k)) ?w @ slice (?p + int k) (n - int k) data @
                                 drop (nat (ro + n)) ?w\<rparr>)"
        "f_data f' = data" "f_pos f' = ?p + n" "f_short f' = f_short (ms_f ms)" "f_fail f' = (\<lambda>_. None)"
      using 1(1) [OF _ _ read [symmetric] refl] n 1(2-9) len w by auto
    have "take (nat (ro + int k)) ?w @ slice (?p + int k) (n - int k) data @ drop (nat (ro + n)) ?w =
          take (nat ro) (window ms) @ slice ?p n data @ drop (nat (ro + n)) (window ms)"
    proof -
      have "take (nat (ro + int k)) ?w = take (nat ro) (window ms) @ slice ?p (int k) data"
        using 1(6,8) len by (simp add: nat_add_distrib bs)
      moreover have "drop (nat (ro + n)) ?w = drop (nat (ro + n)) (window ms)"
        using 1(6,8) len n by (simp add: nat_add_distrib add.commute)
      moreover have "slice ?p (int k) data @ slice (?p + int k) (n - int k) data = slice ?p n data"
        using slice_append [of ?p "int k" "n - int k" data] 1(4) len by simp
      ultimately show ?thesis by (simp flip: append_assoc) (simp add: append_assoc)
    qed
    with f' show ?thesis unfolding step by (intro exI [of _ f']) simp
  qed
qed

text \<open>The two bit tricks of the alignment.\<close>

lemma overshoot_mod: "aligned_overshoot off = off mod 1024"
proof -
  have "off AND 1023 = take_bit 10 off" by (simp add: take_bit_eq_mask mask_eq_exp_minus_1)
  then show ?thesis by (simp add: aligned_overshoot_def alignBoundary_def take_bit_eq_mod)
qed

lemma aligned_length_ge: "l \<le> aligned_length l"
proof -
  have "l - 1 \<le> (l - 1) OR 1023"
    using OR_lower [of "l - 1"] by (cases "0 \<le> l - 1") (simp_all add: or_greater_eq)
  then show ?thesis by (simp add: aligned_length_def alignBoundary_def)
qed

lemma overshoot_bounds: "0 \<le> aligned_overshoot off" "aligned_overshoot off < 1024"
    "0 \<le> off \<Longrightarrow> 0 \<le> off - aligned_overshoot off"
  unfolding overshoot_mod by (simp_all add: zmod_le_nonneg_dividend)

text \<open>A request that stays within the file and leaves room for the alignment.\<close>

definition fits :: "map_struct \<Rightarrow> int \<Rightarrow> int \<Rightarrow> bool" where
  "fits ms offset l \<longleftrightarrow> 0 \<le> offset \<and> 0 \<le> l \<and> offset + l \<le> fileSize ms \<and> l + 1023 \<le> defWindowSize ms"

definition same_file :: "map_struct \<Rightarrow> map_struct \<Rightarrow> bool" where
  "same_file ms ms' \<longleftrightarrow> fileSize ms' = fileSize ms \<and> defWindowSize ms' = defWindowSize ms \<and>
     f_short (ms_f ms') = f_short (ms_f ms)"

lemma grow_window_ok:
  assumes "ms_ok data ms"
  shows "ms_ok data (grow_window W ms)" "same_file ms (grow_window W ms)"
    "W \<le> int (length (window (grow_window W ms)))" "pOffset (grow_window W ms) = pOffset ms"
    "pLen (grow_window W ms) = pLen ms"
  using assms by (auto simp: grow_window_def ms_ok_def same_file_def slice_def)

text \<open>The part of the invariant that survives while the window is being moved.\<close>

definition ms_frame :: "byte list \<Rightarrow> map_struct \<Rightarrow> bool" where
  "ms_frame data ms \<longleftrightarrow> f_data (ms_f ms) = data \<and> f_fail (ms_f ms) = (\<lambda>_. None) \<and> fileSize ms = int (length data) \<and>
     f_pos (ms_f ms) = pFdOffset ms \<and> pSize ms = int (length (window ms))"

lemma ms_ok_frame: "ms_ok data ms \<Longrightarrow> ms_frame data ms"
  by (simp add: ms_ok_def ms_frame_def)

lemma window_slice_ok:
  assumes "ms_ok data m" "0 \<le> a" "0 \<le> n" "a + n \<le> pLen m"
  shows "window_slice a n m = (Inr (slice (pOffset m + a) n data), m)"
proof -
  have "slice a n (window m) = slice a n (slice 0 (pLen m) (window m))"
    using assms by (subst slice_slice) simp_all
  also have "\<dots> = slice a n (slice (pOffset m) (pLen m) data)" using assms(1) by (simp add: ms_ok_def)
  also have "\<dots> = slice (pOffset m + a) n data"
    using assms by (subst slice_slice) (simp_all add: ms_ok_def)
  finally show ?thesis using assms by (simp add: window_slice_def ms_ok_def)
qed

lemma keep_overlap_ok:
  assumes "ms_ok data m" "0 \<le> ro" "ro \<le> pLen m"
  shows "\<exists>m'. keep_overlap ro m = (Inr (), m') \<and> ms_frame data m' \<and> same_file m m' \<and>
           length (window m') = length (window m) \<and>
           slice 0 ro (window m') = slice (pOffset m + pLen m - ro) ro data"
proof -
  let ?k = "slice (pOffset m + (pLen m - ro)) ro data"
  have "length ?k = nat ro" using assms by (subst length_slice) (simp_all add: ms_ok_def)
  moreover have "nat ro \<le> length (window m)" using assms unfolding ms_ok_def by linarith
  moreover have "keep_overlap ro m = (Inr (), m\<lparr>window := ?k @ drop (length ?k) (window m)\<rparr>)"
    using assms by (simp add: keep_overlap_def bnd_def get_def modify_def window_slice_ok)
  ultimately show ?thesis
    using assms(1) by (auto simp: ms_ok_def ms_frame_def same_file_def slice_def [of 0] diff_add_eq add_diff_eq)
qed

lemma fill_window_ok:
  assumes "ms_frame data m"
    and "0 \<le> ro" "ro < W" "W \<le> int (length (window m))" "0 \<le> ws" "ws + W \<le> fileSize m"
    and "slice 0 ro (window m) = slice ws ro data"
  shows "\<exists>m'. fill_window ws W (ws + ro) ro m = (Inr (), m') \<and> ms_ok data m' \<and> same_file m m' \<and>
           pOffset m' = ws \<and> pLen m' = W"
proof -
  define m3 where "m3 = (if pFdOffset m = ws + ro then m
                         else m\<lparr>ms_f := (ms_f m)\<lparr>f_pos := ws + ro\<rparr>, pFdOffset := ws + ro\<rparr>)
                        \<lparr>pOffset := ws, pLen := W\<rparr>"
  have m3: "f_data (ms_f m3) = data" "f_fail (ms_f m3) = (\<lambda>_. None)" "f_pos (ms_f m3) = pFdOffset m3" "pFdOffset m3 = ws + ro"
    "window m3 = window m" "fileSize m3 = int (length data)" "pSize m3 = int (length (window m))"
    "pOffset m3 = ws" "pLen m3 = W" "same_file m m3" "fileSize m = int (length data)"
    using assms(1) by (auto simp: m3_def ms_frame_def same_file_def)
  have "fill_window ws W (ws + ro) ro m = read_loop ro (W - ro) m3"
    using assms(2,3,5) by (auto simp: fill_window_def Let_def run file_seek_def m3_def bnd_def modify_def)
  moreover obtain f' where
    r: "read_loop ro (W - ro) m3 =
           (Inr (), m3\<lparr>ms_f := f', pFdOffset := ws + ro + (W - ro),
                       window := take (nat ro) (window m) @ slice (ws + ro) (W - ro) data @
                                 drop (nat (ro + (W - ro))) (window m)\<rparr>)"
    and f': "f_data f' = data" "f_pos f' = ws + ro + (W - ro)" "f_short f' = f_short (ms_f m3)"
      "f_fail f' = (\<lambda>_. None)"
    using read_loop_reads [of m3 data "W - ro" ro] assms m3 by auto
  moreover have "take (nat ro) (window m) @ slice (ws + ro) (W - ro) data = slice ws W data"
    using assms(2,3,5,7) slice_append [of ws ro "W - ro" data] by (simp add: slice_def [of 0])
  ultimately show ?thesis
    using assms m3 by (auto simp: ms_ok_def same_file_def slice_def [of 0] length_slice)
qed

lemma ptr_correct:
  assumes ok: "ms_ok data ms" and fit: "fits ms offset l"
  shows "\<exists>ms'. ptr offset l ms = (Inr (slice offset l data), ms') \<and> ms_ok data ms' \<and> same_file ms ms'"
proof -
  consider "l = 0" | "0 < l" "pOffset ms \<le> offset" "offset + l \<le> pOffset ms + pLen ms"
    | "0 < l" "\<not> (pOffset ms \<le> offset \<and> offset + l \<le> pOffset ms + pLen ms)"
    using fit unfolding fits_def by linarith
  then show ?thesis
  proof cases
    case 1
    then show ?thesis using ok by (simp add: ptr_def same_file_def)
  next
    case 2
    then have "ptr offset l ms = window_slice (offset - pOffset ms) l ms" by (simp add: ptr_def)
    also have "\<dots> = (Inr (slice offset l data), ms)"
      using 2 by (subst window_slice_ok [OF ok]) simp_all
    finally show ?thesis using ok by (simp add: same_file_def)
  next
    case 3
    let ?fudge = "aligned_overshoot offset"
    let ?ws = "offset - ?fudge"
    let ?W = "window_size offset l ms"
    let ?m = "grow_window ?W ms"
    note fudge = overshoot_bounds [of offset]
    have W: "?fudge + l \<le> ?W" "?ws + ?W \<le> fileSize ms" "0 \<le> ?ws" "0 < ?W"
      using fit fudge \<open>0 < l\<close> by (auto simp: fits_def window_size_def Let_def)
    note g = grow_window_ok [OF ok, of ?W]
    let ?reuse = "pOffset ms \<le> ?ws \<and> ?ws < pOffset ms + pLen ms \<and> pOffset ms + pLen ms \<le> ?ws + ?W"
    have "\<exists>ro m. (0 \<le> ro \<and> ro < ?W \<and> ro = (if ?reuse then pOffset ms + pLen ms else ?ws) - ?ws) \<and>
        when_do ?reuse (keep_overlap ro) ?m = (Inr (), m) \<and> ms_frame data m \<and> same_file ?m m \<and>
        ?W \<le> int (length (window m)) \<and> slice 0 ro (window m) = slice ?ws ro data"
    proof (cases ?reuse)
      case True
      let ?ro = "pOffset ms + pLen ms - ?ws"
      have ro: "0 < ?ro" "?ro < ?W" "?ro \<le> pLen ms" using True 3 W fudge by auto
      from keep_overlap_ok [OF g(1), of ?ro] ro g(4,5) obtain m where
        "keep_overlap ?ro ?m = (Inr (), m)" "ms_frame data m" "same_file ?m m"
        "length (window m) = length (window ?m)"
        "slice 0 ?ro (window m) = slice ?ws ?ro data" by auto
      with True ro g(3) show ?thesis by (intro exI [of _ ?ro] exI [of _ m]) (simp add: when_do_def)
    next
      case False
      then show ?thesis
        using W g by (intro exI [of _ 0] exI [of _ ?m]) (auto simp: when_do_def ret_def same_file_def ms_ok_frame)
    qed
    then obtain ro m where ro: "0 \<le> ro" "ro < ?W" "ro = (if ?reuse then pOffset ms + pLen ms else ?ws) - ?ws"
      and m: "when_do ?reuse (keep_overlap ro) ?m = (Inr (), m)" "ms_frame data m" "same_file ?m m"
        "?W \<le> int (length (window m))" "slice 0 ro (window m) = slice ?ws ro data" by blast
    have "?ws + ?W \<le> fileSize m" using W(2) g(2) m(3) by (simp add: same_file_def)
    from fill_window_ok [OF m(2) ro(1,2) m(4) W(3) this m(5)] obtain m' where
      m': "fill_window ?ws ?W (?ws + ro) ro m = (Inr (), m')" "ms_ok data m'" "same_file m m'"
        "pOffset m' = ?ws" "pLen m' = ?W" by blast
    have start: "?ws + ro = (if ?reuse then pOffset ms + pLen ms else ?ws)" by (simp add: ro(3))
    have cut: "window_slice ?fudge l m' = (Inr (slice offset l data), m')"
      using m'(2) W(1) fudge \<open>0 < l\<close> by (subst window_slice_ok) (auto simp: m'(4,5))
    have nr: "(pOffset ms \<le> offset \<and> offset + l \<le> pOffset ms + pLen ms) = False" "(l = 0) = False" "(l < 0) = False"
      using 3 by simp_all
    have "ptr offset l ms = bnd (when_do ?reuse (keep_overlap ro)) (\<lambda>_.
        bnd (fill_window ?ws ?W (?ws + ro) ro) (\<lambda>_. window_slice ?fudge l)) ?m"
      unfolding ptr_def Let_def nr if_False start [symmetric] add_diff_cancel_left' ..
    also have "\<dots> = (Inr (slice offset l data), m')"
      unfolding bnd_def m(1) by (simp add: m'(1) cut)
    finally have "ptr offset l ms = (Inr (slice offset l data), m')" .
    with m' m(3) g(2) show ?thesis by (auto simp: same_file_def)
  qed
qed

lemma ms_ok_map_file:
  "f_data f = data \<Longrightarrow> f_pos f = 0 \<Longrightarrow> f_fail f = (\<lambda>_. None) \<Longrightarrow> ms_ok data (map_file f (int (length data)) readSize blkSize)"
  by (simp add: ms_ok_def map_file_def Let_def slice_def)

lemma defWindowSize_map_file: "readSize \<le> defWindowSize (map_file f len readSize blkSize)"
proof -
  have "readSize \<le> readSize + (blkSize - readSize mod blkSize)" if "0 < blkSize"
    using pos_mod_bound [OF that, of readSize] by simp
  then show ?thesis
    using aligned_length_ge [of readSize] aligned_length_ge [of "readSize + (blkSize - readSize mod blkSize)"]
    unfolding map_file_def Let_def map_struct.simps by (cases "blkSize > 0 \<and> readSize mod blkSize \<noteq> 0") auto
qed

lemma same_file_fits: "same_file ms ms' \<Longrightarrow> fits ms' offset l = fits ms offset l"
  by (simp add: same_file_def fits_def)

lemma traverse_ptr:
  assumes "ms_ok data ms" "\<forall>(offset, l) \<in> set rs. fits ms offset l"
  shows "\<exists>ms'. traverse (\<lambda>(offset, l). ptr offset l) rs ms =
           (Inr (map (\<lambda>(offset, l). slice offset l data) rs), ms') \<and> ms_ok data ms' \<and> same_file ms ms'"
  using assms
proof (induction rs arbitrary: ms)
  case (Cons r rs)
  obtain offset l where r: "r = (offset, l)" by (cases r)
  then obtain m where m: "ptr offset l ms = (Inr (slice offset l data), m)" "ms_ok data m" "same_file ms m"
    using ptr_correct [OF Cons.prems(1), of offset l] Cons.prems(2) by auto
  with Cons.IH [of m] Cons.prems(2) obtain m' where
    "traverse (\<lambda>(offset, l). ptr offset l) rs m = (Inr (map (\<lambda>(offset, l). slice offset l data) rs), m')"
    "ms_ok data m'" "same_file m m'"
    by (auto simp: same_file_fits [OF m(3)])
  with m r show ?case by (auto simp: run same_file_def)
qed (simp add: run same_file_def)

text \<open>
  C18: whatever sequence of regions of the file is requested, in any order, overlapping or not,
  the sliding window serves exactly the bytes of the file, with any pattern of short reads; no
  request within the file and the window's size fails.
\<close>

theorem window_serves_file:
  assumes "f_data f = data" "f_pos f = 0"
    and "\<forall>(offset, l) \<in> set rs. 0 \<le> offset \<and> 0 \<le> l \<and> offset + l \<le> int (length data) \<and> l + 1023 \<le> readSize"
    and "f_fail f = (\<lambda>_. None)"
  shows "\<exists>ms. traverse (\<lambda>(offset, l). ptr offset l) rs (map_file f (int (length data)) readSize blkSize) =
           (Inr (map (\<lambda>(offset, l). slice offset l data) rs), ms)"
proof -
  let ?ms = "map_file f (int (length data)) readSize blkSize"
  have "fileSize ?ms = int (length data)" by (simp add: map_file_def Let_def)
  with assms(3) defWindowSize_map_file [of readSize f "int (length data)" blkSize]
  have "\<forall>(offset, l) \<in> set rs. fits ?ms offset l" by (fastforce simp: fits_def)
  with traverse_ptr [OF ms_ok_map_file [OF assms(1,2,4)]] show ?thesis by blast
qed

definition sample_file :: go_file where
  "sample_file = \<lparr>f_data = map of_nat [0..<100], f_pos = 0, f_short = (\<lambda>_. 3), f_fail = (\<lambda>_. None)\<rparr>"

theorem window_serves_file_witness:
  "\<exists>ms. traverse (\<lambda>(offset, l). ptr offset l) [(90, 10), (5, 20), (0, 0)] (map_file sample_file 100 2048 700)
     = (Inr [map of_nat [90..<100], map of_nat [5..<25], []], ms)"
proof -
  let ?data = "map of_nat [0..<100] :: byte list"
  have "\<exists>ms. traverse (\<lambda>(offset, l). ptr offset l) [(90, 10), (5, 20), (0, 0)]
          (map_file sample_file (int (length ?data)) 2048 700)
     = (Inr (map (\<lambda>(offset, l). slice offset l ?data) [(90, 10), (5, 20), (0, 0)]), ms)"
    by (rule window_serves_file) (simp_all add: sample_file_def)
  moreover have "map (\<lambda>(offset, l). slice offset l ?data) [(90, 10), (5, 20), (0, 0)]
      = [map of_nat [90..<100], map of_nat [5..<25], []]"
    by (simp add: slice_def take_map drop_map)
  ultimately show ?thesis by simp
qed

end
