(* ===== verification/Match.thy ===== *)
theory Match
  imports Tokens File_Map
begin

text \<open>
  The delta search of the sender: \<open>internal/sender/match.go\<close> and \<open>token.go\<close>, and the table that
  \<open>sender.go\<close> builds from the received sums.  The state is the connection, the window on the
  file, the end of what has been sent so far, and the bytes written into the running MD4.
  Logging and the progress display are left out.
\<close>

record search = conn +
  s_ms :: map_struct
  lastMatch :: int
  s_hash :: "byte list"

definition s_ptr :: "int \<Rightarrow> int \<Rightarrow> (byte list, search) act" where
  "s_ptr offset l s = (case ptr offset l (s_ms s) of (r, ms') \<Rightarrow> (r, s\<lparr>s_ms := ms'\<rparr>))"

subsection \<open>Sending tokens\<close>

function send_chunks :: "int \<Rightarrow> int \<Rightarrow> int \<Rightarrow> (unit, search) act" where
  "send_chunks offset l n =
     (if l < n then
        let n1 = min chunkSize (n - l) in
        bnd (s_ptr (offset + l) (i32 n1)) (\<lambda>chunk.
        bnd (write_int32 (i32 n1)) (\<lambda>_.
        bnd (conn_write chunk) (\<lambda>_.
        send_chunks offset (l + n1) n)))
      else ret ())"
  by pat_completeness auto
termination
  by (relation "measure (\<lambda>(offset, l, n). nat (n - l))") (auto simp: chunkSize_def)

declare send_chunks.simps [simp del]

definition simple_send_token :: "int \<Rightarrow> int \<Rightarrow> int \<Rightarrow> (unit, search) act" where
  "simple_send_token token offset n =
     bnd (when_do (n > 0) (send_chunks offset 0 n)) (\<lambda>_.
     when_do (token \<noteq> -2) (write_int32 (i32 (- (token + 1)))))"

definition send_token :: "int \<Rightarrow> int \<Rightarrow> int \<Rightarrow> (unit, search) act" where
  "send_token i offset n = simple_send_token i offset n"

definition sum_at :: "sum_head \<Rightarrow> int \<Rightarrow> (sum_buf, 's) act" where
  "sum_at head i =
     (if 0 \<le> i \<and> i < int (length (Sums head)) then ret (Sums head ! nat i)
      else throw (Panic ''index out of range''))"

function hash_chunks :: "int \<Rightarrow> int \<Rightarrow> int \<Rightarrow> (unit, search) act" where
  "hash_chunks start j n =
     (if j < n then
        let n1 = min chunkSize (n - j) in
        bnd (s_ptr (start + j) (i32 n1)) (\<lambda>chunk.
        bnd (modify (\<lambda>s. s\<lparr>s_hash := s_hash s @ chunk\<rparr>)) (\<lambda>_.
        hash_chunks start (j + chunkSize) n))
      else ret ())"
  by pat_completeness auto
termination
  by (relation "measure (\<lambda>(start, j, n). nat (n - j))") (auto simp: chunkSize_def)

declare hash_chunks.simps [simp del]

definition matched :: "sum_head \<Rightarrow> int \<Rightarrow> int \<Rightarrow> (unit, search) act" where
  "matched head offset i =
     bnd (get lastMatch) (\<lambda>last.
     let n = offset - last in
     bnd (wrap_err (\<lambda>e. Errorf ''sendToken: %v'' [FErr e]) (send_token i last n)) (\<lambda>_.
     bnd (if i < 0 then ret 0 else bnd (sum_at head i) (\<lambda>sb. ret (Len sb))) (\<lambda>len.
     bnd (hash_chunks last 0 (n + len)) (\<lambda>_.
     modify (\<lambda>s. s\<lparr>lastMatch := offset + len\<rparr>)))))"

subsection \<open>The table of targets\<close>

record target =
  t_index :: int
  t_tag :: u16

definition build_targets :: "sum_head \<Rightarrow> target list" where
  "build_targets head =
     sort_key t_tag (map (\<lambda>(i, sb). \<lparr>t_index = i, t_tag = tag (Sum1 sb)\<rparr>)
                       (zip (map int [0..<length (Sums head)]) (Sums head)))"

definition build_tag_table :: "target list \<Rightarrow> (u16 \<rightharpoonup> int)" where
  "build_tag_table targets =
     fold (\<lambda>idx table. table(t_tag (targets ! idx) \<mapsto> int idx)) (rev [0..<length targets]) Map.empty"

subsection \<open>The search\<close>

text \<open>The variables of the loop: the length of the current window and the halves of its sum.\<close>

record roll =
  r_k :: int
  r_s1 :: u32
  r_s2 :: u32

definition read_chunk :: "sum_head \<Rightarrow> int \<Rightarrow> int \<Rightarrow> (roll, search) act" where
  "read_chunk head fsize offset =
     (let remaining = fsize - offset;
          k = (if remaining < BlockLength head then remaining else BlockLength head)
      in bnd (s_ptr offset (i32 k)) (\<lambda>chunk.
         let sm = checksum1 chunk in
         ret \<lparr>r_k = k, r_s1 = sm AND 0xFFFF, r_s2 = drop_bit 16 sm\<rparr>))"

text \<open>The linear search through the targets with the tag of the window, from index \<open>j\<close>.\<close>

function find_match ::
  "(byte list \<Rightarrow> byte list) \<Rightarrow> int \<Rightarrow> target list \<Rightarrow> sum_head \<Rightarrow> int \<Rightarrow> int \<Rightarrow> u16 \<Rightarrow> u32 \<Rightarrow> int \<Rightarrow>
   byte list option \<Rightarrow> (int option, search) act" where
  "find_match md4 seed targets head fsize offset tg sm j csum2 =
     (if \<not> j < ChecksumCount head then ret None
      else if j < 0 \<or> int (length targets) \<le> j then throw (Panic ''index out of range'')
      else if t_tag (targets ! nat j) \<noteq> tg then ret None
      else
        let i = t_index (targets ! nat j);
            again = find_match md4 seed targets head fsize offset tg sm (j + 1)
        in bnd (sum_at head i) (\<lambda>sb.
           if sm \<noteq> Sum1 sb then again csum2
           else
             let l = (if fsize - offset < BlockLength head then fsize - offset else BlockLength head)
             in if l \<noteq> Len sb then again csum2
                else bnd (case csum2 of
                            Some sum2 \<Rightarrow> ret sum2
                          | None \<Rightarrow> bnd (s_ptr offset (i32 l)) (\<lambda>buf. ret (checksum2 md4 seed buf))) (\<lambda>sum2.
                     let clen = nat (ChecksumLength head) in
                     if length sum2 < clen \<or> length (Sum2 sb) < clen
                     then throw (Panic ''slice bounds out of range'')
                     else if take clen sum2 \<noteq> take clen (Sum2 sb) then again (Some sum2)
                     else ret (Some i))))"
  by pat_completeness auto
termination
  by (relation "measure (\<lambda>(md4, seed, targets, head, fsize, offset, tg, sm, j, csum2).
                           nat (ChecksumCount head - j))") auto

declare find_match.simps [simp del]

text \<open>Removing the oldest byte \<open>update[0]\<close> from the sum and adding the newest \<open>update[k]\<close>.\<close>

definition update_roll :: "bool \<Rightarrow> byte list \<Rightarrow> roll \<Rightarrow> (roll, search) act" where
  "update_roll has_more update r =
     (let k = r_k r in
      if update = [] then throw (Panic ''index out of range'') else
      let s1 = r_s1 r - sign_extend (update ! 0);
          s2 = r_s2 r - word_of_int k * sign_extend (update ! 0)
      in if has_more then
           if k < 0 \<or> int (length update) \<le> k then throw (Panic ''index out of range'') else
           let s1' = s1 + sign_extend (update ! nat k); s2' = s2 + s1'
           in ret \<lparr>r_k = k, r_s1 = lo16 s1', r_s2 = lo16 s2'\<rparr>
         else ret \<lparr>r_k = k - 1, r_s1 = lo16 s1, r_s2 = lo16 s2\<rparr>)"

text \<open>The step by one byte, with the flush of a long unmatched region.  \<open>None\<close> ends the search.\<close>

definition roll_on :: "sum_head \<Rightarrow> int \<Rightarrow> int \<Rightarrow> int \<Rightarrow> roll \<Rightarrow> ((int \<times> roll) option, search) act" where
  "roll_on head fsize end_pos offset r =
     bnd (get lastMatch) (\<lambda>last.
     let backup = max (offset - last) 0;
         more = offset + r_k r < fsize;
         mmore = (if more then 1 else 0)
     in bnd (s_ptr (offset - backup) (i32 (r_k r + mmore + backup))) (\<lambda>chunk.
        if int (length chunk) < backup then throw (Panic ''slice bounds out of range'') else
        bnd (update_roll more (drop (nat backup) chunk) r) (\<lambda>r'.
        bnd (when_do (backup \<ge> BlockLength head + chunkSize \<and> end_pos - offset > chunkSize)
               (matched head (offset - BlockLength head) (-2))) (\<lambda>_.
        ret (if offset + 1 \<ge> end_pos then None else Some (offset + 1, r'))))))"

definition search_step ::
  "(byte list \<Rightarrow> byte list) \<Rightarrow> int \<Rightarrow> target list \<Rightarrow> (u16 \<rightharpoonup> int) \<Rightarrow> sum_head \<Rightarrow> int \<Rightarrow> int \<Rightarrow> int \<Rightarrow> roll \<Rightarrow>
   ((int \<times> roll) option, search) act" where
  "search_step md4 seed targets tagTable head fsize end_pos offset r =
     (let tg = tag2 (ucast (r_s1 r)) (ucast (r_s2 r));
          sm = (r_s1 r AND 0xFFFF) OR push_bit 16 (r_s2 r)
      in bnd (case tagTable tg of
                None \<Rightarrow> ret None
              | Some j \<Rightarrow> find_match md4 seed targets head fsize offset tg sm j None) (\<lambda>m.
         case m of
           None \<Rightarrow> roll_on head fsize end_pos offset r
         | Some i \<Rightarrow>
             bnd (matched head offset i) (\<lambda>_.
             bnd (sum_at head i) (\<lambda>sb.
             let offset' = offset + (Len sb - 1) in
             bnd (wrap_err (\<lambda>e. Errorf ''readChunk: %v'' [FErr e]) (read_chunk head fsize offset')) (\<lambda>r'.
             if offset' \<ge> end_pos then ret None else roll_on head fsize end_pos offset' r')))))"

fun search_loop ::
  "nat \<Rightarrow> (byte list \<Rightarrow> byte list) \<Rightarrow> int \<Rightarrow> target list \<Rightarrow> (u16 \<rightharpoonup> int) \<Rightarrow> sum_head \<Rightarrow> int \<Rightarrow> int \<Rightarrow> int \<Rightarrow> roll \<Rightarrow>
   (unit, search) act" where
  "search_loop 0 md4 seed targets tagTable head fsize end_pos offset r = throw Diverged"
| "search_loop (Suc fuel) md4 seed targets tagTable head fsize end_pos offset r =
     bnd (search_step md4 seed targets tagTable head fsize end_pos offset r) (\<lambda>next_pos.
     case next_pos of
       None \<Rightarrow> ret ()
     | Some (offset', r') \<Rightarrow> search_loop fuel md4 seed targets tagTable head fsize end_pos offset' r')"

text \<open>
  \<open>opened\<close> is what \<open>fl.source.Open(fl.path)\<close> returns: an error, or the file with the outcome
  of its \<open>Stat\<close>.
\<close>

type_synonym opened = "go_error + go_file \<times> (go_error + int)"

definition hash_search ::
  "nat \<Rightarrow> (byte list \<Rightarrow> byte list) \<Rightarrow> int \<Rightarrow> target list \<Rightarrow> (u16 \<rightharpoonup> int) \<Rightarrow> sum_head \<Rightarrow> int \<Rightarrow> opened \<Rightarrow>
   (unit, search) act" where
  "hash_search fuel md4 seed targets tagTable head fileIndex opn =
     (case opn of
        Inl e \<Rightarrow> throw e
      | Inr (f, Inl e) \<Rightarrow> throw e
      | Inr (f, Inr fsize) \<Rightarrow>
          bnd (modify (\<lambda>s. s\<lparr>s_ms := map_file f fsize (max (i32 (3 * BlockLength head)) (256 * 1024))
                                       (BlockLength head)\<rparr>)) (\<lambda>_.
          bnd (write_int32 fileIndex) (\<lambda>_.
          bnd (write_to head) (\<lambda>_.
          bnd (modify (\<lambda>s. s\<lparr>s_hash := le_bytes 4 seed\<rparr>)) (\<lambda>_.
          bnd (sum_at head (int (length (Sums head)) - 1)) (\<lambda>last.
          let end_pos = fsize + 1 - Len last in
          bnd (read_chunk head fsize 0) (\<lambda>r.
          bnd (search_loop fuel md4 seed targets tagTable head fsize end_pos 0 r) (\<lambda>_.
          bnd (matched head fsize (-1)) (\<lambda>_.
          bnd (get s_hash) (\<lambda>h.
          conn_write (md4 h)))))))))))"

subsection \<open>The tokens that are sent\<close>

text \<open>The window serves requests up to \<open>W\<close> bytes, and writes succeed.\<close>

definition src_ok :: "byte list \<Rightarrow> int \<Rightarrow> search \<Rightarrow> bool" where
  "src_ok data W s \<longleftrightarrow> ms_ok data (s_ms s) \<and> W \<le> defWindowSize (s_ms s) \<and> c_budget s = None"

definition framed :: "search \<Rightarrow> search \<Rightarrow> bool" where
  "framed s s' \<longleftrightarrow> c_in s' = c_in s \<and> lastMatch s' = lastMatch s \<and> s_hash s' = s_hash s"

lemma framed_refl [simp]: "framed s s"
  by (simp add: framed_def)

lemma s_ptr_ok:
  assumes "src_ok data W s" "0 \<le> offset" "0 \<le> l" "offset + l \<le> int (length data)" "l + 1023 \<le> W"
  shows "\<exists>s'. s_ptr offset l s = (Inr (slice offset l data), s') \<and> src_ok data W s' \<and>
           framed s s' \<and> c_out s' = c_out s"
proof -
  have ok: "ms_ok data (s_ms s)" using assms(1) by (simp add: src_ok_def)
  then have "fits (s_ms s) offset l" using assms by (simp add: fits_def src_ok_def ms_ok_def)
  from ptr_correct [OF ok this] assms(1) show ?thesis
    by (auto simp: s_ptr_def src_ok_def same_file_def framed_def)
qed

lemma send_chunks_ok:
  assumes "src_ok data W s" "0 \<le> offset" "0 \<le> l" "l \<le> n" "offset + n \<le> int (length data)"
    and "chunkSize + 1023 \<le> W"
  shows "\<exists>s' ts. send_chunks offset l n s = (Inr (), s') \<and> src_ok data W s' \<and> framed s s' \<and>
           out_bytes s' = out_bytes s @ tokens_bytes ts \<and>
           explains md4 seed head data (offset + l) ts (offset + n)"
  using assms
proof (induction offset l n arbitrary: s rule: send_chunks.induct)
  case (1 offset l n)
  show ?case
  proof (cases "l < n")
    case False
    then show ?thesis
      using 1 by (intro exI [of _ s] exI [of _ "[]"]) (simp add: send_chunks.simps ret_def)
  next
    case True
    let ?n1 = "min chunkSize (n - l)"
    have n1: "0 < ?n1" "?n1 \<le> chunkSize" "is_i32 ?n1" "l + ?n1 \<le> n"
      using True by (auto simp: chunkSize_def is_i32_def)
    then have i: "i32 ?n1 = ?n1" by simp
    obtain s1 where s1: "s_ptr (offset + l) ?n1 s = (Inr (slice (offset + l) ?n1 data), s1)"
      "src_ok data W s1" "framed s s1" "c_out s1 = c_out s"
      using s_ptr_ok [OF 1(2), of "offset + l" ?n1] 1(3-7) n1 by auto
    let ?bs = "slice (offset + l) ?n1 data"
    let ?s2 = "s1\<lparr>c_out := c_out s1 @ [le_bytes 4 ?n1, ?bs]\<rparr>"
    have len: "int (length ?bs) = ?n1" using 1(3-6) n1 by simp
    have step: "send_chunks offset l n s = send_chunks offset (l + ?n1) n ?s2"
      using True s1(2) by (subst send_chunks.simps) (simp add: Let_def i run s1(1) src_ok_def)
    have s2: "src_ok data W ?s2" using s1(2) by (simp add: src_ok_def)
    obtain s' ts where s': "send_chunks offset (l + ?n1) n ?s2 = (Inr (), s')" "src_ok data W s'"
      "framed ?s2 s'" "out_bytes s' = out_bytes ?s2 @ tokens_bytes ts"
      "explains md4 seed head data (offset + (l + ?n1)) ts (offset + n)"
      using 1(1) [OF True refl s2] 1(3-7) n1 by auto
    have ex: "explains md4 seed head data (offset + l) [Data ?bs] (offset + l + ?n1)"
      using 1(3-6) n1 by (intro explains_Data) (auto simp: chunkSize_def)
    show ?thesis
      unfolding step
      by (intro exI [of _ s'] exI [of _ "Data ?bs # ts"])
        (use s' s1 ex len in \<open>auto simp: framed_def out_bytes_def add.assoc\<close>)
  qed
qed

lemma hash_chunks_ok:
  assumes "src_ok data W s" "0 \<le> start" "0 \<le> j" "j \<le> n" "start + n \<le> int (length data)"
    and "chunkSize + 1023 \<le> W"
  shows "\<exists>s'. hash_chunks start j n s = (Inr (), s') \<and> src_ok data W s' \<and>
           c_in s' = c_in s \<and> c_out s' = c_out s \<and> lastMatch s' = lastMatch s \<and>
           s_hash s' = s_hash s @ slice (start + j) (n - j) data"
  using assms
proof (induction start j n arbitrary: s rule: hash_chunks.induct)
  case (1 start j n)
  show ?case
  proof (cases "j < n")
    case False
    then show ?thesis
      using 1 by (intro exI [of _ s]) (simp add: hash_chunks.simps ret_def)
  next
    case True
    let ?n1 = "min chunkSize (n - j)"
    have n1: "0 < ?n1" "?n1 \<le> chunkSize" "is_i32 ?n1" "j + ?n1 \<le> n"
      using True by (auto simp: chunkSize_def is_i32_def)
    then have i: "i32 ?n1 = ?n1" by simp
    obtain s1 where s1: "s_ptr (start + j) ?n1 s = (Inr (slice (start + j) ?n1 data), s1)"
      "src_ok data W s1" "framed s s1" "c_out s1 = c_out s"
      using s_ptr_ok [OF 1(2), of "start + j" ?n1] 1(3-7) n1 by auto
    let ?s2 = "s1\<lparr>s_hash := s_hash s1 @ slice (start + j) ?n1 data\<rparr>"
    have step: "hash_chunks start j n s = hash_chunks start (j + chunkSize) n ?s2"
      using True by (subst hash_chunks.simps) (simp add: Let_def i bnd_def s1(1) modify_def)
    have s2: "src_ok data W ?s2" using s1(2) by (simp add: src_ok_def)
    show ?thesis
    proof (cases "j + chunkSize \<le> n")
      case True
      then have "?n1 = chunkSize" by simp
      moreover obtain s' where "hash_chunks start (j + chunkSize) n ?s2 = (Inr (), s')" "src_ok data W s'"
        "c_in s' = c_in ?s2" "c_out s' = c_out ?s2" "lastMatch s' = lastMatch ?s2"
        "s_hash s' = s_hash ?s2 @ slice (start + (j + chunkSize)) (n - (j + chunkSize)) data"
        using 1(1) [OF \<open>j < n\<close> refl s2] 1(3-7) True by (auto simp: chunkSize_def)
      moreover have "slice (start + j) chunkSize data @ slice (start + (j + chunkSize)) (n - (j + chunkSize)) data
          = slice (start + j) (n - j) data"
        using slice_append [of "start + j" chunkSize "n - (j + chunkSize)" data] 1(3,4) True
        by (simp add: chunkSize_def add_ac)
      ultimately show ?thesis
        unfolding step using s1 by (intro exI [of _ s']) (simp add: framed_def)
    next
      case False
      then have "hash_chunks start (j + chunkSize) n ?s2 = (Inr (), ?s2)"
        by (simp add: hash_chunks.simps ret_def)
      moreover have "?n1 = n - j" using False by simp
      ultimately show ?thesis
        unfolding step using s1 s2 by (intro exI [of _ ?s2]) (simp add: framed_def)
    qed
  qed
qed

definition end_bytes :: "int \<Rightarrow> byte list" where
  "end_bytes i = (if i = -1 then end_token else [])"

definition match_len :: "sum_head \<Rightarrow> int \<Rightarrow> int" where
  "match_len head i = (if i < 0 then 0 else Len (Sums head ! nat i))"

text \<open>
  \<open>matched\<close> at \<open>offset\<close>: everything up to the offset goes out as literal data, then the block
  if there is one; the running MD4 and \<open>lastMatch\<close> keep up with what has been sent.
\<close>

lemma matched_ok:
  assumes "src_ok data W s" "0 \<le> lastMatch s" "lastMatch s \<le> offset"
    and "offset + match_len head i \<le> int (length data)" "0 \<le> match_len head i"
    and "-2 \<le> i" "0 \<le> i \<Longrightarrow> i < int (length (Sums head)) \<and> is_i32 i \<and>
           block_matches md4 seed head (Sums head ! nat i) (slice offset (match_len head i) data)"
    and "chunkSize + 1023 \<le> W" "s_hash s = pre @ slice 0 (lastMatch s) data"
  shows "\<exists>s' ts. matched head offset i s = (Inr (), s') \<and> src_ok data W s' \<and> c_in s' = c_in s \<and>
           out_bytes s' = out_bytes s @ tokens_bytes ts @ end_bytes i \<and>
           explains md4 seed head data (lastMatch s) ts (offset + match_len head i) \<and>
           s_hash s' = pre @ slice 0 (offset + match_len head i) data \<and>
           lastMatch s' = offset + match_len head i"
proof -
  let ?last = "lastMatch s" and ?len = "match_len head i"
  let ?n = "offset - ?last"
  obtain s1 ts where s1: "when_do (?n > 0) (send_chunks ?last 0 ?n) s = (Inr (), s1)" "src_ok data W s1"
    "framed s s1" "out_bytes s1 = out_bytes s @ tokens_bytes ts"
    "explains md4 seed head data ?last ts offset"
  proof (cases "?n > 0")
    case True
    then show ?thesis
      using send_chunks_ok [OF assms(1,2), of 0 ?n md4 seed head] assms(3-5,8) that by (auto simp: when_do_def)
  next
    case False
    then have "?last = offset" using assms(3) by simp
    then show ?thesis using that [of s "[]"] assms(1) by (simp add: when_do_def ret_def)
  qed
  define tok where "tok = (if 0 \<le> i then [Match i] else [])"
  define s2 where "s2 = (if i = -2 then s1 else s1\<lparr>c_out := c_out s1 @ [le_bytes 4 (- (i + 1))]\<rparr>)"
  have neg: "i32 (- (i + 1)) = - (i + 1)" if "i \<noteq> -2"
    using assms(6,7) that by (cases "0 \<le> i") (auto intro!: i32_id simp: is_i32_def)
  have send: "send_token i ?last ?n s = (Inr (), s2)"
    using s1(1,2) by (auto simp: send_token_def simple_send_token_def bnd_def s2_def when_do_def
        src_ok_def run)
  have s2: "src_ok data W s2" "framed s s2" "out_bytes s2 = out_bytes s @ tokens_bytes (ts @ tok) @ end_bytes i"
    using s1 assms(6) by (auto simp: s2_def src_ok_def framed_def out_bytes_def tok_def end_bytes_def end_token_def)
  have ex: "explains md4 seed head data ?last (ts @ tok) (offset + ?len)"
    using s1(5) assms(4,7) by (intro explains_trans [OF s1(5)]) (auto simp: tok_def match_len_def Let_def)
  obtain s3 where s3: "hash_chunks ?last 0 (?n + ?len) s2 = (Inr (), s3)" "src_ok data W s3"
      "c_in s3 = c_in s2" "c_out s3 = c_out s2" "lastMatch s3 = lastMatch s2"
      "s_hash s3 = s_hash s2 @ slice ?last (?n + ?len) data"
    using hash_chunks_ok [OF s2(1), of ?last 0 "?n + ?len"] assms by auto
  have hash: "slice 0 ?last data @ slice ?last (?n + ?len) data = slice 0 (offset + ?len) data"
    using slice_append [of 0 ?last "?n + ?len" data] assms(2,3,5) by simp
  have len: "(if i < 0 then ret 0 else bnd (sum_at head i) (\<lambda>sb. ret (Len sb))) s2 = (Inr ?len, s2)"
    using assms(7) by (auto simp: ret_def sum_at_def match_len_def bnd_def)
  have "matched head offset i s = (Inr (), s3\<lparr>lastMatch := offset + ?len\<rparr>)"
    by (simp add: matched_def bnd_def get_def Let_def wrap_err_def send len s3(1) modify_def)
  then show ?thesis
    using s2 s3 ex hash assms(9)
    by (intro exI [of _ "s3\<lparr>lastMatch := offset + ?len\<rparr>"] exI [of _ "ts @ tok"])
      (auto simp: src_ok_def framed_def out_bytes_def)
qed

subsection \<open>The search finds its way through the file\<close>

text \<open>
  What the search is given: sums as \<open>receiveSums\<close> returns them, with at least one block and a
  positive block length, a hash of 16 bytes, targets that point into the sums, and a window
  that holds the longest request.
\<close>

definition search_ok ::
  "(byte list \<Rightarrow> byte list) \<Rightarrow> target list \<Rightarrow> (u16 \<rightharpoonup> int) \<Rightarrow> sum_head \<Rightarrow> int \<Rightarrow> bool" where
  "search_ok md4 targets tagTable head W \<longleftrightarrow>
     (\<forall>x. length (md4 x) = 16) \<and> sums_wf head \<and> Sums head \<noteq> [] \<and> 0 < BlockLength head \<and>
     int (length targets) = ChecksumCount head \<and>
     (\<forall>t \<in> set targets. 0 \<le> t_index t \<and> t_index t < ChecksumCount head) \<and>
     (\<forall>tg j. tagTable tg = Some j \<longrightarrow> 0 \<le> j) \<and>
     3 * BlockLength head \<le> W \<and> 256 * 1024 \<le> W"

text \<open>The longest request: a block, one byte, and an unmatched region before its flush.\<close>

lemma request_fits:
  "0 \<le> b \<Longrightarrow> 3 * b \<le> W \<Longrightarrow> 256 * 1024 \<le> W \<Longrightarrow> 2 * b + 2 * chunkSize + 1 + 1023 \<le> W"
  by (simp add: chunkSize_def)

lemma search_ok_facts:
  assumes "search_ok md4 targets tagTable head W"
  shows "2 * BlockLength head + 2 * chunkSize + 1 + 1023 \<le> W" "0 < BlockLength head"
    "BlockLength head \<le> 2 ^ 29" "ChecksumLength head \<le> 16" "length (md4 x) = 16"
    "ChecksumCount head = int (length (Sums head))" "is_i32 (ChecksumCount head)"
  using assms request_fits [of "BlockLength head" W]
  by (auto simp: search_ok_def sums_wf_def head_ok_def maxBlockLen_def)

lemma search_ok_sum:
  assumes "search_ok md4 targets tagTable head W" "i < length (Sums head)"
  shows "0 < Len (Sums head ! i)" "Len (Sums head ! i) \<le> BlockLength head" "length (Sum2 (Sums head ! i)) = 16"
proof -
  have "bufs_ok head 0 (Sums head)" "head_ok head" "0 < BlockLength head"
    using assms(1) by (simp_all add: search_ok_def sums_wf_def)
  with bufs_ok_nth [OF this(1) assms(2)]
  show "0 < Len (Sums head ! i)" "Len (Sums head ! i) \<le> BlockLength head" "length (Sum2 (Sums head ! i)) = 16"
    by (auto simp: block_len_def head_ok_def)
qed

definition roll_ok :: "byte list \<Rightarrow> sum_head \<Rightarrow> int \<Rightarrow> roll \<Rightarrow> bool" where
  "roll_ok data head offset r \<longleftrightarrow>
     0 < r_k r \<and> r_k r = min (BlockLength head) (int (length data) - offset) \<and>
     r_s1 r = lo16 (sum_a (slice offset (r_k r) data)) \<and>
     r_s2 r = lo16 (sum_b (slice offset (r_k r) data))"

lemma read_chunk_ok:
  assumes "search_ok md4 targets tagTable head W" "src_ok data W s" "0 \<le> offset"
    and "offset < int (length data)"
  shows "\<exists>s' r. read_chunk head (int (length data)) offset s = (Inr r, s') \<and> src_ok data W s' \<and>
           framed s s' \<and> c_out s' = c_out s \<and> roll_ok data head offset r"
proof -
  note f = search_ok_facts [OF assms(1)]
  let ?k = "min (BlockLength head) (int (length data) - offset)"
  have i: "i32 ?k = ?k" using f(2,3) assms(4) by (intro i32_id) (auto simp: is_i32_def)
  have fit: "0 \<le> ?k" "offset + ?k \<le> int (length data)" "?k + 1023 \<le> W"
    using f(1,2) assms(4) by (auto simp: chunkSize_def)
  obtain s' where s': "s_ptr offset ?k s = (Inr (slice offset ?k data), s')" "src_ok data W s'"
    "framed s s'" "c_out s' = c_out s"
    using s_ptr_ok [OF assms(2,3) fit] by blast
  have k: "(if int (length data) - offset < BlockLength head then int (length data) - offset
            else BlockLength head) = ?k" by simp
  show ?thesis
    using s' f(2) assms(4)
    by (intro exI [of _ s'])
      (auto simp: read_chunk_def Let_def k i bnd_def ret_def roll_ok_def checksum1_lo checksum1_hi)
qed

lemma find_match_ok:
  assumes "search_ok md4 targets tagTable head W" "src_ok data W s" "0 \<le> offset"
    and "l = min (BlockLength head) (int (length data) - offset)" "0 < l"
    and "sm = checksum1 (slice offset l data)"
    and "csum2 = None \<or> csum2 = Some (checksum2 md4 seed (slice offset l data))" "0 \<le> j"
  shows "\<exists>s' m. find_match md4 seed targets head (int (length data)) offset tg sm j csum2 s = (Inr m, s') \<and>
           src_ok data W s' \<and> framed s s' \<and> c_out s' = c_out s \<and>
           (case m of None \<Rightarrow> True
            | Some i \<Rightarrow> 0 \<le> i \<and> i < int (length (Sums head)) \<and> match_len head i = l \<and>
                block_matches md4 seed head (Sums head ! nat i) (slice offset l data))"
  using assms(2,7,8)
proof (induction "nat (ChecksumCount head - j)" arbitrary: j csum2 s rule: less_induct)
  case less
  note f = search_ok_facts [OF assms(1)]
  let ?find = "find_match md4 seed targets head (int (length data)) offset tg sm"
  have len: "int (length targets) = ChecksumCount head" using assms(1) by (simp add: search_ok_def)
  consider "\<not> j < ChecksumCount head"
    | "j < ChecksumCount head" "t_tag (targets ! nat j) \<noteq> tg"
    | "j < ChecksumCount head" "t_tag (targets ! nat j) = tg" by blast
  then show ?case
  proof cases
    case 3
    let ?i = "t_index (targets ! nat j)"
    let ?sb = "Sums head ! nat ?i"
    have "targets ! nat j \<in> set targets" using 3(1) less(4) len by simp
    then have i: "0 \<le> ?i" "?i < int (length (Sums head))"
      using assms(1) f(6) by (simp_all add: search_ok_def)
    have at: "sum_at head ?i s = (Inr ?sb, s)" by (simp add: sum_at_def i ret_def)
    have again: "\<exists>s' m. ?find (j + 1) c t = (Inr m, s') \<and>
           src_ok data W s' \<and> framed t s' \<and> c_out s' = c_out t \<and>
           (case m of None \<Rightarrow> True
            | Some i \<Rightarrow> 0 \<le> i \<and> i < int (length (Sums head)) \<and> match_len head i = l \<and>
                block_matches md4 seed head (Sums head ! nat i) (slice offset l data))"
      if "src_ok data W t" "c = None \<or> c = Some (checksum2 md4 seed (slice offset l data))" for c t
      using that less(4) 3(1) by (intro less(1)) auto
    have b: "(if int (length data) - offset < BlockLength head then int (length data) - offset
            else BlockLength head) = l" using assms(4) by simp
    have unfold: "?find j csum2 s =
        (if sm \<noteq> Sum1 ?sb then ?find (j + 1) csum2 s
         else if l \<noteq> Len ?sb then ?find (j + 1) csum2 s
         else bnd (case csum2 of Some sum2 \<Rightarrow> ret sum2
                   | None \<Rightarrow> bnd (s_ptr offset (i32 l)) (\<lambda>buf. ret (checksum2 md4 seed buf))) (\<lambda>sum2.
              let clen = nat (ChecksumLength head) in
              if length sum2 < clen \<or> length (Sum2 ?sb) < clen
              then throw (Panic ''slice bounds out of range'')
              else if take clen sum2 \<noteq> take clen (Sum2 ?sb) then ?find (j + 1) (Some sum2)
              else ret (Some ?i)) s)"
      using 3 less(4) len by (subst find_match.simps) (simp add: Let_def b bnd_Inr [of "sum_at head ?i" s ?sb s, OF at])
    show ?thesis
    proof (cases "sm = Sum1 ?sb \<and> l = Len ?sb")
      case False
      then show ?thesis using again [OF less(2,3)] unfolding unfold by (cases "sm = Sum1 ?sb") simp_all
    next
      case True
      let ?sum2 = "checksum2 md4 seed (slice offset l data)"
      have il: "i32 l = l" using assms(4,5) f(2,3) by (intro i32_id) (auto simp: is_i32_def)
      obtain t where t: "(case csum2 of Some sum2 \<Rightarrow> ret sum2
                   | None \<Rightarrow> bnd (s_ptr offset (i32 l)) (\<lambda>buf. ret (checksum2 md4 seed buf))) s = (Inr ?sum2, t)"
        "src_ok data W t" "framed s t" "c_out t = c_out s"
      proof (cases csum2)
        case None
        have fit: "0 \<le> l" "offset + l \<le> int (length data)" "l + 1023 \<le> W"
          using assms(4,5) f(1,2) by (auto simp: chunkSize_def)
        from None show ?thesis
          using s_ptr_ok [OF less(2) assms(3) fit] that by (auto simp: il bnd_def ret_def)
      next
        case (Some x)
        then show ?thesis using less(2,3) that [of s] by (auto simp: ret_def)
      qed
      have l16: "length ?sum2 = 16" "length (Sum2 ?sb) = 16" "nat (ChecksumLength head) \<le> 16"
        using f(4,5) search_ok_sum(3) [OF assms(1), of "nat ?i"] i by (simp_all add: checksum2_def)
      have go: "?find j csum2 s =
          (if take (nat (ChecksumLength head)) ?sum2 \<noteq> take (nat (ChecksumLength head)) (Sum2 ?sb)
           then ?find (j + 1) (Some ?sum2) t else (Inr (Some ?i), t))"
        unfolding unfold using True l16 by (simp add: bnd_def t(1) Let_def ret_def)
      show ?thesis
      proof (cases "take (nat (ChecksumLength head)) ?sum2 = take (nat (ChecksumLength head)) (Sum2 ?sb)")
        case eq: True
        have "int (length (slice offset l data)) = l" using assms(3-5) by simp
        then show ?thesis
          using t i True eq assms(6) unfolding go by (auto simp: block_matches_def match_len_def)
      next
        case False
        with again [OF t(2), of "Some ?sum2"] t(3,4) show ?thesis
          unfolding go by (auto simp: framed_def)
      qed
    qed
  qed (use less len in \<open>auto simp: find_match.simps ret_def\<close>)
qed

text \<open>
  The state between two steps: everything up to \<open>lastMatch\<close> has been sent and hashed, and the
  region not yet sent never grows beyond a block and a chunk, except within a chunk of the end.
\<close>

definition sent_ok ::
  "(byte list \<Rightarrow> byte list) \<Rightarrow> int \<Rightarrow> sum_head \<Rightarrow> byte list \<Rightarrow> int \<Rightarrow> byte list \<Rightarrow> search \<Rightarrow> search \<Rightarrow> bool" where
  "sent_ok md4 seed head data W pre s0 s \<longleftrightarrow>
     src_ok data W s \<and> c_in s = c_in s0 \<and> 0 \<le> lastMatch s \<and> lastMatch s \<le> int (length data) \<and>
     s_hash s = pre @ slice 0 (lastMatch s) data \<and>
     (\<exists>ts. out_bytes s = out_bytes s0 @ tokens_bytes ts \<and>
           explains md4 seed head data 0 ts (lastMatch s))"

definition gap_ok :: "sum_head \<Rightarrow> int \<Rightarrow> int \<Rightarrow> search \<Rightarrow> bool" where
  "gap_ok head end_pos offset s \<longleftrightarrow>
     offset - lastMatch s \<le> BlockLength head + chunkSize + max 0 (chunkSize + 1 - (end_pos - offset)) \<and>
     (offset < end_pos \<or> offset \<le> lastMatch s)"

lemma sent_ok_frame:
  "sent_ok md4 seed head data W pre s0 s \<Longrightarrow> src_ok data W s' \<Longrightarrow> framed s s' \<Longrightarrow> c_out s' = c_out s \<Longrightarrow>
     sent_ok md4 seed head data W pre s0 s'"
  by (simp add: sent_ok_def framed_def out_bytes_def)

lemma sent_ok_matched:
  assumes "sent_ok md4 seed head data W pre s0 s" "lastMatch s \<le> offset"
    and "offset + match_len head i \<le> int (length data)" "0 \<le> match_len head i" "i \<noteq> -1" "-2 \<le> i"
    and "0 \<le> i \<Longrightarrow> i < int (length (Sums head)) \<and> is_i32 i \<and>
           block_matches md4 seed head (Sums head ! nat i) (slice offset (match_len head i) data)"
    and "chunkSize + 1023 \<le> W"
  shows "\<exists>s'. matched head offset i s = (Inr (), s') \<and> sent_ok md4 seed head data W pre s0 s' \<and>
           lastMatch s' = offset + match_len head i"
proof -
  have s: "src_ok data W s" "0 \<le> lastMatch s" "s_hash s = pre @ slice 0 (lastMatch s) data"
    using assms(1) by (simp_all add: sent_ok_def)
  obtain s' ts where "matched head offset i s = (Inr (), s')" "src_ok data W s'" "c_in s' = c_in s"
    "out_bytes s' = out_bytes s @ tokens_bytes ts @ end_bytes i"
    "explains md4 seed head data (lastMatch s) ts (offset + match_len head i)"
    "s_hash s' = pre @ slice 0 (offset + match_len head i) data"
    "lastMatch s' = offset + match_len head i"
    using matched_ok [OF s(1,2) assms(2,3,4,6) assms(7) assms(8) s(3)] by blast
  moreover obtain us where "out_bytes s = out_bytes s0 @ tokens_bytes us"
    "explains md4 seed head data 0 us (lastMatch s)" using assms(1) by (auto simp: sent_ok_def)
  ultimately show ?thesis
    using assms s explains_trans [of md4 seed head data 0 us "lastMatch s" ts]
    by (intro exI [of _ s'])
      (auto simp: sent_ok_def end_bytes_def simp flip: tokens_bytes_simps(3) intro!: exI [of _ "us @ ts"])
qed

lemma window_ends:
  assumes "0 \<le> offset" "0 < k" "offset + k < int (length data)"
  shows "\<exists>x bs y. slice offset (k + 1) data = x # bs @ [y] \<and> slice offset k data = x # bs \<and>
           slice (offset + 1) k data = bs @ [y] \<and> int (length bs) = k - 1"
proof -
  let ?u = "slice offset (k + 1) data"
  have len: "length ?u = Suc (nat k)" using assms by simp
  then obtain x v where u: "?u = x # v" by (metis length_Suc_conv)
  with len have "length v = nat k" by simp
  moreover have "0 < nat k" using assms(2) by simp
  ultimately obtain bs y where v: "v = bs @ [y]" by (metis append_butlast_last_id length_greater_0_conv)
  have lb: "length bs = nat k - 1" "int (length bs) = k - 1" using len u v assms(2) by simp_all
  have "slice offset k data = slice 0 k ?u" using assms by (subst slice_slice) simp_all
  also have "\<dots> = x # bs" using u v lb assms(2) by (simp add: slice_def take_Cons')
  finally have a: "slice offset k data = x # bs" .
  have "slice (offset + 1) k data = slice 1 k ?u" using assms by (subst slice_slice) simp_all
  also have "\<dots> = bs @ [y]" using u v lb assms(2) by (simp add: slice_def)
  finally have "slice (offset + 1) k data = bs @ [y]" .
  with u v a lb show ?thesis by blast
qed

lemma update_roll_ok:
  assumes "roll_ok data head offset r" "0 \<le> offset"
  shows "\<exists>r'. update_roll (offset + r_k r < int (length data))
             (slice offset (r_k r + (if offset + r_k r < int (length data) then 1 else 0)) data) r s = (Inr r', s) \<and>
           (offset + 1 < int (length data) \<longrightarrow> roll_ok data head (offset + 1) r')"
proof -
  let ?N = "int (length data)" and ?k = "r_k r"
  have k: "0 < ?k" "?k \<le> BlockLength head" "offset + ?k \<le> ?N" "?k = min (BlockLength head) (?N - offset)"
    using assms(1) unfolding roll_ok_def by linarith+
  have r1: "r_s1 r = lo16 (sum_a (slice offset ?k data))" "r_s2 r = lo16 (sum_b (slice offset ?k data))"
    using assms(1) by (simp_all add: roll_ok_def)
  have w32: "(word_of_int ?k :: u32) = of_nat (Suc m)" if "int m = ?k - 1" for m
    using that by (metis add.commute diff_add_cancel of_int_of_nat_eq of_nat_Suc)
  show ?thesis
  proof (cases "offset + ?k < ?N")
    case True
    obtain x bs y where w: "slice offset (?k + 1) data = x # bs @ [y]" "slice offset ?k data = x # bs"
        "slice (offset + 1) ?k data = bs @ [y]" "int (length bs) = ?k - 1"
      using window_ends [OF assms(2) k(1) True] by blast
    have nk: "nat ?k = Suc (length bs)" using w(4) by simp
    have "?k = min (BlockLength head) (?N - (offset + 1))" using k(4) True by linarith
    moreover have "update_roll True (x # bs @ [y]) r s =
        (Inr \<lparr>r_k = ?k, r_s1 = lo16 (sum_a (bs @ [y])), r_s2 = lo16 (sum_b (bs @ [y]))\<rparr>, s)"
      using k(1) w(4) roll_a [of x bs y] roll_b [of x bs y]
      by (simp add: update_roll_def Let_def ret_def r1 w(2) nk w32 [OF w(4)] nth_append
          del: of_nat_Suc sum_a.simps sum_b.simps sum_a_append sum_b_append)
    ultimately show ?thesis using True k(1) w by (simp add: roll_ok_def)
  next
    case False
    then have kN: "?k = ?N - offset" using k(3) by simp
    have "length (slice offset ?k data) = nat ?k" using assms(2) k by simp
    then obtain x bs where w: "slice offset ?k data = x # bs" "int (length bs) = ?k - 1"
      using k(1) by (cases "slice offset ?k data") auto
    have "slice (offset + 1) (?k - 1) data = slice 1 (?k - 1) (slice offset ?k data)"
      using assms(2) k(1) by (subst slice_slice) simp_all
    also have "\<dots> = bs" using w by (simp add: slice_def)
    finally have bs: "slice (offset + 1) (?k - 1) data = bs" .
    moreover have "update_roll False (x # bs) r s =
        (Inr \<lparr>r_k = ?k - 1, r_s1 = lo16 (sum_a bs), r_s2 = lo16 (sum_b bs)\<rparr>, s)"
      using roll_a_last [of x bs] roll_b_last [of x bs]
      by (simp add: update_roll_def Let_def ret_def r1 w(1) w32 [OF w(2)]
          del: of_nat_Suc sum_a.simps sum_b.simps)
    moreover have "roll_ok data head (offset + 1) \<lparr>r_k = ?k - 1, r_s1 = lo16 (sum_a bs), r_s2 = lo16 (sum_b bs)\<rparr>"
      if "offset + 1 < ?N"
    proof -
      have "0 < ?k - 1" "?k - 1 = min (BlockLength head) (?N - (offset + 1))"
        using k(2) kN that by linarith+
      then show ?thesis unfolding roll_ok_def roll.simps bs by blast
    qed
    ultimately show ?thesis using False w by simp
  qed
qed

lemma roll_on_ok:
  assumes "search_ok md4 targets tagTable head W" "sent_ok md4 seed head data W pre s0 s"
    and "roll_ok data head offset r" "0 \<le> offset" "lastMatch s \<le> offset + 1"
    and "gap_ok head end_pos offset s" "end_pos \<le> int (length data)"
  shows "\<exists>s' m. roll_on head (int (length data)) end_pos offset r s = (Inr m, s') \<and>
           sent_ok md4 seed head data W pre s0 s' \<and>
           (case m of None \<Rightarrow> True
            | Some (o', r') \<Rightarrow> o' = offset + 1 \<and> o' < end_pos \<and> roll_ok data head o' r' \<and>
                lastMatch s' \<le> o' \<and> gap_ok head end_pos o' s')"
proof -
  note f = search_ok_facts(1-3) [OF assms(1)]
  let ?N = "int (length data)" and ?last = "lastMatch s" and ?k = "r_k r"
  let ?backup = "max (offset - ?last) 0"
  let ?more = "offset + ?k < ?N"
  let ?mmore = "if ?more then 1 else 0 :: int"
  let ?l = "?k + ?mmore + ?backup"
  have k: "0 < ?k" "?k \<le> BlockLength head" "offset + ?k \<le> ?N"
    using assms(3) unfolding roll_ok_def by linarith+
  have s: "src_ok data W s" "0 \<le> ?last" "?last \<le> ?N" using assms(2) by (simp_all add: sent_ok_def)
  have mm: "0 \<le> ?mmore" "?mmore \<le> 1" by simp_all
  have b: "?backup \<le> BlockLength head + 2 * chunkSize"
    using assms(6) f(2) by (auto simp: gap_ok_def chunkSize_def)
  have fit: "0 \<le> offset - ?backup" "0 \<le> ?l" "offset - ?backup + ?l \<le> ?N" "?l + 1023 \<le> W"
    using assms(4) s k b f(1) by auto
  have "?l \<le> 2 ^ 31 - 1" using b k(2) f(3) by (auto simp: chunkSize_def)
  then have il: "i32 ?l = ?l" using fit(2) by (intro i32_id) (simp add: is_i32_def)
  obtain t where t: "s_ptr (offset - ?backup) ?l s = (Inr (slice (offset - ?backup) ?l data), t)"
      "src_ok data W t" "framed s t" "c_out t = c_out s"
    using s_ptr_ok [OF s(1) fit] by blast
  have st: "sent_ok md4 seed head data W pre s0 t" by (rule sent_ok_frame [OF assms(2) t(2-4)])
  let ?chunk = "slice (offset - ?backup) ?l data"
  have lc: "int (length ?chunk) = ?l" using fit(1-3) by simp
  have up: "drop (nat ?backup) ?chunk = slice offset (?k + ?mmore) data"
  proof -
    have "length (drop (nat ?backup) ?chunk) \<le> nat (?k + ?mmore)" using lc by simp
    then have "drop (nat ?backup) ?chunk = slice ?backup (?k + ?mmore) ?chunk"
      unfolding slice_def by (rule take_all [symmetric])
    also have "\<dots> = slice (offset - ?backup + ?backup) (?k + ?mmore) data"
    proof (rule slice_slice [OF fit(1)])
      show "0 \<le> ?backup" by simp
      show "0 \<le> ?k + ?mmore" using k(1) mm(1) by linarith
      show "?backup + (?k + ?mmore) \<le> ?l" by (simp only: add.commute)
    qed
    also have "\<dots> = slice offset (?k + ?mmore) data" by simp
    finally show ?thesis .
  qed
  have lu: "int (length (slice offset (?k + ?mmore) data)) = ?k + ?mmore"
    using assms(4) k by auto
  from update_roll_ok [OF assms(3,4)] obtain r' where
    r': "update_roll ?more (slice offset (?k + ?mmore) data) r t = (Inr r', t)"
    "offset + 1 < ?N \<Longrightarrow> roll_ok data head (offset + 1) r'" by blast
  let ?flush = "?backup \<ge> BlockLength head + chunkSize \<and> end_pos - offset > chunkSize"
  obtain s' where s': "when_do ?flush (matched head (offset - BlockLength head) (-2)) t = (Inr (), s')"
    "sent_ok md4 seed head data W pre s0 s'" "?flush \<longrightarrow> lastMatch s' = offset - BlockLength head"
    "\<not> ?flush \<longrightarrow> lastMatch s' = ?last"
  proof (cases ?flush)
    case True
    then have "lastMatch t \<le> offset - BlockLength head" 
      using t(3) f(2) by (simp add: framed_def chunkSize_def max_def split: if_splits)
    moreover have "offset - BlockLength head \<le> ?N" using k f(2) by linarith
    moreover have "chunkSize + 1023 \<le> W" using f(1,2) by (simp add: chunkSize_def)
    ultimately obtain u where "matched head (offset - BlockLength head) (-2) t = (Inr (), u)"
      "sent_ok md4 seed head data W pre s0 u" "lastMatch u = offset - BlockLength head"
      using sent_ok_matched [OF st, of "offset - BlockLength head" "-2"] by (auto simp: match_len_def)
    then show ?thesis using that [of u] True by (simp add: when_do_def)
  next
    case False
    then have "when_do ?flush (matched head (offset - BlockLength head) (-2)) t = (Inr (), t)"
      by (rule when_do_False)
    moreover have "lastMatch t = ?last" using t(3) by (simp add: framed_def)
    ultimately show ?thesis using that [of t] st False by blast
  qed
  have c: "(int (length ?chunk) < ?backup) = False" unfolding lc using k(1) by simp
  have run: "roll_on head ?N end_pos offset r s =
      (Inr (if offset + 1 \<ge> end_pos then None else Some (offset + 1, r')), s')"
    unfolding roll_on_def bnd_def get_def Let_def prod.case sum.case il t(1) c if_False up r'(1) s'(1) ret_def ..
  have "roll_ok data head (offset + 1) r' \<and> lastMatch s' \<le> offset + 1 \<and> gap_ok head end_pos (offset + 1) s'"
    if o: "offset + 1 < end_pos"
  proof (intro conjI)
    show "roll_ok data head (offset + 1) r'" using o assms(7) by (intro r'(2)) simp
    show "lastMatch s' \<le> offset + 1" using s'(3,4) assms(5) f(2) by (cases ?flush) auto
    have "offset - ?last < BlockLength head + chunkSize \<or> end_pos - offset \<le> chunkSize" if "\<not> ?flush"
      using that f(2) by (auto simp: max_def chunkSize_def split: if_splits)
    then show "gap_ok head end_pos (offset + 1) s'"
      using s'(3,4) assms(6) f(2) o unfolding gap_ok_def chunkSize_def by (cases ?flush) auto
  qed
  then show ?thesis using s'(2) unfolding run by auto
qed

definition next_ok ::
  "byte list \<Rightarrow> sum_head \<Rightarrow> int \<Rightarrow> int \<Rightarrow> search \<Rightarrow> (int \<times> roll) option \<Rightarrow> bool" where
  "next_ok data head end_pos offset s m \<longleftrightarrow>
     (case m of None \<Rightarrow> True
      | Some (o', r') \<Rightarrow> offset < o' \<and> o' < end_pos \<and> roll_ok data head o' r' \<and>
          lastMatch s \<le> o' \<and> gap_ok head end_pos o' s)"

lemma search_step_ok:
  assumes "search_ok md4 targets tagTable head W" "sent_ok md4 seed head data W pre s0 s"
    and "roll_ok data head offset r" "0 \<le> offset" "lastMatch s \<le> offset"
    and "gap_ok head end_pos offset s" "end_pos \<le> int (length data)"
  shows "\<exists>s' m. search_step md4 seed targets tagTable head (int (length data)) end_pos offset r s = (Inr m, s') \<and>
           sent_ok md4 seed head data W pre s0 s' \<and> next_ok data head end_pos offset s' m"
proof -
  note f = search_ok_facts [OF assms(1)]
  let ?N = "int (length data)" and ?b = "slice offset (r_k r) data"
  have k: "0 < r_k r" "r_k r = min (BlockLength head) (?N - offset)" and offN: "offset < ?N"
    using assms(3) unfolding roll_ok_def by linarith+
  have halves: "r_s1 r = lo16 (sum_a ?b)" "r_s2 r = lo16 (sum_b ?b)" using assms(3) by (simp_all add: roll_ok_def)
  have sm: "(r_s1 r AND 0xFFFF) OR push_bit 16 (r_s2 r) = checksum1 ?b"
    unfolding halves by (rule checksum1_of_halves)
  let ?tg = "tag2 (ucast (r_s1 r)) (ucast (r_s2 r))"
  let ?find = "case tagTable ?tg of None \<Rightarrow> ret None
        | Some j \<Rightarrow> find_match md4 seed targets head ?N offset ?tg (checksum1 ?b) j None"
  have src: "src_ok data W s" using assms(2) by (simp add: sent_ok_def)
  obtain t m where t: "?find s = (Inr m, t)"
    "src_ok data W t" "framed s t" "c_out t = c_out s"
    and m: "case m of None \<Rightarrow> True
            | Some i \<Rightarrow> 0 \<le> i \<and> i < int (length (Sums head)) \<and> match_len head i = r_k r \<and>
                block_matches md4 seed head (Sums head ! nat i) ?b"
  proof (cases "tagTable ?tg")
    case None
    then show ?thesis using that [of None s] src by (simp add: ret_def)
  next
    case (Some j)
    then have "0 \<le> j" using assms(1) by (simp add: search_ok_def)
    then obtain t m where "find_match md4 seed targets head ?N offset ?tg (checksum1 ?b) j None s = (Inr m, t)"
      "src_ok data W t" "framed s t" "c_out t = c_out s"
      "case m of None \<Rightarrow> True
            | Some i \<Rightarrow> 0 \<le> i \<and> i < int (length (Sums head)) \<and> match_len head i = r_k r \<and>
                block_matches md4 seed head (Sums head ! nat i) ?b"
      using find_match_ok [OF assms(1) src assms(4) k(2,1) refl, of None seed j ?tg] by auto
    then show ?thesis using that [of m t] Some by simp
  qed
  have st: "sent_ok md4 seed head data W pre s0 t" by (rule sent_ok_frame [OF assms(2) t(2-4)])
  have lt: "lastMatch t = lastMatch s" using t(3) by (simp add: framed_def)
  have step: "search_step md4 seed targets tagTable head ?N end_pos offset r s =
      (case m of
           None \<Rightarrow> roll_on head ?N end_pos offset r
         | Some i \<Rightarrow>
             bnd (matched head offset i) (\<lambda>_.
             bnd (sum_at head i) (\<lambda>sb.
             let offset' = offset + (Len sb - 1) in
             bnd (wrap_err (\<lambda>e. Errorf ''readChunk: %v'' [FErr e]) (read_chunk head ?N offset')) (\<lambda>r'.
             if offset' \<ge> end_pos then ret None else roll_on head ?N end_pos offset' r')))) t"
    unfolding search_step_def Let_def sm by (rule bnd_Inr [of ?find, OF t(1)])
  show ?thesis
  proof (cases m)
    case None
    have g: "gap_ok head end_pos offset t" using assms(6) lt by (simp add: gap_ok_def)
    have "lastMatch t \<le> offset + 1" using lt assms(5) by simp
    from roll_on_ok [OF assms(1) st assms(3,4) this g assms(7)] None show ?thesis
      unfolding step by (fastforce simp: next_ok_def split: option.splits)
  next
    case (Some i)
    let ?sb = "Sums head ! nat i" and ?o' = "offset + (r_k r - 1)"
    have i: "0 \<le> i" "i < int (length (Sums head))" "match_len head i = r_k r"
      "block_matches md4 seed head ?sb ?b" using m Some by simp_all
    have i32: "is_i32 i" using i(1,2) f(6,7) by (simp add: is_i32_def)
    have len: "Len ?sb = r_k r" using i(1,3) by (simp add: match_len_def)
    have "offset + r_k r \<le> ?N" using k(2) by linarith
    moreover have "lastMatch t \<le> offset" using lt assms(5) by simp
    ultimately obtain u where u: "matched head offset i t = (Inr (), u)" "sent_ok md4 seed head data W pre s0 u"
      "lastMatch u = offset + r_k r"
      using sent_ok_matched [OF st, of offset i] i i32 k(1) f(1,2) by (auto simp: chunkSize_def)
    have at: "sum_at head i u = (Inr ?sb, u)" using i by (simp add: sum_at_def ret_def)
    have usrc: "src_ok data W u" using u(2) by (simp add: sent_ok_def)
    have o': "0 \<le> ?o'" "?o' < ?N" using k assms(4) by linarith+
    obtain v r' where v: "read_chunk head ?N ?o' u = (Inr r', v)" "src_ok data W v" "framed u v"
      "c_out v = c_out u" "roll_ok data head ?o' r'"
      using read_chunk_ok [OF assms(1) usrc o'] by blast
    have wr: "wrap_err (\<lambda>e. Errorf ''readChunk: %v'' [FErr e]) (read_chunk head ?N ?o') u = (Inr r', v)"
      by (simp add: wrap_err_eq_Inr v(1))
    have sv: "sent_ok md4 seed head data W pre s0 v" by (rule sent_ok_frame [OF u(2) v(2-4)])
    have lv: "lastMatch v = ?o' + 1" using v(3) u(3) by (simp add: framed_def)
    have go: "search_step md4 seed targets tagTable head ?N end_pos offset r s =
        (if ?o' \<ge> end_pos then ret None else roll_on head ?N end_pos ?o' r') v"
      unfolding step Some option.case bnd_Inr [of "matched head offset i" t "()" u, OF u(1)]
        bnd_Inr [of "sum_at head i" u ?sb u, OF at] Let_def len
      by (rule bnd_Inr [of "wrap_err (\<lambda>e. Errorf ''readChunk: %v'' [FErr e]) (read_chunk head ?N ?o')",
            OF wr])
    show ?thesis
    proof (cases "?o' \<ge> end_pos")
      case True
      then show ?thesis using sv unfolding go by (simp add: ret_def next_ok_def)
    next
      case False
      have "gap_ok head end_pos ?o' v" using lv f(2) by (simp add: gap_ok_def chunkSize_def)
      with roll_on_ok [OF assms(1) sv v(5) o'(1) _ _ assms(7)] False lv k(1) show ?thesis
        unfolding go by (fastforce simp: next_ok_def split: option.splits)
    qed
  qed
qed

lemma search_loop_ok:
  assumes "search_ok md4 targets tagTable head W" "end_pos \<le> int (length data)"
    and "sent_ok md4 seed head data W pre s0 s" "roll_ok data head offset r" "0 \<le> offset"
    and "lastMatch s \<le> offset" "gap_ok head end_pos offset s" "nat (end_pos - offset) < fuel"
  shows "\<exists>s'. search_loop fuel md4 seed targets tagTable head (int (length data)) end_pos offset r s = (Inr (), s') \<and>
           sent_ok md4 seed head data W pre s0 s'"
  using assms(3-)
proof (induction fuel arbitrary: s offset r)
  case (Suc fuel)
  obtain s' m where s': "search_step md4 seed targets tagTable head (int (length data)) end_pos offset r s = (Inr m, s')"
    "sent_ok md4 seed head data W pre s0 s'" "next_ok data head end_pos offset s' m"
    using search_step_ok [OF assms(1) Suc.prems(1-5) assms(2)] by blast
  show ?case
  proof (cases m)
    case None
    with s' show ?thesis by (simp add: bnd_def ret_def)
  next
    case (Some x)
    obtain o' r' where x: "x = (o', r')" by (cases x)
    have "offset < o'" "o' < end_pos" "roll_ok data head o' r'" "lastMatch s' \<le> o'" "gap_ok head end_pos o' s'"
      using s'(3) by (simp_all add: next_ok_def Some x)
    with Suc.IH [of s' o' r'] s' Suc.prems(3,6) show ?thesis by (simp add: bnd_def Some x)
  qed
qed simp

subsection \<open>The tables\<close>

lemma fold_table:
  "fold (\<lambda>idx table. table(t_tag (ts ! idx) \<mapsto> int idx)) is m tg =
     (case find (\<lambda>idx. t_tag (ts ! idx) = tg) (rev is) of None \<Rightarrow> m tg | Some idx \<Rightarrow> Some (int idx))"
proof (induction "is" arbitrary: m)
  case (Cons i "is")
  have "find P (xs @ [x]) = (case find P xs of None \<Rightarrow> if P x then Some x else None | Some y \<Rightarrow> Some y)"
    for P :: "nat \<Rightarrow> bool" and xs x
    by (induction xs) auto
  then show ?case using Cons by (auto split: option.splits)
qed simp

lemma build_tag_table_find:
  "build_tag_table ts tg = map_option int (find (\<lambda>idx. t_tag (ts ! idx) = tg) [0..<length ts])"
  by (auto simp: build_tag_table_def fold_table split: option.split)

lemma length_build_targets [simp]: "length (build_targets head) = length (Sums head)"
  by (simp add: build_targets_def)

lemma set_build_targets:
  "set (build_targets head) =
     {\<lparr>t_index = int i, t_tag = tag (Sum1 (Sums head ! i))\<rparr> | i. i < length (Sums head)}"
proof -
  have "set (zip (map int [0..<length xs]) xs) = (\<lambda>i. (int i, xs ! i)) ` {..<length xs}" for xs :: "sum_buf list"
    unfolding set_zip by (auto intro!: image_eqI) (metis length_upt diff_zero nth_map nth_upt add_0)
  then show ?thesis by (auto simp: build_targets_def)
qed

lemma search_ok_build:
  assumes "\<forall>x. length (md4 x) = 16" "sums_wf head" "Sums head \<noteq> []" "0 < BlockLength head"
    and "3 * BlockLength head \<le> W" "256 * 1024 \<le> W"
  shows "search_ok md4 (build_targets head) (build_tag_table (build_targets head)) head W"
  using assms by (auto simp: search_ok_def set_build_targets build_tag_table_find sums_wf_def)

lemma hash_search_run:
  assumes "\<forall>x. length (md4 x) = 16" "sums_wf head" "Sums head \<noteq> []" "0 < BlockLength head"
    and "data \<noteq> []" "f_data f = data" "f_pos f = 0"
    and "c_budget s = None" "lastMatch s = 0" "length data < fuel" "f_fail f = (\<lambda>_. None)"
  shows "\<exists>s' ts. hash_search fuel md4 seed (build_targets head) (build_tag_table (build_targets head)) head
             fileIndex (Inr (f, Inr (int (length data)))) s = (Inr (), s') \<and>
           out_bytes s' = out_bytes s @ le_bytes 4 fileIndex @ head_bytes head @ tokens_bytes ts @
             end_token @ md4 (le_bytes 4 seed @ data) \<and>
           explains md4 seed head data 0 ts (int (length data)) \<and> c_in s' = c_in s"
proof -
  let ?N = "int (length data)" and ?ts = "build_targets head"
  let ?tt = "build_tag_table ?ts" and ?b = "BlockLength head"
  define W where "W = max (3 * ?b) (256 * 1024)"
  have Wd: "max (3 * ?b) 262144 = W" by (simp add: W_def)
  have b: "0 \<le> 3 * ?b" "3 * ?b < 2 ^ 31"
    using assms(2,4) by (auto simp: sums_wf_def head_ok_def maxBlockLen_def)
  then have i3: "i32 (3 * ?b) = 3 * ?b" by (intro i32_id) (simp add: is_i32_def)
  have ok: "search_ok md4 ?ts ?tt head W"
    by (rule search_ok_build [OF assms(1-4)]) (simp_all add: W_def)
  let ?ms = "map_file f ?N W ?b"
  let ?pre = "out_bytes s @ le_bytes 4 fileIndex @ head_bytes head"
  let ?s1 = "s\<lparr>s_ms := ?ms, c_out := c_out s @ [le_bytes 4 fileIndex, head_bytes head], s_hash := le_bytes 4 seed\<rparr>"
  have src: "src_ok data W ?s1"
    using ms_ok_map_file [OF assms(6,7,11)] defWindowSize_map_file assms(8) by (simp add: src_ok_def)
  have sent: "sent_ok md4 seed head data W (le_bytes 4 seed) ?s1 ?s1"
    using src assms(9) by (auto simp: sent_ok_def intro: exI [of _ "[]"])
  have N: "0 < ?N" using assms(5) by simp
  let ?L = "length (Sums head)"
  have last: "sum_at head (int ?L - 1) ?s1 = (Inr (Sums head ! (?L - 1)), ?s1)"
    using assms(3) by (cases "Sums head") (auto simp: sum_at_def ret_def nat_diff_distrib)
  let ?stop = "?N + 1 - Len (Sums head ! (?L - 1))"
  have end_N: "?stop \<le> ?N"
    using search_ok_sum(1) [OF ok, of "?L - 1"] assms(3) by simp
  obtain s2 r where s2: "read_chunk head ?N 0 ?s1 = (Inr r, s2)" "src_ok data W s2" "framed ?s1 s2"
    "c_out s2 = c_out ?s1" "roll_ok data head 0 r"
    using read_chunk_ok [OF ok src order_refl N] by blast
  have sent2: "sent_ok md4 seed head data W (le_bytes 4 seed) ?s1 s2"
    by (rule sent_ok_frame [OF sent s2(2-4)])
  have l2: "lastMatch s2 = 0" using s2(3) assms(9) by (simp add: framed_def)
  have gap: "gap_ok head ?stop 0 s2" using l2 assms(4) by (simp add: gap_ok_def chunkSize_def)
  have fuel: "nat (?stop - 0) < fuel" using end_N assms(10) by linarith
  have "lastMatch s2 \<le> 0" using l2 by simp
  then obtain s3 where s3: "search_loop fuel md4 seed ?ts ?tt head ?N ?stop 0 r s2 = (Inr (), s3)"
    "sent_ok md4 seed head data W (le_bytes 4 seed) ?s1 s3"
    using search_loop_ok [OF ok end_N sent2 s2(5) order_refl _ gap fuel] by blast
  obtain us where us: "out_bytes s3 = out_bytes ?s1 @ tokens_bytes us"
    "explains md4 seed head data 0 us (lastMatch s3)" using s3(2) by (auto simp: sent_ok_def)
  have s3': "src_ok data W s3" "0 \<le> lastMatch s3" "lastMatch s3 \<le> ?N" "c_in s3 = c_in s"
    "s_hash s3 = le_bytes 4 seed @ slice 0 (lastMatch s3) data"
    using s3(2) by (simp_all add: sent_ok_def)
  have "chunkSize + 1023 \<le> W" by (simp add: W_def chunkSize_def)
  then obtain s4 ts where s4: "matched head ?N (-1) s3 = (Inr (), s4)" "src_ok data W s4" "c_in s4 = c_in s3"
    "out_bytes s4 = out_bytes s3 @ tokens_bytes ts @ end_token"
    "explains md4 seed head data (lastMatch s3) ts ?N"
    "s_hash s4 = le_bytes 4 seed @ data"
    using matched_ok [OF s3'(1,2,3), of head "-1" md4 seed "le_bytes 4 seed"] s3'(5)
    by (auto simp: match_len_def end_bytes_def slice_all)
  let ?s5 = "s4\<lparr>c_out := c_out s4 @ [md4 (le_bytes 4 seed @ data)]\<rparr>"
  have "hash_search fuel md4 seed ?ts ?tt head fileIndex (Inr (f, Inr ?N)) s = (Inr (), ?s5)"
    using assms(8) s4(2)
    by (simp add: hash_search_def i3 Wd bnd_def modify_def write_int32_ok write_to_ok
        last Let_def s2(1) s3(1) [unfolded One_nat_def] s4(1,6) get_def conn_write_ok src_ok_def)
  moreover have "explains md4 seed head data 0 (us @ ts) ?N" by (rule explains_trans [OF us(2) s4(5)])
  moreover have "out_bytes ?s5 = ?pre @ tokens_bytes (us @ ts) @ end_token @ md4 (le_bytes 4 seed @ data)"
    using us(1) s4(4) by (simp add: out_bytes_def)
  ultimately show ?thesis using s4(3) s3'(4) by (intro exI [of _ ?s5] exI [of _ "us @ ts"]) simp
qed

text \<open>
  C14: for every well-formed set of sums and every non-empty file, the search runs to its end
  within one step per byte of the file and never panics or fails; the tokens it sends describe
  exactly the file, each block reference to a region with the same length, rolling checksum and
  strong checksum as the block; the file's MD4 follows.
\<close>

theorem hash_search_correct:
  assumes "\<forall>x. length (md4 x) = 16" "sums_wf head" "Sums head \<noteq> []" "0 < BlockLength head"
    and "data \<noteq> []" "f_data f = data" "f_pos f = 0"
    and "c_budget s = None" "lastMatch s = 0" "length data < fuel" "f_fail f = (\<lambda>_. None)"
  shows "\<exists>s' ts. hash_search fuel md4 seed (build_targets head) (build_tag_table (build_targets head)) head
             fileIndex (Inr (f, Inr (int (length data)))) s = (Inr (), s') \<and>
           out_bytes s' = out_bytes s @ le_bytes 4 fileIndex @ head_bytes head @ tokens_bytes ts @
             end_token @ md4 (le_bytes 4 seed @ data) \<and>
           explains md4 seed head data 0 ts (int (length data)) \<and> c_in s' = c_in s"
  by (rule hash_search_run [OF assms])

lemma find_match_no_length:
  assumes "int (length targets) = ChecksumCount head" "ChecksumCount head = int (length (Sums head))"
    and "\<forall>t \<in> set targets. 0 \<le> t_index t \<and> t_index t < ChecksumCount head"
    and "\<forall>sb \<in> set (Sums head). Len sb \<noteq> l"
    and "l = (if fsize - offset < BlockLength head then fsize - offset else BlockLength head)" "0 \<le> j"
  shows "find_match md4 seed targets head fsize offset tg sm j csum2 s = (Inr None, s)"
  using assms(6)
proof (induction "nat (ChecksumCount head - j)" arbitrary: j rule: less_induct)
  case less
  show ?case
  proof (cases "j < ChecksumCount head \<and> t_tag (targets ! nat j) = tg")
    case True
    let ?i = "t_index (targets ! nat j)"
    have "nat j < length targets" using True less(2) assms(1) by linarith
    then have "targets ! nat j \<in> set targets" by simp
    then have i: "0 \<le> ?i" "nat ?i < length (Sums head)" using assms(2,3) by auto
    then have "Len (Sums head ! nat ?i) \<noteq> l" using assms(4) by simp
    moreover have "find_match md4 seed targets head fsize offset tg sm (j + 1) csum2 s = (Inr None, s)"
      using True less(2) by (intro less(1)) simp_all
    moreover have "sum_at head ?i s = (Inr (Sums head ! nat ?i), s)"
      using i by (auto simp: sum_at_def ret_def)
    ultimately show ?thesis
      using True less(2) assms(1,5) by (subst find_match.simps) (auto simp: bnd_def Let_def)
  qed (use less assms(1) in \<open>auto simp: find_match.simps ret_def\<close>)
qed

text \<open>
  C39: a file that is empty on the sender while the receiver holds a non-empty one makes the
  search read \<open>update[0]\<close> of an empty slice: whatever the sums are, the sender panics instead
  of sending the empty file.
\<close>

theorem empty_file_panics:
  assumes "sums_wf head" "Sums head \<noteq> []" "0 < BlockLength head"
    and "f_data f = []" "c_budget s = None" "lastMatch s = 0"
  shows "fst (hash_search (Suc fuel) md4 seed (build_targets head) (build_tag_table (build_targets head)) head
           fileIndex (Inr (f, Inr 0)) s) = Inl (Panic ''index out of range'')"
proof -
  let ?ts = "build_targets head" and ?tt = "build_tag_table (build_targets head)"
  define ms where "ms = map_file f 0 (max (i32 (3 * BlockLength head)) 262144) (BlockLength head)"
  let ?s1 = "s\<lparr>s_ms := ms, c_out := c_out s @ [le_bytes 4 fileIndex, head_bytes head], s_hash := le_bytes 4 seed\<rparr>"
  let ?L = "length (Sums head)"
  let ?last = "Sums head ! (?L - 1)"
  have cnt: "ChecksumCount head = int ?L" using assms(1) by (simp add: sums_wf_def)
  have pos: "\<forall>sb \<in> set (Sums head). Len sb \<noteq> 0"
  proof
    fix sb assume "sb \<in> set (Sums head)"
    then obtain i where "i < ?L" "sb = Sums head ! i" by (auto simp: in_set_conv_nth)
    then show "Len sb \<noteq> 0"
      using bufs_ok_nth [of head 0 "Sums head" i] assms(1,3)
      by (auto simp: sums_wf_def block_len_def)
  qed
  have last: "sum_at head (int ?L - 1) ?s1 = (Inr ?last, ?s1)"
    using assms(2) by (cases "Sums head") (auto simp: sum_at_def ret_def nat_diff_distrib)
  have p0: "s_ptr 0 0 ?s1 = (Inr [], ?s1)" by (simp add: s_ptr_def ptr_def)
  have i0: "i32 0 = 0" by (simp add: is_i32_def)
  define r where "r = \<lparr>r_k = 0, r_s1 = checksum1 [] AND 0xFFFF, r_s2 = drop_bit 16 (checksum1 [])\<rparr>"
  have chunk: "read_chunk head 0 0 ?s1 = (Inr r, ?s1)"
    using assms(3) p0 by (simp add: read_chunk_def Let_def bnd_def ret_def i0 r_def)
  let ?tg = "tag2 (ucast (r_s1 r)) (ucast (r_s2 r))" and ?sm = "(r_s1 r AND 0xFFFF) OR push_bit 16 (r_s2 r)"
  let ?find = "case ?tt ?tg of None \<Rightarrow> ret None | Some j \<Rightarrow> find_match md4 seed ?ts head 0 0 ?tg ?sm j None"
  have none: "?find ?s1 = (Inr None, ?s1)"
  proof (cases "?tt ?tg")
    case (Some j)
    then have "0 \<le> j" by (auto simp: build_tag_table_find)
    then have "find_match md4 seed ?ts head 0 0 ?tg ?sm j None ?s1 = (Inr None, ?s1)"
      using assms(3) pos cnt
      by (intro find_match_no_length [where l = 0]) (auto simp: set_build_targets)
    then show ?thesis using Some by simp
  qed (simp add: ret_def)
  have roll: "roll_on head 0 e 0 r ?s1 = (Inl (Panic ''index out of range''), ?s1)" for e
    using p0 assms(6) by (simp add: roll_on_def bnd_def get_def Let_def i0 update_roll_def throw_def r_def)
  have step: "search_step md4 seed ?ts ?tt head 0 e 0 r ?s1 = (Inl (Panic ''index out of range''), ?s1)" for e
    unfolding search_step_def Let_def bnd_Inr [of ?find ?s1 None ?s1, OF none] option.case by (rule roll)
  show ?thesis
    using assms(5)
    by (simp add: hash_search_def ms_def [symmetric] bnd_def modify_def write_int32_ok write_to_ok last
        chunk step Let_def)
qed

definition sample_search :: search where
  "sample_search = \<lparr>c_in = [], c_out = [], c_budget = None, s_ms = map_file sample_file 0 0 0,
                    lastMatch = 0, s_hash = []\<rparr>"

definition sample_sums :: sum_head where
  "sample_sums = sums_of toy_md4 7 sample_data"

lemma sample_sums_facts:
  "sums_wf sample_sums" "Sums sample_sums \<noteq> []" "0 < BlockLength sample_sums"
proof -
  have "small_file sample_data" by (simp add: small_file_def sample_data_def)
  then show "sums_wf sample_sums" "Sums sample_sums \<noteq> []" "0 < BlockLength sample_sums"
    using sums_of_facts [of sample_data toy_md4 7]
    by (auto simp: sample_sums_def toy_md4_def sample_data_def intro!: sums_wf_sums_of)
qed

theorem hash_search_correct_witness:
  "\<exists>s' ts. hash_search 101 toy_md4 7 (build_targets sample_sums) (build_tag_table (build_targets sample_sums))
             sample_sums 3 (Inr (sample_file, Inr 100)) sample_search = (Inr (), s') \<and>
           explains toy_md4 7 sample_sums (map of_nat [0..<100]) 0 ts 100"
proof -
  let ?data = "map of_nat [0..<100] :: byte list"
  have "\<exists>s' ts. hash_search 101 toy_md4 7 (build_targets sample_sums) (build_tag_table (build_targets sample_sums))
             sample_sums 3 (Inr (sample_file, Inr (int (length ?data)))) sample_search = (Inr (), s') \<and>
           out_bytes s' = out_bytes sample_search @ le_bytes 4 3 @ head_bytes sample_sums @ tokens_bytes ts @
             end_token @ toy_md4 (le_bytes 4 7 @ ?data) \<and>
           explains toy_md4 7 sample_sums ?data 0 ts (int (length ?data)) \<and> c_in s' = c_in sample_search"
    by (rule hash_search_correct [OF _ sample_sums_facts])
      (simp_all add: toy_md4_def sample_search_def sample_file_def)
  then show ?thesis by auto
qed

theorem empty_file_panics_witness:
  "fst (hash_search 1 toy_md4 7 (build_targets sample_sums) (build_tag_table (build_targets sample_sums))
     sample_sums 0 (Inr (sample_file\<lparr>f_data := []\<rparr>, Inr 0)) sample_search) = Inl (Panic ''index out of range'')"
  using empty_file_panics [OF sample_sums_facts, of "sample_file\<lparr>f_data := []\<rparr>" sample_search 0 toy_md4 7 0]
  by (simp add: sample_search_def)

subsection \<open>No match is missed\<close>

text \<open>The block of index \<open>i\<close> matches the window \<open>b\<close>.\<close>

definition window_match :: "(byte list \<Rightarrow> byte list) \<Rightarrow> int \<Rightarrow> sum_head \<Rightarrow> byte list \<Rightarrow> int \<Rightarrow> bool" where
  "window_match md4 seed head b i \<longleftrightarrow>
     0 \<le> i \<and> i < int (length (Sums head)) \<and> block_matches md4 seed head (Sums head ! nat i) b"

lemma find_match_None:
  assumes "search_ok md4 targets tagTable head W" "src_ok data W s" "0 \<le> offset"
    and "l = min (BlockLength head) (int (length data) - offset)" "0 < l"
    and "sm = checksum1 (slice offset l data)"
    and "csum2 = None \<or> csum2 = Some (checksum2 md4 seed (slice offset l data))" "0 \<le> j"
    and "find_match md4 seed targets head (int (length data)) offset tg sm j csum2 s = (Inr None, s')"
    and "j \<le> k" "k < ChecksumCount head" "\<forall>m. j \<le> m \<and> m \<le> k \<longrightarrow> t_tag (targets ! nat m) = tg"
  shows "\<not> window_match md4 seed head (slice offset l data) (t_index (targets ! nat k))"
  using assms(2,7-)
proof (induction "nat (ChecksumCount head - j)" arbitrary: j csum2 s rule: less_induct)
  case less
  note f = search_ok_facts [OF assms(1)]
  let ?find = "find_match md4 seed targets head (int (length data)) offset tg sm"
  let ?i = "t_index (targets ! nat j)" and ?b = "slice offset l data"
  let ?sb = "Sums head ! nat ?i" and ?n = "nat (ChecksumLength head)"
  have len: "int (length targets) = ChecksumCount head" using assms(1) by (simp add: search_ok_def)
  have j: "j < ChecksumCount head" "t_tag (targets ! nat j) = tg" using less(6-8) by auto
  then have "nat j < length targets" using len less(4) by linarith
  then have "targets ! nat j \<in> set targets" by simp
  then have i: "0 \<le> ?i" "?i < int (length (Sums head))" using assms(1) f(6) by (simp_all add: search_ok_def)
  have at: "sum_at head ?i s = (Inr ?sb, s)" by (simp add: sum_at_def i ret_def)
  have lb: "int (length ?b) = l" using assms(3-5) by simp
  have rest: "\<not> window_match md4 seed head ?b (t_index (targets ! nat k))"
    if "src_ok data W t" "c = None \<or> c = Some (checksum2 md4 seed ?b)" "?find (j + 1) c t = (Inr None, s')"
      "\<not> window_match md4 seed head ?b ?i" for c t
  proof (cases "k = j")
    case False
    then show ?thesis using that less(4,6-8) j(1) by (intro less(1) [of "j + 1" t c]) auto
  qed (use that in simp)
  have b: "(if int (length data) - offset < BlockLength head then int (length data) - offset
            else BlockLength head) = l" using assms(4) by simp
  have il: "i32 l = l" using assms(4,5) f(2,3) by (intro i32_id) (auto simp: is_i32_def)
  let ?sum2 = "checksum2 md4 seed ?b"
  let ?get = "case csum2 of Some sum2 \<Rightarrow> ret sum2
                   | None \<Rightarrow> bnd (s_ptr offset (i32 l)) (\<lambda>buf. ret (checksum2 md4 seed buf))"
  have unfold: "?find j csum2 s =
        (if sm \<noteq> Sum1 ?sb then ?find (j + 1) csum2 s
         else if l \<noteq> Len ?sb then ?find (j + 1) csum2 s
         else bnd ?get (\<lambda>sum2.
              let clen = nat (ChecksumLength head) in
              if length sum2 < clen \<or> length (Sum2 ?sb) < clen
              then throw (Panic ''slice bounds out of range'')
              else if take clen sum2 \<noteq> take clen (Sum2 ?sb) then ?find (j + 1) (Some sum2)
              else ret (Some ?i)) s)"
    using j less(4) len by (subst find_match.simps) (simp add: Let_def b bnd_Inr [of "sum_at head ?i" s ?sb s, OF at])
  show ?case
  proof (cases "sm = Sum1 ?sb \<and> l = Len ?sb")
    case False
    then have "?find (j + 1) csum2 s = (Inr None, s')" using less(5) unfolding unfold by (auto split: if_splits)
    moreover have "\<not> window_match md4 seed head ?b ?i"
      using False assms(6) lb by (auto simp: window_match_def block_matches_def)
    ultimately show ?thesis using rest [OF less(2,3)] by simp
  next
    case True
    obtain t where t: "?get s = (Inr ?sum2, t)" "src_ok data W t"
    proof (cases csum2)
      case None
      have fit: "0 \<le> l" "offset + l \<le> int (length data)" "l + 1023 \<le> W"
        using assms(4,5) f(1,2) by (auto simp: chunkSize_def)
      from None show ?thesis
        using s_ptr_ok [OF less(2) assms(3) fit] that by (auto simp: il bnd_def ret_def)
    next
      case (Some x)
      then show ?thesis using less(2,3) that [of s] by (auto simp: ret_def)
    qed
    have l16: "length ?sum2 = 16" "length (Sum2 ?sb) = 16" "?n \<le> 16"
      using f(4,5) search_ok_sum(3) [OF assms(1), of "nat ?i"] i by (simp_all add: checksum2_def)
    have "?find j csum2 s = (if take ?n ?sum2 \<noteq> take ?n (Sum2 ?sb)
         then ?find (j + 1) (Some ?sum2) t else (Inr (Some ?i), t))"
      unfolding unfold using True l16 by (simp add: bnd_def t(1) Let_def ret_def)
    then have "take ?n ?sum2 \<noteq> take ?n (Sum2 ?sb)" "?find (j + 1) (Some ?sum2) t = (Inr None, s')"
      using less(5) by (auto split: if_splits)
    then show ?thesis using rest [OF t(2), of "Some ?sum2"] by (auto simp: window_match_def block_matches_def)
  qed
qed

text \<open>The targets with one tag are a contiguous run that starts at the index of the table.\<close>

lemma build_targets_sorted: "sorted (map t_tag (build_targets head))"
  by (simp add: build_targets_def)

lemma find_first: "find P [0..<n] = Some i \<longleftrightarrow> i < n \<and> P i \<and> (\<forall>m < i. \<not> P m)"
proof (induction n)
  case (Suc n)
  have "find P (xs @ [x]) = (case find P xs of None \<Rightarrow> if P x then Some x else None | Some y \<Rightarrow> Some y)"
    for xs x by (induction xs) auto
  moreover have "find P [0..<n] = None \<longleftrightarrow> (\<forall>m < n. \<not> P m)" by (auto simp: find_None_iff)
  ultimately show ?case using Suc by (auto split: option.splits simp: less_Suc_eq)
qed simp

lemma table_run:
  assumes "k < length (build_targets head)" "t_tag (build_targets head ! k) = tg"
  shows "\<exists>j. build_tag_table (build_targets head) tg = Some (int j) \<and> j \<le> k \<and>
           (\<forall>m. j \<le> m \<and> m \<le> k \<longrightarrow> t_tag (build_targets head ! m) = tg)"
proof -
  let ?ts = "build_targets head"
  have "find (\<lambda>idx. t_tag (?ts ! idx) = tg) [0..<length ?ts] \<noteq> None"
    using assms by (auto simp: find_None_iff)
  then obtain j where j: "find (\<lambda>idx. t_tag (?ts ! idx) = tg) [0..<length ?ts] = Some j" by blast
  then have first: "j < length ?ts" "t_tag (?ts ! j) = tg" "\<forall>m < j. t_tag (?ts ! m) \<noteq> tg"
    by (simp_all add: find_first)
  have "j \<le> k" using first(3) assms(2) not_le by blast
  moreover have "t_tag (?ts ! m) = tg" if "j \<le> m" "m \<le> k" for m
  proof (rule antisym)
    show "t_tag (?ts ! m) \<le> tg"
      using sorted_nth_mono [OF build_targets_sorted, of m k head] that assms by simp
    show "tg \<le> t_tag (?ts ! m)"
      using sorted_nth_mono [OF build_targets_sorted, of j m head] that assms first(2) by simp
  qed
  ultimately show ?thesis using j by (auto simp: build_tag_table_find)
qed

lemma window_match_target:
  assumes "window_match md4 seed head b i"
  shows "\<exists>k < length (build_targets head). t_index (build_targets head ! k) = i \<and> t_tag (build_targets head ! k) = tag (checksum1 b)"
proof -
  have "\<lparr>t_index = int (nat i), t_tag = tag (Sum1 (Sums head ! nat i))\<rparr> \<in> set (build_targets head)"
    using assms unfolding set_build_targets window_match_def
    by (intro CollectI exI [of _ "nat i"]) auto
  moreover have "Sum1 (Sums head ! nat i) = checksum1 b" "0 \<le> i"
    using assms by (simp_all add: window_match_def block_matches_def)
  ultimately show ?thesis by (auto simp: in_set_conv_nth)
qed

lemma between_int: "\<forall>m. j \<le> m \<and> m \<le> k \<longrightarrow> P m \<Longrightarrow> \<forall>m. int j \<le> m \<and> m \<le> int k \<longrightarrow> P (nat m)"
  by (auto simp: nat_le_iff le_nat_iff)

text \<open>
  C17: the two-level index loses nothing: if any block has the length, the rolling checksum and
  the strong checksum of the window, the table lookup followed by the linear search returns a
  matching block, for any order in which equal tags were sorted; otherwise it returns none.
\<close>

theorem search_finds_match:
  assumes "\<forall>x. length (md4 x) = 16" "sums_wf head" "Sums head \<noteq> []" "0 < BlockLength head"
    and "src_ok data W s" "3 * BlockLength head \<le> W" "256 * 1024 \<le> W"
    and "0 \<le> offset" "l = min (BlockLength head) (int (length data) - offset)" "0 < l"
    and "sm = checksum1 (slice offset l data)"
  shows "\<exists>m s'. (case build_tag_table (build_targets head) (tag sm) of
             None \<Rightarrow> ret None
           | Some j \<Rightarrow> find_match md4 seed (build_targets head) head (int (length data)) offset (tag sm) sm j None) s
           = (Inr m, s') \<and>
         (case m of None \<Rightarrow> \<forall>i. \<not> window_match md4 seed head (slice offset l data) i
          | Some i \<Rightarrow> window_match md4 seed head (slice offset l data) i)"
proof -
  let ?ts = "build_targets head" and ?b = "slice offset l data"
  let ?tt = "build_tag_table ?ts"
  have ok: "search_ok md4 ?ts ?tt head W" by (rule search_ok_build [OF assms(1-4,6,7)])
  have cnt: "ChecksumCount head = int (length (Sums head))" by (rule search_ok_facts [OF ok])
  have missed: "\<exists>k < length ?ts. t_index (?ts ! k) = i \<and> t_tag (?ts ! k) = tag sm" if "window_match md4 seed head ?b i" for i
    using window_match_target [OF that] assms(11) by simp
  show ?thesis
  proof (cases "?tt (tag sm)")
    case None
    then have "\<not> window_match md4 seed head ?b i" for i
      using missed [of i] table_run [of _ head "tag sm"] by fastforce
    with None show ?thesis by (simp add: ret_def)
  next
    case (Some j)
    then have j0: "0 \<le> j" by (auto simp: build_tag_table_find)
    obtain s' m where r: "find_match md4 seed ?ts head (int (length data)) offset (tag sm) sm j None s = (Inr m, s')"
      and m: "case m of None \<Rightarrow> True
            | Some i \<Rightarrow> 0 \<le> i \<and> i < int (length (Sums head)) \<and> match_len head i = l \<and>
                block_matches md4 seed head (Sums head ! nat i) ?b"
      using find_match_ok [OF ok assms(5,8-11) _ j0, of None seed "tag sm"] by blast
    have "\<not> window_match md4 seed head ?b i" if "m = None" for i
    proof
      assume w: "window_match md4 seed head ?b i"
      then obtain k where k: "k < length ?ts" "t_index (?ts ! k) = i" "t_tag (?ts ! k) = tag sm"
        using missed by blast
      then obtain j' where j': "?tt (tag sm) = Some (int j')" "j' \<le> k"
          "\<forall>m. j' \<le> m \<and> m \<le> k \<longrightarrow> t_tag (?ts ! m) = tag sm"
        using table_run [OF k(1,3)] by blast
      then have "j = int j'" using Some by simp
      have "\<forall>m. int j' \<le> m \<and> m \<le> int k \<longrightarrow> t_tag (?ts ! nat m) = tag sm" using between_int [OF j'(3)] .
      then have "\<not> window_match md4 seed head ?b (t_index (?ts ! nat (int k)))"
        using j'(2) k(1) cnt r that \<open>j = int j'\<close>
        by (intro find_match_None [OF ok assms(5,8-11) _ j0, of None seed "tag sm" s' "int k"]) auto
      with k(2) w show False by simp
    qed
    with r m Some show ?thesis by (auto simp: window_match_def split: option.splits)
  qed
qed

theorem search_finds_match_witness:
  "\<exists>m s'. (case build_tag_table (build_targets sample_sums) (tag (checksum1 (slice 0 100 (map of_nat [0..<100])))) of
             None \<Rightarrow> ret None
           | Some j \<Rightarrow> find_match toy_md4 7 (build_targets sample_sums) sample_sums 100 0
                        (tag (checksum1 (slice 0 100 (map of_nat [0..<100]))))
                        (checksum1 (slice 0 100 (map of_nat [0..<100]))) j None)
           (sample_search\<lparr>s_ms := map_file sample_file 100 (2 ^ 40) 0\<rparr>) = (Inr m, s')"
proof -
  let ?data = "map of_nat [0..<100] :: byte list"
  let ?s = "sample_search\<lparr>s_ms := map_file sample_file (int (length ?data)) (2 ^ 40) 0\<rparr>"
  have b: "BlockLength sample_sums = 700"
    by (simp add: sample_sums_def sums_of_def sample_data_def sum_sizes_sqroot_def Let_def blockSize_def)
      (simp add: isqrt.simps Let_def is_i32_def)
  have "src_ok ?data (2 ^ 40) ?s"
    using ms_ok_map_file [of sample_file ?data] defWindowSize_map_file [of "2 ^ 40" sample_file 100 0]
    by (simp add: src_ok_def sample_search_def sample_file_def)
  moreover have len: "int (length ?data) = 100" by simp
  ultimately have src: "src_ok ?data (2 ^ 40) (sample_search\<lparr>s_ms := map_file sample_file 100 (2 ^ 40) 0\<rparr>)"
    by simp
  have md: "\<forall>x. length (toy_md4 x) = 16" by (simp add: toy_md4_def)
  have l: "100 = min (BlockLength sample_sums) (int (length ?data) - 0)" by (simp add: b)
  have w: "3 * BlockLength sample_sums \<le> 2 ^ 40" "256 * 1024 \<le> (2 ^ 40 :: int)" by (simp_all add: b)
  show ?thesis
    using search_finds_match [OF md sample_sums_facts src w order_refl l _ refl, of 7] unfolding len by auto
qed

end
