(* ===== verification/Delta.thy ===== *)
theory Delta
  imports Receiver Match
begin

text \<open>
  The two sides together: what \<open>hashSearch\<close> sends for a file, \<open>receiveData\<close> turns back into
  that file.
\<close>

subsection \<open>The meaning of a token stream for the receiver\<close>

definition block_of :: "sum_head \<Rightarrow> byte list \<Rightarrow> int \<Rightarrow> byte list" where
  "block_of head old i = slice (i * BlockLength head) (block_len head i) old"

fun rebuild :: "sum_head \<Rightarrow> byte list \<Rightarrow> token list \<Rightarrow> byte list" where
  "rebuild head old [] = []"
| "rebuild head old (Data bs # ts) = bs @ rebuild head old ts"
| "rebuild head old (Match i # ts) = block_of head old i @ rebuild head old ts"

fun usable :: "sum_head \<Rightarrow> byte list \<Rightarrow> token \<Rightarrow> bool" where
  "usable head old (Data bs) \<longleftrightarrow> bs \<noteq> [] \<and> int (length bs) \<le> 256 * 1024"
| "usable head old (Match i) \<longleftrightarrow> 0 \<le> i \<and> is_i32 (i + 1) \<and> 0 \<le> BlockLength head \<and> 0 \<le> block_len head i \<and>
     i * BlockLength head + block_len head i \<le> int (length old)"

text \<open>No region of the new file carries the sums of a block of the old one by accident.\<close>

definition genuine :: "(byte list \<Rightarrow> byte list) \<Rightarrow> int \<Rightarrow> byte list \<Rightarrow> byte list \<Rightarrow> bool" where
  "genuine md4 seed old data \<longleftrightarrow>
     (\<forall>k < length (Sums (sums_of md4 seed old)). \<forall>pos \<le> length data.
        let head = sums_of md4 seed old; n = Len (Sums head ! k) in
        int pos + n \<le> int (length data) \<and>
        block_matches md4 seed head (Sums head ! k) (slice (int pos) n data) \<longrightarrow>
        slice (int pos) n data = block_of head old (int k))"

lemma copy_block_usable:
  assumes "usable head old (Match i)"
  shows "copy_block head f (Some old) (- (i + 1)) = Inr (block_of head old i)"
proof -
  have "is_i32 i" using assms by (simp add: is_i32_def)
  then have i: "i32 i = i" by simp
  have "\<not> i * BlockLength head < 0" using assms by (simp add: mult_less_0_iff)
  moreover have "slice (i * BlockLength head) (block_len head i) old = []" if "block_len head i = 0"
    using that by simp
  ultimately show ?thesis
    using assms i by (auto simp: copy_block_def read_at_def block_of_def block_len_def Let_def simp del: zero_le_mult_iff mult_less_0_iff)
qed

lemma recv_loop_tokens:
  assumes "\<forall>t \<in> set ts. usable head old t" "c_in s = tokens_bytes ts @ end_token @ rest"
    and "\<forall>op n. \<not> rt_deny s op n" "lf = Some old \<or> (\<forall>t \<in> set ts. \<exists>bs. t = Data bs)"
  shows "recv_loop head f lf acc s = (Inr (acc @ rebuild head old ts), s\<lparr>c_in := rest\<rparr>)"
  using assms
proof (induction ts arbitrary: acc s)
  case Nil
  then have "recv_token s = (Inr (0, []), s\<lparr>c_in := rest\<rparr>)"
    by (simp add: recv_token_def end_token_def bnd_def read_int32_le_bytes ret_def is_i32_def)
  then show ?case by (subst recv_loop.simps) simp
next
  case (Cons t ts)
  show ?case
  proof (cases t)
    case (Data bs)
    let ?n = "int (length bs)" and ?s = "s\<lparr>c_in := tokens_bytes ts @ end_token @ rest\<rparr>"
    have n: "0 < ?n" "is_i32 ?n" using Cons.prems(1) Data by (auto simp: is_i32_def)
    have "read_int32 s = (Inr ?n, s\<lparr>c_in := bs @ tokens_bytes ts @ end_token @ rest\<rparr>)"
      using read_int32_le_bytes [of s ?n "bs @ tokens_bytes ts @ end_token @ rest"] n(2) Cons.prems(2) Data
      by simp
    moreover have "read_full (nat ?n) (s\<lparr>c_in := bs @ tokens_bytes ts @ end_token @ rest\<rparr>) = (Inr bs, ?s)"
      by (rule read_full_next) simp
    ultimately have "recv_token s = (Inr (?n, bs), ?s)"
      using n(1) by (simp add: recv_token_def bnd_def ret_def)
    moreover have "recv_loop head f lf (acc @ bs) ?s =
        (Inr ((acc @ bs) @ rebuild head old ts), ?s\<lparr>c_in := rest\<rparr>)"
      by (rule Cons.IH) (use Cons.prems in auto)
    ultimately show ?thesis
      using n(1) Cons.prems(3) Data by (subst recv_loop.simps) simp
  next
    case (Match i)
    let ?s = "s\<lparr>c_in := tokens_bytes ts @ end_token @ rest\<rparr>"
    have u: "usable head old (Match i)" using Cons.prems(1) Match by simp
    have lf: "lf = Some old" using Cons.prems(4) Match by auto
    from u have "is_i32 (- (i + 1))" by (simp add: is_i32_def)
    then have "read_int32 s = (Inr (- (i + 1)), ?s)"
      using read_int32_le_bytes [of s "- (i + 1)" "tokens_bytes ts @ end_token @ rest"] Cons.prems(2) Match
      by simp
    then have "recv_token s = (Inr (- (i + 1), []), ?s)"
      using u by (simp add: recv_token_def bnd_def ret_def)
    moreover have "recv_loop head f lf (acc @ block_of head old i) ?s =
        (Inr ((acc @ block_of head old i) @ rebuild head old ts), ?s\<lparr>c_in := rest\<rparr>)"
      by (rule Cons.IH) (use Cons.prems in auto)
    ultimately show ?thesis
      using u Cons.prems(3) Match copy_block_usable [OF u, of f] lf by (subst recv_loop.simps) simp
  qed
qed

lemma explains_usable:
  assumes "\<forall>x. length (md4 x) = 16" "small_file old"
    and "explains md4 seed (sums_of md4 seed old) data pos ts fin" "t \<in> set ts"
  shows "usable (sums_of md4 seed old) old t"
  using assms(3,4)
proof (induction ts arbitrary: pos)
  case (Cons u us)
  let ?h = "sums_of md4 seed old"
  have one: "usable ?h old u"
  proof (cases u)
    case (Data bs)
    with Cons.prems show ?thesis by simp
  next
    case (Match i)
    then have i: "0 \<le> i" "nat i < length (Sums ?h)" using Cons.prems by auto
    note b = sums_of_block [OF assms(1,2) i(2)]
    have wf: "sums_wf ?h" by (rule sums_wf_sums_of [OF assms(1,2)])
    then have "head_ok ?h" "int (length (Sums ?h)) = ChecksumCount ?h" by (simp_all add: sums_wf_def)
    with b i Match show ?thesis
      by (auto simp: head_ok_def is_i32_def block_len_def split: if_splits)
  qed
  obtain mid where "explains md4 seed ?h data mid us fin"
    using Cons.prems(1) by (cases u) (auto simp: Let_def)
  with one Cons show ?case by auto
qed simp

lemma explains_rebuild:
  assumes "\<forall>x. length (md4 x) = 16" "small_file old" "genuine md4 seed old data"
    and "explains md4 seed (sums_of md4 seed old) data pos ts (int (length data))" "0 \<le> pos" "pos \<le> int (length data)"
  shows "rebuild (sums_of md4 seed old) old ts = slice pos (int (length data) - pos) data"
  using assms(4-6)
proof (induction ts arbitrary: pos)
  case Nil
  then show ?case by simp
next
  case (Cons t ts)
  let ?h = "sums_of md4 seed old" and ?N = "int (length data)"
  have join: "slice pos n data @ slice (pos + n) (?N - (pos + n)) data = slice pos (?N - pos) data"
    if "0 \<le> n" "pos + n \<le> ?N" for n
    using slice_append [of pos n "?N - (pos + n)" data] that Cons.prems(2) by simp
  show ?case
  proof (cases t)
    case (Data bs)
    with Cons.prems have "slice pos (int (length bs)) data = bs" "pos + int (length bs) \<le> ?N"
      "explains md4 seed ?h data (pos + int (length bs)) ts ?N" by simp_all
    then show ?thesis
      using Data Cons.IH [of "pos + int (length bs)"] Cons.prems(2) join [of "int (length bs)"] by simp
  next
    case (Match i)
    define n where "n = Len (Sums ?h ! nat i)"
    have i: "0 \<le> i" "nat i < length (Sums ?h)" and fit: "pos + n \<le> ?N"
      and m: "block_matches md4 seed ?h (Sums ?h ! nat i) (slice pos n data)"
      and ex: "explains md4 seed ?h data (pos + n) ts ?N"
      using Cons.prems Match by (auto simp: n_def Let_def)
    have "n = block_len ?h (int (nat i))" unfolding n_def by (rule sums_of_block(3) [OF assms(1,2) i(2)])
    moreover have "head_ok ?h" using sums_wf_sums_of [OF assms(1,2)] by (simp add: sums_wf_def)
    ultimately have n0: "0 \<le> n" by (simp add: block_len_def head_ok_def)
    have p: "nat pos \<le> length data" "int (nat pos) = pos" using Cons.prems by simp_all
    have "slice pos n data = block_of ?h old i"
      using assms(3) i p m fit unfolding genuine_def Let_def n_def by (metis int_nat_eq)
    moreover have "rebuild ?h old ts = slice (pos + n) (?N - (pos + n)) data"
      by (rule Cons.IH [OF ex]) (use n0 Cons.prems fit in simp_all)
    ultimately show ?thesis using Match join [OF n0 fit] by simp
  qed
qed

subsection \<open>One file across the wire\<close>

lemma rebuild_Sums [simp]: "rebuild (head\<lparr>Sums := xs\<rparr>) old ts = rebuild head old ts"
  by (induction head old ts rule: rebuild.induct) (simp_all add: block_of_def block_len_def)

lemma usable_Sums [simp]: "usable (head\<lparr>Sums := xs\<rparr>) old t = usable head old t"
  by (cases t) (simp_all add: block_len_def)

text \<open>What is left once the checksums agree: the pending file takes the place of the old one.\<close>

definition committed :: "rfile \<Rightarrow> recv_opts \<Rightarrow> byte list \<Rightarrow> (unit, recv) act" where
  "committed f opts acc =
     bnd (new_pending_file opts f) (\<lambda>pending.
     bnd (close_atomically_replace pending f acc) (\<lambda>_.
     set_perms opts f (Mode f)))"

lemma receive_data_runs:
  assumes "\<forall>x. length (md4 x) = 16" "head_ok head" "\<forall>t \<in> set ts. usable head old t"
    and "c_in r = head_bytes head @ tokens_bytes ts @ end_token @ remote @ rest" "length remote = 16"
    and "\<forall>op n. \<not> rt_deny r op n" "lf = Some old \<or> (\<forall>t \<in> set ts. \<exists>bs. t = Data bs)"
  shows "receive_data md4 seed opts f lf r =
    (if md4 (le_bytes 4 seed @ rebuild head old ts) = remote
     then committed f opts (rebuild head old ts) (r\<lparr>c_in := rest\<rparr>)
     else (Inl (Errorf ''file corruption in %s'' [FStr (Name f)]), r\<lparr>c_in := rest\<rparr>))"
proof -
  let ?r1 = "r\<lparr>c_in := tokens_bytes ts @ end_token @ remote @ rest\<rparr>" and ?h = "head\<lparr>Sums := []\<rparr>"
  have 1: "read_from r = (Inr ?h, ?r1)" by (rule read_from_head [OF assms(2,4)])
  obtain pending tms where new: "new_pending_file opts f ?r1 = (Inr pending, ?r1\<lparr>rt_temps := tms\<rparr>)"
    "new_pending_file opts f (r\<lparr>c_in := rest\<rparr>) = (Inr pending, r\<lparr>c_in := rest, rt_temps := tms\<rparr>)"
    "clean_up pending (r\<lparr>c_in := rest, rt_temps := tms\<rparr>) = r\<lparr>c_in := rest\<rparr>"
  proof (cases "WritableFS opts")
    case True
    then show ?thesis
      using assms(6) that [of "Some (rt_temp r (rt_temps r))" "rt_temp r (rt_temps r) # rt_temps r"]
      by (simp add: new_pending_file_def Let_def clean_up_def remove_temp_def)
  next
    case False
    then show ?thesis
      using assms(6) that [of None "rt_temps r"] by (simp add: new_pending_file_def clean_up_def)
  qed
  let ?s1 = "?r1\<lparr>rt_temps := tms\<rparr>"
  have 2: "recv_loop ?h f lf [] ?s1 = (Inr (rebuild head old ts), ?s1\<lparr>c_in := remote @ rest\<rparr>)"
    using recv_loop_tokens [of ts ?h old ?s1 "remote @ rest" lf f "[]"] assms(3,6,7) by simp
  have 3: "read_full 16 (?s1\<lparr>c_in := remote @ rest\<rparr>) = (Inr remote, r\<lparr>c_in := rest, rt_temps := tms\<rparr>)"
    using read_full_next [OF assms(5), where c = "r\<lparr>rt_temps := tms\<rparr>" and r = rest] by simp
  have 4: "receive_checked md4 seed ?h f lf ?s1 =
      (if md4 (le_bytes 4 seed @ rebuild head old ts) = remote then (Inr (rebuild head old ts), r\<lparr>c_in := rest, rt_temps := tms\<rparr>)
       else (Inl (Errorf ''file corruption in %s'' [FStr (Name f)]), r\<lparr>c_in := rest, rt_temps := tms\<rparr>))"
    by (simp only: receive_checked_def bnd_def 2 prod.case sum.case Let_def assms(1) 3) (simp add: throw_def ret_def)
  show ?thesis
    by (simp add: receive_data_def committed_def bnd_def 1 new or_clean_up_def 4)
qed

text \<open>After a successful replacement the temporary file is gone, after a failed one it stays.\<close>

lemma committed_run:
  assumes "\<forall>op n. \<not> rt_deny r op n"
  shows "committed f opts acc r =
    (case rt_replace r (rt_fs r) (Name f) (rt_new r (KReg acc) 0x180) of
       Inl e \<Rightarrow> (Inl e, if WritableFS opts then r\<lparr>rt_temps := rt_temp r (rt_temps r) # rt_temps r\<rparr> else r)
     | Inr fs' \<Rightarrow> set_perms opts f (Mode f) (r\<lparr>rt_fs := fs'\<rparr>))"
  using assms
  by (auto simp: committed_def bnd_def new_pending_file_def close_atomically_replace_def fs_replace_def
      Let_def modify_def split: sum.split)

lemma committed_effect:
  assumes "env_ok r" "\<forall>nd. \<exists>fs'. rt_replace r (rt_fs r) (Name f) nd = Inr fs'" "\<forall>op n. \<not> rt_deny r op n"
  shows "kinds (rt_fs (snd (committed f opts acc r))) (Name f) = Some (KReg acc) \<and>
         c_in (snd (committed f opts acc r)) = c_in r"
proof -
  let ?nd = "rt_new r (KReg acc) 0x180"
  obtain fs' where fs': "rt_replace r (rt_fs r) (Name f) ?nd = Inr fs'" using assms(2) by blast
  then have upd: "fs' = (rt_fs r)(Name f \<mapsto> ?nd)"
    using assms(1) unfolding env_ok_def by (blast intro: atomic_replaceD)
  let ?r = "r\<lparr>rt_fs := fs'\<rparr>"
  have run: "committed f opts acc r = set_perms opts f (Mode f) ?r"
    by (simp add: committed_run [OF assms(3)] fs')
  obtain x t where sp: "set_perms opts f (Mode f) ?r = (x, t)" by (cases "set_perms opts f (Mode f) ?r")
  have "kinds (rt_fs t) = kinds fs'" using keeps_kindsD [OF keeps_kinds_set_perms sp] by simp
  moreover have "n_kind ?nd = KReg acc" using assms(1) by (simp add: env_ok_def)
  moreover have "c_in t = c_in r" using only_names_conn [OF only_names_set_perms sp] by simp
  moreover have "committed f opts acc r = (x, t)" using run sp by simp
  ultimately show ?thesis by (simp add: upd kinds_def)
qed

text \<open>
  C3: the delta transfer of a file.  The receiver answers with the sums of its old file, the
  sender's \<open>hashSearch\<close> sends its message \<open>msg\<close>, the receiver's \<open>receiveData\<close> reads exactly that
  message and reconstructs some contents \<open>rec\<close>.  If the seeded MD4 of \<open>rec\<close> is the one of the
  sender's file, \<open>rec\<close> replaces the old file; otherwise the file is reported corrupt and the tree
  is as before.  Unless a region of the new file carries the sums of a different old block,
  \<open>rec\<close> is the sender's file.
\<close>

theorem delta_transfer:
  assumes "\<forall>x. length (md4 x) = 16" "small_file old" "old \<noteq> []" "data \<noteq> []"
    and "f_data f = data" "f_pos f = 0" "c_budget s = None" "lastMatch s = 0" "length data < fuel"
    and "hash_search fuel md4 seed (build_targets head) (build_tag_table (build_targets head)) head
           fileIndex (Inr (f, Inr (int (length data)))) s = (res, s')"
    and "head = sums_of md4 seed old"
    and "out_bytes s' = out_bytes s @ le_bytes 4 fileIndex @ msg" "c_in r = msg @ rest"
    and "env_ok r" "\<forall>op n. \<not> rt_deny r op n"
    and "\<forall>nd. \<exists>fs'. rt_replace r (rt_fs r) (Name fl) nd = Inr fs'"
    and "receive_data md4 seed opts fl (Some old) r = (res', r')"
    and "f_fail f = (\<lambda>_. None)"
  shows "res = Inr () \<and> c_in r' = rest \<and> (\<exists>rec.
    (if md4 (le_bytes 4 seed @ rec) = md4 (le_bytes 4 seed @ data)
     then kinds (rt_fs r') (Name fl) = Some (KReg rec)
     else res' = Inl (Errorf ''file corruption in %s'' [FStr (Name fl)]) \<and> rt_fs r' = rt_fs r) \<and>
    (genuine md4 seed old data \<longrightarrow> rec = data))"
proof -
  have wf: "sums_wf head" using sums_wf_sums_of [OF assms(1,2)] assms(11) by simp
  have ne: "Sums head \<noteq> []" "0 < BlockLength head"
    using sums_of_facts [OF assms(2)] assms(3,11) by simp_all
  obtain ts where ts: "res = Inr ()" "msg = head_bytes head @ tokens_bytes ts @ end_token @ md4 (le_bytes 4 seed @ data)"
    "explains md4 seed head data 0 ts (int (length data))"
    using hash_search_run [OF assms(1) wf ne assms(4-9,18), of seed fileIndex] assms(10,12) by auto
  have use: "\<forall>t \<in> set ts. usable head old t"
    using explains_usable [OF assms(1,2)] ts(3) assms(11) by blast
  have run: "(res', r') = (if md4 (le_bytes 4 seed @ rebuild head old ts) = md4 (le_bytes 4 seed @ data)
     then committed fl opts (rebuild head old ts) (r\<lparr>c_in := rest\<rparr>)
     else (Inl (Errorf ''file corruption in %s'' [FStr (Name fl)]), r\<lparr>c_in := rest\<rparr>))"
    using receive_data_runs [OF assms(1) _ use, where r = r and lf = "Some old" and remote = "md4 (le_bytes 4 seed @ data)" and f = fl and seed = seed]
      assms(1,13,15,17) wf ts(2) by (simp add: sums_wf_def)
  have com: "kinds (rt_fs (snd (committed fl opts acc (r\<lparr>c_in := rest\<rparr>)))) (Name fl) = Some (KReg acc) \<and>
         c_in (snd (committed fl opts acc (r\<lparr>c_in := rest\<rparr>))) = rest" for acc
    using committed_effect [of "r\<lparr>c_in := rest\<rparr>" fl opts acc] assms(14-16) by (simp add: env_ok_def)
  have gen: "genuine md4 seed old data \<longrightarrow> rebuild head old ts = data"
    using explains_rebuild [OF assms(1,2), of seed data 0 ts] ts(3) assms(11) by (auto simp: slice_all)
  have fin: "c_in r' = rest \<and> (if md4 (le_bytes 4 seed @ rebuild head old ts) = md4 (le_bytes 4 seed @ data)
     then kinds (rt_fs r') (Name fl) = Some (KReg (rebuild head old ts))
     else res' = Inl (Errorf ''file corruption in %s'' [FStr (Name fl)]) \<and> rt_fs r' = rt_fs r)"
    using run com [of "rebuild head old ts"] by (cases "committed fl opts (rebuild head old ts) (r\<lparr>c_in := rest\<rparr>)") (simp split: if_splits)
  show ?thesis using ts(1) gen fin by blast
qed

theorem delta_transfer_witness:
  "\<exists>msg. fst (hash_search 101 toy_md4 7 (build_targets sample_sums) (build_tag_table (build_targets sample_sums))
             sample_sums 3 (Inr (sample_file, Inr 100)) sample_search) = Inr () \<and>
         c_in (snd (receive_data toy_md4 7 sample_opts sample_rfile (Some sample_data) (sample_recv\<lparr>c_in := msg\<rparr>))) = []"
proof -
  let ?data = "map of_nat [0..<100] :: byte list" and ?s = sample_search
  let ?run = "hash_search 101 toy_md4 7 (build_targets sample_sums) (build_tag_table (build_targets sample_sums))
             sample_sums 3 (Inr (sample_file, Inr (int (length ?data)))) ?s"
  have md: "\<forall>x. length (toy_md4 x) = 16" by (simp add: toy_md4_def)
  have f: "f_data sample_file = ?data" "f_pos sample_file = 0" "?data \<noteq> []" "c_budget ?s = None"
    "lastMatch ?s = 0" "length ?data < 101" "f_fail sample_file = (\<lambda>_. None)"
    by (simp_all add: sample_file_def sample_search_def)
  obtain s' ts where run: "?run = (Inr (), s')" and out: "out_bytes s' = out_bytes ?s @ le_bytes 4 3 @
      (head_bytes sample_sums @ tokens_bytes ts @ end_token @ toy_md4 (le_bytes 4 7 @ ?data))" (is "_ = _ @ _ @ ?msg")
    using hash_search_run [OF md sample_sums_facts f(3,1,2,4-7), of 7 3] by auto
  have ok: "c_in (sample_recv\<lparr>c_in := ?msg\<rparr>) = ?msg @ []" "small_file sample_data" "sample_data \<noteq> []"
    "\<forall>op n. \<not> rt_deny (sample_recv\<lparr>c_in := ?msg\<rparr>) op n"
    "\<forall>nd. \<exists>fs'. rt_replace (sample_recv\<lparr>c_in := ?msg\<rparr>) (rt_fs (sample_recv\<lparr>c_in := ?msg\<rparr>)) (Name sample_rfile) nd = Inr fs'"
    by (simp_all add: sample_recv_def small_file_def sample_data_def)
  obtain res' r' where rcv: "receive_data toy_md4 7 sample_opts sample_rfile (Some sample_data)
      (sample_recv\<lparr>c_in := ?msg\<rparr>) = (res', r')" by (metis surj_pair)
  have "c_in r' = []"
    using delta_transfer [OF md ok(2,3) f(3,1,2,4-6) run sample_sums_def out ok(1) env_ok_sample ok(4,5) rcv f(7)] by blast
  then show ?thesis using run rcv by (auto intro!: exI [of _ ?msg])
qed

end
