(* ===== verification/Sender.thy ===== *)
theory Sender
  imports Match Varint
begin

text \<open>
  \<open>internal/sender/sender.go\<close> and \<open>do.go\<close>: answering the receiver's requests, file by file.
\<close>

subsection \<open>Files and sources\<close>

text \<open>
  An \<open>fs.FileInfo\<close>, with owner, group and device of its \<open>*syscall.Stat_t\<close> where \<open>Sys\<close> gives
  one, and a directory entry with the result of its \<open>Info\<close>.
\<close>

record file_info =
  fi_mode :: int
  fi_size :: int
  fi_mtime :: time
  fi_sys :: "(int \<times> int \<times> int) option"

record dir_entry =
  de_dir :: bool
  de_info :: "go_error + file_info"

text \<open>
  A \<open>FileSource\<close>: what opening a path gives, and what a handle reads that is opened only to be
  read to its end (by the checksum goroutine of \<open>sendFile\<close>, for the checksums of the file list);
  what \<open>fs.WalkDir\<close> and \<open>Readlink\<close> find.
\<close>

record file_source =
  src_open :: "string \<Rightarrow> opened"
  src_reopen :: "string \<Rightarrow> go_error + byte list"
  src_stat :: "string \<Rightarrow> go_error + dir_entry"
  src_readdir :: "string \<Rightarrow> go_error + (string \<times> dir_entry) list"
  src_readlink :: "string \<Rightarrow> go_error + string"

record sfile =
  sf_source :: file_source
  sf_path :: string
  Wpath :: string
  sf_regular :: bool
  sf_Length :: int

subsection \<open>Sending a whole file\<close>

text \<open>The size of the buffers of \<open>internal/parallel/pool.go\<close>.\<close>

definition DefaultBufferSize :: nat where "DefaultBufferSize = 128 * 1024"

lemma buffer_size: "0 < DefaultBufferSize" "DefaultBufferSize \<le> 256 * 1024"
  by (simp_all add: DefaultBufferSize_def)

lemma file_read_next:
  "file_read n f = (Inr bs, f') \<Longrightarrow> 0 < n \<Longrightarrow>
     nat (int (length (f_data f')) - f_pos f') < nat (int (length (f_data f)) - f_pos f)"
  by (auto simp: file_read_def Let_def split: if_splits)

function send_loop :: "go_file \<Rightarrow> (unit, search) act" where
  "send_loop f =
     (case file_read DefaultBufferSize f of
        (Inl EOF, _) \<Rightarrow> ret ()
      | (Inl e, _) \<Rightarrow> throw e
      | (Inr chunk, f') \<Rightarrow>
          bnd (write_int32 (i32 (int (length chunk)))) (\<lambda>_.
          bnd (conn_write chunk) (\<lambda>_.
          send_loop f')))"
  by pat_completeness auto
termination
  by (relation "measure (\<lambda>f. nat (int (length (f_data f)) - f_pos f))")
    (auto dest!: file_read_next [OF sym buffer_size(1)])

declare send_loop.simps [simp del]

definition send_file :: "(byte list \<Rightarrow> byte list) \<Rightarrow> int \<Rightarrow> int \<Rightarrow> sfile \<Rightarrow> (unit, search) act" where
  "send_file md4 seed fileIndex fl =
     (case src_open (sf_source fl) (sf_path fl) of
        Inl e \<Rightarrow> throw e
      | Inr (f, Inl e) \<Rightarrow> throw e
      | Inr (f, Inr fsize) \<Rightarrow>
          bnd (write_int32 fileIndex) (\<lambda>_.
          bnd (write_to (sum_sizes_sqroot fsize)) (\<lambda>_.
          bnd (send_loop f) (\<lambda>_.
          bnd (write_int32 0) (\<lambda>_.
          case src_reopen (sf_source fl) (sf_path fl) of
            Inl e \<Rightarrow> throw e
          | Inr bs \<Rightarrow> conn_write (md4 (le_bytes 4 seed @ bs)))))))"

subsection \<open>\<open>SendFiles\<close>\<close>

text \<open>Steps enough for the search in an opened file (\<open>hash_search_correct\<close>).\<close>

definition search_fuel :: "opened \<Rightarrow> nat" where
  "search_fuel opn = (case opn of Inr (f, Inr fsize) \<Rightarrow> Suc (nat fsize) | _ \<Rightarrow> 0)"

definition answer_request ::
  "(byte list \<Rightarrow> byte list) \<Rightarrow> int \<Rightarrow> int \<Rightarrow> sfile \<Rightarrow> sum_head \<Rightarrow> (unit, search) act" where
  "answer_request md4 seed fileIndex fl head =
     (let targets = build_targets head; tagTable = build_tag_table targets;
          opn = src_open (sf_source fl) (sf_path fl)
      in bnd (modify (\<lambda>s. s\<lparr>lastMatch := 0\<rparr>)) (\<lambda>_.
         if Sums head = [] then send_file md4 seed fileIndex fl
         else hash_search (search_fuel opn) md4 seed targets tagTable head fileIndex opn))"

text \<open>\<open>err.(*os.PathError)\<close>.\<close>

definition is_path_error :: "go_error \<Rightarrow> bool" where
  "is_path_error e \<longleftrightarrow> (case e of PathError _ \<Rightarrow> True | NotExist _ \<Rightarrow> True | _ \<Rightarrow> False)"

text \<open>One turn of the loop, giving the phase to go on with.\<close>

definition send_files_step ::
  "(byte list \<Rightarrow> byte list) \<Rightarrow> int \<Rightarrow> bool \<Rightarrow> sfile list \<Rightarrow> int \<Rightarrow> (int option, search) act" where
  "send_files_step md4 seed dryRun files phase =
     bnd read_int32 (\<lambda>fileIndex.
     if fileIndex = -1 then
       (if phase = 0 then bnd (write_int32 (-1)) (\<lambda>_. ret (Some (phase + 1))) else ret None)
     else if dryRun then bnd (write_int32 fileIndex) (\<lambda>_. ret (Some phase))
     else if fileIndex < 0 \<or> int (length files) \<le> fileIndex then throw (Panic ''index out of range'')
     else
       bnd receive_sums (\<lambda>head.
       bnd (attempt (answer_request md4 seed fileIndex (files ! nat fileIndex) head)) (\<lambda>r.
       case r of
         Inl e \<Rightarrow> if is_path_error e then ret (Some phase) else throw e
       | Inr _ \<Rightarrow> ret (Some phase))))"

lemma reads_receive_sums: "reads receive_sums"
proof -
  have "reads (receive_loop head n i off acc)" for head n i off acc
    by (induction n arbitrary: i off acc) (auto simp: Let_def intro!: reads_intro)
  then show ?thesis unfolding receive_sums_def by (intro reads_intro)
qed

lemma ptr_length: "ptr offset l ms = (Inr bs, ms') \<Longrightarrow> length bs \<le> nat l"
  by (auto simp: ptr_def window_slice_def bnd_eq_Inr Let_def split: if_splits)

lemma s_ptr_length: "s_ptr offset l s = (Inr bs, s') \<Longrightarrow> length bs \<le> nat l"
  by (auto simp: s_ptr_def split: prod.splits dest: ptr_length)

subsection \<open>What sending does to the connection\<close>

text \<open>
  A relation of the states before and after that every single step of sending files keeps: reading,
  writing a chunk or a checksum, and changing the variables of the search.
\<close>

locale sending = frame R for R :: "search \<Rightarrow> search \<Rightarrow> bool" +
  fixes small :: "byte list \<Rightarrow> bool" and md4 :: "byte list \<Rightarrow> byte list"
  assumes on_read: "length i \<le> length (c_in s) \<Longrightarrow> R s (s\<lparr>c_in := i\<rparr>)"
    and on_write: "small p \<Longrightarrow> R s (s\<lparr>c_out := c_out s @ [p], c_budget := b\<rparr>)"
    and on_search: "R s (s\<lparr>lastMatch := l\<rparr>)" "R s (s\<lparr>s_ms := ms\<rparr>)" "R s (s\<lparr>s_hash := h\<rparr>)"
    and small_chunk: "length p \<le> DefaultBufferSize \<Longrightarrow> small p"
    and small_md4: "small (md4 bs)"
begin

lemma keep_reads: "reads m \<Longrightarrow> keeps R m"
proof (rule keepsI)
  fix s assume "reads m"
  obtain r s' where m: "m s = (r, s')" by (cases "m s")
  from reads_frame [OF \<open>reads m\<close> m] reads_length [OF \<open>reads m\<close> m] show "R s (snd (m s))"
    using on_read [of "c_in s'" s] m by simp
qed

lemma keep_conn_write: "small p \<Longrightarrow> keeps R (conn_write p)"
  by (rule keepsI) (auto simp: conn_write_def frame_refl on_write)

lemma keep_write: "keeps R (write_int32 x)" "keeps R (write_to sh)"
proof -
  have "small p" if "length p \<le> 16" for p using that by (intro small_chunk) (simp add: DefaultBufferSize_def)
  then show "keeps R (write_int32 x)" "keeps R (write_to sh)"
    by (auto simp: write_int32_def write_to_def write_string_def head_bytes_simp intro!: keep_conn_write)
qed

lemma keep_modify:
  "keeps R (modify (\<lambda>s. s\<lparr>lastMatch := f s\<rparr>))" "keeps R (modify (\<lambda>s. s\<lparr>s_ms := g s\<rparr>))"
  "keeps R (modify (\<lambda>s. s\<lparr>s_hash := h s\<rparr>))"
  by (simp_all add: keepsI modify_def on_search)

lemma keep_s_ptr: "keeps R (s_ptr offset l)"
  by (rule keepsI) (simp add: s_ptr_def on_search split: prod.split)

lemma keep_sum_at: "keeps R (sum_at head i)"
  unfolding sum_at_def by (intro keep_intro)

lemma keep_chunk:
  assumes "\<And>bs. length bs \<le> nat l \<Longrightarrow> keeps R (f bs)"
  shows "keeps R (bnd (s_ptr offset l) f)"
  by (rule keep_bnd_value [OF keep_s_ptr]) (rule assms, rule s_ptr_length)

lemmas send_intro = keep_intro keep_s_ptr keep_write keep_modify keep_sum_at

lemma keep_send_chunks: "keeps R (send_chunks offset l n)"
proof (induction offset l n rule: send_chunks.induct)
  case (1 offset l n)
  have "length bs \<le> nat (i32 (min chunkSize (n - l))) \<Longrightarrow> small bs" if "l < n" for bs
  proof (rule small_chunk)
    assume bs: "length bs \<le> nat (i32 (min chunkSize (n - l)))"
    have "is_i32 (min chunkSize (n - l))" using that by (auto simp: is_i32_def chunkSize_def)
    with bs show "length bs \<le> DefaultBufferSize" by (simp add: DefaultBufferSize_def chunkSize_def)
  qed
  with 1 show ?case
    by (subst send_chunks.simps) (auto simp: Let_def intro!: keep_chunk send_intro keep_conn_write)
qed

lemma keep_hash_chunks: "keeps R (hash_chunks start j n)"
proof (induction start j n rule: hash_chunks.induct)
  case (1 start j n)
  then show ?case by (subst hash_chunks.simps) (auto simp: Let_def intro!: send_intro)
qed

lemma keep_matched: "keeps R (matched head offset i)"
  unfolding matched_def send_token_def simple_send_token_def Let_def
  by (intro send_intro keep_send_chunks keep_hash_chunks)

lemma keep_read_chunk: "keeps R (read_chunk head fsize offset)"
  unfolding read_chunk_def Let_def by (intro send_intro)

lemma keep_find_match: "keeps R (find_match md4' seed ts head fsize offset tg sm j c)"
proof (induction md4' seed ts head fsize offset tg sm j c rule: find_match.induct)
  case (1 md4' seed ts head fsize offset tg sm j c)
  then show ?case
    by (subst find_match.simps) (auto simp: Let_def intro!: send_intro split: option.split)
qed

lemma keep_roll_on: "keeps R (roll_on head fsize end_pos offset r)"
  unfolding roll_on_def update_roll_def Let_def by (intro send_intro keep_matched)

lemma keep_search_step: "keeps R (search_step md4' seed ts tt head fsize end_pos offset r)"
  unfolding search_step_def Let_def
  by (auto intro!: send_intro keep_find_match keep_roll_on keep_matched keep_read_chunk split: option.split)

lemma keep_search_loop: "keeps R (search_loop fuel md4' seed ts tt head fsize end_pos offset r)"
proof (induction fuel arbitrary: offset r)
  case (Suc fuel)
  then show ?case
    unfolding search_loop.simps by (auto intro!: send_intro keep_search_step split: option.split)
qed (simp add: keep_throw)

lemma keep_hash_search: "keeps R (hash_search fuel md4 seed ts tt head idx opn)"
  unfolding hash_search_def Let_def
  by (auto intro!: send_intro keep_search_loop keep_matched keep_read_chunk keep_conn_write small_md4
      split: sum.split prod.split)

lemma keep_send_loop: "keeps R (send_loop f)"
proof (induction f rule: send_loop.induct)
  case (1 f)
  obtain r f' where r: "file_read DefaultBufferSize f = (r, f')" by (cases "file_read DefaultBufferSize f")
  have "small bs" if "r = Inr bs" for bs
    using r that by (auto intro!: small_chunk dest!: file_read_pos [OF _ buffer_size(1)])
  with 1 r show ?case
    by (subst send_loop.simps) (auto intro!: send_intro keep_conn_write split: sum.split go_error.split)
qed

lemma keep_send_file: "keeps R (send_file md4 seed idx fl)"
  unfolding send_file_def
  by (auto intro!: send_intro keep_send_loop keep_conn_write small_md4 split: sum.split prod.split)

lemma keep_answer_request: "keeps R (answer_request md4 seed idx fl head)"
  unfolding answer_request_def Let_def by (intro send_intro keep_send_file keep_hash_search)

text \<open>A turn of the loop reads the index; what follows keeps the relation.\<close>

lemma after_index:
  assumes "send_files_step md4 seed dryRun files phase s = (r, t)"
  shows "\<exists>i s1. read_int32 s = (i, s1) \<and> R s1 t"
  using assms unfolding send_files_step_def
  by (rule after_bnd [rotated])
    (auto intro!: send_intro keep_answer_request keep_reads [OF reads_receive_sums] split: sum.split)

lemma keep_send_files_step: "keeps R (send_files_step md4 seed dryRun files phase)"
proof (rule keepsI)
  fix s
  obtain r t where r: "send_files_step md4 seed dryRun files phase s = (r, t)"
    by (cases "send_files_step md4 seed dryRun files phase s")
  from after_index [OF this] obtain i s1 where "read_int32 s = (i, s1)" "R s1 t" by blast
  moreover have "R s s1" using keepsD [OF keep_reads [OF reads_read_int32]] calculation(1) .
  ultimately show "R s (snd (send_files_step md4 seed dryRun files phase s))" using r by (auto intro: frame_trans)
qed

end

interpretation shrinking: sending shrink_rel "\<lambda>_. True" md4 for md4
  by unfold_locales (simp_all add: shrink_rel_def)

lemma send_files_step_shorter:
  assumes "send_files_step md4 seed dryRun files phase s = (Inr r, s')"
  shows "length (c_in s') < length (c_in s)"
proof -
  obtain i s1 where i: "read_int32 s = (i, s1)" and s1: "length (c_in s') \<le> length (c_in s1)"
    using shrinking.after_index [OF assms] by (auto simp: shrink_rel_def)
  moreover obtain idx where "i = Inr idx"
    using assms i by (cases i) (simp_all add: send_files_step_def bnd_def)
  ultimately show ?thesis using read_int32_shorter [of s idx s1] by simp
qed

function send_files_loop ::
  "(byte list \<Rightarrow> byte list) \<Rightarrow> int \<Rightarrow> bool \<Rightarrow> sfile list \<Rightarrow> int \<Rightarrow> (unit, search) act" where
  "send_files_loop md4 seed dryRun files phase s =
     (case send_files_step md4 seed dryRun files phase s of
        (Inl e, s') \<Rightarrow> (Inl e, s')
      | (Inr None, s') \<Rightarrow> (Inr (), s')
      | (Inr (Some p), s') \<Rightarrow> send_files_loop md4 seed dryRun files p s')"
  by pat_completeness auto
termination
  by (relation "measure (\<lambda>(md4, seed, dryRun, files, phase, s). length (c_in s))")
    (auto dest!: send_files_step_shorter [OF sym])

declare send_files_loop.simps [simp del]

definition send_files ::
  "(byte list \<Rightarrow> byte list) \<Rightarrow> int \<Rightarrow> bool \<Rightarrow> sfile list \<Rightarrow> (unit, search) act" where
  "send_files md4 seed dryRun files =
     bnd (send_files_loop md4 seed dryRun files 0) (\<lambda>_. write_int32 (-1))"

subsection \<open>The size of what is sent\<close>

text \<open>Every piece that is written is a chunk that fits the buffer, or an MD4.\<close>

definition pieces :: "(byte list \<Rightarrow> byte list) \<Rightarrow> search \<Rightarrow> search \<Rightarrow> bool" where
  "pieces md4 s t \<longleftrightarrow> (\<exists>ws. c_out t = c_out s @ ws \<and> (\<forall>p \<in> set ws. length p \<le> DefaultBufferSize \<or> p \<in> range md4))"

interpretation pieces: sending "pieces md4" "\<lambda>p. length p \<le> DefaultBufferSize \<or> p \<in> range md4" md4 for md4
proof
  fix s t u assume "pieces md4 s t" "pieces md4 t u"
  then obtain vs ws where "c_out t = c_out s @ vs" "c_out u = c_out t @ ws"
    "\<forall>p \<in> set vs. length p \<le> DefaultBufferSize \<or> p \<in> range md4" "\<forall>p \<in> set ws. length p \<le> DefaultBufferSize \<or> p \<in> range md4"
    unfolding pieces_def by blast
  then show "pieces md4 s u" unfolding pieces_def by (intro exI [of _ "vs @ ws"]) auto
qed (simp_all add: pieces_def)

lemma pieces_send_files: "keeps (pieces md4) (send_files md4 seed dryRun files)"
proof -
  have "pieces md4 s (snd (send_files_loop md4 seed dryRun files phase s))" for phase s
  proof (induction md4 seed dryRun files phase s rule: send_files_loop.induct)
    case (1 md4 seed dryRun files phase s)
    obtain r t where r: "send_files_step md4 seed dryRun files phase s = (r, t)"
      by (cases "send_files_step md4 seed dryRun files phase s")
    then have t: "pieces md4 s t" by (rule keepsD [OF pieces.keep_send_files_step])
    then show ?case
      using 1 r pieces.frame_trans by (subst send_files_loop.simps) (auto split: sum.split option.split)
  qed
  then show ?thesis
    unfolding send_files_def by (intro pieces.keep_bnd pieces.keep_write) (simp add: keeps_def)
qed

text \<open>
  C13: whatever the receiver requests and whatever reading gives, \<open>SendFiles\<close> writes no piece longer
  than the largest message that the demultiplexer of a client accepts, so that as a server, where
  every write becomes a frame, its frames are all readable.
\<close>

theorem writes_bounded:
  assumes "send_files md4 seed dryRun files s = (r, t)" "\<forall>bs. length (md4 bs) \<le> 16"
  shows "\<exists>ws. c_out t = c_out s @ ws \<and> (\<forall>p \<in> set ws. length p \<le> maxMessageSize)"
proof -
  obtain ws where "c_out t = c_out s @ ws" "\<forall>p \<in> set ws. length p \<le> DefaultBufferSize \<or> p \<in> range md4"
    using keepsD [OF pieces_send_files assms(1)] by (auto simp: pieces_def)
  moreover have "length p \<le> maxMessageSize" if "length p \<le> DefaultBufferSize \<or> p \<in> range md4" for p
    using that assms(2) [rule_format] by (fastforce simp: DefaultBufferSize_def maxMessageSize_def intro: order_trans)
  ultimately show ?thesis by blast
qed

subsection \<open>\<open>Do\<close>\<close>

text \<open>
  The counters are those of the readers and writers that wrap the connection; what they show at
  this point depends on the buffering below and is an argument.
\<close>

definition handle_stats :: "bool \<Rightarrow> bool \<Rightarrow> int \<Rightarrow> int \<Rightarrow> int \<Rightarrow> (unit, search) act" where
  "handle_stats server sender bytesRead bytesWritten totalSize =
     (if \<not> server \<or> \<not> sender then ret ()
      else bnd (write_int64 bytesRead) (\<lambda>_.
           bnd (write_int64 bytesWritten) (\<lambda>_.
           write_int64 totalSize)))"

definition sort_files :: "sfile list \<Rightarrow> sfile list" where
  "sort_files files = sort_key Wpath files"

text \<open>The part of \<open>Do\<close> that follows \<open>SendFileList\<close>.\<close>

definition send_do ::
  "(byte list \<Rightarrow> byte list) \<Rightarrow> int \<Rightarrow> bool \<Rightarrow> bool \<Rightarrow> bool \<Rightarrow> (search \<Rightarrow> int \<times> int) \<Rightarrow> int \<Rightarrow> sfile list \<Rightarrow>
   (unit, search) act" where
  "send_do md4 seed dryRun server sender counters totalSize files =
     bnd (send_files md4 seed dryRun (sort_files files)) (\<lambda>_.
     bnd (get counters) (\<lambda>(r, w).
     bnd (handle_stats server sender r w totalSize) (\<lambda>_.
     bnd read_int32 (\<lambda>finish.
     if finish \<noteq> -1 then throw (Errorf ''protocol error: expected final -1, got %d'' [FInt finish])
     else ret ()))))"

end
