(* ===== verification/Sync.thy ===== *)
theory Sync
  imports Generator Delta Sender
begin

text \<open>
  One file all the way round: the generator's request, the sender's answer, the receiver's
  commit.
\<close>

subsection \<open>The request\<close>

text \<open>The file the receiver has, if any, and the sums the request carries.\<close>

definition old_file :: "recv \<Rightarrow> string \<Rightarrow> byte list option" where
  "old_file r name = (case rt_fs r name of
     Some nd \<Rightarrow> (case n_kind nd of KReg bs \<Rightarrow> Some bs | _ \<Rightarrow> None) | None \<Rightarrow> None)"

definition basis :: "recv_opts \<Rightarrow> recv \<Rightarrow> string \<Rightarrow> byte list" where
  "basis opts r name = (case old_file r name of Some bs \<Rightarrow> if WholeFile opts then [] else bs | None \<Rightarrow> [])"

definition request_head ::
  "(byte list \<Rightarrow> byte list) \<Rightarrow> int \<Rightarrow> recv_opts \<Rightarrow> recv \<Rightarrow> string \<Rightarrow> sum_head" where
  "request_head md4 seed opts r name =
     (if old_file r name = None \<or> WholeFile opts then zero_head else sums_of md4 seed (basis opts r name))"

text \<open>A receiver that really transfers into a directory it may write.\<close>

definition live :: "recv_opts \<Rightarrow> recv \<Rightarrow> bool" where
  "live opts r \<longleftrightarrow> \<not> DryRun opts \<and> HasRoot opts \<and> \<not> WritableFS opts \<and> DestName opts \<noteq> '''' \<and>
     (\<forall>op n. \<not> rt_deny r op n)"

definition wants :: "(byte list \<Rightarrow> byte list) \<Rightarrow> recv_opts \<Rightarrow> recv \<Rightarrow> rfile \<Rightarrow> bool" where
  "wants md4 opts r f \<longleftrightarrow> type_of (Mode f) = S_IFREG \<and> \<not> escapes (Name f) \<and>
     (case rt_fs r (Name f) of
        None \<Rightarrow> True
      | Some nd \<Rightarrow> (\<exists>bs. n_kind nd = KReg bs) \<and> fst (skip_file md4 opts f nd r) = Inr False)"

lemma regular_mode:
  assumes "type_of (Mode f) = S_IFREG"
  shows "is_regular (file_mode f)"
proof -
  have t: "file_mode f = Mode f AND ModePerm"
    using assms by (simp add: file_mode_def mode_bits Let_def)
  have "ModePerm AND ModeType = 0"
    by (simp add: ModeType_def ModePerm_def go_mode_bits)
  then show ?thesis by (simp add: is_regular_def t and.assoc)
qed

lemma skip_file_state: "skip_file md4 opts f nd r = (x, r') \<Longrightarrow> live opts r \<Longrightarrow> r' = r"
  by (auto simp: skip_file_def live_def fs_open_def fs_check_def fs_get_def bnd_def ret_def throw_def
      split: if_splits option.splits prod.splits sum.splits node_kind.splits)

lemma receive_zero_head:
  "c_in c = head_bytes zero_head @ z \<Longrightarrow> receive_sums c = (Inr zero_head, c\<lparr>c_in := z\<rparr>)"
proof -
  assume c: "c_in c = head_bytes zero_head @ z"
  have "head_ok zero_head" by (simp add: zero_head_def head_ok_simps)
  from read_from_head [OF this c] show ?thesis
    by (simp add: receive_sums_def run zero_head_def)
qed

text \<open>What goes over the wire to request a file.\<close>

definition request_bytes ::
  "(byte list \<Rightarrow> byte list) \<Rightarrow> int \<Rightarrow> recv_opts \<Rightarrow> recv \<Rightarrow> string \<Rightarrow> byte list" where
  "request_bytes md4 seed opts r name =
     (if old_file r name = None \<or> WholeFile opts then head_bytes zero_head
      else let old = basis opts r name in
           head_bytes (sum_sizes_sqroot (int (length old))) @ concat (map (sum_bytes md4 seed) (file_blocks old)))"

lemma receive_request:
  assumes "\<forall>x. length (md4 x) = 16" "small_file (basis opts r name)" "is_i32 idx"
    and "c_in c = le_bytes 4 idx @ request_bytes md4 seed opts r name @ z"
  shows "\<exists>c'. read_int32 c = (Inr idx, c') \<and>
     receive_sums c' = (Inr (request_head md4 seed opts r name), c\<lparr>c_in := z\<rparr>)"
proof -
  let ?c = "c\<lparr>c_in := request_bytes md4 seed opts r name @ z\<rparr>"
  have "read_int32 c = (Inr idx, ?c)"
    using read_int32_le_bytes [of c idx] assms(3,4) by simp
  moreover have "receive_sums ?c = (Inr (request_head md4 seed opts r name), ?c\<lparr>c_in := z\<rparr>)"
  proof (cases "old_file r name = None \<or> WholeFile opts")
    case True
    then show ?thesis by (intro receive_zero_head [THEN trans]) (auto simp: request_bytes_def request_head_def)
  next
    case False
    have "receive_sums ?c = (Inr (sums_of md4 seed (basis opts r name)), ?c\<lparr>c_in := z\<rparr>)"
      by (rule receive_sums_of [OF assms(1,2)]) (use False in \<open>auto simp: request_bytes_def Let_def\<close>)
    with False show ?thesis by (auto simp: request_head_def)
  qed
  ultimately show ?thesis by auto
qed

lemma request_full_out:
  assumes "\<not> DryRun opts" "c_budget r = None" "is_i32 idx"
  shows "\<exists>v. request_full_file opts idx r = (Inr (), r\<lparr>c_out := v\<rparr>) \<and>
           concat v = out_bytes r @ le_bytes 4 idx @ head_bytes zero_head"
  using assms by (intro exI [of _ "c_out r @ [le_bytes 4 idx, head_bytes zero_head]"])
    (simp add: request_full_file_def run out_bytes_def)

text \<open>A file the receiver wants is requested, and nothing else happens.\<close>

lemma request_out:
  assumes live: "live opts r" and want: "wants md4 opts r f"
    and idx: "is_i32 idx" and small: "small_file (basis opts r (Name f))" and conn: "c_budget r = None"
  shows "\<exists>v. recv_generator md4 seed opts idx f r = (Inr (), r\<lparr>c_out := v\<rparr>) \<and>
    concat v = out_bytes r @ le_bytes 4 idx @ request_bytes md4 seed opts r (Name f)"
proof -
  have t: "type_of (Mode f) = S_IFREG" "\<not> escapes (Name f)" using want by (simp_all add: wants_def)
  have check: "fs_check opts opn (Name f) r = (Inr (), r)" for opn
    using live t(2) by (simp add: fs_check_def live_def)
  have stat: "attempt (stat_dest opts (Name f)) r =
      (Inr (case rt_fs r (Name f) of None \<Rightarrow> Inl (NotExist (Name f)) | Some nd \<Rightarrow> Inr (Some nd)), r)"
    using live check
    by (simp add: attempt_def stat_dest_def fs_lstat_def live_def run fs_get_def split: option.split)
  have gen: "recv_generator md4 seed opts idx f r = gen_regular md4 seed opts idx f
      (case rt_fs r (Name f) of None \<Rightarrow> Inl (NotExist (Name f)) | Some nd \<Rightarrow> Inr (Some nd)) r"
    using live t(1) regular_mode [OF t(1)]
    by (simp add: recv_generator_def live_def run stat Let_def mode_bits)
  have full: "\<exists>v. request_full_file opts idx r = (Inr (), r\<lparr>c_out := v\<rparr>) \<and>
           concat v = out_bytes r @ le_bytes 4 idx @ head_bytes zero_head"
    by (rule request_full_out) (use live conn idx in \<open>simp_all add: live_def\<close>)
  show ?thesis
  proof (cases "rt_fs r (Name f)")
    case None
    with gen full show ?thesis by (simp add: gen_regular_def request_bytes_def old_file_def)
  next
    case (Some nd)
    with want obtain bs where bs: "n_kind nd = KReg bs" "fst (skip_file md4 opts f nd r) = Inr False"
      by (auto simp: wants_def)
    have skip: "skip_file md4 opts f nd r = (Inr False, r)"
      using bs(2) skip_file_state [OF _ live] by (metis prod.collapse)
    have g: "recv_generator md4 seed opts idx f r = (if WholeFile opts then request_full_file opts idx
      else bnd (attempt (fs_open opts (Name f))) (\<lambda>x. case x of
         Inl _ \<Rightarrow> request_full_file opts idx
       | Inr nd' \<Rightarrow> bnd (write_int32 (i32 idx)) (\<lambda>_. case n_kind nd' of
             KReg bs \<Rightarrow> generate_and_send_sums md4 seed bs (node_size nd)
           | _ \<Rightarrow> throw (PathError ''read'')))) r"
      using live by (simp add: gen Some gen_regular_def bs(1) gen_existing_def skip bnd_def [of "skip_file md4 opts f nd"] live_def)
    have old: "old_file r (Name f) = Some bs" by (simp add: old_file_def Some bs(1))
    show ?thesis
    proof (cases "WholeFile opts")
      case True
      with g full show ?thesis by (simp add: request_bytes_def)
    next
      case False
      have opn: "fs_open opts (Name f) r = (Inr nd, r)"
        by (simp add: fs_open_def check run fs_get_def Some bs(1))
      let ?r = "r\<lparr>c_out := c_out r @ [le_bytes 4 idx]\<rparr>"
      have "small_file bs" using small False old by (simp add: basis_def)
      from generate_out [OF this, of ?r] conn obtain v where
        "generate_and_send_sums md4 seed bs (int (length bs)) ?r = (Inr (), ?r\<lparr>c_out := v\<rparr>)"
        "concat v = out_bytes ?r @ head_bytes (sum_sizes_sqroot (int (length bs))) @
                      concat (map (sum_bytes md4 seed) (file_blocks bs))" by auto
      then show ?thesis
        using False idx conn old
        by (intro exI [of _ v])
          (simp add: g attempt_def opn run bs(1) node_size_def request_bytes_def basis_def out_bytes_def)
    qed
  qed
qed

subsection \<open>The answer\<close>

lemma file_read_some:
  assumes "f_fail f = (\<lambda>_. None)" "0 \<le> f_pos f" "nat (f_pos f) < length (f_data f)" "0 < n"
  obtains bs where "file_read n f = (Inr bs, f\<lparr>f_pos := f_pos f + int (length bs)\<rparr>)"
    "0 < length bs" "length bs \<le> n"
    "bs @ drop (nat (f_pos f + int (length bs))) (f_data f) = drop (nat (f_pos f)) (f_data f)"
proof -
  define k where "k = min n (max 1 (f_short f (f_pos f)))"
  let ?bs = "take k (drop (nat (f_pos f)) (f_data f))"
  have rd: "file_read n f = (Inr ?bs, f\<lparr>f_pos := f_pos f + int (length ?bs)\<rparr>)"
    using assms by (simp add: file_read_def Let_def k_def)
  have k: "0 < k" "k \<le> n" using assms(4) by (simp_all add: k_def)
  then have len: "0 < length ?bs" "length ?bs \<le> n" using assms(3) by auto
  have cut: "take k xs @ drop (length (take k xs)) xs = xs" for xs :: "byte list"
    by (cases "k \<le> length xs") simp_all
  have "?bs @ drop (length ?bs) (drop (nat (f_pos f)) (f_data f)) = drop (nat (f_pos f)) (f_data f)" by (rule cut)
  then have "?bs @ drop (nat (f_pos f + int (length ?bs))) (f_data f) = drop (nat (f_pos f)) (f_data f)"
    using assms(2) by (simp add: nat_add_distrib add.commute del: length_take length_drop)
  with rd len show thesis by (rule that)
qed

lemma send_loop_out:
  assumes "f_fail f = (\<lambda>_. None)" "0 \<le> f_pos f" "c_budget s = None"
  shows "\<exists>v ts. send_loop f s = (Inr (), s\<lparr>c_out := v\<rparr>) \<and> concat v = out_bytes s @ tokens_bytes ts \<and>
    (\<forall>t \<in> set ts. (\<exists>bs. t = Data bs) \<and> usable head old t) \<and>
    rebuild head old ts = drop (nat (f_pos f)) (f_data f)"
  using assms
proof (induction f arbitrary: s rule: send_loop.induct)
  case (1 f)
  show ?case
  proof (cases "length (f_data f) \<le> nat (f_pos f)")
    case True
    then have "file_read DefaultBufferSize f = (Inl EOF, f)" using 1(2) by (simp add: file_read_def buffer_size)
    then have "send_loop f s = (Inr (), s\<lparr>c_out := c_out s\<rparr>)" by (subst send_loop.simps) (simp add: run)
    then show ?thesis
      using True by (intro exI [of _ "c_out s"] exI [of _ "[]"]) (simp add: out_bytes_def)
  next
    case False
    then have p: "nat (f_pos f) < length (f_data f)" by simp
    obtain bs where rd: "file_read DefaultBufferSize f = (Inr bs, f\<lparr>f_pos := f_pos f + int (length bs)\<rparr>)"
      and len0: "0 < length bs" "length bs \<le> DefaultBufferSize"
      and bs: "bs @ drop (nat (f_pos f + int (length bs))) (f_data f) = drop (nat (f_pos f)) (f_data f)"
      using file_read_some [OF 1(2,3) p, of DefaultBufferSize] buffer_size(1) by auto
    note len = len0(1) order_trans [OF len0(2) buffer_size(2)]
    let ?f = "f\<lparr>f_pos := f_pos f + int (length bs)\<rparr>" and ?n = "int (length bs)"
    let ?s = "s\<lparr>c_out := c_out s @ [le_bytes 4 ?n, bs]\<rparr>"
    have n: "is_i32 ?n" using len(2) by (simp add: is_i32_def)
    obtain v ts where v: "send_loop ?f ?s = (Inr (), ?s\<lparr>c_out := v\<rparr>)" "concat v = out_bytes ?s @ tokens_bytes ts"
      "\<forall>t \<in> set ts. (\<exists>bs. t = Data bs) \<and> usable head old t"
      "rebuild head old ts = drop (nat (f_pos ?f)) (f_data ?f)"
      using 1(1) [OF rd [symmetric] refl, of ?s] 1(2-4) by auto
    have "send_loop f s = send_loop ?f ?s"
      using n 1(4) by (subst send_loop.simps) (simp add: rd [simplified] run)
    then show ?thesis
      using v len bs by (intro exI [of _ v] exI [of _ "Data bs # ts"]) (simp add: out_bytes_def)
  qed
qed

lemma send_file_out:
  assumes "src_open (sf_source fl) (sf_path fl) = Inr (f, Inr (int (length data)))"
    and "f_data f = data" "f_pos f = 0" "f_fail f = (\<lambda>_. None)"
    and "src_reopen (sf_source fl) (sf_path fl) = Inr data" "c_budget s = None"
  shows "\<exists>v ts. send_file md4 seed idx fl s = (Inr (), s\<lparr>c_out := v\<rparr>) \<and>
    concat v = out_bytes s @ le_bytes 4 idx @ head_bytes (sum_sizes_sqroot (int (length data))) @
      tokens_bytes ts @ end_token @ md4 (le_bytes 4 seed @ data) \<and>
    (\<forall>t \<in> set ts. (\<exists>bs. t = Data bs) \<and> usable head old t) \<and> rebuild head old ts = data"
proof -
  let ?s = "s\<lparr>c_out := c_out s @ [le_bytes 4 idx, head_bytes (sum_sizes_sqroot (int (length data)))]\<rparr>"
  obtain v ts where v: "send_loop f ?s = (Inr (), ?s\<lparr>c_out := v\<rparr>)" "concat v = out_bytes ?s @ tokens_bytes ts"
    "\<forall>t \<in> set ts. (\<exists>bs. t = Data bs) \<and> usable head old t" "rebuild head old ts = data"
    using send_loop_out [of f ?s head old] assms by auto
  let ?v = "v @ [end_token, md4 (le_bytes 4 seed @ data)]"
  have "send_file md4 seed idx fl s = (Inr (), s\<lparr>c_out := ?v\<rparr>)"
    using assms v(1) by (simp add: send_file_def run end_token_def)
  moreover have "concat ?v = out_bytes s @ le_bytes 4 idx @ head_bytes (sum_sizes_sqroot (int (length data))) @
      tokens_bytes ts @ end_token @ md4 (le_bytes 4 seed @ data)"
    using v(2) by (simp add: out_bytes_def)
  ultimately show ?thesis using v(3,4) by blast
qed

text \<open>What the sender holds, and that it does not change while it is sent.\<close>

definition serves :: "sfile \<Rightarrow> byte list \<Rightarrow> bool" where
  "serves fl data \<longleftrightarrow> src_reopen (sf_source fl) (sf_path fl) = Inr data \<and> small_file data \<and>
     (\<exists>f. src_open (sf_source fl) (sf_path fl) = Inr (f, Inr (int (length data))) \<and>
        f_data f = data \<and> f_pos f = 0 \<and> f_fail f = (\<lambda>_. None))"

lemma answer_out:
  assumes md: "\<forall>x. length (md4 x) = 16" and srv: "serves fl data" and old: "small_file old"
    and conn: "c_budget s = None" and ne: "old \<noteq> [] \<longrightarrow> data \<noteq> []"
    and head: "head = zero_head \<and> old = [] \<or> head = sums_of md4 seed old"
    and gen: "genuine md4 seed old data"
  shows "\<exists>s' h ts. answer_request md4 seed idx fl head s = (Inr (), s') \<and> c_in s' = c_in s \<and>
    out_bytes s' = out_bytes s @ le_bytes 4 idx @ head_bytes h @ tokens_bytes ts @ end_token @
      md4 (le_bytes 4 seed @ data) \<and>
    head_ok h \<and> (\<forall>t \<in> set ts. usable h old t) \<and> rebuild h old ts = data \<and>
    (old = [] \<longrightarrow> (\<forall>t \<in> set ts. \<exists>bs. t = Data bs))"
proof -
  obtain f where f: "src_open (sf_source fl) (sf_path fl) = Inr (f, Inr (int (length data)))"
    "f_data f = data" "f_pos f = 0" "f_fail f = (\<lambda>_. None)" and re: "src_reopen (sf_source fl) (sf_path fl) = Inr data"
    and small: "small_file data" using srv by (auto simp: serves_def)
  let ?s = "s\<lparr>lastMatch := 0\<rparr>"
  show ?thesis
  proof (cases "old = []")
    case True
    let ?h = "sum_sizes_sqroot (int (length data))"
    have "Sums head = []" using head True sums_of_facts(2) [OF old] by (auto simp: zero_head_def)
    moreover obtain v ts where v: "send_file md4 seed idx fl ?s = (Inr (), ?s\<lparr>c_out := v\<rparr>)"
      "concat v = out_bytes ?s @ le_bytes 4 idx @ head_bytes ?h @ tokens_bytes ts @ end_token @ md4 (le_bytes 4 seed @ data)"
      "\<forall>t \<in> set ts. (\<exists>bs. t = Data bs) \<and> usable ?h old t" "rebuild ?h old ts = data"
      using send_file_out [OF f re, of ?s md4 seed idx ?h old] conn by auto
    moreover have "head_ok ?h" using small by (intro head_ok_sqroot) (simp_all add: small_file_def)
    ultimately show ?thesis
      by (intro exI [of _ "?s\<lparr>c_out := v\<rparr>"] exI [of _ ?h] exI [of _ ts])
        (simp add: answer_request_def Let_def run out_bytes_def)
  next
    case False
    then have head: "head = sums_of md4 seed old" using head by blast
    have wf: "sums_wf head" unfolding head by (rule sums_wf_sums_of [OF md old])
    have ne': "Sums head \<noteq> []" "0 < BlockLength head" using sums_of_facts [OF old] False head by simp_all
    have "data \<noteq> []" using False ne by blast
    obtain s' ts where r: "hash_search (Suc (length data)) md4 seed (build_targets head) (build_tag_table (build_targets head))
        head idx (Inr (f, Inr (int (length data)))) ?s = (Inr (), s')"
      "out_bytes s' = out_bytes ?s @ le_bytes 4 idx @ head_bytes head @ tokens_bytes ts @ end_token @
         md4 (le_bytes 4 seed @ data)"
      "explains md4 seed head data 0 ts (int (length data))" "c_in s' = c_in ?s"
      using hash_search_run [OF md wf ne' \<open>data \<noteq> []\<close> f(2,3), of ?s "Suc (length data)" seed idx] conn f(4) by auto
    have "answer_request md4 seed idx fl head s = (Inr (), s')"
      using r(1) ne' f(1) by (simp add: answer_request_def Let_def run search_fuel_def)
    moreover have "\<forall>t \<in> set ts. usable head old t"
      using explains_usable [OF md old] r(3) unfolding head by blast
    moreover have "rebuild head old ts = data"
      using explains_rebuild [OF md old, of seed data 0 ts] r(3) gen unfolding head by (auto simp: slice_all)
    ultimately show ?thesis
      using r(2,4) wf False by (intro exI [of _ s'] exI [of _ head] exI [of _ ts]) (simp add: sums_wf_def out_bytes_def)
  qed
qed

subsection \<open>The commit\<close>

text \<open>The receiver opens its old file and goes on with the entry, whose mode may differ.\<close>

lemma open_local_runs:
  assumes "live opts r" "\<not> escapes (Name f)"
    and "case rt_fs r (Name f) of None \<Rightarrow> True | Some nd \<Rightarrow> \<exists>bs. n_kind nd = KReg bs"
  shows "\<exists>m. (case open_local_file opts f r of
      (Inl e, s') \<Rightarrow> (if fatal e then (Inl e, s') else k f None s')
    | (Inr (lf, f'), s') \<Rightarrow> k f' lf s') = k (f\<lparr>Mode := m\<rparr>) (old_file r (Name f)) r"
proof (cases "rt_fs r (Name f)")
  case None
  then have "open_local_file opts f r = (Inl (NotExist (Name f)), r)"
    using assms(1,2) by (simp add: open_local_file_def fs_open_def fs_check_def fs_get_def live_def run)
  with None show ?thesis by (intro exI [of _ "Mode f"]) (simp add: old_file_def)
next
  case (Some nd)
  then obtain bs where bs: "n_kind nd = KReg bs" using assms(3) by auto
  let ?f = "if PreservePerms opts then f else f\<lparr>Mode := n_perm nd\<rparr>"
  have "open_local_file opts f r = (Inr (Some bs, ?f), r)"
    using assms(1,2) Some bs by (simp add: open_local_file_def fs_open_def fs_check_def fs_get_def live_def run)
  moreover have "?f = f\<lparr>Mode := if PreservePerms opts then Mode f else n_perm nd\<rparr>" by simp
  ultimately show ?thesis
    using Some bs by (intro exI [of _ "if PreservePerms opts then Mode f else n_perm nd"]) (simp add: old_file_def)
qed

lemma recv_commit:
  assumes md: "\<forall>x. length (md4 x) = 16" and live: "live opts r"
    and name: "\<not> escapes (Name f)" "case rt_fs r (Name f) of None \<Rightarrow> True | Some nd \<Rightarrow> \<exists>bs. n_kind nd = KReg bs"
    and out: "Progress opts \<longrightarrow> HasStdout opts" and idx: "idx < length fl" "fl ! idx = f" "int idx < 2 ^ 31"
    and h: "head_ok h" "\<forall>t \<in> set ts. usable h old t" "rebuild h old ts = data"
      "old_file r (Name f) = Some old \<or> (\<forall>t \<in> set ts. \<exists>bs. t = Data bs)"
    and env: "env_ok r" "\<forall>nd. \<exists>fs'. rt_replace r (rt_fs r) (Name f) nd = Inr fs'"
    and c: "c_in r = le_bytes 4 (int idx) @ head_bytes h @ tokens_bytes ts @ end_token @ md4 (le_bytes 4 seed @ data) @ w"
    and run: "recv_files_step md4 seed opts fl phase r = (res, r2)"
  shows "c_in r2 = w \<and> kinds (rt_fs r2) (Name f) = Some (KReg data)"
proof -
  let ?c = "head_bytes h @ tokens_bytes ts @ end_token @ md4 (le_bytes 4 seed @ data) @ w"
  let ?r1 = "r\<lparr>c_in := ?c\<rparr>"
  have "is_i32 (int idx)" using idx(3) by (simp add: is_i32_def)
  then have rd: "read_int32 r = (Inr (int idx), ?r1)" using read_int32_le_bytes [OF c] by simp
  obtain q where pr: "when_do (Progress opts) (print_out opts (NameLine (Name f))) ?r1 = (Inr (), q)"
    and q: "live opts q" "rt_fs q = rt_fs r" "c_in q = ?c" "rt_new q = rt_new r" "rt_replace q = rt_replace r"
    using out live by (cases "Progress opts") (auto simp: when_do_def print_out_def ret_def live_def)
  have step: "recv_files_step md4 seed opts fl phase r = bnd (recv_file1 md4 seed opts f) (\<lambda>_. ret (Some phase)) q"
    using idx(1,2) by (simp add: recv_files_step_def bnd_def rd pr Let_def)
  have reg: "case rt_fs q (Name f) of None \<Rightarrow> True | Some nd \<Rightarrow> \<exists>bs. n_kind nd = KReg bs"
    unfolding q(2) by (rule name(2))
  have old: "old_file q (Name f) = old_file r (Name f)" by (simp add: old_file_def q(2))
  obtain m where one: "recv_file1 md4 seed opts f q =
      receive_data md4 seed opts (f\<lparr>Mode := m\<rparr>) (old_file r (Name f)) q"
    using open_local_runs [OF q(1) name(1) reg, of "\<lambda>f lf. receive_data md4 seed opts f lf"] live
    unfolding old by (auto simp: recv_file1_def live_def)
  have d: "receive_data md4 seed opts (f\<lparr>Mode := m\<rparr>) (old_file r (Name f)) q =
      committed (f\<lparr>Mode := m\<rparr>) opts data (q\<lparr>c_in := w\<rparr>)"
    using receive_data_runs [OF md h(1,2) q(3), of "old_file r (Name f)" seed opts "f\<lparr>Mode := m\<rparr>"]
      h(3,4) q(1) md by (simp add: live_def)
  have e: "env_ok (q\<lparr>c_in := w\<rparr>)"
    "\<forall>nd. \<exists>fs'. rt_replace (q\<lparr>c_in := w\<rparr>) (rt_fs (q\<lparr>c_in := w\<rparr>)) (Name (f\<lparr>Mode := m\<rparr>)) nd = Inr fs'"
    using env by (simp_all add: env_ok_def q(2,4,5))
  have "r2 = snd (committed (f\<lparr>Mode := m\<rparr>) opts data (q\<lparr>c_in := w\<rparr>))"
    using run unfolding step bnd_def one d by (auto simp: ret_def split: prod.splits sum.splits)
  with committed_effect [OF e, of opts data] q(1) show ?thesis by (simp add: live_def)
qed

subsection \<open>One round\<close>

lemma round_trip_request:
  assumes md: "\<forall>x. length (md4 x) = 16" and live: "live opts r" "wants md4 opts r f" and idx: "is_i32 idx"
    and small: "small_file (basis opts r (Name f))" and c: "c_budget r = None" "c_out r = []"
    and gen: "recv_generator md4 seed opts idx f r = (x, r1)" and s: "c_in s = out_bytes r1 @ z"
  shows "x = Inr () \<and> (\<exists>v. r1 = r\<lparr>c_out := v\<rparr>) \<and> (\<exists>s2. read_int32 s = (Inr idx, s2) \<and>
     receive_sums s2 = (Inr (request_head md4 seed opts r (Name f)), s\<lparr>c_in := z\<rparr>))"
proof -
  obtain v where v: "recv_generator md4 seed opts idx f r = (Inr (), r\<lparr>c_out := v\<rparr>)"
    "concat v = le_bytes 4 idx @ request_bytes md4 seed opts r (Name f)"
    using request_out [OF live idx small c(1), of seed] c(2) by (auto simp: out_bytes_def)
  then have r1: "x = Inr ()" "r1 = r\<lparr>c_out := v\<rparr>" using gen by auto
  have "c_in s = le_bytes 4 idx @ request_bytes md4 seed opts r (Name f) @ z"
    using s v(2) r1(2) by (simp add: out_bytes_def)
  from receive_request [OF md small idx this] r1 show ?thesis by blast
qed

text \<open>
  C1: one file all the way round.  The generator requests a regular file that is missing or not
  up to date, with the sums of what is there; the sender answers the request and the receiver
  reads the answer.  Both streams are consumed exactly, and the destination then holds the
  sender's file, whether it was new, was changed, or is sent whole; the only proviso is that no
  region of the new file carries both sums of a different old block, and that an existing
  non-empty file has not become empty.
\<close>

theorem sync_file:
  assumes "\<forall>x. length (md4 x) = 16" "live opts r" "wants md4 opts r f" "Progress opts \<longrightarrow> HasStdout opts"
    and "k < length fl" "fl ! k = f" "k < length files" "int k < 2 ^ 31"
    and "serves (files ! k) data" "old = basis opts r (Name f)" "small_file old"
    and "old \<noteq> [] \<longrightarrow> data \<noteq> []" "genuine md4 seed old data"
    and "env_ok r" "\<forall>nd. \<exists>fs'. rt_replace r (rt_fs r) (Name f) nd = Inr fs'"
    and "c_budget r = None" "c_out r = []" "c_budget s = None" "c_out s = []"
    and "recv_generator md4 seed opts (int k) f r = (x, r1)"
    and "c_in s = out_bytes r1 @ z" "send_files_step md4 seed False files phase s = (y, s1)"
    and "recv_files_step md4 seed opts fl phase' (r1\<lparr>c_in := out_bytes s1 @ w\<rparr>) = (res, r2)"
  shows "x = Inr () \<and> y = Inr (Some phase) \<and> c_in s1 = z \<and> c_in r2 = w \<and>
         kinds (rt_fs r2) (Name f) = Some (KReg data)"
proof -
  let ?head = "request_head md4 seed opts r (Name f)"
  have i: "is_i32 (int k)" "int k \<noteq> -1" using assms(8) by (simp_all add: is_i32_def)
  obtain v s2 where r1: "x = Inr ()" "r1 = r\<lparr>c_out := v\<rparr>" and s2: "read_int32 s = (Inr (int k), s2)"
    "receive_sums s2 = (Inr ?head, s\<lparr>c_in := z\<rparr>)"
    using round_trip_request [OF assms(1-3) i(1) assms(11) [unfolded assms(10)] assms(16,17,20,21)] by blast
  have head: "?head = zero_head \<and> old = [] \<or> ?head = sums_of md4 seed old"
    using assms(10) by (auto simp: request_head_def basis_def split: option.split)
  obtain s3 h ts where ans: "answer_request md4 seed (int k) (files ! k) ?head (s\<lparr>c_in := z\<rparr>) = (Inr (), s3)"
    "c_in s3 = z" "out_bytes s3 = le_bytes 4 (int k) @ head_bytes h @ tokens_bytes ts @ end_token @ md4 (le_bytes 4 seed @ data)"
    "head_ok h" "\<forall>t \<in> set ts. usable h old t" "rebuild h old ts = data" "old = [] \<longrightarrow> (\<forall>t \<in> set ts. \<exists>bs. t = Data bs)"
    using answer_out [OF assms(1,9,11) _ assms(12) head assms(13), of "s\<lparr>c_in := z\<rparr>" "int k"] assms(18,19)
    by (auto simp: out_bytes_def)
  have "send_files_step md4 seed False files phase s = (Inr (Some phase), s3)"
    using assms(7) by (simp add: send_files_step_def run s2 ans(1) attempt_def)
  then have s1: "y = Inr (Some phase)" "s1 = s3" using assms(22) by auto
  have lf: "old_file r (Name f) = Some old \<or> (\<forall>t \<in> set ts. \<exists>bs. t = Data bs)"
    using ans(7) assms(10) by (auto simp: basis_def split: option.splits if_splits)
  let ?r = "r1\<lparr>c_in := out_bytes s1 @ w\<rparr>"
  have "live opts ?r" "old_file ?r (Name f) = old_file r (Name f)"
    using assms(2) r1(2) by (simp_all add: live_def old_file_def)
  moreover have "\<not> escapes (Name f)" "case rt_fs ?r (Name f) of None \<Rightarrow> True | Some nd \<Rightarrow> \<exists>bs. n_kind nd = KReg bs"
    using assms(3) by (auto simp: r1(2) wants_def split: option.splits)
  ultimately have "c_in r2 = w \<and> kinds (rt_fs r2) (Name f) = Some (KReg data)"
    using recv_commit [OF assms(1) _ _ _ assms(4-6,8) ans(4,5,6) _ _ _ _ assms(23)] lf assms(14,15)
    by (simp add: r1(2) s1(2) ans(3) env_ok_def)
  with r1 s1 ans(2) show ?thesis by simp
qed

definition sample_new :: rfile where
  "sample_new = sample_rfile\<lparr>Name := ''n''\<rparr>"

definition sample_source :: file_source where
  "sample_source = \<lparr>src_open = (\<lambda>_. Inr (sample_file, Inr 100)), src_reopen = (\<lambda>_. Inr (f_data sample_file)),
     src_stat = (\<lambda>n. Inl (NotExist n)), src_readdir = (\<lambda>n. Inl (NotExist n)), src_readlink = (\<lambda>n. Inl (NotExist n))\<rparr>"

definition sample_sfile :: sfile where
  "sample_sfile = \<lparr>sf_source = sample_source,
     sf_path = ''n'', Wpath = ''n'', sf_regular = True, sf_Length = 100\<rparr>"

theorem writes_bounded_witness:
  "let s = sample_search\<lparr>c_in := le_bytes 4 0 @ head_bytes (sum_sizes_sqroot 0) @ le_bytes 4 (-1) @ le_bytes 4 (-1)\<rparr>
   in \<exists>r t ws. send_files (\<lambda>_. replicate 16 7) 7 False [sample_sfile] s = (r, t) \<and> c_out t = c_out s @ ws \<and>
        (\<forall>p \<in> set ws. length p \<le> maxMessageSize)"
  using writes_bounded [of "\<lambda>_. replicate 16 7"] unfolding Let_def by (metis length_replicate order_refl surj_pair)

theorem sync_file_witness:
  "\<exists>r1 s1 res r2. recv_generator toy_md4 7 sample_opts 0 sample_new sample_recv = (Inr (), r1) \<and>
     send_files_step toy_md4 7 False [sample_sfile] 0 (sample_search\<lparr>c_in := out_bytes r1\<rparr>) = (Inr (Some 0), s1) \<and>
     recv_files_step toy_md4 7 sample_opts [sample_new] 0 (r1\<lparr>c_in := out_bytes s1\<rparr>) = (res, r2) \<and>
     kinds (rt_fs r2) ''n'' = Some (KReg (map of_nat [0..<100]))"
proof -
  obtain x r1 where gen: "recv_generator toy_md4 7 sample_opts 0 sample_new sample_recv = (x, r1)" by (metis surj_pair)
  obtain y s1 where snd: "send_files_step toy_md4 7 False [sample_sfile] 0 (sample_search\<lparr>c_in := out_bytes r1\<rparr>) = (y, s1)"
    by (metis surj_pair)
  obtain res r2 where rcv: "recv_files_step toy_md4 7 sample_opts [sample_new] 0 (r1\<lparr>c_in := out_bytes s1\<rparr>) = (res, r2)"
    by (metis surj_pair)
  have none: "rt_fs sample_recv ''n'' = None" "Name sample_new = ''n''"
    by (simp_all add: sample_recv_def sample_new_def)
  have live: "live sample_opts sample_recv" by (simp add: live_def sample_opts_def sample_recv_def)
  have want: "wants toy_md4 sample_opts sample_recv sample_new"
    using none by (simp add: wants_def, simp add: sample_new_def sample_rfile_def type_of_def mode_bits escapes_def has_prefix_def)
  have base: "[] = basis sample_opts sample_recv (Name sample_new)" by (simp add: basis_def old_file_def none)
  have srv: "serves ([sample_sfile] ! 0) (map of_nat [0..<100])"
    by (simp add: serves_def sample_sfile_def sample_source_def sample_file_def small_file_def)
  have gen0: "genuine toy_md4 7 [] (map of_nat [0..<100])"
    using sums_of_facts(2) [of "[]"] by (simp add: genuine_def small_file_def)
  have env: "env_ok sample_recv" using env_ok_sample [of "[]"] by (simp add: sample_recv_def)
  have "x = Inr () \<and> y = Inr (Some 0) \<and> c_in s1 = [] \<and> c_in r2 = [] \<and>
      kinds (rt_fs r2) (Name sample_new) = Some (KReg (map of_nat [0..<100]))"
    by (rule sync_file [OF _ live want _ _ _ _ _ srv base _ _ gen0 env, where fl = "[sample_new]" and
          s = "sample_search\<lparr>c_in := out_bytes r1\<rparr>" and z = "[]" and w = "[]" and phase = 0 and phase' = 0 and res = res])
      (use gen snd rcv in \<open>simp_all add: toy_md4_def small_file_def sample_opts_def sample_recv_def sample_search_def\<close>)
  then show ?thesis using gen snd rcv none(2) by auto
qed

end
