(* ===== verification/Sync_Errors.thy ===== *)
theory Sync_Errors
  imports Sync
begin

text \<open>
  Where the two sides do not do what they mean to: a dry run that changes the destination, a
  failed read that leaves half a message in the stream, a failed replacement that leaves a
  temporary file.
\<close>

subsection \<open>Dry runs\<close>

text \<open>
  C37: a dry run is not without effect.  Where the destination has a symbolic link, an entry of a
  regular file removes it, and an entry of a symbolic link with another target replaces it.
\<close>

theorem dry_run_modifies:
  assumes "DryRun opts" "HasRoot opts" "\<not> WritableFS opts" "DestName opts \<noteq> ''''"
    and "\<not> escapes (Name f)" "\<forall>op n. \<not> rt_deny r op n"
    and "rt_fs r (Name f) = Some nd" "n_kind nd = KLink target"
  shows "(type_of (Mode f) = S_IFREG \<longrightarrow>
            rt_fs (snd (recv_generator md4 seed opts idx f r)) (Name f) = None) \<and>
         (type_of (Mode f) = S_IFLNK \<and> PreserveLinks opts \<and> target \<noteq> LinkTarget f \<and>
            rt_replace r (rt_fs r) (Name f) (rt_new r (KLink (LinkTarget f)) ModePerm) = Inr fs' \<longrightarrow>
            rt_fs (snd (recv_generator md4 seed opts idx f r)) = fs')"
proof -
  have check: "fs_check opts opn (Name f) r = (Inr (), r)" for opn
    using assms(2,5,6) by (simp add: fs_check_def)
  have stat: "attempt (stat_dest opts (Name f)) r = (Inr (Inr (Some nd)), r)"
    using assms(2,3) check by (simp add: attempt_def stat_dest_def fs_lstat_def run fs_get_def assms(7))
  have regular: "rt_fs (snd (recv_generator md4 seed opts idx f r)) (Name f) = None" if "type_of (Mode f) = S_IFREG"
  proof -
    let ?r = "r\<lparr>rt_fs := (rt_fs r)(Name f := None)\<rparr>"
    have rm: "fs_remove opts (Name f) r = (Inr (), ?r)"
      by (simp add: fs_remove_def run check fs_get_def assms(7,8) fs_unlink_def fs_set_def)
    have "recv_generator md4 seed opts idx f r = request_full_file opts idx ?r"
      using assms(4,8) regular_mode [OF that]
      by (simp add: recv_generator_def run stat Let_def that mode_bits gen_regular_def rm)
    moreover have "rt_fs (snd (request_full_file opts idx ?r)) = rt_fs ?r"
      using assms(1) by (simp add: request_full_file_def bnd_def ret_def write_int32_def conn_write_def)
    ultimately show ?thesis by simp
  qed
  have link: "rt_fs (snd (recv_generator md4 seed opts idx f r)) = fs'"
    if "type_of (Mode f) = S_IFLNK" "PreserveLinks opts" "target \<noteq> LinkTarget f"
      "rt_replace r (rt_fs r) (Name f) (rt_new r (KLink (LinkTarget f)) ModePerm) = Inr fs'"
  proof -
    have rl: "attempt (fs_readlink opts (Name f)) r = (Inr (Inr target), r)"
      by (simp add: attempt_def fs_readlink_def run check fs_get_def assms(7,8))
    have "recv_generator md4 seed opts idx f r = (Inr (), r\<lparr>rt_fs := fs'\<rparr>)"
      using assms(1,2,4) that
      by (simp add: recv_generator_def run stat Let_def mode_bits gen_symlink_def rl symlink_def
          fs_replace_def set_perms_def)
    then show ?thesis by simp
  qed
  show ?thesis using regular link by blast
qed

definition sample_link :: recv where
  "sample_link = sample_recv\<lparr>rt_fs := [''a'' \<mapsto> sample_node (KLink ''x'') 0x1FF]\<rparr>"

theorem dry_run_modifies_witness:
  "rt_fs (snd (recv_generator toy_md4 7 (sample_opts\<lparr>DryRun := True\<rparr>) 0 sample_rfile sample_link)) ''a'' = None"
proof -
  have "type_of (Mode sample_rfile) = S_IFREG" "Name sample_rfile = ''a''"
    by (simp_all add: sample_rfile_def type_of_def mode_bits)
  moreover have "rt_fs sample_link ''a'' = Some (sample_node (KLink ''x'') 0x1FF)" by (simp add: sample_link_def)
  moreover have "n_kind (sample_node (KLink ''x'') 0x1FF) = KLink ''x''" by (simp add: sample_node_def)
  ultimately show ?thesis
    using dry_run_modifies [of "sample_opts\<lparr>DryRun := True\<rparr>" sample_rfile sample_link "sample_node (KLink ''x'') 0x1FF" "''x''"]
    by (simp add: sample_opts_def sample_link_def sample_recv_def escapes_def has_prefix_def)
qed

subsection \<open>A failed read\<close>

text \<open>
  C21: when reading a file fails after it was opened (a directory, an I/O error), \<open>SendFiles\<close> takes
  the error for one of opening it and goes on with the next request, although the index and the
  head of the answer are already written.  The receiver waits for tokens: it takes the index
  of the next answer as the length of literal data, and what follows as contents of the file.
\<close>

theorem read_error_desyncs:
  assumes "src_open (sf_source (files ! k)) (sf_path (files ! k)) = Inr (f, Inr n)"
    and "f_fail f (f_pos f) = Some (PathError e)" "k < length files" "int k < 2 ^ 31"
    and "c_budget s = None" "c_out s = []" "c_in s = le_bytes 4 (int k) @ head_bytes zero_head @ z"
    and "0 < j" "is_i32 j" "length d = nat j" "\<forall>op nm. \<not> rt_deny r op nm"
    and "c_in r = le_bytes 4 j @ d @ rst"
  shows "(\<exists>s'. send_files_step md4 seed False files phase s = (Inr (Some phase), s') \<and> c_in s' = z \<and>
            out_bytes s' = le_bytes 4 (int k) @ head_bytes (sum_sizes_sqroot n)) \<and>
         recv_loop h rf lf acc r = recv_loop h rf lf (acc @ d) (r\<lparr>c_in := rst\<rparr>)"
proof
  let ?s1 = "s\<lparr>c_in := head_bytes zero_head @ z\<rparr>" and ?s2 = "s\<lparr>c_in := z\<rparr>"
  let ?s3 = "?s2\<lparr>lastMatch := 0, c_out := [le_bytes 4 (int k), head_bytes (sum_sizes_sqroot n)]\<rparr>"
  have "is_i32 (int k)" using assms(4) by (simp add: is_i32_def)
  then have rd: "read_int32 s = (Inr (int k), ?s1)" using read_int32_le_bytes [OF assms(7)] by simp
  have sums: "receive_sums ?s1 = (Inr zero_head, ?s2)"
    using receive_zero_head [of ?s1 z] by simp
  have "file_read DefaultBufferSize f = (Inl (PathError e), f)" using assms(2) by (simp add: file_read_def buffer_size)
  then have "send_loop f s' = (Inl (PathError e), s')" for s' by (subst send_loop.simps) (simp add: run)
  then have ans: "answer_request md4 seed (int k) (files ! k) zero_head ?s2 = (Inl (PathError e), ?s3)"
    using assms(1,5,6) by (simp add: answer_request_def Let_def run zero_head_def send_file_def)
  have "send_files_step md4 seed False files phase s = (Inr (Some phase), ?s3)"
    using assms(3) by (simp add: send_files_step_def run rd sums ans attempt_def is_path_error_def)
  then show "\<exists>s'. send_files_step md4 seed False files phase s = (Inr (Some phase), s') \<and> c_in s' = z \<and>
            out_bytes s' = le_bytes 4 (int k) @ head_bytes (sum_sizes_sqroot n)"
    by (intro exI [of _ ?s3]) (simp add: out_bytes_def)
  have "read_int32 r = (Inr j, r\<lparr>c_in := d @ rst\<rparr>)" using read_int32_le_bytes [OF assms(12)] assms(9) by simp
  moreover have "read_full (nat j) (r\<lparr>c_in := d @ rst\<rparr>) = (Inr d, r\<lparr>c_in := rst\<rparr>)"
    using assms(10) by (intro read_full_next) simp
  ultimately have "recv_token r = (Inr (j, d), r\<lparr>c_in := rst\<rparr>)"
    using assms(8) by (simp add: recv_token_def run)
  then show "recv_loop h rf lf acc r = recv_loop h rf lf (acc @ d) (r\<lparr>c_in := rst\<rparr>)"
    using assms(8,11) by (subst recv_loop.simps) simp
qed

theorem read_error_desyncs_witness:
  "\<exists>s'. send_files_step toy_md4 7 False [sample_sfile\<lparr>sf_source := sample_source\<lparr>src_open :=
       (\<lambda>_. Inr (sample_file\<lparr>f_fail := (\<lambda>_. Some (PathError ''read''))\<rparr>, Inr 100))\<rparr>\<rparr>] 0
     (sample_search\<lparr>c_in := le_bytes 4 0 @ head_bytes zero_head @ [9]\<rparr>) = (Inr (Some 0), s') \<and> c_in s' = [9]"
proof -
  let ?f = "sample_file\<lparr>f_fail := (\<lambda>_. Some (PathError ''read''))\<rparr>"
  let ?fl = "[sample_sfile\<lparr>sf_source := sample_source\<lparr>src_open := (\<lambda>_. Inr (?f, Inr 100))\<rparr>\<rparr>]"
  have "(\<exists>s'. send_files_step toy_md4 7 False ?fl 0 (sample_search\<lparr>c_in := le_bytes 4 0 @ head_bytes zero_head @ [9]\<rparr>) =
        (Inr (Some 0), s') \<and> c_in s' = [9] \<and> out_bytes s' = le_bytes 4 (int 0) @ head_bytes (sum_sizes_sqroot 100)) \<and>
      recv_loop zero_head sample_rfile None [] (sample_recv\<lparr>c_in := le_bytes 4 1 @ [5] @ []\<rparr>) =
        recv_loop zero_head sample_rfile None ([] @ [5]) (sample_recv\<lparr>c_in := le_bytes 4 1 @ [5] @ []\<rparr>\<lparr>c_in := []\<rparr>)"
    by (rule read_error_desyncs [where f = ?f and n = 100 and e = "''read''" and j = 1])
      (simp_all add: sample_search_def is_i32_def sample_recv_def)
  then show ?thesis by blast
qed

subsection \<open>A replacement that fails\<close>

text \<open>
  C38: a \<open>WritableFS\<close> whose \<open>Rename\<close> fails keeps the temporary file of every file that was received
  completely and with the right checksum: \<open>CloseAtomicallyReplace\<close> clears \<open>v.f\<close> also when it fails, so that the
  deferred \<open>Cleanup\<close> does not remove it.  The error is returned, the destination is unchanged.
\<close>

theorem failed_rename_leaks:
  assumes "\<forall>x. length (md4 x) = 16" "head_ok head"
    and "\<forall>t \<in> set ts. usable head [] t \<and> (\<exists>bs. t = Data bs)"
    and "c_in r = head_bytes head @ tokens_bytes ts @ end_token @ md4 (le_bytes 4 seed @ rebuild head [] ts) @ rest"
    and "\<forall>op n. \<not> rt_deny r op n" "WritableFS opts"
    and "rt_replace r (rt_fs r) (Name f) (rt_new r (KReg (rebuild head [] ts)) 0x180) = Inl e"
  shows "receive_data md4 seed opts f None r =
    (Inl e, r\<lparr>c_in := rest, rt_temps := rt_temp r (rt_temps r) # rt_temps r\<rparr>)"
proof -
  let ?r = "r\<lparr>c_in := rest\<rparr>"
  have "receive_data md4 seed opts f None r = committed f opts (rebuild head [] ts) ?r"
    using receive_data_runs [OF assms(1,2) _ assms(4) _ assms(5), where old = "[]" and lf = None and f = f and opts = opts and seed = seed]
      assms(1,3) by simp
  also have "\<dots> = (Inl e, ?r\<lparr>rt_temps := rt_temp r (rt_temps r) # rt_temps r\<rparr>)"
    using committed_run [of ?r f opts "rebuild head [] ts"] assms(5-7) by simp
  finally show ?thesis by simp
qed

theorem failed_rename_leaks_witness:
  "\<exists>s'. receive_data toy_md4 7 (sample_opts\<lparr>WritableFS := True\<rparr>) sample_rfile None
      (sample_recv\<lparr>c_in := sample_transfer, rt_replace := (\<lambda>_ _ _. Inl (PathError ''rename''))\<rparr>) = (Inl (PathError ''rename''), s') \<and>
     rt_temps s' = [''temp-rsync-''] \<and> rt_fs s' = rt_fs sample_recv"
proof -
  let ?r = "sample_recv\<lparr>c_in := sample_transfer, rt_replace := (\<lambda>_ _ _. Inl (PathError ''rename''))\<rparr>"
  have md: "\<forall>x. length (toy_md4 x) = 16" by (simp add: toy_md4_def)
  have "head_bytes zero_head @ tokens_bytes [Data [7, 8, 9]] @ end_token @ toy_md4 (le_bytes 4 7 @ [7, 8, 9]) = sample_transfer"
    by code_simp
  then have c: "c_in ?r = head_bytes zero_head @ tokens_bytes [Data [7, 8, 9]] @ end_token @
      toy_md4 (le_bytes 4 7 @ rebuild zero_head [] [Data [7, 8, 9]]) @ []"
    by simp
  have "receive_data toy_md4 7 (sample_opts\<lparr>WritableFS := True\<rparr>) sample_rfile None ?r =
      (Inl (PathError ''rename''), ?r\<lparr>c_in := [], rt_temps := rt_temp ?r (rt_temps ?r) # rt_temps ?r\<rparr>)"
    by (rule failed_rename_leaks [OF md _ _ c]) (simp_all add: zero_head_def head_ok_def is_i32_def maxBlockLen_def sample_recv_def)
  then show ?thesis by (simp add: sample_recv_def)
qed

end
