(* ===== verification/Popt.thy ===== *)
theory Popt
  imports Go_Strings
begin

text \<open>
  \<open>internal/rsyncopts/popt.go\<close>: the option scanner.  A pointer to a field of \<open>Options\<close> is the
  name of the field, \<open>&o.verbose\<close> is \<open>IntField ''verbose''\<close>, and the struct is a store from
  field names to values; the fields that no option table points to are fields of the record.
\<close>

datatype field = IntField string | StrField string

record popt_option =
  longName :: string
  shortName :: string
  argInfo :: int
  arg :: "field option"
  val :: int

definition entry :: "string \<Rightarrow> string \<Rightarrow> int \<Rightarrow> field option \<Rightarrow> int \<Rightarrow> popt_option" where
  "entry l s i a v = \<lparr>longName = l, shortName = s, argInfo = i, arg = a, val = v\<rparr>"

record options =
  o_table :: "popt_option list"
  o_int :: "string \<Rightarrow> int"
  o_str :: "string \<Rightarrow> string"
  o_info :: "int list"
  o_debug :: "int list"
  filterRules :: "string list"

definition POPT_ARG_NONE :: int where "POPT_ARG_NONE = 0"
definition POPT_ARG_STRING :: int where "POPT_ARG_STRING = 1"
definition POPT_ARG_INT :: int where "POPT_ARG_INT = 2"
definition POPT_ARG_VAL :: int where "POPT_ARG_VAL = 7"
definition POPT_ARG_MASK :: int where "POPT_ARG_MASK = 0xFF"
definition POPT_ARGFLAG_OR :: int where "POPT_ARGFLAG_OR = 0x08000000"
definition POPT_BIT_SET :: int where "POPT_BIT_SET = POPT_ARG_VAL OR POPT_ARGFLAG_OR"

definition POPT_ERROR_NOARG :: int where "POPT_ERROR_NOARG = -10"
definition POPT_ERROR_BADOPT :: int where "POPT_ERROR_BADOPT = -11"
definition POPT_ERROR_UNWANTEDARG :: int where "POPT_ERROR_UNWANTEDARG = -12"
definition POPT_ERROR_BADNUMBER :: int where "POPT_ERROR_BADNUMBER = -17"
definition POPT_ERROR_OVERFLOW :: int where "POPT_ERROR_OVERFLOW = -18"
definition POPT_ERROR_BADOPERATION :: int where "POPT_ERROR_BADOPERATION = -19"

lemmas popt_arg_defs = POPT_ARG_NONE_def POPT_ARG_STRING_def POPT_ARG_INT_def POPT_ARG_VAL_def
  POPT_ARG_MASK_def POPT_ARGFLAG_OR_def POPT_BIT_SET_def

lemmas popt_errors = POPT_ERROR_NOARG_def POPT_ERROR_BADOPT_def POPT_ERROR_UNWANTEDARG_def
  POPT_ERROR_BADNUMBER_def POPT_ERROR_OVERFLOW_def POPT_ERROR_BADOPERATION_def

text \<open>How a run of the option parser ends short of a result; \<open>Exit\<close> is \<open>os.Exit\<close>.\<close>

datatype opt_error = PoptError int go_error bool | OtherError go_error | Exit int

record popt_context =
  c_table :: "popt_option list"
  c_args :: "string list"
  nextCharArg :: string
  nextArg :: string
  Opts :: options
  RemainingArgs :: "string list"

definition option_name :: "popt_option \<Rightarrow> string" where
  "option_name opt = (if longName opt = '''' then ''-'' @ shortName opt else ''--'' @ longName opt)"

subsection \<open>Numbers\<close>

definition digit_value :: "char \<Rightarrow> int option" where
  "digit_value c =
     (let n = of_char c :: int in
      if 48 \<le> n \<and> n \<le> 57 then Some (n - 48)
      else if 97 \<le> n \<and> n \<le> 122 then Some (n - 87)
      else if 65 \<le> n \<and> n \<le> 90 then Some (n - 55)
      else None)"

fun digits_value :: "int \<Rightarrow> bool \<Rightarrow> int \<Rightarrow> string \<Rightarrow> int option" where
  "digits_value b us n [] = Some n"
| "digits_value b us n (c # cs) =
     (if c = CHR ''_'' \<and> us then digits_value b us n cs
      else case digit_value c of
        None \<Rightarrow> None
      | Some d \<Rightarrow> if d < b then digits_value b us (n * b + d) cs else None)"

text \<open>\<open>strconv.underscoreOK\<close> after the sign: underscores only between digits or after a prefix.\<close>

fun underscores_ok :: "bool \<Rightarrow> char \<Rightarrow> string \<Rightarrow> bool" where
  "underscores_ok hex saw [] \<longleftrightarrow> saw \<noteq> CHR ''_''"
| "underscores_ok hex saw (c # cs) \<longleftrightarrow>
     (let n = of_char (ascii_lower c) :: int in
      if 48 \<le> n \<and> n \<le> 57 \<or> hex \<and> 97 \<le> n \<and> n \<le> 102 then underscores_ok hex (CHR ''0'') cs
      else if c = CHR ''_'' then saw = CHR ''0'' \<and> underscores_ok hex (CHR ''_'') cs
      else saw \<noteq> CHR ''_'' \<and> underscores_ok hex (CHR ''!'') cs)"

definition is_i64_opt :: "int \<Rightarrow> int option" where
  "is_i64_opt n = (if is_i64 n then Some n else None)"

definition signed :: "(string \<Rightarrow> int option) \<Rightarrow> string \<Rightarrow> int option" where
  "signed p s =
     (case s of
        [] \<Rightarrow> None
      | c # cs \<Rightarrow>
          if c = CHR ''-'' then Option.bind (p cs) (\<lambda>n. is_i64_opt (- n))
          else if c = CHR ''+'' then Option.bind (p cs) is_i64_opt
          else Option.bind (p s) is_i64_opt)"

text \<open>\<open>strconv.Atoi(s)\<close> and \<open>strconv.ParseInt(s, 0, 64)\<close>, \<open>None\<close> for an error.\<close>

definition atoi :: "string \<Rightarrow> int option" where
  "atoi = signed (\<lambda>s. if s = [] then None else digits_value 10 False 0 s)"

definition parse_uint0 :: "string \<Rightarrow> int option" where
  "parse_uint0 s =
     (case s of
        [] \<Rightarrow> None
      | c # cs \<Rightarrow>
          if c \<noteq> CHR ''0'' then
            if underscores_ok False (CHR ''^'') s then digits_value 10 True 0 s else None
          else (case cs of
              p # d # ds \<Rightarrow>
                (let b = (if ascii_lower p = CHR ''b'' then 2 else if ascii_lower p = CHR ''o'' then 8
                          else if ascii_lower p = CHR ''x'' then 16 else 0 :: int)
                 in if b \<noteq> 0
                    then if underscores_ok (b = 16) (CHR ''0'') (d # ds) then digits_value b True 0 (d # ds) else None
                    else if underscores_ok False (CHR ''^'') s then digits_value 8 True 0 cs else None)
            | _ \<Rightarrow> if underscores_ok False (CHR ''^'') s then digits_value 8 True 0 cs else None))"

definition parse_int0 :: "string \<Rightarrow> int option" where
  "parse_int0 = signed parse_uint0"

subsection \<open>Scanning\<close>

definition find_option :: "popt_option list \<Rightarrow> string \<Rightarrow> string \<Rightarrow> popt_option option" where
  "find_option table long short =
     find (\<lambda>opt. long \<noteq> '''' \<and> longName opt = long \<or> short \<noteq> '''' \<and> shortName opt = short) table"

text \<open>The type assertions \<open>opt.arg.(*int)\<close> and \<open>opt.arg.(*string)\<close> panic on the other pointer type.\<close>

definition conversion_panic :: opt_error where
  "conversion_panic = OtherError (Panic ''interface conversion'')"

definition popt_save_int :: "popt_option \<Rightarrow> int \<Rightarrow> options \<Rightarrow> opt_error + options" where
  "popt_save_int opt v os =
     (case arg opt of
        Some (IntField x) \<Rightarrow>
          Inr (os\<lparr>o_int := (o_int os)(x := if argInfo opt AND POPT_ARGFLAG_OR \<noteq> 0 then o_int os x OR v else v)\<rparr>)
      | _ \<Rightarrow> Inl conversion_panic)"

text \<open>\<open>Inr (Inl errno)\<close> is the error number it returns.\<close>

definition popt_save_arg :: "popt_option \<Rightarrow> string \<Rightarrow> options \<Rightarrow> opt_error + (int + options)" where
  "popt_save_arg opt next_arg os =
     (let argType = argInfo opt AND POPT_ARG_MASK in
      if argType = POPT_ARG_INT then
        (case parse_int0 next_arg of
           None \<Rightarrow> Inr (Inl POPT_ERROR_BADNUMBER)
         | Some i \<Rightarrow>
             if i < - (2 ^ 31) \<or> i > 2 ^ 31 - 1 then Inr (Inl POPT_ERROR_OVERFLOW)
             else map_sum id Inr (popt_save_int opt i os))
      else if argType = POPT_ARG_STRING then
        (case arg opt of
           Some (StrField x) \<Rightarrow> Inr (Inr (os\<lparr>o_str := (o_str os)(x := next_arg)\<rparr>))
         | _ \<Rightarrow> Inl conversion_panic)
      else Inr (Inl POPT_ERROR_BADOPERATION))"

text \<open>
  One turn of \<open>poptGetNextOpt\<close>: the next option and the value after its \<open>=\<close>, or a remaining
  argument, or the end.
\<close>

datatype fetched = Done | Operand popt_context | Option popt_option string popt_context

definition bad_opt :: "string \<Rightarrow> fmt_arg list \<Rightarrow> opt_error" where
  "bad_opt fmt as = PoptError POPT_ERROR_BADOPT (Errorf fmt as) False"

definition fetch_short :: "popt_context \<Rightarrow> opt_error + fetched" where
  "fetch_short pc =
     (case find_option (c_table pc) '''' (take 1 (nextCharArg pc)) of
        None \<Rightarrow> Inl (bad_opt ''-%s: unknown option'' [FStr (take 1 (nextCharArg pc))])
      | Some opt \<Rightarrow> Inr (Option opt '''' (pc\<lparr>nextCharArg := drop 1 (nextCharArg pc)\<rparr>)))"

definition fetch_long :: "string \<Rightarrow> popt_context \<Rightarrow> opt_error + fetched" where
  "fetch_long orig pc =
     (if orig = '''' then Inl (bad_opt ''unknown option: origOptString empty'' [])
      else if hd orig \<noteq> CHR ''-'' \<or> orig = ''-'' then
        Inr (Operand (pc\<lparr>RemainingArgs := RemainingArgs pc @ [orig]\<rparr>))
      else
        let (before, longArg) = (case cut_at (CHR ''='') orig of Some ba \<Rightarrow> ba | None \<Rightarrow> (orig, ''''));
            before = trim_prefix before ''-'';
            oneDash = \<not> has_prefix before ''-'';
            before = trim_prefix before ''-''
        in case find_option (c_table pc) before '''' of
             Some opt \<Rightarrow> Inr (Option opt longArg pc)
           | None \<Rightarrow>
               if oneDash then fetch_short (pc\<lparr>nextCharArg := drop 1 orig\<rparr>)
               else Inl (bad_opt ''%s: unknown option'' [FStr orig]))"

definition fetch :: "popt_context \<Rightarrow> opt_error + fetched" where
  "fetch pc =
     (if nextCharArg pc \<noteq> '''' then fetch_short pc
      else case c_args pc of
        [] \<Rightarrow> Inr Done
      | orig # rest \<Rightarrow> fetch_long orig (pc\<lparr>c_args := rest\<rparr>))"

definition no_value :: "popt_option \<Rightarrow> bool" where
  "no_value opt \<longleftrightarrow> argInfo opt AND POPT_ARG_MASK = POPT_ARG_NONE \<or> argInfo opt AND POPT_ARG_MASK = POPT_ARG_VAL"

definition store_flag :: "popt_option \<Rightarrow> string \<Rightarrow> popt_context \<Rightarrow> opt_error + popt_context" where
  "store_flag opt longArg pc =
     (if longArg \<noteq> '''' \<or> has_prefix (nextCharArg pc) ''='' then
        Inl (PoptError POPT_ERROR_UNWANTEDARG
               (Errorf ''option %s does not take an argument'' [FStr (option_name opt)]) False)
      else if arg opt = None then Inr pc
      else case popt_save_int opt (if argInfo opt AND POPT_ARG_MASK = POPT_ARG_VAL then val opt else 1) (Opts pc) of
             Inl e \<Rightarrow> Inl e
           | Inr os \<Rightarrow> Inr (pc\<lparr>Opts := os\<rparr>))"

definition take_arg :: "popt_option \<Rightarrow> string \<Rightarrow> popt_context \<Rightarrow> opt_error + (string \<times> popt_context)" where
  "take_arg opt longArg pc =
     (if longArg \<noteq> '''' then Inr (longArg, pc)
      else if nextCharArg pc \<noteq> '''' then
        Inr (trim_prefix (nextCharArg pc) ''='', pc\<lparr>nextCharArg := ''''\<rparr>)
      else case c_args pc of
        [] \<Rightarrow> Inl (PoptError POPT_ERROR_NOARG
                   (Errorf ''missing argument for option %s'' [FStr (option_name opt)]) False)
      | a # as \<Rightarrow> Inr (a, pc\<lparr>c_args := as\<rparr>))"

definition store_value :: "popt_option \<Rightarrow> string \<Rightarrow> popt_context \<Rightarrow> opt_error + popt_context" where
  "store_value opt longArg pc =
     (case take_arg opt longArg pc of
        Inl e \<Rightarrow> Inl e
      | Inr (a, pc) \<Rightarrow>
          let pc = pc\<lparr>nextArg := a\<rparr> in
          if arg opt = None then Inr pc
          else case popt_save_arg opt a (Opts pc) of
            Inl e \<Rightarrow> Inl e
          | Inr (Inl errno) \<Rightarrow> Inl (PoptError errno (Errorf ''poptSaveArg errno %d'' [FInt errno]) False)
          | Inr (Inr os) \<Rightarrow> Inr (pc\<lparr>Opts := os\<rparr>))"

definition store :: "popt_option \<Rightarrow> string \<Rightarrow> popt_context \<Rightarrow> opt_error + popt_context" where
  "store opt longArg pc = (if no_value opt then store_flag opt longArg pc else store_value opt longArg pc)"

text \<open>Does the option return to the caller?  Otherwise the scan goes on.\<close>

definition returns :: "popt_option \<Rightarrow> bool" where
  "returns opt \<longleftrightarrow> val opt \<noteq> 0 \<and> argInfo opt AND POPT_ARG_MASK \<noteq> POPT_ARG_VAL"

text \<open>What is left to scan.\<close>

definition pending :: "popt_context \<Rightarrow> nat" where
  "pending pc = length (nextCharArg pc) + sum_list (map (\<lambda>a. Suc (length a)) (c_args pc))"

lemma fetch_pending:
  "fetch pc = Inr (Operand pc') \<Longrightarrow> pending pc' < pending pc"
  "fetch pc = Inr (Option opt la pc') \<Longrightarrow> pending pc' < pending pc"
  by (auto simp: fetch_def fetch_long_def fetch_short_def pending_def Let_def
      split: if_splits option.splits list.splits prod.splits)

lemma store_pending: "store opt la pc = Inr pc' \<Longrightarrow> pending pc' \<le> pending pc"
  by (auto simp: store_def store_flag_def store_value_def take_arg_def pending_def Let_def
      split: if_splits option.splits list.splits prod.splits sum.splits)

lemma fetch_store_pending:
  "fetch pc = Inr (Option opt la pc') \<Longrightarrow> store opt la pc' = Inr pc'' \<Longrightarrow> pending pc'' < pending pc"
  by (rule le_less_trans [OF store_pending fetch_pending(2)])

function popt_get_next_opt :: "popt_context \<Rightarrow> opt_error + (int \<times> popt_context)" where
  "popt_get_next_opt pc =
     (case fetch pc of
        Inl e \<Rightarrow> Inl e
      | Inr Done \<Rightarrow> Inr (-1, pc)
      | Inr (Operand pc') \<Rightarrow> popt_get_next_opt pc'
      | Inr (Option opt longArg pc') \<Rightarrow>
          (case store opt longArg pc' of
             Inl e \<Rightarrow> Inl e
           | Inr pc'' \<Rightarrow> if returns opt then Inr (i32 (val opt), pc'') else popt_get_next_opt pc''))"
  by pat_completeness auto
termination
  by (relation "measure pending") (auto dest: fetch_pending(1) fetch_store_pending)

declare popt_get_next_opt.simps [simp del]

definition popt_get_opt_arg :: "popt_context \<Rightarrow> string \<times> popt_context" where
  "popt_get_opt_arg pc = (nextArg pc, pc\<lparr>nextArg := ''''\<rparr>)"

lemma popt_get_next_opt_pending:
  "popt_get_next_opt pc = Inr (v, pc') \<Longrightarrow> v = -1 \<and> pending pc' \<le> pending pc \<or> pending pc' < pending pc"
proof (induction pc arbitrary: v pc' rule: popt_get_next_opt.induct)
  case (1 pc)
  show ?case
  proof (cases "fetch pc")
    case (Inr x)
    show ?thesis
    proof (cases x)
      case Done
      with 1(3) Inr show ?thesis by (subst (asm) popt_get_next_opt.simps) simp
    next
      case (Operand pc1)
      with 1(3) Inr have "popt_get_next_opt pc1 = Inr (v, pc')" by (subst (asm) popt_get_next_opt.simps) simp
      from 1(1) [OF Inr Operand this] fetch_pending(1) [of pc pc1] Inr Operand show ?thesis by auto
    next
      case (Option opt la pc1)
      from fetch_pending(2) Inr Option have l1: "pending pc1 < pending pc" by simp
      obtain pc2 where s: "store opt la pc1 = Inr pc2"
        using 1(3) Inr Option by (subst (asm) popt_get_next_opt.simps) (auto split: sum.splits)
      from store_pending [OF s] l1 have l2: "pending pc2 < pending pc" by simp
      show ?thesis
      proof (cases "returns opt")
        case True
        with 1(3) Inr Option s l2 show ?thesis by (subst (asm) popt_get_next_opt.simps) simp
      next
        case False
        with 1(3) Inr Option s have "popt_get_next_opt pc2 = Inr (v, pc')"
          by (subst (asm) popt_get_next_opt.simps) simp
        from 1(2) [OF Inr Option s False this] l2 show ?thesis by auto
      qed
    qed
  next
    case (Inl e)
    with 1(3) show ?thesis by (subst (asm) popt_get_next_opt.simps) simp
  qed
qed

end
