(* ===== verification/Recv_Flist.thy ===== *)
theory Recv_Flist
  imports Generator Popt
begin

text \<open>
  \<open>internal/receiver/flist.go\<close> and \<open>uidlist.go\<close>: reading the file list, entry by entry, the
  tables of user and group names and the I/O error flag.
\<close>

definition PATH_MAX :: int where "PATH_MAX = 4096"

subsection \<open>One entry\<close>

text \<open>A field that the flags may leave out because it repeats the one of the last entry.\<close>

definition inherit :: "int \<Rightarrow> int \<Rightarrow> 'a \<Rightarrow> ('a, 's) act \<Rightarrow> ('a, 's) act" where
  "inherit flags sel old rd = (if flags AND sel \<noteq> 0 then ret old else rd)"

text \<open>\<open>make([]byte, l1+l2)\<close>, the first \<open>l1\<close> bytes from the last name, the rest from the wire.\<close>

definition receive_name :: "int \<Rightarrow> rfile \<Rightarrow> (string, 'z conn_scheme) act" where
  "receive_name flags prev =
     bnd (if flags AND XMIT_SAME_NAME \<noteq> 0 then bnd read_byte (\<lambda>l. ret (uint l)) else ret 0) (\<lambda>l1.
     bnd (if flags AND XMIT_LONG_NAME \<noteq> 0 then read_int32 else bnd read_byte (\<lambda>l. ret (uint l))) (\<lambda>l2.
     if l2 \<ge> PATH_MAX - l1 then
       throw (Errorf ''overflow: flags=0x%x l1=%d l2=%d lastname=%s'' [FInt flags, FInt l1, FInt l2, FStr ''''])
     else if l1 + l2 < 0 then throw (Panic ''makeslice: len out of range'')
     else if l2 < 0 then throw (Panic ''slice bounds out of range'')
     else bnd (read_full (nat l2)) (\<lambda>d.
       ret (take (nat l1) (Name prev @ replicate (nat l1) (CHR 0x00)) @ string_of_bytes d))))"

definition receive_link :: "(string, 'z conn_scheme) act" where
  "receive_link =
     bnd read_int32 (\<lambda>l.
     if l < 0 then throw (Panic ''makeslice: len out of range'')
     else bnd (read_full (nat l)) (\<lambda>b. ret (string_of_bytes b)))"

definition receive_file_entry :: "recv_opts \<Rightarrow> int \<Rightarrow> rfile \<Rightarrow> (rfile, 'z conn_scheme) act" where
  "receive_file_entry opts flags prev =
     bnd (receive_name flags prev) (\<lambda>name.
     bnd read_int64 (\<lambda>len.
     bnd (inherit flags XMIT_SAME_TIME (ModTime prev) (bnd read_int32 (\<lambda>t. ret (time_Unix t 0)))) (\<lambda>mtime.
     bnd (inherit flags XMIT_SAME_MODE (Mode prev) read_int32) (\<lambda>mode.
     bnd (if PreserveUid opts then inherit flags XMIT_SAME_UID (Uid prev) read_int32 else ret 0) (\<lambda>uid.
     bnd (if PreserveGid opts then inherit flags XMIT_SAME_GID (Gid prev) read_int32 else ret 0) (\<lambda>gid.
     bnd (if PreserveDevices opts \<and> (is_dev mode \<or> is_special mode)
          then inherit flags XMIT_SAME_RDEV_pre28 (Rdev prev) read_int32 else ret 0) (\<lambda>rdev.
     bnd (if PreserveLinks opts \<and> type_of mode = S_IFLNK then receive_link else ret '''') (\<lambda>target.
     bnd (if AlwaysChecksum opts then read_full 16 else ret (replicate 16 0)) (\<lambda>sum.
     ret \<lparr>Name = clean name, Length = len, ModTime = mtime, Mode = mode, Uid = uid, Gid = gid,
          LinkTarget = target, Rdev = rdev, FChecksum = sum\<rparr>)))))))))"

text \<open>\<open>new(File)\<close>; the zero \<open>time.Time\<close> is the year 1.\<close>

definition zero_file :: rfile where
  "zero_file = \<lparr>Name = '''', Length = 0, ModTime = \<lparr>t_sec = -62135596800, t_nsec = 0\<rparr>, Mode = 0, Uid = 0, Gid = 0,
     LinkTarget = '''', Rdev = 0, FChecksum = replicate 16 0\<rparr>"

subsection \<open>The list\<close>

lemma reads_receive_file_entry [reads_intro]: "reads (receive_file_entry opts flags prev)"
  unfolding receive_file_entry_def receive_name_def receive_link_def inherit_def by (intro reads_intro)

definition show_count :: "recv_opts \<Rightarrow> string \<Rightarrow> rfile list \<Rightarrow> (unit, recv) act" where
  "show_count opts fmt fl = print_out opts (Message fmt [FInt (int (length fl))])"

lemma show_count_in: "show_count opts fmt fl s = (r, s') \<Longrightarrow> c_in s' = c_in s"
  by (auto simp: show_count_def print_out_def split: if_splits)

definition receive_entry_step ::
  "recv_opts \<Rightarrow> rfile \<Rightarrow> rfile list \<Rightarrow> (rfile option, recv) act" where
  "receive_entry_step opts prev acc =
     bnd read_byte (\<lambda>b.
     if b = 0 then ret None
     else bnd (receive_file_entry opts (uint b) prev) (\<lambda>f.
          bnd (when_do (Progress opts \<and> (length acc + 1) mod 100 = 0)
                 (show_count opts (CHR 0x0D # ''%d files to consider'') (acc @ [f]))) (\<lambda>_.
          ret (Some f))))"

lemma shrinks_receive_entry:
  "shrinks (bnd (receive_file_entry opts n prev) (\<lambda>f.
     bnd (when_do (P f) (show_count opts fmt (l f))) (\<lambda>_. ret (Some f))))"
proof -
  have "shrinks (show_count opts fmt fl)" for fl
    by (rule shrinksI) (simp add: show_count_in)
  then show ?thesis
    by (intro shrink.keep_intro shrinks_reads [OF reads_receive_file_entry])
qed

lemma receive_entry_step_shorter:
  assumes "receive_entry_step opts prev acc s = (Inr r, s')"
  shows "length (c_in s') < length (c_in s)"
proof -
  obtain b s1 where b: "read_byte s = (Inr b, s1)" and rest: "(if b = 0 then ret None
     else bnd (receive_file_entry opts (uint b) prev) (\<lambda>f.
          bnd (when_do (Progress opts \<and> (length acc + 1) mod 100 = 0)
                 (show_count opts (CHR 0x0D # ''%d files to consider'') (acc @ [f]))) (\<lambda>_.
          ret (Some f)))) s1 = (Inr r, s')"
    using assms unfolding receive_entry_step_def bnd_eq_Inr by blast
  have "length (c_in s') \<le> length (c_in s1)"
    by (rule shrinksD [OF shrink.keep_if [OF shrink.keep_ret shrinks_receive_entry] rest])
  with b show ?thesis by (auto simp: read_byte_Inr)
qed

function receive_list_loop :: "recv_opts \<Rightarrow> rfile \<Rightarrow> rfile list \<Rightarrow> (rfile list, recv) act" where
  "receive_list_loop opts prev acc s =
     (case receive_entry_step opts prev acc s of
        (Inl e, s') \<Rightarrow> (Inl e, s')
      | (Inr None, s') \<Rightarrow> (Inr acc, s')
      | (Inr (Some f), s') \<Rightarrow> receive_list_loop opts f (acc @ [f]) s')"
  by pat_completeness auto
termination
  by (relation "measure (\<lambda>(opts, prev, acc, s). length (c_in s))")
    (auto dest!: receive_entry_step_shorter [OF sym])

declare receive_list_loop.simps [simp del]

definition sort_file_list :: "rfile list \<Rightarrow> rfile list" where
  "sort_file_list fl = sort_key Name fl"

subsection \<open>User and group names\<close>

definition local_id :: "(string \<Rightarrow> string option) \<Rightarrow> int \<Rightarrow> string \<Rightarrow> int" where
  "local_id lookup remote name =
     (case lookup name of
        None \<Rightarrow> remote
      | Some s \<Rightarrow> (case parse_int0 s of
                    None \<Rightarrow> remote
                  | Some i \<Rightarrow> if is_i32 i then i else remote))"

text \<open>One pair of the table, or its end.\<close>

definition recv_id_entry :: "((int \<times> string) option, 'z conn_scheme) act" where
  "recv_id_entry =
     bnd read_int32 (\<lambda>id.
     if id = 0 then ret None
     else bnd read_byte (\<lambda>l.
          bnd (read_full (unat l)) (\<lambda>name.
          ret (Some (id, string_of_bytes name)))))"

lemma recv_id_entry_shorter: "recv_id_entry s = (Inr r, s') \<Longrightarrow> length (c_in s') < length (c_in s)"
  by (auto simp: recv_id_entry_def bnd_eq_Inr ret_def read_full_Inr read_byte_Inr split: if_splits
      dest!: read_int32_shorter)

function recv_id_mapping1 ::
  "(int \<Rightarrow> string \<Rightarrow> int) \<Rightarrow> (int \<rightharpoonup> id_mapping) \<Rightarrow> (int \<rightharpoonup> id_mapping, 'z conn_scheme) act" where
  "recv_id_mapping1 localId m s =
     (case recv_id_entry s of
        (Inl e, s') \<Rightarrow> (Inl e, s')
      | (Inr None, s') \<Rightarrow> (Inr m, s')
      | (Inr (Some (uid, name)), s') \<Rightarrow>
          recv_id_mapping1 localId (m(uid \<mapsto> \<lparr>im_Name = name, im_LocalId = localId uid name\<rparr>)) s')"
  by pat_completeness auto
termination
  by (relation "measure (\<lambda>(localId, m, s). length (c_in s))") (auto dest!: recv_id_entry_shorter [OF sym])

declare recv_id_mapping1.simps [simp del]

definition recv_id_list :: "recv_opts \<Rightarrow> ((int \<rightharpoonup> id_mapping) \<times> (int \<rightharpoonup> id_mapping), recv) act" where
  "recv_id_list opts =
     bnd (get rt_lookup) (\<lambda>lookup.
     bnd (if PreserveUid opts then recv_id_mapping1 (local_id (lookup True)) Map.empty else ret Map.empty) (\<lambda>users.
     bnd (if PreserveGid opts then recv_id_mapping1 (local_id (lookup False)) Map.empty else ret Map.empty) (\<lambda>groups.
     ret (users, groups))))"

subsection \<open>\<open>ReceiveFileList\<close>\<close>

definition receive_file_list :: "recv_opts \<Rightarrow> (rfile list, recv) act" where
  "receive_file_list opts =
     bnd (when_do (Progress opts) (bnd (print_out opts (Message (''receiving file list...'' @ [CHR 0x0A]) []))
            (\<lambda>_. print_out opts (Message ''0 files to consider'' [])))) (\<lambda>_.
     bnd (receive_list_loop opts zero_file []) (\<lambda>fl.
     bnd (when_do (Progress opts) (show_count opts (CHR 0x0D # ''%d files to consider'' @ [CHR 0x0A]) fl)) (\<lambda>_.
     bnd (when_do (PreserveUid opts \<or> PreserveGid opts)
            (bnd (recv_id_list opts) (\<lambda>(users, groups). modify (\<lambda>s. s\<lparr>rt_Users := users, rt_Groups := groups\<rparr>)))) (\<lambda>_.
     bnd read_int32 (\<lambda>ioErrors.
     bnd (modify (\<lambda>s. s\<lparr>IOErrors := ioErrors\<rparr>)) (\<lambda>_.
     ret (sort_file_list fl)))))))"

end
