(* ===== verification/Exclude.thy ===== *)
theory Exclude
  imports Wire Go_Path
begin

text \<open>
  \<open>internal/sender/exclude.go\<close>: the filter rules of the sender and its wildcard matcher, with the
  meaning of a pattern as a sequence of glob items.
\<close>

subsection \<open>Wildcards\<close>

text \<open>The items of a character class, from after \<open>[\<close> and the negation to after the closing \<open>]\<close>.\<close>

function class_loop :: "bool \<Rightarrow> string \<Rightarrow> char \<Rightarrow> bool \<Rightarrow> bool \<times> string" where
  "class_loop first p x m =
     (case p of
        [] \<Rightarrow> (m, [])
      | a # p' \<Rightarrow>
          if a = CHR '']'' \<and> \<not> first then (m, p')
          else if 2 \<le> length p' \<and> p' ! 0 = CHR ''-'' \<and> p' ! 1 \<noteq> CHR '']''
          then class_loop False (drop 2 p') x (m \<or> (p' ! 1 \<ge> x \<and> x \<ge> a))
          else class_loop False p' x (m \<or> x = a))"
  by pat_completeness auto
termination
  by (relation "measure (\<lambda>(first, p, x, m). length p)") auto

declare class_loop.simps [simp del]

lemma class_loop_shorter: "length (snd (class_loop first p x m)) \<le> length p"
proof (induction first p x m rule: class_loop.induct)
  case (1 first p x m)
  show ?case
    by (subst class_loop.simps) (use 1 in \<open>fastforce split: list.split\<close>)
qed

text \<open>A whole class, from after \<open>[\<close>: whether it accepts the character, and what follows it.\<close>

definition class_match :: "string \<Rightarrow> char \<Rightarrow> bool \<times> string" where
  "class_match p x =
     (let negate = (p \<noteq> [] \<and> (hd p = CHR ''!'' \<or> hd p = CHR ''^''));
          r = class_loop True (if negate then tl p else p) x False
      in (fst r \<noteq> negate, snd r))"

lemma class_match_shorter: "length (snd (class_match p x)) \<le> length p"
proof -
  have "length (if b then tl p else p) \<le> length p" for b by simp
  then show ?thesis unfolding class_match_def Let_def snd_conv by (rule le_trans [OF class_loop_shorter])
qed

lemma class_match_less [simp]:
  "length (snd (class_match p x)) < Suc (length p)" "(m, q) = class_match p x \<Longrightarrow> length q < Suc (length p)"
  using class_match_shorter [of p x] by (auto simp: less_Suc_eq_le dest: arg_cong [of _ _ "\<lambda>r. length (snd r)"])

lemma dropWhile_less [simp]: "length (dropWhile P xs) < Suc (length xs)"
  using length_dropWhile_le [of P xs] by simp

text \<open>
  \<open>dowild\<close>, with the loop over the positions after a star as a function of its own.  \<open>p\<close> and \<open>t\<close>
  are what is left of the pattern and of the text.
\<close>

function dowild :: "string \<Rightarrow> string \<Rightarrow> bool" and dowild_star :: "bool \<Rightarrow> string \<Rightarrow> string \<Rightarrow> bool" where
  "dowild p t =
     (case p of
        [] \<Rightarrow> t = []
      | pc # p' \<Rightarrow>
          if t = [] \<and> pc \<noteq> CHR ''*'' then False
          else if pc = CHR ''?'' then hd t \<noteq> CHR ''/'' \<and> dowild p' (tl t)
          else if pc = CHR ''*'' then
            let doubleStar = (p' \<noteq> [] \<and> hd p' = CHR ''*''); p'' = dropWhile (\<lambda>c. c = CHR ''*'') p'
            in if p'' = [] then doubleStar \<or> CHR ''/'' \<notin> set t
               else dowild_star doubleStar p'' t
          else if pc = CHR ''['' then
            fst (class_match p' (hd t)) \<and> dowild (snd (class_match p' (hd t))) (tl t)
          else hd t = pc \<and> dowild p' (tl t))"
| "dowild_star doubleStar p t =
     (dowild p t \<or>
      (case t of
         [] \<Rightarrow> False
       | c # t' \<Rightarrow> \<not> (c = CHR ''/'' \<and> \<not> doubleStar) \<and> dowild_star doubleStar p t'))"
  by pat_completeness auto

termination
proof (relation "inv_image (less_than <*lex*> less_than)
        (case_sum (\<lambda>(p, t). (2 * length p, length t)) (\<lambda>(b, p, t). (Suc (2 * length p), length t)))", goal_cases)
  case (3 p t c q d r)
  then show ?case using length_dropWhile_le [of "\<lambda>c. c = CHR ''*''" q] by simp
next
  case (4 p t c q)
  then show ?case using class_match_shorter [of q "hd t"] by simp
qed auto

declare dowild.simps [simp del] dowild_star.simps [simp del]

subsection \<open>What a pattern means\<close>

text \<open>
  The declarative reading: a pattern is a sequence of items, and it matches a text that splits
  into pieces for the items.  A single star stands for a piece without a slash, a double one for
  any piece.
\<close>

datatype glob = GLit char | GAny | GStar bool | GClass "char \<Rightarrow> bool"

function glob_items :: "string \<Rightarrow> glob list" where
  "glob_items p =
     (case p of
        [] \<Rightarrow> []
      | c # p' \<Rightarrow>
          if c = CHR ''?'' then GAny # glob_items p'
          else if c = CHR ''*'' then
            GStar (p' \<noteq> [] \<and> hd p' = CHR ''*'') # glob_items (dropWhile (\<lambda>c. c = CHR ''*'') p')
          else if c = CHR ''['' then
            GClass (\<lambda>x. fst (class_match p' x)) # glob_items (snd (class_match p' (CHR ''x'')))
          else GLit c # glob_items p')"
  by pat_completeness auto
termination
  by (relation "measure length") auto

declare glob_items.simps [simp del]

fun glob_match :: "glob list \<Rightarrow> string \<Rightarrow> bool" where
  "glob_match [] t \<longleftrightarrow> t = []"
| "glob_match (GLit c # gs) t \<longleftrightarrow> (\<exists>t'. t = c # t' \<and> glob_match gs t')"
| "glob_match (GAny # gs) t \<longleftrightarrow> (\<exists>c t'. t = c # t' \<and> c \<noteq> CHR ''/'' \<and> glob_match gs t')"
| "glob_match (GClass P # gs) t \<longleftrightarrow> (\<exists>c t'. t = c # t' \<and> P c \<and> glob_match gs t')"
| "glob_match (GStar any # gs) t \<longleftrightarrow>
     (\<exists>u v. t = u @ v \<and> (any \<or> CHR ''/'' \<notin> set u) \<and> glob_match gs v)"

text \<open>Where a class ends does not depend on the character it is asked about.\<close>

lemma class_loop_rest: "snd (class_loop first p x m) = snd (class_loop first p y n)"
proof (induction first p x m arbitrary: n rule: class_loop.induct)
  case (1 first p x m)
  show ?case
    by (subst (1 2) class_loop.simps) (use 1 in \<open>auto split: list.split\<close>)
qed

lemma class_match_rest: "snd (class_match p x) = snd (class_match p y)"
  unfolding class_match_def Let_def snd_conv by (rule class_loop_rest)

lemma star_split:
  "(\<exists>u v. t = u @ v \<and> (any \<or> CHR ''/'' \<notin> set u) \<and> M v) \<longleftrightarrow>
     M t \<or> (case t of [] \<Rightarrow> False
            | c # t' \<Rightarrow> \<not> (c = CHR ''/'' \<and> \<not> any) \<and> (\<exists>u v. t' = u @ v \<and> (any \<or> CHR ''/'' \<notin> set u) \<and> M v))"
    (is "?L \<longleftrightarrow> ?R")
proof
  assume ?L
  then obtain u v where uv: "t = u @ v" "any \<or> CHR ''/'' \<notin> set u" "M v" by blast
  then show ?R by (cases u) auto
next
  assume ?R
  then show ?L
  proof
    assume "M t"
    then show ?L by (intro exI [of _ "[]"] exI [of _ t]) simp
  next
    assume "case t of [] \<Rightarrow> False
            | c # t' \<Rightarrow> \<not> (c = CHR ''/'' \<and> \<not> any) \<and> (\<exists>u v. t' = u @ v \<and> (any \<or> CHR ''/'' \<notin> set u) \<and> M v)"
    then obtain c u v where t: "t = c # u @ v" "\<not> (c = CHR ''/'' \<and> \<not> any)" "any \<or> CHR ''/'' \<notin> set u" "M v"
      by (cases t) auto
    then show ?L by (intro exI [of _ "c # u"] exI [of _ v]) auto
  qed
qed

lemma glob_match_star_end: "glob_match [GStar any] t \<longleftrightarrow> any \<or> CHR ''/'' \<notin> set t"
  by auto

lemma dowild_glob_aux:
  "dowild p t \<longleftrightarrow> glob_match (glob_items p) t"
  "dowild_star any p t \<longleftrightarrow> glob_match (GStar any # glob_items p) t"
proof (induction p t and any p t rule: dowild_dowild_star.induct)
  case (1 p t)
  show ?case
  proof (cases p)
    case Nil
    then show ?thesis by (subst dowild.simps, subst glob_items.simps) simp
  next
    case (Cons c p')
    consider "t = []" "c \<noteq> CHR ''*''" | "c = CHR ''*''" | x t' where "t = x # t'" "c \<noteq> CHR ''*''"
      by (cases t) auto
    then show ?thesis
    proof cases
      case 1
      then show ?thesis using Cons by (subst dowild.simps, subst glob_items.simps) auto
    next
      case 2
      let ?q = "dropWhile (\<lambda>c. c = CHR ''*'') p'" and ?d = "p' \<noteq> [] \<and> hd p' = CHR ''*''"
      have items: "glob_items p = GStar ?d # glob_items ?q"
        using Cons 2 by (subst glob_items.simps) simp
      show ?thesis
      proof (cases "?q = []")
        case True
        have "glob_items [] = []" by (subst glob_items.simps) simp
        moreover have "dowild p t \<longleftrightarrow> ?d \<or> CHR ''/'' \<notin> set t"
          using True Cons 2 by (subst dowild.simps) (simp add: Let_def del: dropWhile_eq_Nil_conv)
        ultimately show ?thesis unfolding items True glob_match_star_end by simp
      next
        case False
        have "dowild_star ?d ?q t \<longleftrightarrow> glob_match (GStar ?d # glob_items ?q) t"
          by (rule "1.IH"(2) [OF Cons]) (use 2 False in simp_all)
        then show ?thesis
          using False Cons 2 unfolding items by (subst dowild.simps) (simp add: Let_def del: glob_match.simps dropWhile_eq_Nil_conv)
      qed
    next
      case (3 x t')
      show ?thesis
      proof (cases "c = CHR ''[''")
        case True
        have rest: "snd (class_match p' (CHR ''x'')) = snd (class_match p' x)" by (rule class_match_rest)
        have "dowild (snd (class_match p' (hd t))) (tl t) = glob_match (glob_items (snd (class_match p' (hd t)))) (tl t)"
          by (rule "1.IH"(3) [OF Cons]) (use 3 True in simp_all)
        then show ?thesis
          using Cons 3 True by (subst dowild.simps, subst glob_items.simps) (simp add: rest)
      next
        case False
        have q: "c = CHR ''?'' \<Longrightarrow> dowild p' (tl t) = glob_match (glob_items p') (tl t)"
          by (rule "1.IH"(1) [OF Cons]) (use 3 in simp_all)
        have l: "c \<noteq> CHR ''?'' \<Longrightarrow> dowild p' (tl t) = glob_match (glob_items p') (tl t)"
          by (rule "1.IH"(4) [OF Cons]) (use 3 False in simp_all)
        show ?thesis
          using Cons 3 False q l by (subst dowild.simps, subst glob_items.simps) auto
      qed
    qed
  qed
next
  case (2 any p t)
  show ?case
    unfolding glob_match.simps
    by (subst star_split, subst dowild_star.simps) (use 2 in \<open>auto split: list.split\<close>)
qed

text \<open>
  C16: the wildcard matcher accepts exactly the texts that the pattern describes: it never misses
  a way to split the text at a star, never backtracks wrongly, and returns for every pattern,
  unclosed classes included.
\<close>

theorem dowild_glob: "dowild p t \<longleftrightarrow> glob_match (glob_items p) t"
  by (rule dowild_glob_aux(1))

subsection \<open>Rules\<close>

definition filtruleInclude :: int where "filtruleInclude = 1"
definition filtruleClearList :: int where "filtruleClearList = 2"
definition filtruleDirectory :: int where "filtruleDirectory = 4"
definition filtruleWild :: int where "filtruleWild = 8"

lemmas filtrules = filtruleInclude_def filtruleClearList_def filtruleDirectory_def filtruleWild_def

record filter_rule =
  fr_flag :: int
  fr_pattern :: string

definition parse_filter :: "string \<Rightarrow> filter_rule" where
  "parse_filter line =
     (if has_prefix line ''- '' then \<lparr>fr_flag = 0 AND NOT filtruleInclude, fr_pattern = trim_prefix line ''- ''\<rparr>
      else if has_prefix line ''+ '' then \<lparr>fr_flag = 0 OR filtruleInclude, fr_pattern = trim_prefix line ''+ ''\<rparr>
      else if has_prefix line ''!'' then \<lparr>fr_flag = 0 OR filtruleClearList, fr_pattern = line\<rparr>
      else \<lparr>fr_flag = 0, fr_pattern = line\<rparr>)"

definition is_wild_char :: "char \<Rightarrow> bool" where
  "is_wild_char c \<longleftrightarrow> c = CHR ''*'' \<or> c = CHR ''['' \<or> c = CHR ''?''"

definition add_rule :: "filter_rule \<Rightarrow> filter_rule list \<Rightarrow> filter_rule list" where
  "add_rule fr l =
     (let fr1 = (if has_suffix (fr_pattern fr) ''/''
                 then \<lparr>fr_flag = fr_flag fr OR filtruleDirectory, fr_pattern = trim_suffix (fr_pattern fr) ''/''\<rparr>
                 else fr);
          fr2 = (if list_ex is_wild_char (fr_pattern fr1)
                 then fr1\<lparr>fr_flag := fr_flag fr1 OR filtruleWild\<rparr> else fr1)
      in l @ [fr2])"

definition parse_filter_rules :: "string list \<Rightarrow> filter_rule list" where
  "parse_filter_rules rules = foldl (\<lambda>l rule. add_rule (parse_filter rule) l) [] rules"

definition rule_matches :: "filter_rule \<Rightarrow> string \<Rightarrow> bool" where
  "rule_matches fr name =
     (let name' = (if \<not> contains_byte (fr_pattern fr) (CHR ''/'') then base name else name)
      in if fr_flag fr AND filtruleWild \<noteq> 0 then dowild (fr_pattern fr) name'
         else fr_pattern fr = name')"

fun list_matches :: "filter_rule list \<Rightarrow> string \<Rightarrow> bool" where
  "list_matches [] name \<longleftrightarrow> False"
| "list_matches (fr # frs) name \<longleftrightarrow>
     (if rule_matches fr name then fr_flag fr AND filtruleInclude = 0 else list_matches frs name)"

text \<open>\<open>RecvFilterList\<close>: a negative length makes \<open>make\<close> panic.\<close>

function recv_filter_loop :: "filter_rule list \<Rightarrow> (filter_rule list, 'z conn_scheme) act" where
  "recv_filter_loop l c =
     (case read_int32 c of
        (Inl e, c1) \<Rightarrow> (Inl e, c1)
      | (Inr len, c1) \<Rightarrow>
          if len = 0 then (Inr l, c1)
          else if len < 0 then (Inl (Panic ''makeslice: len out of range''), c1)
          else case read_full (nat len) c1 of
                 (Inl e, c2) \<Rightarrow> (Inl e, c2)
               | (Inr line, c2) \<Rightarrow> recv_filter_loop (add_rule (parse_filter (string_of_bytes line)) l) c2)"
  by pat_completeness auto
termination
proof (relation "measure (\<lambda>(l, c). length (c_in c))", goal_cases)
  case (2 l c r c1 len r' c2 line)
  then have "length (c_in c1) < length (c_in c)" using read_int32_shorter by metis
  moreover have "length (c_in c2) \<le> length (c_in c1)" using 2 reads_length [OF reads_read_full] by metis
  ultimately show ?case by simp
qed simp

declare recv_filter_loop.simps [simp del]

definition recv_filter_list :: "(filter_rule list, 'z conn_scheme) act" where
  "recv_filter_list = recv_filter_loop []"

subsection \<open>What the rules do\<close>

lemma dowild_slash:
  assumes "hd name \<noteq> CHR ''/''"
  shows "\<not> dowild (CHR ''/'' # q) name"
  using assms by (subst dowild.simps) (cases name; simp)

lemma anchored_never:
  assumes "fr_pattern fr = CHR ''/'' # q" "\<not> has_prefix name ''/''"
  shows "\<not> rule_matches fr name"
proof -
  have "hd name \<noteq> CHR ''/'' \<or> name = []" using assms(2) by (cases name) (auto simp: has_prefix_def)
  then have "\<not> dowild (CHR ''/'' # q) name"
    using dowild_slash [of name q] by (auto simp: dowild.simps [of "CHR ''/'' # q"])
  moreover have "CHR ''/'' # q \<noteq> name" using assms(2) by (auto simp: has_prefix_def)
  ultimately show ?thesis by (simp add: rule_matches_def contains_byte_def assms(1) Let_def)
qed

lemma add_rule_pattern: "\<exists>f. add_rule fr l = l @ [f] \<and> fr_pattern f = trim_suffix (fr_pattern fr) ''/''"
  by (simp add: add_rule_def Let_def trim_suffix_def)

lemma list_matches_append:
  "list_matches (frs @ [fr]) name \<longleftrightarrow>
     (if list_ex (\<lambda>f. rule_matches f name) frs then list_matches frs name
      else rule_matches fr name \<and> fr_flag fr AND filtruleInclude = 0)"
  by (induction frs) auto

lemma list_matches_none: "\<not> list_ex (\<lambda>f. rule_matches f name) frs \<Longrightarrow> \<not> list_matches frs name"
  by (induction frs) auto

text \<open>
  Three things of rsync's filter rules that this one accepts and does not do: a pattern
  anchored with a leading slash excludes nothing, because the names it is compared with have
  none; the rule \<open>!\<close> does not clear the rules before it; and a trailing slash does not restrict
  a rule to directories.
\<close>

theorem filter_slips:
  "(\<not> has_prefix name ''/'' \<longrightarrow> \<not> list_matches (add_rule \<lparr>fr_flag = flag, fr_pattern = CHR ''/'' # c # q\<rparr> []) name) \<and>
   (base name \<noteq> ''!'' \<longrightarrow>
      list_matches (parse_filter_rules (rules @ [''!''])) name = list_matches (parse_filter_rules rules) name) \<and>
   (fr_flag fr AND filtruleDirectory = 0 \<longrightarrow>
      rule_matches (fr\<lparr>fr_flag := fr_flag fr OR filtruleDirectory\<rparr>) name = rule_matches fr name)"
proof (intro conjI impI)
  assume n: "\<not> has_prefix name ''/''"
  let ?p = "CHR ''/'' # c # q"
  have "\<exists>q'. trim_suffix ?p ''/'' = CHR ''/'' # q'"
    by (cases "length q") (auto simp: trim_suffix_def has_suffix_def)
  then obtain fr q' where "add_rule \<lparr>fr_flag = flag, fr_pattern = ?p\<rparr> [] = [fr]" "fr_pattern fr = CHR ''/'' # q'"
    using add_rule_pattern [of "\<lparr>fr_flag = flag, fr_pattern = ?p\<rparr>" "[]"] by auto
  with anchored_never [OF _ n] show "\<not> list_matches (add_rule \<lparr>fr_flag = flag, fr_pattern = ?p\<rparr> []) name" by simp
next
  assume b: "base name \<noteq> ''!''"
  have "parse_filter_rules (rules @ [''!'']) = parse_filter_rules rules @ [\<lparr>fr_flag = filtruleClearList, fr_pattern = ''!''\<rparr>]"
    by (simp add: parse_filter_rules_def add_rule_def parse_filter_def has_prefix_def has_suffix_def
        is_wild_char_def Let_def)
  moreover have "\<not> rule_matches \<lparr>fr_flag = filtruleClearList, fr_pattern = ''!''\<rparr> name"
    using b by (simp add: rule_matches_def contains_byte_def filtrules Let_def)
  ultimately show "list_matches (parse_filter_rules (rules @ [''!''])) name = list_matches (parse_filter_rules rules) name"
    by (auto simp: list_matches_append list_matches_none)
next
  have "(x OR filtruleDirectory) AND filtruleWild = x AND filtruleWild" for x :: int
    by (simp add: filtrules bit.conj_disj_distrib2)
  then show "rule_matches (fr\<lparr>fr_flag := fr_flag fr OR filtruleDirectory\<rparr>) name = rule_matches fr name"
    by (simp add: rule_matches_def)
qed

theorem filter_slips_witness:
  "\<not> list_matches (add_rule \<lparr>fr_flag = 0, fr_pattern = ''/docs''\<rparr> []) ''docs'' \<and>
   list_matches (parse_filter_rules ([''*.o''] @ [''!''])) ''a.o'' = list_matches (parse_filter_rules [''*.o'']) ''a.o''"
proof -
  have b: "base ''a.o'' \<noteq> ''!''" by (simp add: base_def strip_slashes_def Let_def)
  have "\<not> has_prefix ''docs'' ''/''" by (simp add: has_prefix_def)
  with filter_slips [of "''docs''" 0 "CHR ''d''" "''ocs''"] b
    filter_slips [of "''a.o''" 0 _ _ "[''*.o'']"] show ?thesis by blast
qed

lemma recv_filter_list_wire:
  assumes "\<forall>l \<in> set ls. l \<noteq> '''' \<and> int (length l) < 2 ^ 31"
    and "c_in c = concat (map (\<lambda>l. le_bytes 4 (int (length l)) @ bytes_of_string l) ls) @ le_bytes 4 0 @ z"
  shows "recv_filter_list c = (Inr (parse_filter_rules ls), c\<lparr>c_in := z\<rparr>)"
proof -
  have "recv_filter_loop acc c = (Inr (foldl (\<lambda>l rule. add_rule (parse_filter rule) l) acc ls), c\<lparr>c_in := z\<rparr>)" for acc
    using assms
  proof (induction ls arbitrary: acc c)
    case Nil
    then have "read_int32 c = (Inr 0, c\<lparr>c_in := z\<rparr>)" by (simp add: read_int32_le_bytes is_i32_def)
    then show ?case by (subst recv_filter_loop.simps) simp
  next
    case (Cons l ls)
    let ?rest = "concat (map (\<lambda>l. le_bytes 4 (int (length l)) @ bytes_of_string l) ls) @ le_bytes 4 0 @ z"
    let ?c1 = "c\<lparr>c_in := bytes_of_string l @ ?rest\<rparr>" and ?c2 = "c\<lparr>c_in := ?rest\<rparr>"
    have l: "0 < length l" "is_i32 (int (length l))" using Cons.prems(1) by (simp_all add: is_i32_def)
    have 1: "read_int32 c = (Inr (int (length l)), ?c1)"
      using read_int32_le_bytes [of c "int (length l)"] l(2) Cons.prems(2) by simp
    have 2: "read_full (length l) ?c1 = (Inr (bytes_of_string l), ?c2)"
      by (rule read_full_next [THEN trans]) simp_all
    have "recv_filter_loop acc c = recv_filter_loop (add_rule (parse_filter l) acc) ?c2"
      using l(1) by (subst recv_filter_loop.simps) (simp add: 1 2)
    also have "\<dots> = (Inr (foldl (\<lambda>l rule. add_rule (parse_filter rule) l) (add_rule (parse_filter l) acc) ls), ?c2\<lparr>c_in := z\<rparr>)"
      by (rule Cons.IH) (use Cons.prems(1) in simp_all)
    finally show ?case by simp
  qed
  then show ?thesis by (simp add: recv_filter_list_def parse_filter_rules_def)
qed

text \<open>
  C24: a filter list on the wire, each rule with its length and a zero at the end, is received as
  the list \<open>ParseFilterRules\<close> makes of the same rules, and nothing after it is consumed.
\<close>

theorem recv_filter_roundtrip:
  assumes "\<forall>l \<in> set ls. l \<noteq> '''' \<and> int (length l) < 2 ^ 31"
    and "c_in c = concat (map (\<lambda>l. le_bytes 4 (int (length l)) @ bytes_of_string l) ls) @ le_bytes 4 0 @ z"
  shows "recv_filter_list c = (Inr (parse_filter_rules ls), c\<lparr>c_in := z\<rparr>)"
  using assms by (rule recv_filter_list_wire)

definition sample_conn :: "byte list \<Rightarrow> conn" where
  "sample_conn bs = \<lparr>c_in = bs, c_out = [], c_budget = None\<rparr>"

theorem recv_filter_roundtrip_witness:
  "recv_filter_list (sample_conn (concat (map (\<lambda>l. le_bytes 4 (int (length l)) @ bytes_of_string l) [''- *.go'', ''+ a'']) @
      le_bytes 4 0 @ [7])) = (Inr (parse_filter_rules [''- *.go'', ''+ a'']), sample_conn [7])"
  using recv_filter_roundtrip [of "[''- *.go'', ''+ a'']" "sample_conn (concat (map (\<lambda>l. le_bytes 4 (int (length l)) @ bytes_of_string l)
      [''- *.go'', ''+ a'']) @ le_bytes 4 0 @ [7])" "[7]"]
  by (simp add: sample_conn_def)

text \<open>
  A peer that announces a filter rule of negative length makes the program panic.
\<close>

theorem recv_filter_panics:
  assumes "is_i32 n" "n < 0" "c_in c = le_bytes 4 n @ z"
  shows "recv_filter_list c = (Inl (Panic ''makeslice: len out of range''), c\<lparr>c_in := z\<rparr>)"
  using read_int32_le_bytes [OF assms(3)] assms(1,2)
  by (simp add: recv_filter_list_def recv_filter_loop.simps)

theorem recv_filter_panics_witness:
  "fst (recv_filter_list (sample_conn (le_bytes 4 (-1) @ []))) = Inl (Panic ''makeslice: len out of range'')"
  using recv_filter_panics [of "-1" "sample_conn (le_bytes 4 (-1) @ [])" "[]"]
  by (simp add: is_i32_def sample_conn_def)

end
