(* ===== verification/Opt_Tables.thy ===== *)
theory Opt_Tables
  imports Popt
begin

text \<open>
  The data of \<open>internal/rsyncopts/rsyncopts.go\<close>: option codes, the fields of \<open>Options\<close> with
  their defaults, and the option tables, entry by entry in the order of the source.
\<close>

definition rune :: "char \<Rightarrow> int" where "rune c = of_char c"

subsection \<open>Codes\<close>

definition OPT_SERVER :: int where "OPT_SERVER = 1000"
definition OPT_DAEMON :: int where "OPT_DAEMON = 1001"
definition OPT_SENDER :: int where "OPT_SENDER = 1002"
definition OPT_EXCLUDE :: int where "OPT_EXCLUDE = 1003"
definition OPT_EXCLUDE_FROM :: int where "OPT_EXCLUDE_FROM = 1004"
definition OPT_FILTER :: int where "OPT_FILTER = 1005"
definition OPT_COMPARE_DEST :: int where "OPT_COMPARE_DEST = 1006"
definition OPT_COPY_DEST :: int where "OPT_COPY_DEST = 1007"
definition OPT_LINK_DEST :: int where "OPT_LINK_DEST = 1008"
definition OPT_HELP :: int where "OPT_HELP = 1009"
definition OPT_INCLUDE :: int where "OPT_INCLUDE = 1010"
definition OPT_INCLUDE_FROM :: int where "OPT_INCLUDE_FROM = 1011"
definition OPT_MODIFY_WINDOW :: int where "OPT_MODIFY_WINDOW = 1012"
definition OPT_MIN_SIZE :: int where "OPT_MIN_SIZE = 1013"
definition OPT_CHMOD :: int where "OPT_CHMOD = 1014"
definition OPT_READ_BATCH :: int where "OPT_READ_BATCH = 1015"
definition OPT_WRITE_BATCH :: int where "OPT_WRITE_BATCH = 1016"
definition OPT_ONLY_WRITE_BATCH :: int where "OPT_ONLY_WRITE_BATCH = 1017"
definition OPT_MAX_SIZE :: int where "OPT_MAX_SIZE = 1018"
definition OPT_NO_D :: int where "OPT_NO_D = 1019"
definition OPT_APPEND :: int where "OPT_APPEND = 1020"
definition OPT_NO_ICONV :: int where "OPT_NO_ICONV = 1021"
definition OPT_INFO :: int where "OPT_INFO = 1022"
definition OPT_DEBUG :: int where "OPT_DEBUG = 1023"
definition OPT_BLOCK_SIZE :: int where "OPT_BLOCK_SIZE = 1024"
definition OPT_USERMAP :: int where "OPT_USERMAP = 1025"
definition OPT_GROUPMAP :: int where "OPT_GROUPMAP = 1026"
definition OPT_CHOWN :: int where "OPT_CHOWN = 1027"
definition OPT_BWLIMIT :: int where "OPT_BWLIMIT = 1028"
definition OPT_STDERR :: int where "OPT_STDERR = 1029"
definition OPT_OLD_COMPRESS :: int where "OPT_OLD_COMPRESS = 1030"
definition OPT_NEW_COMPRESS :: int where "OPT_NEW_COMPRESS = 1031"
definition OPT_NO_COMPRESS :: int where "OPT_NO_COMPRESS = 1032"
definition OPT_OLD_ARGS :: int where "OPT_OLD_ARGS = 1033"
definition OPT_STOP_AFTER :: int where "OPT_STOP_AFTER = 1034"
definition OPT_STOP_AT :: int where "OPT_STOP_AT = 1035"

lemmas opt_codes = OPT_SERVER_def OPT_DAEMON_def OPT_SENDER_def OPT_EXCLUDE_def OPT_EXCLUDE_FROM_def
  OPT_FILTER_def OPT_COMPARE_DEST_def OPT_COPY_DEST_def OPT_LINK_DEST_def OPT_HELP_def
  OPT_INCLUDE_def OPT_INCLUDE_FROM_def OPT_MODIFY_WINDOW_def OPT_MIN_SIZE_def OPT_CHMOD_def
  OPT_READ_BATCH_def OPT_WRITE_BATCH_def OPT_ONLY_WRITE_BATCH_def OPT_MAX_SIZE_def OPT_NO_D_def
  OPT_APPEND_def OPT_NO_ICONV_def OPT_INFO_def OPT_DEBUG_def OPT_BLOCK_SIZE_def
  OPT_USERMAP_def OPT_GROUPMAP_def OPT_CHOWN_def OPT_BWLIMIT_def OPT_STDERR_def
  OPT_OLD_COMPRESS_def OPT_NEW_COMPRESS_def OPT_NO_COMPRESS_def OPT_OLD_ARGS_def OPT_STOP_AFTER_def
  OPT_STOP_AT_def

text \<open>The levels of \<open>--info\<close> and \<open>--debug\<close> that the program asks for.\<close>

definition INFO_BACKUP :: nat where "INFO_BACKUP = 0"
definition INFO_COPY :: nat where "INFO_COPY = 1"
definition INFO_DEL :: nat where "INFO_DEL = 2"
definition INFO_FLIST :: nat where "INFO_FLIST = 3"
definition INFO_MISC :: nat where "INFO_MISC = 4"
definition INFO_MOUNT :: nat where "INFO_MOUNT = 5"
definition INFO_NAME :: nat where "INFO_NAME = 6"
definition INFO_NONREG :: nat where "INFO_NONREG = 7"
definition INFO_PROGRESS :: nat where "INFO_PROGRESS = 8"
definition INFO_REMOVE :: nat where "INFO_REMOVE = 9"
definition INFO_SKIP :: nat where "INFO_SKIP = 10"
definition INFO_STATS :: nat where "INFO_STATS = 11"
definition INFO_SYMSAFE :: nat where "INFO_SYMSAFE = 12"
definition COUNT_INFO :: nat where "COUNT_INFO = 13"
definition DEBUG_ACL :: nat where "DEBUG_ACL = 0"
definition DEBUG_BACKUP :: nat where "DEBUG_BACKUP = 1"
definition DEBUG_BIND :: nat where "DEBUG_BIND = 2"
definition DEBUG_CHDIR :: nat where "DEBUG_CHDIR = 3"
definition DEBUG_CONNECT :: nat where "DEBUG_CONNECT = 4"
definition DEBUG_CMD :: nat where "DEBUG_CMD = 5"
definition DEBUG_DEL :: nat where "DEBUG_DEL = 6"
definition DEBUG_DELTASUM :: nat where "DEBUG_DELTASUM = 7"
definition DEBUG_DUP :: nat where "DEBUG_DUP = 8"
definition DEBUG_EXIT :: nat where "DEBUG_EXIT = 9"
definition DEBUG_FILTER :: nat where "DEBUG_FILTER = 10"
definition DEBUG_FLIST :: nat where "DEBUG_FLIST = 11"
definition DEBUG_FUZZY :: nat where "DEBUG_FUZZY = 12"
definition DEBUG_GENR :: nat where "DEBUG_GENR = 13"
definition DEBUG_HASH :: nat where "DEBUG_HASH = 14"
definition DEBUG_HLINK :: nat where "DEBUG_HLINK = 15"
definition DEBUG_ICONV :: nat where "DEBUG_ICONV = 16"
definition DEBUG_IO :: nat where "DEBUG_IO = 17"
definition DEBUG_NSTR :: nat where "DEBUG_NSTR = 18"
definition DEBUG_OWN :: nat where "DEBUG_OWN = 19"
definition DEBUG_PROTO :: nat where "DEBUG_PROTO = 20"
definition DEBUG_RECV :: nat where "DEBUG_RECV = 21"
definition DEBUG_SEND :: nat where "DEBUG_SEND = 22"
definition DEBUG_TIME :: nat where "DEBUG_TIME = 23"
definition COUNT_DEBUG :: nat where "COUNT_DEBUG = 24"

lemmas info_codes = INFO_BACKUP_def INFO_COPY_def INFO_DEL_def INFO_FLIST_def INFO_MISC_def
  INFO_MOUNT_def INFO_NAME_def INFO_NONREG_def INFO_PROGRESS_def INFO_REMOVE_def
  INFO_SKIP_def INFO_STATS_def INFO_SYMSAFE_def COUNT_INFO_def DEBUG_ACL_def
  DEBUG_BACKUP_def DEBUG_BIND_def DEBUG_CHDIR_def DEBUG_CONNECT_def DEBUG_CMD_def
  DEBUG_DEL_def DEBUG_DELTASUM_def DEBUG_DUP_def DEBUG_EXIT_def DEBUG_FILTER_def
  DEBUG_FLIST_def DEBUG_FUZZY_def DEBUG_GENR_def DEBUG_HASH_def DEBUG_HLINK_def
  DEBUG_ICONV_def DEBUG_IO_def DEBUG_NSTR_def DEBUG_OWN_def DEBUG_PROTO_def
  DEBUG_RECV_def DEBUG_SEND_def DEBUG_TIME_def COUNT_DEBUG_def

subsection \<open>The fields of \<open>Options\<close>\<close>

text \<open>The fields an option table can point to, by type.\<close>

definition int_fields :: "string list" where
  "int_fields =
     [''do_compression'', ''local_server'', ''verbose'', ''msgs2stderr'', ''quiet'',
      ''output_motd'', ''do_stats'', ''human_readable'', ''dry_run'', ''recurse'',
      ''allow_inc_recurse'', ''xfer_dirs'', ''preserve_perms'', ''preserve_executability'', ''preserve_acls'',
      ''preserve_xattrs'', ''preserve_mtimes'', ''preserve_atimes'', ''open_noatime'', ''preserve_crtimes'',
      ''omit_dir_times'', ''omit_link_times'', ''modify_window'', ''am_root'', ''preserve_uid'',
      ''preserve_gid'', ''preserve_devices'', ''copy_devices'', ''write_devices'', ''preserve_specials'',
      ''preserve_links'', ''copy_links'', ''copy_unsafe_links'', ''safe_symlinks'', ''munge_symlinks'',
      ''copy_dirlinks'', ''keep_dirlinks'', ''preserve_hard_links'', ''relative_paths'', ''implied_dirs'',
      ''ignore_times'', ''size_only'', ''one_file_system'', ''update_only'', ''ignore_non_existing'',
      ''ignore_existing'', ''sparse_files'', ''preallocate_files'', ''inplace'', ''append_mode'',
      ''delete_during'', ''delete_mode'', ''delete_before'', ''delete_after'', ''delete_excluded'',
      ''missing_args'', ''remove_source_files'', ''force_delete'', ''ignore_errors'', ''max_delete'',
      ''cvs_exclude'', ''whole_file'', ''always_checksum'', ''fuzzy_basis'', ''do_compression_level'',
      ''do_progress'', ''keep_partial'', ''delay_updates'', ''prune_empty_dirs'', ''itemize_changes'',
      ''bwlimit'', ''make_backups'', ''list_only'', ''eol_nulls'', ''old_style_args'',
      ''protect_args'', ''trust_sender'', ''numeric_ids'', ''io_timeout'', ''connect_timeout'',
      ''do_fsync'', ''default_af_hint'', ''allow_8bit_chars'', ''mkpath_dest_arg'', ''use_qsort'',
      ''rsync_port'', ''blocking_io'', ''protocol_version'', ''checksum_seed'', ''am_server'',
      ''am_sender'', ''am_daemon'', ''daemon_bwlimit'', ''daemon_opt'', ''no_detach'',
      ''tls'', ''tls_insecure'', ''workers'', ''CustomClient.DontRestrict'']"

definition str_fields :: "string list" where
  "str_fields =
     [''max_size_arg'', ''min_size_arg'', ''max_alloc_arg'', ''checksum_choice'', ''compress_choice'',
      ''skip_compress'', ''partial_dir'', ''logfile_name'', ''logfile_format'', ''stdout_format'',
      ''bwlimit_arg'', ''backup_dir'', ''backup_suffix'', ''batch_name'', ''files_from'',
      ''shell_cmd'', ''rsync_path'', ''tmpdir'', ''iconv_opt'', ''copy_as'',
      ''bind_address'', ''sockopts'', ''password_file'', ''early_input_file'', ''outbuf_mode'',
      ''config_file'', ''tls_ca'', ''tls_cert'', ''tls_key'', ''CustomDaemon.Config'',
      ''CustomDaemon.Listen'', ''CustomDaemon.MonitoringListen'', ''CustomDaemon.AnonSSHListen'', ''CustomDaemon.ModuleMap'']"

definition AF_INET :: int where "AF_INET = 2"
definition AF_INET6 :: int where "AF_INET6 = 10"
definition MinInt32 :: int where "MinInt32 = - (2 ^ 31)"

definition tridgeDefaults :: options where
  "tridgeDefaults = \<lparr>o_table = [],
     o_int = (\<lambda>_. 0)(''msgs2stderr'' := 2, ''output_motd'' := 1, ''human_readable'' := 1, ''allow_inc_recurse'' := 1,
       ''xfer_dirs'' := -1, ''relative_paths'' := -1, ''implied_dirs'' := 1, ''max_delete'' := MinInt32,
       ''whole_file'' := -1, ''do_compression_level'' := MinInt32, ''default_af_hint'' := AF_INET6, ''blocking_io'' := -1,
       ''protocol_version'' := 27),
     o_str = (\<lambda>_. '''')(''rsync_path'' := ''rsync''),
     o_info = replicate COUNT_INFO 0, o_debug = replicate COUNT_DEBUG 0, filterRules = []\<rparr>"

definition defaultOptions :: options where
  "defaultOptions = \<lparr>o_table = [],
     o_int = (\<lambda>_. 0)(''msgs2stderr'' := 2, ''output_motd'' := 1, ''human_readable'' := 1, ''allow_inc_recurse'' := 0,
       ''xfer_dirs'' := -1, ''relative_paths'' := -1, ''implied_dirs'' := 1, ''max_delete'' := MinInt32,
       ''whole_file'' := -1, ''do_compression_level'' := MinInt32, ''default_af_hint'' := AF_INET6, ''blocking_io'' := -1,
       ''protocol_version'' := 27),
     o_str = (\<lambda>_. '''')(''rsync_path'' := ''rsync''),
     o_info = replicate COUNT_INFO 0, o_debug = replicate COUNT_DEBUG 0, filterRules = []\<rparr>"

subsection \<open>The tables\<close>

definition client_table :: "popt_option list" where
  "client_table =
     [entry ''gokr.dont_restrict'' '''' POPT_ARG_NONE (Some (IntField ''CustomClient.DontRestrict'')) 0]"

definition custom_daemon_table :: "popt_option list" where
  "custom_daemon_table =
     [entry ''gokr.config'' '''' POPT_ARG_STRING (Some (StrField ''CustomDaemon.Config'')) 0,
      entry ''gokr.listen'' '''' POPT_ARG_STRING (Some (StrField ''CustomDaemon.Listen'')) 0,
      entry ''gokr.monitoring_listen'' '''' POPT_ARG_STRING (Some (StrField ''CustomDaemon.MonitoringListen'')) 0,
      entry ''gokr.anonssh_listen'' '''' POPT_ARG_STRING (Some (StrField ''CustomDaemon.AnonSSHListen'')) 0,
      entry ''gokr.modulemap'' '''' POPT_ARG_STRING (Some (StrField ''CustomDaemon.ModuleMap'')) 0]"

definition daemon_table :: "popt_option list" where
  "daemon_table =
     [entry ''address'' '''' POPT_ARG_STRING (Some (StrField ''bind_address'')) 0,
      entry ''bwlimit'' '''' POPT_ARG_INT (Some (IntField ''daemon_bwlimit'')) 0,
      entry ''config'' '''' POPT_ARG_STRING (Some (StrField ''config_file'')) 0,
      entry ''daemon'' '''' POPT_ARG_NONE (Some (IntField ''daemon_opt'')) 0,
      entry ''dparam'' ''M'' POPT_ARG_STRING None (rune (CHR ''M'')),
      entry ''ipv4'' ''4'' POPT_ARG_VAL (Some (IntField ''default_af_hint'')) AF_INET,
      entry ''ipv6'' ''6'' POPT_ARG_VAL (Some (IntField ''default_af_hint'')) AF_INET6,
      entry ''detach'' '''' POPT_ARG_VAL (Some (IntField ''no_detach'')) 0,
      entry ''no-detach'' '''' POPT_ARG_VAL (Some (IntField ''no_detach'')) 1,
      entry ''log-file'' '''' POPT_ARG_STRING (Some (StrField ''logfile_name'')) 0,
      entry ''log-file-format'' '''' POPT_ARG_STRING (Some (StrField ''logfile_format'')) 0,
      entry ''port'' '''' POPT_ARG_INT (Some (IntField ''rsync_port'')) 0,
      entry ''sockopts'' '''' POPT_ARG_STRING (Some (StrField ''sockopts'')) 0,
      entry ''protocol'' '''' POPT_ARG_INT (Some (IntField ''protocol_version'')) 0,
      entry ''server'' '''' POPT_ARG_NONE (Some (IntField ''am_server'')) 0,
      entry ''temp-dir'' ''T'' POPT_ARG_STRING (Some (StrField ''tmpdir'')) 0,
      entry ''verbose'' ''v'' POPT_ARG_NONE None (rune (CHR ''v'')),
      entry ''no-verbose'' '''' POPT_ARG_VAL (Some (IntField ''verbose'')) 0,
      entry ''no-v'' '''' POPT_ARG_VAL (Some (IntField ''verbose'')) 0,
      entry ''help'' ''h'' POPT_ARG_NONE None (rune (CHR ''h''))]"

definition rsync_table_1 :: "popt_option list" where
  "rsync_table_1 =
     [entry ''help'' '''' POPT_ARG_NONE None OPT_HELP,
      entry ''version'' ''V'' POPT_ARG_NONE None (rune (CHR ''V'')),
      entry ''verbose'' ''v'' POPT_ARG_NONE None (rune (CHR ''v'')),
      entry ''no-verbose'' '''' POPT_ARG_VAL (Some (IntField ''verbose'')) 0,
      entry ''no-v'' '''' POPT_ARG_VAL (Some (IntField ''verbose'')) 0,
      entry ''info'' '''' POPT_ARG_STRING None OPT_INFO,
      entry ''debug'' '''' POPT_ARG_STRING None OPT_DEBUG,
      entry ''motd'' '''' POPT_ARG_VAL (Some (IntField ''output_motd'')) 1,
      entry ''no-motd'' '''' POPT_ARG_VAL (Some (IntField ''output_motd'')) 0,
      entry ''dry-run'' ''n'' POPT_ARG_NONE (Some (IntField ''dry_run'')) 0,
      entry ''archive'' ''a'' POPT_ARG_NONE None (rune (CHR ''a'')),
      entry ''recursive'' ''r'' POPT_ARG_VAL (Some (IntField ''recurse'')) 2,
      entry ''no-recursive'' '''' POPT_ARG_VAL (Some (IntField ''recurse'')) 0,
      entry ''no-r'' '''' POPT_ARG_VAL (Some (IntField ''recurse'')) 0,
      entry ''dirs'' ''d'' POPT_ARG_VAL (Some (IntField ''xfer_dirs'')) 2,
      entry ''no-dirs'' '''' POPT_ARG_VAL (Some (IntField ''xfer_dirs'')) 0,
      entry ''no-d'' '''' POPT_ARG_VAL (Some (IntField ''xfer_dirs'')) 0,
      entry ''perms'' ''p'' POPT_ARG_VAL (Some (IntField ''preserve_perms'')) 1,
      entry ''no-perms'' '''' POPT_ARG_VAL (Some (IntField ''preserve_perms'')) 0,
      entry ''no-p'' '''' POPT_ARG_VAL (Some (IntField ''preserve_perms'')) 0,
      entry ''times'' ''t'' POPT_ARG_VAL (Some (IntField ''preserve_mtimes'')) 1,
      entry ''no-times'' '''' POPT_ARG_VAL (Some (IntField ''preserve_mtimes'')) 0,
      entry ''no-t'' '''' POPT_ARG_VAL (Some (IntField ''preserve_mtimes'')) 0,
      entry ''owner'' ''o'' POPT_ARG_VAL (Some (IntField ''preserve_uid'')) 1,
      entry ''no-owner'' '''' POPT_ARG_VAL (Some (IntField ''preserve_uid'')) 0,
      entry ''no-o'' '''' POPT_ARG_VAL (Some (IntField ''preserve_uid'')) 0,
      entry ''group'' ''g'' POPT_ARG_VAL (Some (IntField ''preserve_gid'')) 1,
      entry ''no-group'' '''' POPT_ARG_VAL (Some (IntField ''preserve_gid'')) 0,
      entry ''no-g'' '''' POPT_ARG_VAL (Some (IntField ''preserve_gid'')) 0,
      entry '''' ''D'' POPT_ARG_NONE None (rune (CHR ''D'')),
      entry ''no-D'' '''' POPT_ARG_NONE None OPT_NO_D,
      entry ''devices'' '''' POPT_ARG_VAL (Some (IntField ''preserve_devices'')) 1,
      entry ''no-devices'' '''' POPT_ARG_VAL (Some (IntField ''preserve_devices'')) 0,
      entry ''specials'' '''' POPT_ARG_VAL (Some (IntField ''preserve_specials'')) 1,
      entry ''no-specials'' '''' POPT_ARG_VAL (Some (IntField ''preserve_specials'')) 0,
      entry ''links'' ''l'' POPT_ARG_VAL (Some (IntField ''preserve_links'')) 1,
      entry ''no-links'' '''' POPT_ARG_VAL (Some (IntField ''preserve_links'')) 0,
      entry ''no-l'' '''' POPT_ARG_VAL (Some (IntField ''preserve_links'')) 0,
      entry ''hard-links'' ''H'' POPT_ARG_NONE None (rune (CHR ''H'')),
      entry ''no-hard-links'' '''' POPT_ARG_VAL (Some (IntField ''preserve_hard_links'')) 0,
      entry ''no-H'' '''' POPT_ARG_VAL (Some (IntField ''preserve_hard_links'')) 0,
      entry ''ignore-times'' ''I'' POPT_ARG_NONE (Some (IntField ''ignore_times'')) 0,
      entry ''size-only'' '''' POPT_ARG_NONE (Some (IntField ''size_only'')) 0,
      entry ''update'' ''u'' POPT_ARG_NONE (Some (IntField ''update_only'')) 0,
      entry ''delete'' '''' POPT_ARG_NONE (Some (IntField ''delete_mode'')) 0]"

definition rsync_table_2 :: "popt_option list" where
  "rsync_table_2 =
     [entry ''filter'' ''f'' POPT_ARG_STRING None OPT_FILTER,
      entry ''exclude'' '''' POPT_ARG_STRING None OPT_EXCLUDE,
      entry ''include'' '''' POPT_ARG_STRING None OPT_INCLUDE,
      entry ''whole-file'' ''W'' POPT_ARG_VAL (Some (IntField ''whole_file'')) 1,
      entry ''no-whole-file'' '''' POPT_ARG_VAL (Some (IntField ''whole_file'')) 0,
      entry ''no-W'' '''' POPT_ARG_VAL (Some (IntField ''whole_file'')) 0,
      entry ''checksum'' ''c'' POPT_ARG_VAL (Some (IntField ''always_checksum'')) 1,
      entry ''no-checksum'' '''' POPT_ARG_VAL (Some (IntField ''always_checksum'')) 0,
      entry ''no-c'' '''' POPT_ARG_VAL (Some (IntField ''always_checksum'')) 0,
      entry ''progress'' '''' POPT_ARG_VAL (Some (IntField ''do_progress'')) 1,
      entry ''no-progress'' '''' POPT_ARG_VAL (Some (IntField ''do_progress'')) 0,
      entry ''bwlimit'' '''' POPT_ARG_STRING (Some (StrField ''bwlimit_arg'')) OPT_BWLIMIT,
      entry ''no-bwlimit'' '''' POPT_ARG_VAL (Some (IntField ''bwlimit'')) 0,
      entry ''list-only'' '''' POPT_ARG_VAL (Some (IntField ''list_only'')) 2,
      entry ''timeout'' '''' POPT_ARG_INT (Some (IntField ''io_timeout'')) 0,
      entry ''no-timeout'' '''' POPT_ARG_VAL (Some (IntField ''io_timeout'')) 0,
      entry ''contimeout'' '''' POPT_ARG_INT (Some (IntField ''connect_timeout'')) 0,
      entry ''no-contimeout'' '''' POPT_ARG_VAL (Some (IntField ''connect_timeout'')) 0,
      entry ''rsh'' ''e'' POPT_ARG_STRING (Some (StrField ''shell_cmd'')) 0,
      entry ''rsync-path'' '''' POPT_ARG_STRING (Some (StrField ''rsync_path'')) 0,
      entry ''temp-dir'' ''T'' POPT_ARG_STRING (Some (StrField ''tmpdir'')) 0,
      entry ''port'' '''' POPT_ARG_INT (Some (IntField ''rsync_port'')) 0,
      entry ''password-file'' '''' POPT_ARG_STRING (Some (StrField ''password_file'')) 0,
      entry ''tls'' '''' POPT_ARG_NONE (Some (IntField ''tls'')) 0,
      entry ''no-tls'' '''' POPT_ARG_VAL (Some (IntField ''tls'')) 0,
      entry ''tls-ca'' '''' POPT_ARG_STRING (Some (StrField ''tls_ca'')) 0,
      entry ''tls-cert'' '''' POPT_ARG_STRING (Some (StrField ''tls_cert'')) 0,
      entry ''tls-key'' '''' POPT_ARG_STRING (Some (StrField ''tls_key'')) 0,
      entry ''tls-insecure'' '''' POPT_ARG_NONE (Some (IntField ''tls_insecure'')) 0,
      entry ''workers'' '''' POPT_ARG_INT (Some (IntField ''workers'')) 0,
      entry ''threads'' '''' POPT_ARG_INT (Some (IntField ''workers'')) 0,
      entry ''parallel'' '''' POPT_ARG_INT (Some (IntField ''workers'')) 0,
      entry ''server'' '''' POPT_ARG_NONE None OPT_SERVER,
      entry ''sender'' '''' POPT_ARG_NONE None OPT_SENDER,
      entry ''config'' '''' POPT_ARG_STRING None OPT_DAEMON,
      entry ''daemon'' '''' POPT_ARG_NONE None OPT_DAEMON,
      entry ''dparam'' '''' POPT_ARG_STRING None OPT_DAEMON,
      entry ''detach'' '''' POPT_ARG_NONE None OPT_DAEMON,
      entry ''no-detach'' '''' POPT_ARG_NONE None OPT_DAEMON]"

definition rsync_table :: "popt_option list" where
  "rsync_table = rsync_table_1 @ rsync_table_2"

definition tridge_table_1 :: "popt_option list" where
  "tridge_table_1 =
     [entry ''help'' '''' POPT_ARG_NONE None OPT_HELP,
      entry ''version'' ''V'' POPT_ARG_NONE None (rune (CHR ''V'')),
      entry ''verbose'' ''v'' POPT_ARG_NONE None (rune (CHR ''v'')),
      entry ''no-verbose'' '''' POPT_ARG_VAL (Some (IntField ''verbose'')) 0,
      entry ''no-v'' '''' POPT_ARG_VAL (Some (IntField ''verbose'')) 0,
      entry ''info'' '''' POPT_ARG_STRING None OPT_INFO,
      entry ''debug'' '''' POPT_ARG_STRING None OPT_DEBUG,
      entry ''stderr'' '''' POPT_ARG_STRING None OPT_STDERR,
      entry ''msgs2stderr'' '''' POPT_ARG_VAL (Some (IntField ''msgs2stderr'')) 1,
      entry ''no-msgs2stderr'' '''' POPT_ARG_VAL (Some (IntField ''msgs2stderr'')) 0,
      entry ''quiet'' ''q'' POPT_ARG_NONE None (rune (CHR ''q'')),
      entry ''motd'' '''' POPT_ARG_VAL (Some (IntField ''output_motd'')) 1,
      entry ''no-motd'' '''' POPT_ARG_VAL (Some (IntField ''output_motd'')) 0,
      entry ''stats'' '''' POPT_ARG_NONE (Some (IntField ''do_stats'')) 0,
      entry ''human-readable'' ''h'' POPT_ARG_NONE None (rune (CHR ''h'')),
      entry ''no-human-readable'' '''' POPT_ARG_VAL (Some (IntField ''human_readable'')) 0,
      entry ''no-h'' '''' POPT_ARG_VAL (Some (IntField ''human_readable'')) 0,
      entry ''dry-run'' ''n'' POPT_ARG_NONE (Some (IntField ''dry_run'')) 0,
      entry ''archive'' ''a'' POPT_ARG_NONE None (rune (CHR ''a'')),
      entry ''recursive'' ''r'' POPT_ARG_VAL (Some (IntField ''recurse'')) 2,
      entry ''no-recursive'' '''' POPT_ARG_VAL (Some (IntField ''recurse'')) 0,
      entry ''no-r'' '''' POPT_ARG_VAL (Some (IntField ''recurse'')) 0,
      entry ''inc-recursive'' '''' POPT_ARG_VAL (Some (IntField ''allow_inc_recurse'')) 1,
      entry ''no-inc-recursive'' '''' POPT_ARG_VAL (Some (IntField ''allow_inc_recurse'')) 0,
      entry ''i-r'' '''' POPT_ARG_VAL (Some (IntField ''allow_inc_recurse'')) 1,
      entry ''no-i-r'' '''' POPT_ARG_VAL (Some (IntField ''allow_inc_recurse'')) 0,
      entry ''dirs'' ''d'' POPT_ARG_VAL (Some (IntField ''xfer_dirs'')) 2,
      entry ''no-dirs'' '''' POPT_ARG_VAL (Some (IntField ''xfer_dirs'')) 0,
      entry ''no-d'' '''' POPT_ARG_VAL (Some (IntField ''xfer_dirs'')) 0,
      entry ''old-dirs'' '''' POPT_ARG_VAL (Some (IntField ''xfer_dirs'')) 4,
      entry ''old-d'' '''' POPT_ARG_VAL (Some (IntField ''xfer_dirs'')) 4,
      entry ''perms'' ''p'' POPT_ARG_VAL (Some (IntField ''preserve_perms'')) 1,
      entry ''no-perms'' '''' POPT_ARG_VAL (Some (IntField ''preserve_perms'')) 0,
      entry ''no-p'' '''' POPT_ARG_VAL (Some (IntField ''preserve_perms'')) 0,
      entry ''executability'' ''E'' POPT_ARG_NONE (Some (IntField ''preserve_executability'')) 0,
      entry ''acls'' ''A'' POPT_ARG_NONE None (rune (CHR ''A'')),
      entry ''no-acls'' '''' POPT_ARG_VAL (Some (IntField ''preserve_acls'')) 0,
      entry ''no-A'' '''' POPT_ARG_VAL (Some (IntField ''preserve_acls'')) 0,
      entry ''xattrs'' ''X'' POPT_ARG_NONE None (rune (CHR ''X'')),
      entry ''no-xattrs'' '''' POPT_ARG_VAL (Some (IntField ''preserve_xattrs'')) 0,
      entry ''no-X'' '''' POPT_ARG_VAL (Some (IntField ''preserve_xattrs'')) 0,
      entry ''times'' ''t'' POPT_ARG_VAL (Some (IntField ''preserve_mtimes'')) 1,
      entry ''no-times'' '''' POPT_ARG_VAL (Some (IntField ''preserve_mtimes'')) 0,
      entry ''no-t'' '''' POPT_ARG_VAL (Some (IntField ''preserve_mtimes'')) 0,
      entry ''atimes'' ''U'' POPT_ARG_NONE None (rune (CHR ''U'')),
      entry ''no-atimes'' '''' POPT_ARG_VAL (Some (IntField ''preserve_atimes'')) 0,
      entry ''no-U'' '''' POPT_ARG_VAL (Some (IntField ''preserve_atimes'')) 0,
      entry ''open-noatime'' '''' POPT_ARG_VAL (Some (IntField ''open_noatime'')) 1,
      entry ''no-open-noatime'' '''' POPT_ARG_VAL (Some (IntField ''open_noatime'')) 0,
      entry ''crtimes'' ''N'' POPT_ARG_NONE (Some (IntField ''preserve_crtimes'')) 1,
      entry ''no-crtimes'' '''' POPT_ARG_VAL (Some (IntField ''preserve_crtimes'')) 0,
      entry ''no-N'' '''' POPT_ARG_VAL (Some (IntField ''preserve_crtimes'')) 0,
      entry ''omit-dir-times'' ''O'' POPT_ARG_VAL (Some (IntField ''omit_dir_times'')) 1,
      entry ''no-omit-dir-times'' '''' POPT_ARG_VAL (Some (IntField ''omit_dir_times'')) 0,
      entry ''no-O'' '''' POPT_ARG_VAL (Some (IntField ''omit_dir_times'')) 0,
      entry ''omit-link-times'' ''J'' POPT_ARG_VAL (Some (IntField ''omit_link_times'')) 1,
      entry ''no-omit-link-times'' '''' POPT_ARG_VAL (Some (IntField ''omit_link_times'')) 0,
      entry ''no-J'' '''' POPT_ARG_VAL (Some (IntField ''omit_link_times'')) 0,
      entry ''modify-window'' ''@'' POPT_ARG_INT (Some (IntField ''modify_window'')) OPT_MODIFY_WINDOW,
      entry ''super'' '''' POPT_ARG_VAL (Some (IntField ''am_root'')) 2,
      entry ''no-super'' '''' POPT_ARG_VAL (Some (IntField ''am_root'')) 0,
      entry ''fake-super'' '''' POPT_ARG_VAL (Some (IntField ''am_root'')) (-1),
      entry ''owner'' ''o'' POPT_ARG_VAL (Some (IntField ''preserve_uid'')) 1,
      entry ''no-owner'' '''' POPT_ARG_VAL (Some (IntField ''preserve_uid'')) 0,
      entry ''no-o'' '''' POPT_ARG_VAL (Some (IntField ''preserve_uid'')) 0,
      entry ''group'' ''g'' POPT_ARG_VAL (Some (IntField ''preserve_gid'')) 1,
      entry ''no-group'' '''' POPT_ARG_VAL (Some (IntField ''preserve_gid'')) 0,
      entry ''no-g'' '''' POPT_ARG_VAL (Some (IntField ''preserve_gid'')) 0,
      entry '''' ''D'' POPT_ARG_NONE None (rune (CHR ''D'')),
      entry ''no-D'' '''' POPT_ARG_NONE None OPT_NO_D,
      entry ''devices'' '''' POPT_ARG_VAL (Some (IntField ''preserve_devices'')) 1,
      entry ''no-devices'' '''' POPT_ARG_VAL (Some (IntField ''preserve_devices'')) 0,
      entry ''copy-devices'' '''' POPT_ARG_NONE (Some (IntField ''copy_devices'')) 0,
      entry ''write-devices'' '''' POPT_ARG_VAL (Some (IntField ''write_devices'')) 1,
      entry ''no-write-devices'' '''' POPT_ARG_VAL (Some (IntField ''write_devices'')) 0,
      entry ''specials'' '''' POPT_ARG_VAL (Some (IntField ''preserve_specials'')) 1,
      entry ''no-specials'' '''' POPT_ARG_VAL (Some (IntField ''preserve_specials'')) 0,
      entry ''links'' ''l'' POPT_ARG_VAL (Some (IntField ''preserve_links'')) 1,
      entry ''no-links'' '''' POPT_ARG_VAL (Some (IntField ''preserve_links'')) 0,
      entry ''no-l'' '''' POPT_ARG_VAL (Some (IntField ''preserve_links'')) 0,
      entry ''copy-links'' ''L'' POPT_ARG_NONE (Some (IntField ''copy_links'')) 0,
      entry ''copy-unsafe-links'' '''' POPT_ARG_NONE (Some (IntField ''copy_unsafe_links'')) 0,
      entry ''safe-links'' '''' POPT_ARG_NONE (Some (IntField ''safe_symlinks'')) 0,
      entry ''munge-links'' '''' POPT_ARG_VAL (Some (IntField ''munge_symlinks'')) 1,
      entry ''no-munge-links'' '''' POPT_ARG_VAL (Some (IntField ''munge_symlinks'')) 0,
      entry ''copy-dirlinks'' ''k'' POPT_ARG_NONE (Some (IntField ''copy_dirlinks'')) 0,
      entry ''keep-dirlinks'' ''K'' POPT_ARG_NONE (Some (IntField ''keep_dirlinks'')) 0,
      entry ''hard-links'' ''H'' POPT_ARG_NONE None (rune (CHR ''H''))]"

definition tridge_table_2 :: "popt_option list" where
  "tridge_table_2 =
     [entry ''no-hard-links'' '''' POPT_ARG_VAL (Some (IntField ''preserve_hard_links'')) 0,
      entry ''no-H'' '''' POPT_ARG_VAL (Some (IntField ''preserve_hard_links'')) 0,
      entry ''relative'' ''R'' POPT_ARG_VAL (Some (IntField ''relative_paths'')) 1,
      entry ''no-relative'' '''' POPT_ARG_VAL (Some (IntField ''relative_paths'')) 0,
      entry ''no-R'' '''' POPT_ARG_VAL (Some (IntField ''relative_paths'')) 0,
      entry ''implied-dirs'' '''' POPT_ARG_VAL (Some (IntField ''implied_dirs'')) 1,
      entry ''no-implied-dirs'' '''' POPT_ARG_VAL (Some (IntField ''implied_dirs'')) 0,
      entry ''i-d'' '''' POPT_ARG_VAL (Some (IntField ''implied_dirs'')) 1,
      entry ''no-i-d'' '''' POPT_ARG_VAL (Some (IntField ''implied_dirs'')) 0,
      entry ''chmod'' '''' POPT_ARG_STRING None OPT_CHMOD,
      entry ''ignore-times'' ''I'' POPT_ARG_NONE (Some (IntField ''ignore_times'')) 0,
      entry ''size-only'' '''' POPT_ARG_NONE (Some (IntField ''size_only'')) 0,
      entry ''one-file-system'' ''x'' POPT_ARG_NONE None (rune (CHR ''x'')),
      entry ''no-one-file-system'' '''' POPT_ARG_VAL (Some (IntField ''one_file_system'')) 0,
      entry ''no-x'' '''' POPT_ARG_VAL (Some (IntField ''one_file_system'')) 0,
      entry ''update'' ''u'' POPT_ARG_NONE (Some (IntField ''update_only'')) 0,
      entry ''existing'' '''' POPT_ARG_NONE (Some (IntField ''ignore_non_existing'')) 0,
      entry ''ignore-non-existing'' '''' POPT_ARG_NONE (Some (IntField ''ignore_non_existing'')) 0,
      entry ''ignore-existing'' '''' POPT_ARG_NONE (Some (IntField ''ignore_existing'')) 0,
      entry ''max-size'' '''' POPT_ARG_STRING (Some (StrField ''max_size_arg'')) OPT_MAX_SIZE,
      entry ''min-size'' '''' POPT_ARG_STRING (Some (StrField ''min_size_arg'')) OPT_MIN_SIZE,
      entry ''max-alloc'' '''' POPT_ARG_STRING (Some (StrField ''max_alloc_arg'')) 0,
      entry ''sparse'' ''S'' POPT_ARG_VAL (Some (IntField ''sparse_files'')) 1,
      entry ''no-sparse'' '''' POPT_ARG_VAL (Some (IntField ''sparse_files'')) 0,
      entry ''no-S'' '''' POPT_ARG_VAL (Some (IntField ''sparse_files'')) 0,
      entry ''preallocate'' '''' POPT_ARG_NONE (Some (IntField ''preallocate_files'')) 0,
      entry ''inplace'' '''' POPT_ARG_VAL (Some (IntField ''inplace'')) 1,
      entry ''no-inplace'' '''' POPT_ARG_VAL (Some (IntField ''inplace'')) 0,
      entry ''append'' '''' POPT_ARG_NONE None OPT_APPEND,
      entry ''append-verify'' '''' POPT_ARG_VAL (Some (IntField ''append_mode'')) 2,
      entry ''no-append'' '''' POPT_ARG_VAL (Some (IntField ''append_mode'')) 0,
      entry ''del'' '''' POPT_ARG_NONE (Some (IntField ''delete_during'')) 0,
      entry ''delete'' '''' POPT_ARG_NONE (Some (IntField ''delete_mode'')) 0,
      entry ''delete-before'' '''' POPT_ARG_NONE (Some (IntField ''delete_before'')) 0,
      entry ''delete-during'' '''' POPT_ARG_VAL (Some (IntField ''delete_during'')) 1,
      entry ''delete-delay'' '''' POPT_ARG_VAL (Some (IntField ''delete_during'')) 2,
      entry ''delete-after'' '''' POPT_ARG_NONE (Some (IntField ''delete_after'')) 0,
      entry ''delete-excluded'' '''' POPT_ARG_NONE (Some (IntField ''delete_excluded'')) 0,
      entry ''delete-missing-args'' '''' POPT_BIT_SET (Some (IntField ''missing_args'')) 2,
      entry ''ignore-missing-args'' '''' POPT_BIT_SET (Some (IntField ''missing_args'')) 1,
      entry ''remove-sent-files'' '''' POPT_ARG_VAL (Some (IntField ''remove_source_files'')) 2,
      entry ''remove-source-files'' '''' POPT_ARG_VAL (Some (IntField ''remove_source_files'')) 1,
      entry ''force'' '''' POPT_ARG_VAL (Some (IntField ''force_delete'')) 1,
      entry ''no-force'' '''' POPT_ARG_VAL (Some (IntField ''force_delete'')) 0,
      entry ''ignore-errors'' '''' POPT_ARG_VAL (Some (IntField ''ignore_errors'')) 1,
      entry ''no-ignore-errors'' '''' POPT_ARG_VAL (Some (IntField ''ignore_errors'')) 0,
      entry ''max-delete'' '''' POPT_ARG_INT (Some (IntField ''max_delete'')) 0,
      entry '''' ''F'' POPT_ARG_NONE None (rune (CHR ''F'')),
      entry ''filter'' ''f'' POPT_ARG_STRING None OPT_FILTER,
      entry ''exclude'' '''' POPT_ARG_STRING None OPT_EXCLUDE,
      entry ''include'' '''' POPT_ARG_STRING None OPT_INCLUDE,
      entry ''exclude-from'' '''' POPT_ARG_STRING None OPT_EXCLUDE_FROM,
      entry ''include-from'' '''' POPT_ARG_STRING None OPT_INCLUDE_FROM,
      entry ''cvs-exclude'' ''C'' POPT_ARG_NONE (Some (IntField ''cvs_exclude'')) 0,
      entry ''whole-file'' ''W'' POPT_ARG_VAL (Some (IntField ''whole_file'')) 1,
      entry ''no-whole-file'' '''' POPT_ARG_VAL (Some (IntField ''whole_file'')) 0,
      entry ''no-W'' '''' POPT_ARG_VAL (Some (IntField ''whole_file'')) 0,
      entry ''checksum'' ''c'' POPT_ARG_VAL (Some (IntField ''always_checksum'')) 1,
      entry ''no-checksum'' '''' POPT_ARG_VAL (Some (IntField ''always_checksum'')) 0,
      entry ''no-c'' '''' POPT_ARG_VAL (Some (IntField ''always_checksum'')) 0,
      entry ''checksum-choice'' '''' POPT_ARG_STRING (Some (StrField ''checksum_choice'')) 0,
      entry ''cc'' '''' POPT_ARG_STRING (Some (StrField ''checksum_choice'')) 0,
      entry ''block-size'' ''B'' POPT_ARG_STRING None OPT_BLOCK_SIZE,
      entry ''compare-dest'' '''' POPT_ARG_STRING None OPT_COMPARE_DEST,
      entry ''copy-dest'' '''' POPT_ARG_STRING None OPT_COPY_DEST,
      entry ''link-dest'' '''' POPT_ARG_STRING None OPT_LINK_DEST,
      entry ''fuzzy'' ''y'' POPT_ARG_NONE None (rune (CHR ''y'')),
      entry ''no-fuzzy'' '''' POPT_ARG_VAL (Some (IntField ''fuzzy_basis'')) 0,
      entry ''no-y'' '''' POPT_ARG_VAL (Some (IntField ''fuzzy_basis'')) 0,
      entry ''compress'' ''z'' POPT_ARG_NONE None (rune (CHR ''z'')),
      entry ''old-compress'' '''' POPT_ARG_NONE None OPT_OLD_COMPRESS,
      entry ''new-compress'' '''' POPT_ARG_NONE None OPT_NEW_COMPRESS,
      entry ''no-compress'' '''' POPT_ARG_NONE None OPT_NO_COMPRESS,
      entry ''no-z'' '''' POPT_ARG_NONE None OPT_NO_COMPRESS,
      entry ''compress-choice'' '''' POPT_ARG_STRING (Some (StrField ''compress_choice'')) 0,
      entry ''zc'' '''' POPT_ARG_STRING (Some (StrField ''compress_choice'')) 0,
      entry ''skip-compress'' '''' POPT_ARG_STRING (Some (StrField ''skip_compress'')) 0,
      entry ''compress-level'' '''' POPT_ARG_INT (Some (IntField ''do_compression_level'')) 0,
      entry ''zl'' '''' POPT_ARG_INT (Some (IntField ''do_compression_level'')) 0,
      entry '''' ''P'' POPT_ARG_NONE None (rune (CHR ''P'')),
      entry ''progress'' '''' POPT_ARG_VAL (Some (IntField ''do_progress'')) 1,
      entry ''no-progress'' '''' POPT_ARG_VAL (Some (IntField ''do_progress'')) 0,
      entry ''partial'' '''' POPT_ARG_VAL (Some (IntField ''keep_partial'')) 1,
      entry ''no-partial'' '''' POPT_ARG_VAL (Some (IntField ''keep_partial'')) 0,
      entry ''partial-dir'' '''' POPT_ARG_STRING (Some (StrField ''partial_dir'')) 0,
      entry ''delay-updates'' '''' POPT_ARG_VAL (Some (IntField ''delay_updates'')) 1,
      entry ''no-delay-updates'' '''' POPT_ARG_VAL (Some (IntField ''delay_updates'')) 0,
      entry ''prune-empty-dirs'' ''m'' POPT_ARG_VAL (Some (IntField ''prune_empty_dirs'')) 1]"

definition tridge_table_3 :: "popt_option list" where
  "tridge_table_3 =
     [entry ''no-prune-empty-dirs'' '''' POPT_ARG_VAL (Some (IntField ''prune_empty_dirs'')) 0,
      entry ''no-m'' '''' POPT_ARG_VAL (Some (IntField ''prune_empty_dirs'')) 0,
      entry ''log-file'' '''' POPT_ARG_STRING (Some (StrField ''logfile_name'')) 0,
      entry ''log-file-format'' '''' POPT_ARG_STRING (Some (StrField ''logfile_format'')) 0,
      entry ''out-format'' '''' POPT_ARG_STRING (Some (StrField ''stdout_format'')) 0,
      entry ''log-format'' '''' POPT_ARG_STRING (Some (StrField ''stdout_format'')) 0,
      entry ''itemize-changes'' ''i'' POPT_ARG_NONE None (rune (CHR ''i'')),
      entry ''no-itemize-changes'' '''' POPT_ARG_VAL (Some (IntField ''itemize_changes'')) 0,
      entry ''no-i'' '''' POPT_ARG_VAL (Some (IntField ''itemize_changes'')) 0,
      entry ''bwlimit'' '''' POPT_ARG_STRING (Some (StrField ''bwlimit_arg'')) OPT_BWLIMIT,
      entry ''no-bwlimit'' '''' POPT_ARG_VAL (Some (IntField ''bwlimit'')) 0,
      entry ''backup'' ''b'' POPT_ARG_VAL (Some (IntField ''make_backups'')) 1,
      entry ''no-backup'' '''' POPT_ARG_VAL (Some (IntField ''make_backups'')) 0,
      entry ''backup-dir'' '''' POPT_ARG_STRING (Some (StrField ''backup_dir'')) 0,
      entry ''suffix'' '''' POPT_ARG_STRING (Some (StrField ''backup_suffix'')) 0,
      entry ''list-only'' '''' POPT_ARG_VAL (Some (IntField ''list_only'')) 2,
      entry ''read-batch'' '''' POPT_ARG_STRING (Some (StrField ''batch_name'')) OPT_READ_BATCH,
      entry ''write-batch'' '''' POPT_ARG_STRING (Some (StrField ''batch_name'')) OPT_WRITE_BATCH,
      entry ''only-write-batch'' '''' POPT_ARG_STRING (Some (StrField ''batch_name'')) OPT_ONLY_WRITE_BATCH,
      entry ''files-from'' '''' POPT_ARG_STRING (Some (StrField ''files_from'')) 0,
      entry ''from0'' ''0'' POPT_ARG_VAL (Some (IntField ''eol_nulls'')) 1,
      entry ''no-from0'' '''' POPT_ARG_VAL (Some (IntField ''eol_nulls'')) 0,
      entry ''old-args'' '''' POPT_ARG_NONE None OPT_OLD_ARGS,
      entry ''no-old-args'' '''' POPT_ARG_VAL (Some (IntField ''old_style_args'')) 0,
      entry ''secluded-args'' ''s'' POPT_ARG_VAL (Some (IntField ''protect_args'')) 1,
      entry ''no-secluded-args'' '''' POPT_ARG_VAL (Some (IntField ''protect_args'')) 0,
      entry ''protect-args'' '''' POPT_ARG_VAL (Some (IntField ''protect_args'')) 1,
      entry ''no-protect-args'' '''' POPT_ARG_VAL (Some (IntField ''protect_args'')) 0,
      entry ''no-s'' '''' POPT_ARG_VAL (Some (IntField ''protect_args'')) 0,
      entry ''trust-sender'' '''' POPT_ARG_VAL (Some (IntField ''trust_sender'')) 1,
      entry ''numeric-ids'' '''' POPT_ARG_VAL (Some (IntField ''numeric_ids'')) 1,
      entry ''no-numeric-ids'' '''' POPT_ARG_VAL (Some (IntField ''numeric_ids'')) 0,
      entry ''usermap'' '''' POPT_ARG_STRING None OPT_USERMAP,
      entry ''groupmap'' '''' POPT_ARG_STRING None OPT_GROUPMAP,
      entry ''chown'' '''' POPT_ARG_STRING None OPT_CHOWN,
      entry ''timeout'' '''' POPT_ARG_INT (Some (IntField ''io_timeout'')) 0,
      entry ''no-timeout'' '''' POPT_ARG_VAL (Some (IntField ''io_timeout'')) 0,
      entry ''contimeout'' '''' POPT_ARG_INT (Some (IntField ''connect_timeout'')) 0,
      entry ''no-contimeout'' '''' POPT_ARG_VAL (Some (IntField ''connect_timeout'')) 0,
      entry ''fsync'' '''' POPT_ARG_NONE (Some (IntField ''do_fsync'')) 0,
      entry ''stop-after'' '''' POPT_ARG_STRING None OPT_STOP_AFTER,
      entry ''time-limit'' '''' POPT_ARG_STRING None OPT_STOP_AFTER,
      entry ''stop-at'' '''' POPT_ARG_STRING None OPT_STOP_AT,
      entry ''rsh'' ''e'' POPT_ARG_STRING (Some (StrField ''shell_cmd'')) 0,
      entry ''rsync-path'' '''' POPT_ARG_STRING (Some (StrField ''rsync_path'')) 0,
      entry ''temp-dir'' ''T'' POPT_ARG_STRING (Some (StrField ''tmpdir'')) 0,
      entry ''iconv'' '''' POPT_ARG_STRING (Some (StrField ''iconv_opt'')) 0,
      entry ''no-iconv'' '''' POPT_ARG_NONE None OPT_NO_ICONV,
      entry ''ipv4'' ''4'' POPT_ARG_VAL (Some (IntField ''default_af_hint'')) AF_INET,
      entry ''ipv6'' ''6'' POPT_ARG_VAL (Some (IntField ''default_af_hint'')) AF_INET6,
      entry ''protocol'' '''' POPT_ARG_INT (Some (IntField ''protocol_version'')) 0,
      entry ''8-bit-output'' ''8'' POPT_ARG_VAL (Some (IntField ''allow_8bit_chars'')) 1,
      entry ''no-8-bit-output'' '''' POPT_ARG_VAL (Some (IntField ''allow_8bit_chars'')) 0,
      entry ''no-8'' '''' POPT_ARG_VAL (Some (IntField ''allow_8bit_chars'')) 0,
      entry ''mkpath'' '''' POPT_ARG_VAL (Some (IntField ''mkpath_dest_arg'')) 1,
      entry ''no-mkpath'' '''' POPT_ARG_VAL (Some (IntField ''mkpath_dest_arg'')) 0,
      entry ''qsort'' '''' POPT_ARG_NONE (Some (IntField ''use_qsort'')) 0,
      entry ''copy-as'' '''' POPT_ARG_STRING (Some (StrField ''copy_as'')) 0,
      entry ''address'' '''' POPT_ARG_STRING (Some (StrField ''bind_address'')) 0,
      entry ''port'' '''' POPT_ARG_INT (Some (IntField ''rsync_port'')) 0,
      entry ''sockopts'' '''' POPT_ARG_STRING (Some (StrField ''sockopts'')) 0,
      entry ''password-file'' '''' POPT_ARG_STRING (Some (StrField ''password_file'')) 0,
      entry ''tls'' '''' POPT_ARG_NONE (Some (IntField ''tls'')) 0,
      entry ''no-tls'' '''' POPT_ARG_VAL (Some (IntField ''tls'')) 0,
      entry ''tls-ca'' '''' POPT_ARG_STRING (Some (StrField ''tls_ca'')) 0,
      entry ''tls-cert'' '''' POPT_ARG_STRING (Some (StrField ''tls_cert'')) 0,
      entry ''tls-key'' '''' POPT_ARG_STRING (Some (StrField ''tls_key'')) 0,
      entry ''tls-insecure'' '''' POPT_ARG_NONE (Some (IntField ''tls_insecure'')) 0,
      entry ''workers'' '''' POPT_ARG_INT (Some (IntField ''workers'')) 0,
      entry ''threads'' '''' POPT_ARG_INT (Some (IntField ''workers'')) 0,
      entry ''parallel'' '''' POPT_ARG_INT (Some (IntField ''workers'')) 0,
      entry ''early-input'' '''' POPT_ARG_STRING (Some (StrField ''early_input_file'')) 0,
      entry ''blocking-io'' '''' POPT_ARG_VAL (Some (IntField ''blocking_io'')) 1,
      entry ''no-blocking-io'' '''' POPT_ARG_VAL (Some (IntField ''blocking_io'')) 0,
      entry ''outbuf'' '''' POPT_ARG_STRING (Some (StrField ''outbuf_mode'')) 0,
      entry ''remote-option'' ''M'' POPT_ARG_STRING None (rune (CHR ''M'')),
      entry ''protocol'' '''' POPT_ARG_INT (Some (IntField ''protocol_version'')) 0,
      entry ''checksum-seed'' '''' POPT_ARG_INT (Some (IntField ''checksum_seed'')) 0,
      entry ''server'' '''' POPT_ARG_NONE None OPT_SERVER,
      entry ''sender'' '''' POPT_ARG_NONE None OPT_SENDER,
      entry ''config'' '''' POPT_ARG_STRING None OPT_DAEMON,
      entry ''daemon'' '''' POPT_ARG_NONE None OPT_DAEMON,
      entry ''dparam'' '''' POPT_ARG_STRING None OPT_DAEMON,
      entry ''detach'' '''' POPT_ARG_NONE None OPT_DAEMON,
      entry ''no-detach'' '''' POPT_ARG_NONE None OPT_DAEMON]"

definition tridge_table :: "popt_option list" where
  "tridge_table = tridge_table_1 @ tridge_table_2 @ tridge_table_3"

lemmas table_defs = client_table_def custom_daemon_table_def daemon_table_def
  rsync_table_def rsync_table_1_def rsync_table_2_def
  tridge_table_def tridge_table_1_def tridge_table_2_def tridge_table_3_def

definition new_options :: options where
  "new_options = tridgeDefaults\<lparr>o_table := tridge_table\<rparr>"

definition new_options_with_defaults :: options where
  "new_options_with_defaults = defaultOptions\<lparr>o_table := rsync_table\<rparr>"

definition new_popt_context :: "options \<Rightarrow> popt_context" where
  "new_popt_context opts =
     \<lparr>c_table = client_table @ o_table opts, c_args = [], nextCharArg = '''', nextArg = '''',
      Opts = opts, RemainingArgs = []\<rparr>"

definition daemon_popt_context :: "options \<Rightarrow> string list \<Rightarrow> popt_context" where
  "daemon_popt_context opts args =
     \<lparr>c_table = custom_daemon_table @ daemon_table, c_args = args, nextCharArg = '''', nextArg = '''',
      Opts = opts, RemainingArgs = []\<rparr>"

subsection \<open>Accessors\<close>

definition opt_ShellCommand :: "options \<Rightarrow> string" where "opt_ShellCommand os = o_str os ''shell_cmd''"
definition opt_RSYNCPath :: "options \<Rightarrow> string" where "opt_RSYNCPath os = o_str os ''rsync_path''"
definition opt_UpdateOnly :: "options \<Rightarrow> bool" where "opt_UpdateOnly os \<longleftrightarrow> o_int os ''update_only'' \<noteq> 0"
definition opt_DryRun :: "options \<Rightarrow> bool" where "opt_DryRun os \<longleftrightarrow> o_int os ''dry_run'' \<noteq> 0"
definition opt_PreserveLinks :: "options \<Rightarrow> bool" where "opt_PreserveLinks os \<longleftrightarrow> o_int os ''preserve_links'' \<noteq> 0"
definition opt_PreserveUid :: "options \<Rightarrow> bool" where "opt_PreserveUid os \<longleftrightarrow> o_int os ''preserve_uid'' \<noteq> 0"
definition opt_PreserveGid :: "options \<Rightarrow> bool" where "opt_PreserveGid os \<longleftrightarrow> o_int os ''preserve_gid'' \<noteq> 0"
definition opt_PreserveDevices :: "options \<Rightarrow> bool" where "opt_PreserveDevices os \<longleftrightarrow> o_int os ''preserve_devices'' \<noteq> 0"
definition opt_PreserveMTimes :: "options \<Rightarrow> bool" where "opt_PreserveMTimes os \<longleftrightarrow> o_int os ''preserve_mtimes'' \<noteq> 0"
definition opt_PreservePerms :: "options \<Rightarrow> bool" where "opt_PreservePerms os \<longleftrightarrow> o_int os ''preserve_perms'' \<noteq> 0"
definition opt_PreserveSpecials :: "options \<Rightarrow> bool" where "opt_PreserveSpecials os \<longleftrightarrow> o_int os ''preserve_specials'' \<noteq> 0"
definition opt_PreserveHardLinks :: "options \<Rightarrow> bool" where "opt_PreserveHardLinks os \<longleftrightarrow> o_int os ''preserve_hard_links'' \<noteq> 0"
definition opt_Recurse :: "options \<Rightarrow> bool" where "opt_Recurse os \<longleftrightarrow> o_int os ''recurse'' \<noteq> 0"
definition opt_Verbose :: "options \<Rightarrow> bool" where "opt_Verbose os \<longleftrightarrow> o_int os ''verbose'' \<noteq> 0"
definition opt_DeleteMode :: "options \<Rightarrow> bool" where "opt_DeleteMode os \<longleftrightarrow> o_int os ''delete_mode'' \<noteq> 0"
definition opt_DeleteExcluded :: "options \<Rightarrow> bool" where "opt_DeleteExcluded os \<longleftrightarrow> o_int os ''delete_excluded'' \<noteq> 0"
definition opt_Sender :: "options \<Rightarrow> bool" where "opt_Sender os \<longleftrightarrow> o_int os ''am_sender'' \<noteq> 0"
definition opt_ListOnlyVal :: "options \<Rightarrow> int" where "opt_ListOnlyVal os = o_int os ''list_only''"
definition opt_LocalServer :: "options \<Rightarrow> bool" where "opt_LocalServer os \<longleftrightarrow> o_int os ''local_server'' \<noteq> 0"
definition opt_Server :: "options \<Rightarrow> bool" where "opt_Server os \<longleftrightarrow> o_int os ''am_server'' \<noteq> 0"
definition opt_Daemon :: "options \<Rightarrow> bool" where "opt_Daemon os \<longleftrightarrow> o_int os ''am_daemon'' \<noteq> 0"
definition opt_ConnectTimeoutSeconds :: "options \<Rightarrow> int" where "opt_ConnectTimeoutSeconds os = o_int os ''connect_timeout''"
definition opt_IOTimeoutSeconds :: "options \<Rightarrow> int" where "opt_IOTimeoutSeconds os = o_int os ''io_timeout''"
definition opt_BWLimit :: "options \<Rightarrow> int" where "opt_BWLimit os = o_int os ''bwlimit''"
definition opt_SizeOnly :: "options \<Rightarrow> bool" where "opt_SizeOnly os \<longleftrightarrow> o_int os ''size_only'' \<noteq> 0"
definition opt_TempDir :: "options \<Rightarrow> string" where "opt_TempDir os = o_str os ''tmpdir''"
definition opt_AlwaysChecksum :: "options \<Rightarrow> bool" where "opt_AlwaysChecksum os \<longleftrightarrow> o_int os ''always_checksum'' \<noteq> 0"
definition opt_WholeFile :: "options \<Rightarrow> bool" where "opt_WholeFile os \<longleftrightarrow> o_int os ''whole_file'' > 0"
definition opt_IgnoreTimes :: "options \<Rightarrow> bool" where "opt_IgnoreTimes os \<longleftrightarrow> o_int os ''ignore_times'' \<noteq> 0"
definition opt_OutputMOTD :: "options \<Rightarrow> bool" where "opt_OutputMOTD os \<longleftrightarrow> o_int os ''output_motd'' \<noteq> 0"
definition opt_RsyncPort :: "options \<Rightarrow> int" where "opt_RsyncPort os = o_int os ''rsync_port''"
definition opt_PasswordFile :: "options \<Rightarrow> string" where "opt_PasswordFile os = o_str os ''password_file''"
definition opt_TLS :: "options \<Rightarrow> bool" where "opt_TLS os \<longleftrightarrow> o_int os ''tls'' \<noteq> 0"
definition opt_TLSCA :: "options \<Rightarrow> string" where "opt_TLSCA os = o_str os ''tls_ca''"
definition opt_TLSCert :: "options \<Rightarrow> string" where "opt_TLSCert os = o_str os ''tls_cert''"
definition opt_TLSKey :: "options \<Rightarrow> string" where "opt_TLSKey os = o_str os ''tls_key''"
definition opt_TLSInsecure :: "options \<Rightarrow> bool" where "opt_TLSInsecure os \<longleftrightarrow> o_int os ''tls_insecure'' \<noteq> 0"
definition opt_XferDirs :: "options \<Rightarrow> int" where "opt_XferDirs os = o_int os ''xfer_dirs''"

lemmas accessors = opt_ShellCommand_def opt_RSYNCPath_def opt_UpdateOnly_def opt_DryRun_def
  opt_PreserveLinks_def opt_PreserveUid_def opt_PreserveGid_def opt_PreserveDevices_def
  opt_PreserveMTimes_def opt_PreservePerms_def opt_PreserveSpecials_def opt_PreserveHardLinks_def
  opt_Recurse_def opt_Verbose_def opt_DeleteMode_def opt_DeleteExcluded_def
  opt_Sender_def opt_ListOnlyVal_def opt_LocalServer_def opt_Server_def
  opt_Daemon_def opt_ConnectTimeoutSeconds_def opt_IOTimeoutSeconds_def opt_BWLimit_def
  opt_SizeOnly_def opt_TempDir_def opt_AlwaysChecksum_def opt_WholeFile_def
  opt_IgnoreTimes_def opt_OutputMOTD_def opt_RsyncPort_def opt_PasswordFile_def
  opt_TLS_def opt_TLSCA_def opt_TLSCert_def opt_TLSKey_def
  opt_TLSInsecure_def opt_XferDirs_def

definition set_sender :: "options \<Rightarrow> options" where
  "set_sender os = os\<lparr>o_int := (o_int os)(''am_sender'' := 1)\<rparr>"

definition set_list_only :: "options \<Rightarrow> options" where
  "set_list_only os =
     (let os = os\<lparr>o_int := (o_int os)(''list_only'' := 1)\<rparr>
      in if o_int os ''recurse'' = 0 then os\<lparr>o_int := (o_int os)(''xfer_dirs'' := 1)\<rparr> else os)"

definition restore_list_only :: "int \<Rightarrow> int \<Rightarrow> options \<Rightarrow> options" where
  "restore_list_only listOnly xferDirs os =
     os\<lparr>o_int := (o_int os)(''list_only'' := listOnly, ''xfer_dirs'' := xferDirs)\<rparr>"

definition set_local_server :: "options \<Rightarrow> options" where
  "set_local_server os = os\<lparr>o_int := (o_int os)(''local_server'' := 1)\<rparr>"

text \<open>\<open>NumCPU\<close> is \<open>runtime.NumCPU()\<close>.\<close>

definition worker_count :: "int \<Rightarrow> options \<Rightarrow> int" where
  "worker_count NumCPU os = (if o_int os ''workers'' > 0 then o_int os ''workers'' else NumCPU * 2)"

definition protocol_version :: "options \<Rightarrow> int" where
  "protocol_version os = (if o_int os ''protocol_version'' > 0 then o_int os ''protocol_version'' else 27)"

definition info_gte :: "options \<Rightarrow> nat \<Rightarrow> int \<Rightarrow> bool" where
  "info_gte os flag lvl \<longleftrightarrow> o_info os ! flag \<ge> lvl"

definition opt_Progress :: "options \<Rightarrow> bool" where
  "opt_Progress os \<longleftrightarrow> o_info os ! INFO_PROGRESS > 0"

end
