(* ===== verification/Send_Flist.thy ===== *)
theory Send_Flist
  imports Sender Exclude Go_Walk Opt_Tables File_Modes
begin

text \<open>
  \<open>internal/sender/flist.go\<close>: walking the requested paths and writing the file list, entry by
  entry, followed by the tables of user and group names and the I/O error flag.
\<close>

subsection \<open>Names on the wire\<close>

definition FileSystemRoot :: string where "FileSystemRoot = ''/''"

definition get_strip :: "string \<Rightarrow> string" where
  "get_strip requested =
     (if requested = ''/'' then ''''
      else if has_suffix requested ''/'' then trim_prefix (clean requested) ''/'' @ ''/''
      else '''')"

text \<open>The directory to open and the path requested in it.\<close>

definition scope :: "string \<Rightarrow> string \<Rightarrow> string \<times> string" where
  "scope localDir requested =
     (if localDir = FileSystemRoot then
        (if has_suffix requested ''/'' then (clean requested, ''/'') else (dir_of requested, base requested))
      else (localDir, requested))"

definition walk_start :: "string \<Rightarrow> string" where
  "walk_start requested = clean (if has_prefix requested ''/'' then CHR ''.'' # requested else requested)"

definition wire_name :: "string \<Rightarrow> string \<Rightarrow> string" where
  "wire_name strip path = trim_prefix (if strip \<noteq> '''' then trim_prefix path strip else path) ''/''"

subsection \<open>What an entry says\<close>

definition fi_is_dir :: "file_info \<Rightarrow> bool" where
  "fi_is_dir info \<longleftrightarrow> fi_mode info AND ModeDir \<noteq> 0"

definition has_type :: "file_info \<Rightarrow> int \<Rightarrow> bool" where
  "has_type info t \<longleftrightarrow> (fi_mode info AND ModeType) AND t \<noteq> 0"

definition send_is_dev :: "file_info \<Rightarrow> bool" where
  "send_is_dev info \<longleftrightarrow> has_type info ModeCharDevice \<or> has_type info ModeDevice"

definition send_is_special :: "file_info \<Rightarrow> bool" where
  "send_is_special info \<longleftrightarrow> has_type info ModeNamedPipe \<or> has_type info ModeSocket"

definition send_mode :: "file_info \<Rightarrow> int" where
  "send_mode info =
     (let m0 = fi_mode info AND ModePerm;
          m1 = (if fi_is_dir info then m0 OR S_IFDIR
                else if is_regular (fi_mode info) then m0 OR S_IFREG
                else if has_type info ModeSymlink then m0 OR S_IFLNK
                else m0);
          m2 = (if has_type info ModeCharDevice then m1 OR S_IFCHR
                else if has_type info ModeDevice then m1 OR S_IFBLK else m1);
          m3 = (if has_type info ModeNamedPipe then m2 OR S_IFIFO else m2)
      in if has_type info ModeSocket then m3 OR S_IFSOCK else m3)"

definition uid_from_file_info :: "file_info \<Rightarrow> int \<times> bool" where
  "uid_from_file_info info = (case fi_sys info of None \<Rightarrow> (0, False) | Some (u, g, r) \<Rightarrow> (i32 u, True))"

definition gid_from_file_info :: "file_info \<Rightarrow> int \<times> bool" where
  "gid_from_file_info info = (case fi_sys info of None \<Rightarrow> (0, False) | Some (u, g, r) \<Rightarrow> (i32 g, True))"

definition rdev_from_file_info :: "file_info \<Rightarrow> int \<times> bool" where
  "rdev_from_file_info info = (case fi_sys info of None \<Rightarrow> (0, False) | Some (u, g, r) \<Rightarrow> (i32 r, True))"

text \<open>A directory always has the size 4096 on the wire.\<close>

definition send_size :: "file_info \<Rightarrow> int" where
  "send_size info = (if fi_is_dir info then 4096 else fi_size info)"

text \<open>The fixed part of an entry: flags, name, size, time, mode.\<close>

definition entry_head :: "string \<Rightarrow> string \<Rightarrow> file_info \<Rightarrow> byte list \<Rightarrow> byte list" where
  "entry_head path name info fec =
     buf_write_int32 (send_mode info) (
     buf_write_int32 (i32 (t_sec (fi_mtime info))) (
     buf_write_int64 (send_size info) (
     buf_write_string name (
     buf_write_int32 (i32 (int (length name))) (
     buf_write_byte (word_of_int (if path = ''.'' then XMIT_LONG_NAME OR XMIT_TOP_DIR else XMIT_LONG_NAME)) fec)))))"

definition entry_ids :: "options \<Rightarrow> file_info \<Rightarrow> byte list \<Rightarrow> byte list" where
  "entry_ids os info fec =
     (let fec1 = (if opt_PreserveUid os then buf_write_int32 (fst (uid_from_file_info info)) fec else fec);
          fec2 = (if opt_PreserveGid os then buf_write_int32 (fst (gid_from_file_info info)) fec1 else fec1)
      in if opt_PreserveDevices os \<and> send_is_dev info \<or> opt_PreserveSpecials os \<and> send_is_special info
         then buf_write_int32 (fst (rdev_from_file_info info)) fec2 else fec2)"

definition entry_link :: "options \<Rightarrow> file_source \<Rightarrow> string \<Rightarrow> file_info \<Rightarrow> byte list \<Rightarrow> go_error + byte list" where
  "entry_link os src path info fec =
     (if opt_PreserveLinks os \<and> has_type info ModeSymlink then
        (case src_readlink src path of
           Inl e \<Rightarrow> Inl e
         | Inr target \<Rightarrow> Inr (buf_write_string target (buf_write_int32 (i32 (int (length target))) fec)))
      else Inr fec)"

definition entry_sum ::
  "(byte list \<Rightarrow> byte list) \<Rightarrow> options \<Rightarrow> file_source \<Rightarrow> string \<Rightarrow> file_info \<Rightarrow> byte list \<Rightarrow> go_error + byte list" where
  "entry_sum md4 os src path info fec =
     (if opt_AlwaysChecksum os then
        (if is_regular (fi_mode info) then
           (case reader_checksum md4 (src_reopen src path) of
              Inl e \<Rightarrow> Inl e
            | Inr s \<Rightarrow> Inr (buf_write_string (string_of_bytes s) fec))
         else Inr (buf_write_string (string_of_bytes (replicate 16 0)) fec))
      else Inr fec)"

definition entry_of ::
  "(byte list \<Rightarrow> byte list) \<Rightarrow> options \<Rightarrow> file_source \<Rightarrow> string \<Rightarrow> string \<Rightarrow> file_info \<Rightarrow> go_error + byte list" where
  "entry_of md4 os src path name info =
     (case entry_link os src path info (entry_ids os info (entry_head path name info [])) of
        Inl e \<Rightarrow> Inl e
      | Inr fec \<Rightarrow> entry_sum md4 os src path info fec)"

subsection \<open>The walk\<close>

text \<open>
  What a walk adds to: the file list, and the names of users and groups in the order in which
  they were first seen.
\<close>

record walker = search +
  w_Files :: "sfile list"
  w_TotalSize :: int
  w_uidMap :: "(int \<times> string) list"
  w_gidMap :: "(int \<times> string) list"
  w_ioErrors :: int

definition io_error :: "(unit, walker) act" where
  "io_error = modify (\<lambda>w. w\<lparr>w_ioErrors := 1\<rparr>)"

text \<open>\<open>lookup True\<close> is \<open>user.LookupId\<close>, \<open>lookup False\<close> is \<open>user.LookupGroupId\<close>.\<close>

definition note_id :: "(int \<Rightarrow> string option) \<Rightarrow> int \<times> bool \<Rightarrow> (int \<times> string) list \<Rightarrow> (int \<times> string) list" where
  "note_id lookup i ids =
     (if snd i \<and> map_of ids (fst i) = None \<and> fst i \<noteq> 0
      then (case lookup (fst i) of None \<Rightarrow> ids | Some name \<Rightarrow> ids @ [(fst i, name)])
      else ids)"

definition note_ids :: "options \<Rightarrow> (bool \<Rightarrow> int \<Rightarrow> string option) \<Rightarrow> file_info \<Rightarrow> (unit, walker) act" where
  "note_ids os lookup info =
     bnd (when_do (opt_PreserveUid os)
            (modify (\<lambda>w. w\<lparr>w_uidMap := note_id (lookup True) (uid_from_file_info info) (w_uidMap w)\<rparr>))) (\<lambda>_.
     when_do (opt_PreserveGid os)
            (modify (\<lambda>w. w\<lparr>w_gidMap := note_id (lookup False) (gid_from_file_info info) (w_gidMap w)\<rparr>)))"

definition add_file :: "file_source \<Rightarrow> string \<Rightarrow> string \<Rightarrow> file_info \<Rightarrow> (unit, walker) act" where
  "add_file src path name info =
     modify (\<lambda>w. w\<lparr>w_Files := w_Files w @ [\<lparr>sf_source = src, sf_path = path, Wpath = name,
         sf_regular = is_regular (fi_mode info), sf_Length = fi_size info\<rparr>],
       w_TotalSize := w_TotalSize w + send_size info\<rparr>)"

definition walk_file ::
  "(byte list \<Rightarrow> byte list) \<Rightarrow> options \<Rightarrow> (bool \<Rightarrow> int \<Rightarrow> string option) \<Rightarrow> filter_rule list \<Rightarrow> file_source \<Rightarrow>
   string \<Rightarrow> string \<Rightarrow> file_info \<Rightarrow> (walk_sig, walker) act" where
  "walk_file md4 os lookup excl src strip path info =
     (if fi_is_dir info \<and> opt_XferDirs os = 0 then ret SkipDir
      else let name = wire_name strip path in
        if list_matches excl name then ret (if fi_is_dir info then SkipDir else Continue)
        else
          bnd (add_file src path name info) (\<lambda>_.
          bnd (note_ids os lookup info) (\<lambda>_.
          case entry_of md4 os src path name info of
            Inl e \<Rightarrow> throw e
          | Inr fec \<Rightarrow>
              bnd (write_string (string_of_bytes fec)) (\<lambda>_.
              ret (if fi_is_dir info \<and> \<not> opt_Recurse os then SkipDir else Continue)))))"

definition walk_fn ::
  "(byte list \<Rightarrow> byte list) \<Rightarrow> options \<Rightarrow> (bool \<Rightarrow> int \<Rightarrow> string option) \<Rightarrow> filter_rule list \<Rightarrow> file_source \<Rightarrow>
   string \<Rightarrow> string \<Rightarrow> dir_entry option \<Rightarrow> go_error option \<Rightarrow> (walk_sig, walker) act" where
  "walk_fn md4 os lookup excl src strip path d err =
     (case (err, d) of
        (None, Some de) \<Rightarrow>
          (case de_info de of
             Inl e \<Rightarrow> bnd io_error (\<lambda>_. ret Continue)
           | Inr info \<Rightarrow> walk_file md4 os lookup excl src strip path info)
      | _ \<Rightarrow> bnd io_error (\<lambda>_. ret Continue))"

text \<open>What \<open>fs.WalkDir\<close> asks of the source.\<close>

definition ask :: "(string \<Rightarrow> go_error + 'a) \<Rightarrow> string \<Rightarrow> ('a, 's) act" where
  "ask f name s = (f name, s)"

definition walk_source ::
  "nat \<Rightarrow> (byte list \<Rightarrow> byte list) \<Rightarrow> options \<Rightarrow> (bool \<Rightarrow> int \<Rightarrow> string option) \<Rightarrow> filter_rule list \<Rightarrow> file_source \<Rightarrow>
   string \<Rightarrow> (unit, walker) act" where
  "walk_source depth md4 os lookup excl src requested =
     walk_root depth (ask (src_stat src)) (ask (src_readdir src)) de_dir
       (walk_fn md4 os lookup excl src (get_strip requested)) (walk_start requested)"

text \<open>One requested path: \<open>st.Source\<close> if there is one, otherwise the root of the directory.\<close>

definition walk_path ::
  "nat \<Rightarrow> (byte list \<Rightarrow> byte list) \<Rightarrow> options \<Rightarrow> (bool \<Rightarrow> int \<Rightarrow> string option) \<Rightarrow> filter_rule list \<Rightarrow>
   file_source option \<Rightarrow> (string \<Rightarrow> go_error + file_source) \<Rightarrow> string \<Rightarrow> string \<Rightarrow> (unit, walker) act" where
  "walk_path depth md4 os lookup excl source open_root localDir path =
     (let (dir, requested) = scope localDir path in
      case (case source of Some src \<Rightarrow> Inr src | None \<Rightarrow> open_root dir) of
        Inl e \<Rightarrow> throw (Errorf ''i/o error: requested module path is not accessible'' [])
      | Inr src \<Rightarrow> walk_source depth md4 os lookup excl src requested)"

subsection \<open>The end of the list\<close>

definition id_bytes :: "int \<times> string \<Rightarrow> byte list \<Rightarrow> byte list" where
  "id_bytes = (\<lambda>(i, name) fec.
     buf_write_string name (buf_write_byte (word_of_int (int (length name))) (buf_write_int32 i fec)))"

definition id_set_bytes :: "bool \<Rightarrow> (int \<times> string) list \<Rightarrow> byte list \<Rightarrow> byte list" where
  "id_set_bytes preserve ids fec =
     (if preserve then buf_write_int32 0 (fold id_bytes ids fec) else fec)"

text \<open>The order in which \<open>range\<close> gives the entries of a map is \<open>shuffle\<close>.\<close>

definition list_end ::
  "options \<Rightarrow> ((int \<times> string) list \<Rightarrow> (int \<times> string) list) \<Rightarrow> walker \<Rightarrow> byte list" where
  "list_end os shuffle w =
     buf_write_int32 (w_ioErrors w) (
     id_set_bytes (opt_PreserveGid os) (shuffle (w_gidMap w)) (
     id_set_bytes (opt_PreserveUid os) (shuffle (w_uidMap w)) (
     buf_write_byte 0 [])))"

definition send_file_list ::
  "nat \<Rightarrow> (byte list \<Rightarrow> byte list) \<Rightarrow> options \<Rightarrow> (bool \<Rightarrow> int \<Rightarrow> string option) \<Rightarrow>
   ((int \<times> string) list \<Rightarrow> (int \<times> string) list) \<Rightarrow> filter_rule list \<Rightarrow> file_source option \<Rightarrow>
   (string \<Rightarrow> go_error + file_source) \<Rightarrow> string \<Rightarrow> string list \<Rightarrow> (sfile list \<times> int, walker) act" where
  "send_file_list depth md4 os lookup shuffle excl source open_root localDir paths =
     bnd (for_each (walk_path depth md4 os lookup excl source open_root localDir) paths) (\<lambda>_.
     bnd (get (list_end os shuffle)) (\<lambda>fec.
     bnd (write_string (string_of_bytes fec)) (\<lambda>_.
     bnd (get w_Files) (\<lambda>files.
     bnd (get w_TotalSize) (\<lambda>tot.
     ret (files, tot))))))"

text \<open>
  All of \<open>Do\<close>: the file list, then the rest of the transfer over it.
\<close>

definition sender_do ::
  "nat \<Rightarrow> (byte list \<Rightarrow> byte list) \<Rightarrow> int \<Rightarrow> options \<Rightarrow> (bool \<Rightarrow> int \<Rightarrow> string option) \<Rightarrow>
   ((int \<times> string) list \<Rightarrow> (int \<times> string) list) \<Rightarrow> filter_rule list \<Rightarrow> file_source option \<Rightarrow>
   (string \<Rightarrow> go_error + file_source) \<Rightarrow> (search \<Rightarrow> int \<times> int) \<Rightarrow> string \<Rightarrow> string list \<Rightarrow> (unit, search) act" where
  "sender_do depth md4 seed os lookup shuffle excl source open_root counters modPath paths s =
     (let w = search.extend s (walker.fields [] 0 [] [] 0) in
      case send_file_list depth md4 os lookup shuffle excl source open_root modPath paths w of
        (Inl e, w') \<Rightarrow> (Inl e, search.truncate w')
      | (Inr (files, tot), w') \<Rightarrow>
          send_do md4 seed (opt_DryRun os) (opt_Server os) (opt_Sender os) counters tot files
            (search.truncate w'))"

end
