(* ===== verification/Flist.thy ===== *)
theory Flist
  imports Recv_Flist Send_Flist "HOL-Library.Multiset"
begin

text \<open>
  The file list between sender and receiver: the bytes of an entry, what they say, and the
  agreement of the two sorted lists, on whose positions the rest of the protocol relies.
\<close>

subsection \<open>The bytes of an entry\<close>

text \<open>An entry as the sender writes it, with every field and the long form of the name.\<close>

definition entry_bytes :: "recv_opts \<Rightarrow> bool \<Rightarrow> rfile \<Rightarrow> byte list" where
  "entry_bytes opts tp f =
     word_of_int (if tp then XMIT_LONG_NAME OR XMIT_TOP_DIR else XMIT_LONG_NAME) #
     le_bytes 4 (int (length (Name f))) @ bytes_of_string (Name f) @ int64_bytes (Length f) @
     le_bytes 4 (t_sec (ModTime f)) @ le_bytes 4 (Mode f) @
     (if PreserveUid opts then le_bytes 4 (Uid f) else []) @
     (if PreserveGid opts then le_bytes 4 (Gid f) else []) @
     (if PreserveDevices opts \<and> (is_dev (Mode f) \<or> is_special (Mode f)) then le_bytes 4 (Rdev f) else []) @
     (if PreserveLinks opts \<and> type_of (Mode f) = S_IFLNK
      then le_bytes 4 (int (length (LinkTarget f))) @ bytes_of_string (LinkTarget f) else []) @
     (if AlwaysChecksum opts then FChecksum f else [])"

text \<open>What the wire can carry; a field that is not sent has its zero value.\<close>

definition name_ok :: "string \<Rightarrow> bool" where
  "name_ok n \<longleftrightarrow> clean n = n \<and> int (length n) < PATH_MAX"

definition entry_ok :: "recv_opts \<Rightarrow> rfile \<Rightarrow> bool" where
  "entry_ok opts f \<longleftrightarrow> name_ok (Name f) \<and> is_i64 (Length f) \<and> t_nsec (ModTime f) = 0 \<and> is_i32 (t_sec (ModTime f)) \<and>
     is_i32 (Mode f) \<and> is_i32 (Uid f) \<and> is_i32 (Gid f) \<and> is_i32 (Rdev f) \<and>
     (\<not> PreserveUid opts \<longrightarrow> Uid f = 0) \<and> (\<not> PreserveGid opts \<longrightarrow> Gid f = 0) \<and>
     (\<not> (PreserveDevices opts \<and> (is_dev (Mode f) \<or> is_special (Mode f))) \<longrightarrow> Rdev f = 0) \<and>
     int (length (LinkTarget f)) < 2 ^ 31 \<and>
     (\<not> (PreserveLinks opts \<and> type_of (Mode f) = S_IFLNK) \<longrightarrow> LinkTarget f = '''') \<and>
     length (FChecksum f) = 16 \<and> (\<not> AlwaysChecksum opts \<longrightarrow> FChecksum f = replicate 16 0)"

definition receive_entry :: "recv_opts \<Rightarrow> rfile \<Rightarrow> (rfile, 'z conn_scheme) act" where
  "receive_entry opts prev = bnd read_byte (\<lambda>b. receive_file_entry opts (uint b) prev)"

text \<open>The flags of a long entry, evaluated.\<close>

definition long_flags :: "int \<Rightarrow> bool" where
  "long_flags n \<longleftrightarrow> n AND XMIT_SAME_NAME = 0 \<and> n AND XMIT_LONG_NAME \<noteq> 0 \<and> n AND XMIT_SAME_TIME = 0 \<and>
     n AND XMIT_SAME_MODE = 0 \<and> n AND XMIT_SAME_UID = 0 \<and> n AND XMIT_SAME_GID = 0 \<and> n AND XMIT_SAME_RDEV_pre28 = 0"

lemma long_flags_sent:
  "long_flags (uint (word_of_int (if tp then XMIT_LONG_NAME OR XMIT_TOP_DIR else XMIT_LONG_NAME) :: byte))"
  by (simp add: long_flags_def xmit_flags)

lemma inherit_long: "long_flags n \<Longrightarrow>
    inherit n XMIT_SAME_TIME x m = m \<and> inherit n XMIT_SAME_MODE y m' = m' \<and> inherit n XMIT_SAME_UID y m' = m' \<and>
    inherit n XMIT_SAME_GID y m' = m' \<and> inherit n XMIT_SAME_RDEV_pre28 y m' = m'"
  by (simp add: inherit_def long_flags_def)

lemma receive_name_long:
  assumes "long_flags n" "int (length name) < PATH_MAX" "c_in c = le_bytes 4 (int (length name)) @ bytes_of_string name @ z"
  shows "receive_name n prev c = (Inr name, c\<lparr>c_in := z\<rparr>)"
proof -
  have l: "is_i32 (int (length name))" using assms(2) by (simp add: is_i32_def PATH_MAX_def)
  have "read_int32 c = (Inr (int (length name)), c\<lparr>c_in := bytes_of_string name @ z\<rparr>)"
    using read_int32_le_bytes [OF assms(3)] l by simp
  moreover have "read_full (length name) (c\<lparr>c_in := bytes_of_string name @ z\<rparr>) = (Inr (bytes_of_string name), c\<lparr>c_in := z\<rparr>)"
    by (rule read_full_next) simp
  ultimately show ?thesis
    using assms(1,2) by (simp add: receive_name_def long_flags_def run)
qed

lemma receive_link_bytes:
  assumes "int (length t) < 2 ^ 31" "c_in c = le_bytes 4 (int (length t)) @ bytes_of_string t @ z"
  shows "receive_link c = (Inr t, c\<lparr>c_in := z\<rparr>)"
proof -
  have l: "is_i32 (int (length t))" using assms(1) by (simp add: is_i32_def)
  have "read_int32 c = (Inr (int (length t)), c\<lparr>c_in := bytes_of_string t @ z\<rparr>)"
    using read_int32_le_bytes [OF assms(2)] l by simp
  moreover have "read_full (length t) (c\<lparr>c_in := bytes_of_string t @ z\<rparr>) = (Inr (bytes_of_string t), c\<lparr>c_in := z\<rparr>)"
    by (rule read_full_next) simp
  ultimately show ?thesis by (simp add: receive_link_def run)
qed

lemma receive_link_next:
  "length t < 2147483648 \<Longrightarrow>
     receive_link (c\<lparr>c_in := le_bytes 4 (int (length t)) @ bytes_of_string t @ z\<rparr>) = (Inr t, c\<lparr>c_in := z\<rparr>)"
  by (subst receive_link_bytes [of t _ z]) simp_all

text \<open>A field that is there under a condition, and its zero value otherwise.\<close>

lemma optional_field:
  assumes "b \<Longrightarrow> rd (c\<lparr>c_in := bs @ z\<rparr>) = (Inr x, c\<lparr>c_in := z\<rparr>)" "\<not> b \<Longrightarrow> x = d"
  shows "(if b then rd else ret d) (c\<lparr>c_in := (if b then bs else []) @ z\<rparr>) = (Inr x, c\<lparr>c_in := z\<rparr>)"
  using assms by (simp add: ret_def)

lemma receive_entry_bytes:
  assumes ok: "entry_ok opts f" and c_in: "c_in c = entry_bytes opts tp f @ z"
  shows "receive_entry opts prev c = (Inr f, c\<lparr>c_in := z\<rparr>)"
proof -
  let ?flags = "word_of_int (if tp then XMIT_LONG_NAME OR XMIT_TOP_DIR else XMIT_LONG_NAME) :: byte"
  let ?sum = "(if AlwaysChecksum opts then FChecksum f else []) @ z"
  let ?link = "(if PreserveLinks opts \<and> type_of (Mode f) = S_IFLNK
      then le_bytes 4 (int (length (LinkTarget f))) @ bytes_of_string (LinkTarget f) else []) @ ?sum"
  let ?dev = "(if PreserveDevices opts \<and> (is_dev (Mode f) \<or> is_special (Mode f)) then le_bytes 4 (Rdev f) else []) @ ?link"
  let ?gid = "(if PreserveGid opts then le_bytes 4 (Gid f) else []) @ ?dev"
  let ?uid = "(if PreserveUid opts then le_bytes 4 (Uid f) else []) @ ?gid"
  let ?time = "le_bytes 4 (t_sec (ModTime f)) @ le_bytes 4 (Mode f) @ ?uid"
  note flags = long_flags_sent [of tp]
  note long = inherit_long [OF flags]
  have ok': "int (length (Name f)) < PATH_MAX" "clean (Name f) = Name f" "is_i64 (Length f)"
    "is_i32 (t_sec (ModTime f))" "time_Unix (t_sec (ModTime f)) 0 = ModTime f" "is_i32 (Mode f)"
    using ok time_Unix_ok [of "ModTime f"] is_i32_is_i64
    by (simp_all add: entry_ok_def name_ok_def time_ok_def)
  have c: "c_in c = ?flags # le_bytes 4 (int (length (Name f))) @ bytes_of_string (Name f) @ int64_bytes (Length f) @ ?time"
    using c_in by (simp only: entry_bytes_def append_assoc append_Cons)
  have 1: "receive_name (uint ?flags) prev (c\<lparr>c_in := le_bytes 4 (int (length (Name f))) @ bytes_of_string (Name f) @
      int64_bytes (Length f) @ ?time\<rparr>) = (Inr (Name f), c\<lparr>c_in := int64_bytes (Length f) @ ?time\<rparr>)"
    by (rule receive_name_long [OF flags ok'(1), THEN trans]) simp_all
  have 2: "read_int64 (c\<lparr>c_in := int64_bytes (Length f) @ ?time\<rparr>) = (Inr (Length f), c\<lparr>c_in := ?time\<rparr>)"
    by (rule read_int64_bytes [OF ok'(3), THEN trans]) simp_all
  have 3: "(if PreserveUid opts then read_int32 else ret 0) (c\<lparr>c_in := ?uid\<rparr>) = (Inr (Uid f), c\<lparr>c_in := ?gid\<rparr>)"
    by (rule optional_field) (use ok in \<open>simp_all add: entry_ok_def read_int32_next\<close>)
  have 4: "(if PreserveGid opts then read_int32 else ret 0) (c\<lparr>c_in := ?gid\<rparr>) = (Inr (Gid f), c\<lparr>c_in := ?dev\<rparr>)"
    by (rule optional_field) (use ok in \<open>simp_all add: entry_ok_def read_int32_next\<close>)
  have 5: "(if PreserveDevices opts \<and> (is_dev (Mode f) \<or> is_special (Mode f)) then read_int32 else ret 0) (c\<lparr>c_in := ?dev\<rparr>) =
      (Inr (Rdev f), c\<lparr>c_in := ?link\<rparr>)"
    by (rule optional_field) (use ok in \<open>simp_all add: entry_ok_def read_int32_next\<close>)
  have 6: "(if PreserveLinks opts \<and> type_of (Mode f) = S_IFLNK then receive_link else ret '''') (c\<lparr>c_in := ?link\<rparr>) =
      (Inr (LinkTarget f), c\<lparr>c_in := ?sum\<rparr>)"
    by (rule optional_field) (use ok in \<open>simp_all add: entry_ok_def receive_link_next\<close>)
  have 7: "(if AlwaysChecksum opts then read_full 16 else ret (replicate 16 0)) (c\<lparr>c_in := ?sum\<rparr>) =
      (Inr (FChecksum f), c\<lparr>c_in := z\<rparr>)"
    by (rule optional_field) (use ok in \<open>simp_all add: entry_ok_def read_full_next\<close>)
  have 8: "read_int32 (c\<lparr>c_in := ?time\<rparr>) = (Inr (t_sec (ModTime f)), c\<lparr>c_in := le_bytes 4 (Mode f) @ ?uid\<rparr>)"
    "read_int32 (c\<lparr>c_in := le_bytes 4 (Mode f) @ ?uid\<rparr>) = (Inr (Mode f), c\<lparr>c_in := ?uid\<rparr>)"
    using ok' by (simp_all only: read_int32_next)
  have 9: "bnd read_int32 (\<lambda>t. ret (time_Unix t 0)) (c\<lparr>c_in := ?time\<rparr>) =
      (Inr (ModTime f), c\<lparr>c_in := le_bytes 4 (Mode f) @ ?uid\<rparr>)"
    by (rule bnd_step, rule 8) (simp only: ret_def ok')
  show ?thesis
    unfolding receive_entry_def
    apply (rule bnd_step, rule read_byte_Cons, rule c)
    unfolding receive_file_entry_def
    apply (simp only: long)
    apply (rule bnd_step, rule 1, rule bnd_step, rule 2, rule bnd_step, rule 9, rule bnd_step, rule 8)
    apply (rule bnd_step, rule 3, rule bnd_step, rule 4, rule bnd_step, rule 5, rule bnd_step, rule 6, rule bnd_step, rule 7)
    by (simp add: ret_def ok')
qed

interpretation entry: wire_codec "entry_bytes opts tp" "receive_entry opts prev" "entry_ok opts" for opts tp prev
  by unfold_locales (rule receive_entry_bytes)

subsection \<open>What the sender writes\<close>

text \<open>
  The modes a file system gives: at most one type.  A character device also has the bit of a
  device.
\<close>

definition sane_mode :: "int \<Rightarrow> bool" where
  "sane_mode m \<longleftrightarrow> m AND ModeType \<in>
     {0, ModeDir, ModeSymlink, ModeDevice, ModeDevice OR ModeCharDevice, ModeNamedPipe, ModeSocket, ModeIrregular}"

lemma fi_is_dir_type: "fi_is_dir info \<longleftrightarrow> (fi_mode info AND ModeType) AND ModeDir \<noteq> 0"
proof -
  have "ModeType AND ModeDir = ModeDir" by (simp add: ModeType_def go_mode_bits)
  then show ?thesis by (simp add: fi_is_dir_def and.assoc)
qed

definition sent_type :: "int \<Rightarrow> int" where
  "sent_type t = (if t = ModeDir then S_IFDIR else if t = 0 then S_IFREG else if t = ModeSymlink then S_IFLNK
     else if t = ModeDevice then S_IFBLK else if t = ModeDevice OR ModeCharDevice then S_IFCHR
     else if t = ModeNamedPipe then S_IFIFO else if t = ModeSocket then S_IFSOCK else 0)"

lemma send_mode_sane:
  assumes "sane_mode (fi_mode info)"
  shows "send_mode info = (fi_mode info AND ModePerm) OR sent_type (fi_mode info AND ModeType)"
  using assms unfolding sane_mode_def
  by (elim insertE emptyE)
    (simp_all add: send_mode_def sent_type_def fi_is_dir_type has_type_def is_regular_def Let_def go_mode_bits mode_bits)

lemma perm_type: "type_of ((m AND ModePerm) OR t) = t AND S_IFMT"
  by (simp add: type_of_def bit.conj_disj_distrib2 and.assoc mode_bits)

lemma type_send_mode:
  assumes "sane_mode (fi_mode info)"
  shows "type_of (send_mode info) = sent_type (fi_mode info AND ModeType)"
  using assms
  by (simp add: send_mode_sane perm_type) (auto simp: sent_type_def mode_bits)

lemma sent_kinds:
  assumes "sane_mode (fi_mode info)"
  shows "is_dev (send_mode info) \<longleftrightarrow> send_is_dev info" "is_special (send_mode info) \<longleftrightarrow> send_is_special info"
    "type_of (send_mode info) = S_IFLNK \<longleftrightarrow> has_type info ModeSymlink"
  unfolding is_dev_def is_special_def type_send_mode [OF assms]
  using assms unfolding sane_mode_def
  by (elim insertE emptyE;
      simp add: sent_type_def send_is_dev_def send_is_special_def has_type_def go_mode_bits mode_bits)+

lemma is_i32_send_mode:
  assumes "sane_mode (fi_mode info)"
  shows "is_i32 (send_mode info)"
proof -
  have "sent_type t AND mask 16 = sent_type t" for t
    by (simp add: sent_type_def mode_bits mask_numeral)
  then have "take_bit 16 (send_mode info) = send_mode info"
    by (simp add: send_mode_sane [OF assms] take_bit_eq_mask bit.conj_disj_distrib2 and.assoc ModePerm_def mask_numeral)
  then have "0 \<le> send_mode info" "send_mode info < 2 ^ 16"
    by (metis take_bit_nonnegative) (metis take_bit_int_less_exp \<open>take_bit 16 (send_mode info) = send_mode info\<close>)
  then show ?thesis by (simp add: is_i32_def)
qed

text \<open>
  The receiver was started with the options of the sender: \<open>--devices\<close> and \<open>--specials\<close> both or
  neither.
\<close>

definition agree :: "options \<Rightarrow> recv_opts \<Rightarrow> bool" where
  "agree os opts \<longleftrightarrow> PreserveUid opts = opt_PreserveUid os \<and> PreserveGid opts = opt_PreserveGid os \<and>
     PreserveLinks opts = opt_PreserveLinks os \<and> AlwaysChecksum opts = opt_AlwaysChecksum os \<and>
     PreserveDevices opts = opt_PreserveDevices os \<and> PreserveDevices opts = opt_PreserveSpecials os"

text \<open>The entry that the receiver should end up with.\<close>

definition entry_file ::
  "(byte list \<Rightarrow> byte list) \<Rightarrow> options \<Rightarrow> file_source \<Rightarrow> string \<Rightarrow> string \<Rightarrow> file_info \<Rightarrow> rfile" where
  "entry_file md4 os src path name info =
     \<lparr>Name = name, Length = send_size info, ModTime = \<lparr>t_sec = i32 (t_sec (fi_mtime info)), t_nsec = 0\<rparr>,
      Mode = send_mode info,
      Uid = (if opt_PreserveUid os then fst (uid_from_file_info info) else 0),
      Gid = (if opt_PreserveGid os then fst (gid_from_file_info info) else 0),
      LinkTarget = (if opt_PreserveLinks os \<and> has_type info ModeSymlink
                    then (case src_readlink src path of Inl e \<Rightarrow> '''' | Inr t \<Rightarrow> t) else ''''),
      Rdev = (if opt_PreserveDevices os \<and> send_is_dev info \<or> opt_PreserveSpecials os \<and> send_is_special info
              then fst (rdev_from_file_info info) else 0),
      FChecksum = (if opt_AlwaysChecksum os \<and> is_regular (fi_mode info)
                   then (case src_reopen src path of Inl e \<Rightarrow> [] | Inr bs \<Rightarrow> md4 bs) else replicate 16 0)\<rparr>"

definition sane_info :: "file_info \<Rightarrow> bool" where
  "sane_info info \<longleftrightarrow> sane_mode (fi_mode info) \<and> is_i64 (fi_size info)"

definition sane_entry :: "dir_entry \<Rightarrow> bool" where
  "sane_entry d \<longleftrightarrow> (\<forall>info. de_info d = Inr info \<longrightarrow> sane_info info)"

definition sane_source :: "file_source \<Rightarrow> bool" where
  "sane_source src \<longleftrightarrow> (\<forall>n d. src_stat src n = Inr d \<longrightarrow> sane_entry d) \<and>
     (\<forall>n es. src_readdir src n = Inr es \<longrightarrow> (\<forall>(b, d) \<in> set es. sane_entry d)) \<and>
     (\<forall>n t. src_readlink src n = Inr t \<longrightarrow> int (length t) < 2 ^ 31)"

lemma ids_i32: "is_i32 (fst (uid_from_file_info info))" "is_i32 (fst (gid_from_file_info info))"
    "is_i32 (fst (rdev_from_file_info info))"
  by (auto simp: uid_from_file_info_def gid_from_file_info_def rdev_from_file_info_def is_i32_def [of 0]
      split: option.split)

lemma agreeD:
  assumes "agree os opts"
  shows "PreserveUid opts = opt_PreserveUid os" "PreserveGid opts = opt_PreserveGid os"
    "PreserveLinks opts = opt_PreserveLinks os" "AlwaysChecksum opts = opt_AlwaysChecksum os"
    "PreserveDevices opts = opt_PreserveDevices os" "opt_PreserveSpecials os = opt_PreserveDevices os"
  using assms by (auto simp: agree_def)

lemma entry_ids_bytes:
  "entry_ids os info fec = fec @ (if opt_PreserveUid os then le_bytes 4 (fst (uid_from_file_info info)) else []) @
     (if opt_PreserveGid os then le_bytes 4 (fst (gid_from_file_info info)) else []) @
     (if opt_PreserveDevices os \<and> send_is_dev info \<or> opt_PreserveSpecials os \<and> send_is_special info
      then le_bytes 4 (fst (rdev_from_file_info info)) else [])"
  by (simp add: entry_ids_def Let_def buf_write_int32_def)

lemma entry_link_bytes:
  assumes "entry_link os src path info fec = Inr fec'" "\<forall>t. src_readlink src path = Inr t \<longrightarrow> int (length t) < 2 ^ 31"
    and "t = LinkTarget (entry_file md4 os src path name info)"
  shows "fec' = fec @ (if opt_PreserveLinks os \<and> has_type info ModeSymlink
      then le_bytes 4 (int (length t)) @ bytes_of_string t else [])" "int (length t) < 2 ^ 31"
  using assms
  by (auto simp: entry_link_def entry_file_def buf_defs is_i32_def split: if_splits sum.splits)

lemma entry_sum_bytes:
  assumes "entry_sum md4 os src path info fec = Inr fec'" "t = FChecksum (entry_file md4 os src path name info)"
  shows "fec' = fec @ (if opt_AlwaysChecksum os then t else [])" "(\<forall>x. length (md4 x) = 16) \<longrightarrow> length t = 16"
  using assms
  by (auto simp: entry_sum_def entry_file_def buf_defs reader_checksum_def split: if_splits sum.splits)

lemma entry_of_bytes:
  assumes agree: "agree os opts" and "sane_source src" "sane_info info" "name_ok name"
    and run: "entry_of md4 os src path name info = Inr fec" and md4: "\<forall>x. length (md4 x) = 16"
  shows "fec = entry_bytes opts (path = ''.'') (entry_file md4 os src path name info) \<and>
         entry_ok opts (entry_file md4 os src path name info)"
proof -
  let ?f = "entry_file md4 os src path name info"
  obtain fec1 where link: "entry_link os src path info (entry_ids os info (entry_head path name info [])) = Inr fec1"
    and sum: "entry_sum md4 os src path info fec1 = Inr fec"
    using run by (auto simp: entry_of_def split: sum.splits)
  have sane: "sane_mode (fi_mode info)" "is_i64 (send_size info)" "is_i32 (int (length name))"
    "\<forall>t. src_readlink src path = Inr t \<longrightarrow> int (length t) < 2 ^ 31"
    using assms(2-4)
    by (simp_all add: sane_info_def send_size_def is_i64_def is_i32_def name_ok_def PATH_MAX_def sane_source_def)
  note l = entry_link_bytes [OF link sane(4), of "LinkTarget ?f" md4 name, OF refl]
    and s = entry_sum_bytes [OF sum, of "FChecksum ?f" name, OF refl]
  have "fec = entry_bytes opts (path = ''.'') ?f"
    unfolding entry_bytes_def agreeD [OF agree] s(1) l(1) entry_ids_bytes
    by (simp add: entry_head_def buf_defs entry_file_def sent_kinds [OF sane(1)] sane(3) agreeD(6) [OF agree] flip: conj_disj_distribL)
      auto
  moreover have "entry_ok opts ?f"
    unfolding entry_ok_def agreeD [OF agree]
    using l(2) s(2) md4 sane ids_i32 [of info] is_i32_send_mode [OF sane(1)] assms(4)
    by (simp add: entry_file_def sent_kinds [OF sane(1)] agreeD(6) [OF agree] is_i32_def [of 0])
  ultimately show ?thesis ..
qed

subsection \<open>What a walk has sent\<close>

text \<open>A listed file, the entry it stands for, and the bytes that were written for it.\<close>

definition sent :: "(byte list \<Rightarrow> byte list) \<Rightarrow> options \<Rightarrow> recv_opts \<Rightarrow> sfile \<times> rfile \<times> byte list \<Rightarrow> bool" where
  "sent md4 os opts = (\<lambda>(sf, rf, fec).
     (\<exists>info. sane_info info \<and> rf = entry_file md4 os (sf_source sf) (sf_path sf) (Wpath sf) info \<and>
        sf_Length sf = fi_size info \<and> sf_regular sf = is_regular (fi_mode info)) \<and>
     (name_ok (Wpath sf) \<longrightarrow> fec = entry_bytes opts (sf_path sf = ''.'') rf \<and> entry_ok opts rf))"

definition ids_ok :: "(int \<times> string) list \<Rightarrow> bool" where
  "ids_ok ids \<longleftrightarrow> distinct (map fst ids) \<and> (\<forall>(i, n) \<in> set ids. i \<noteq> 0 \<and> is_i32 i)"

definition walk_rel :: "(byte list \<Rightarrow> byte list) \<Rightarrow> options \<Rightarrow> recv_opts \<Rightarrow> walker \<Rightarrow> walker \<Rightarrow> bool" where
  "walk_rel md4 os opts w w' \<longleftrightarrow>
     (\<exists>es. (\<forall>e \<in> set es. sent md4 os opts e) \<and> w_Files w' = w_Files w @ map fst es \<and>
        w_TotalSize w' = w_TotalSize w + sum_list (map (\<lambda>e. Length (fst (snd e))) es) \<and>
        (c_budget w = None \<longrightarrow> c_budget w' = None \<and> out_bytes w' = out_bytes w @ concat (map (\<lambda>e. snd (snd e)) es))) \<and>
     (ids_ok (w_uidMap w) \<longrightarrow> ids_ok (w_uidMap w')) \<and> (ids_ok (w_gidMap w) \<longrightarrow> ids_ok (w_gidMap w')) \<and>
     (is_i32 (w_ioErrors w) \<longrightarrow> is_i32 (w_ioErrors w'))"

interpretation walks: frame "walk_rel md4 os opts" for md4 os opts
proof
  fix s show "walk_rel md4 os opts s s" by (simp add: walk_rel_def)
next
  fix s t u assume st: "walk_rel md4 os opts s t" and tu: "walk_rel md4 os opts t u"
  from st obtain es1 where 1: "\<forall>e \<in> set es1. sent md4 os opts e" "w_Files t = w_Files s @ map fst es1"
    "w_TotalSize t = w_TotalSize s + sum_list (map (\<lambda>e. Length (fst (snd e))) es1)"
    "c_budget s = None \<longrightarrow> c_budget t = None \<and> out_bytes t = out_bytes s @ concat (map (\<lambda>e. snd (snd e)) es1)"
    by (auto simp: walk_rel_def)
  from tu obtain es2 where 2: "\<forall>e \<in> set es2. sent md4 os opts e" "w_Files u = w_Files t @ map fst es2"
    "w_TotalSize u = w_TotalSize t + sum_list (map (\<lambda>e. Length (fst (snd e))) es2)"
    "c_budget t = None \<longrightarrow> c_budget u = None \<and> out_bytes u = out_bytes t @ concat (map (\<lambda>e. snd (snd e)) es2)"
    by (auto simp: walk_rel_def)
  have "\<exists>es. (\<forall>e \<in> set es. sent md4 os opts e) \<and> w_Files u = w_Files s @ map fst es \<and>
        w_TotalSize u = w_TotalSize s + sum_list (map (\<lambda>e. Length (fst (snd e))) es) \<and>
        (c_budget s = None \<longrightarrow> c_budget u = None \<and> out_bytes u = out_bytes s @ concat (map (\<lambda>e. snd (snd e)) es))"
    by (rule exI [of _ "es1 @ es2"]) (use 1 2 in auto)
  then show "walk_rel md4 os opts s u" using st tu unfolding walk_rel_def by blast
qed

lemma note_id_ok: "ids_ok ids \<Longrightarrow> is_i32 (fst i) \<Longrightarrow> ids_ok (note_id lookup i ids)"
  by (auto simp: ids_ok_def note_id_def map_of_eq_None_iff split: option.split)

lemma walk_file_cases:
  assumes "walk_file md4 os lookup excl src strip path info w = (Inr sig, w')"
  shows "w' = w \<or> (\<exists>fec. entry_of md4 os src path (wire_name strip path) info = Inr fec \<and>
    w_Files w' = w_Files w @ [\<lparr>sf_source = src, sf_path = path, Wpath = wire_name strip path,
         sf_regular = is_regular (fi_mode info), sf_Length = fi_size info\<rparr>] \<and>
    w_TotalSize w' = w_TotalSize w + send_size info \<and>
    (c_budget w = None \<longrightarrow> c_budget w' = None \<and> out_bytes w' = out_bytes w @ fec) \<and>
    (w_uidMap w' = w_uidMap w \<or> w_uidMap w' = note_id (lookup True) (uid_from_file_info info) (w_uidMap w)) \<and>
    (w_gidMap w' = w_gidMap w \<or> w_gidMap w' = note_id (lookup False) (gid_from_file_info info) (w_gidMap w)) \<and>
    w_ioErrors w' = w_ioErrors w)"
  using assms
  by (auto simp: walk_file_def bnd_eq_Inr ret_def throw_def add_file_def modify_def note_ids_def when_do_def Let_def
      write_string_def conn_write_def out_bytes_def split: if_splits sum.splits)

lemma walk_file_run:
  assumes "walk_file md4 os lookup excl src strip path info w = (Inr sig, w')"
  obtains (stay) "w' = w"
  | (sent) fec where "entry_of md4 os src path (wire_name strip path) info = Inr fec"
    "w_Files w' = w_Files w @ [\<lparr>sf_source = src, sf_path = path, Wpath = wire_name strip path,
         sf_regular = is_regular (fi_mode info), sf_Length = fi_size info\<rparr>]"
    "w_TotalSize w' = w_TotalSize w + send_size info"
    "c_budget w = None \<longrightarrow> c_budget w' = None \<and> out_bytes w' = out_bytes w @ fec"
    "w_uidMap w' = w_uidMap w \<or> w_uidMap w' = note_id (lookup True) (uid_from_file_info info) (w_uidMap w)"
    "w_gidMap w' = w_gidMap w \<or> w_gidMap w' = note_id (lookup False) (gid_from_file_info info) (w_gidMap w)"
    "w_ioErrors w' = w_ioErrors w"
  using walk_file_cases [OF assms]
proof
  assume "w' = w" then show ?thesis by (rule stay)
qed (elim exE conjE, rule sent)

lemma walk_file_sends:
  assumes "agree os opts" "sane_source src" "sane_info info" "\<forall>x. length (md4 x) = 16"
  shows "walks.yields md4 os opts (\<lambda>_. True) (walk_file md4 os lookup excl src strip path info)"
  unfolding walks.yields_def
proof (intro allI impI conjI TrueI)
  fix w sig w'
  let ?name = "wire_name strip path"
  let ?sf = "\<lparr>sf_source = src, sf_path = path, Wpath = ?name,
         sf_regular = is_regular (fi_mode info), sf_Length = fi_size info\<rparr>"
  assume run: "walk_file md4 os lookup excl src strip path info w = (Inr sig, w')"
  show "walk_rel md4 os opts w w'"
    using run
  proof (cases rule: walk_file_run)
    case (sent fec)
    note fec = sent(1) and w' = sent(2-4) and ids = sent(5-7)
    let ?e = "(?sf, entry_file md4 os src path ?name info, fec)"
    have "sent md4 os opts ?e"
      using assms(3) entry_of_bytes [OF assms(1-3) _ fec assms(4)] by (auto simp: sent_def)
    moreover have "Length (entry_file md4 os src path ?name info) = send_size info" by (simp add: entry_file_def)
    ultimately have "\<exists>es. (\<forall>e \<in> set es. sent md4 os opts e) \<and> w_Files w' = w_Files w @ map fst es \<and>
        w_TotalSize w' = w_TotalSize w + sum_list (map (\<lambda>e. Length (fst (snd e))) es) \<and>
        (c_budget w = None \<longrightarrow> c_budget w' = None \<and> out_bytes w' = out_bytes w @ concat (map (\<lambda>e. snd (snd e)) es))"
      by (intro exI [of _ "[?e]"]) (simp add: w')
    moreover have "ids_ok (w_uidMap w) \<longrightarrow> ids_ok (w_uidMap w')" "ids_ok (w_gidMap w) \<longrightarrow> ids_ok (w_gidMap w')"
      using ids(1,2) by (auto intro!: note_id_ok ids_i32)
    ultimately show ?thesis
      unfolding walk_rel_def ids(3) by blast
  qed (simp add: walks.frame_refl)
qed

lemma walks_io_error: "keeps (walk_rel md4 os opts) io_error" "walks.yields md4 os opts (\<lambda>_. True) io_error"
proof -
  have "walk_rel md4 os opts w (w\<lparr>w_ioErrors := 1\<rparr>)" for w
    by (simp add: walk_rel_def is_i32_def out_bytes_def)
  then show "keeps (walk_rel md4 os opts) io_error" "walks.yields md4 os opts (\<lambda>_. True) io_error"
    by (simp_all add: io_error_def keeps_def walks.yields_def modify_def)
qed

lemma walks_ask:
  "keeps (walk_rel md4 os opts) (ask f n)" "(\<forall>x. f n = Inr x \<longrightarrow> Q x) \<Longrightarrow> walks.yields md4 os opts Q (ask f n)"
  by (simp_all add: ask_def keeps_def walks.yields_def walks.frame_refl)

lemma walk_source_sends:
  assumes "agree os opts" "sane_source src" "\<forall>x. length (md4 x) = 16"
  shows "walks.yields md4 os opts (\<lambda>_. True) (walk_source depth md4 os lookup excl src requested)"
  unfolding walk_source_def
proof (rule walks.yield_walk_root [where Q = sane_entry])
  have io: "walks.yields md4 os opts (\<lambda>_. True) (bnd io_error (\<lambda>_. ret Continue))"
    by (rule walks.yield_bnd [OF walks_io_error(2) walks.yield_ret]) simp
  show "walks.yields md4 os opts (\<lambda>_. True) (walk_fn md4 os lookup excl src (get_strip requested) nm (Some d) e)"
    if "sane_entry d" for nm d e
    using that io
    by (auto simp: walk_fn_def sane_entry_def intro!: walk_file_sends [OF assms(1,2) _ assms(3)]
        split: option.split sum.split)
  show "walks.yields md4 os opts (\<lambda>_. True) (walk_fn md4 os lookup excl src (get_strip requested) nm None e)" for nm e
    using io by (simp add: walk_fn_def split: option.split)
qed (use assms(2) in \<open>fastforce simp: sane_source_def intro!: walks_ask\<close>)+

lemma walk_path_sends:
  assumes "agree os opts" "\<forall>src. source = Some src \<longrightarrow> sane_source src" "\<forall>d src. open_root d = Inr src \<longrightarrow> sane_source src"
    and "\<forall>x. length (md4 x) = 16"
  shows "walks.yields md4 os opts (\<lambda>_. True) (walk_path depth md4 os lookup excl source open_root localDir path)"
  unfolding walk_path_def
  using assms
  by (auto simp: walks.yield_throw intro!: walk_source_sends split: prod.split option.split sum.split)

subsection \<open>Receiving the list\<close>

lemma entry_step_bytes:
  assumes "entry_ok opts f" "Progress opts \<longrightarrow> HasStdout opts" "c_in r = entry_bytes opts tp f @ z"
  shows "\<exists>out. receive_entry_step opts prev acc r = (Inr (Some f), r\<lparr>c_in := z, rt_out := out\<rparr>)"
proof -
  let ?flags = "word_of_int (if tp then XMIT_LONG_NAME OR XMIT_TOP_DIR else XMIT_LONG_NAME) :: byte"
  obtain bs where bs: "entry_bytes opts tp f = ?flags # bs" by (simp add: entry_bytes_def)
  have b: "read_byte r = (Inr ?flags, r\<lparr>c_in := bs @ z\<rparr>)" using assms(3) by (simp add: bs run)
  have "receive_entry opts prev r = (Inr f, r\<lparr>c_in := z\<rparr>)" by (rule receive_entry_bytes [OF assms(1,3)])
  then have f: "receive_file_entry opts (uint ?flags) prev (r\<lparr>c_in := bs @ z\<rparr>) = (Inr f, r\<lparr>c_in := z\<rparr>)"
    by (simp only: receive_entry_def bnd_def b prod.case sum.case)
  have nz: "?flags \<noteq> 0" by (simp add: xmit_flags)
  show ?thesis
    unfolding receive_entry_step_def
    apply (subst bnd_Inr, rule b)
    apply (simp only: nz if_False)
    apply (subst bnd_Inr, rule f)
    using assms(2)
    by (auto simp: when_do_def ret_def bnd_def show_count_def print_out_def intro: exI [of _ "rt_out r"])
qed

lemma receive_list_bytes:
  assumes "\<forall>e \<in> set es. entry_ok opts (snd e)" "Progress opts \<longrightarrow> HasStdout opts"
    and "c_in r = concat (map (\<lambda>(tp, f). entry_bytes opts tp f) es) @ 0 # z"
  shows "\<exists>out. receive_list_loop opts prev acc r = (Inr (acc @ map snd es), r\<lparr>c_in := z, rt_out := out\<rparr>)"
  using assms(1,3)
proof (induction es arbitrary: prev acc r)
  case Nil
  then have "receive_entry_step opts prev acc r = (Inr None, r\<lparr>c_in := z\<rparr>)"
    by (simp add: receive_entry_step_def run)
  then show ?case by (subst receive_list_loop.simps) (auto intro: exI [of _ "rt_out r"])
next
  case (Cons e es)
  obtain tp f where e: "e = (tp, f)" by (cases e)
  let ?z = "concat (map (\<lambda>(tp, f). entry_bytes opts tp f) es) @ 0 # z"
  obtain o1 where step: "receive_entry_step opts prev acc r = (Inr (Some f), r\<lparr>c_in := ?z, rt_out := o1\<rparr>)"
    using entry_step_bytes [of opts f r tp ?z prev acc] assms(2) Cons.prems e by auto
  obtain o2 where "receive_list_loop opts f (acc @ [f]) (r\<lparr>c_in := ?z, rt_out := o1\<rparr>) =
      (Inr ((acc @ [f]) @ map snd es), r\<lparr>c_in := ?z, rt_out := o1\<rparr>\<lparr>c_in := z, rt_out := o2\<rparr>)"
    using Cons.IH [of "r\<lparr>c_in := ?z, rt_out := o1\<rparr>" f "acc @ [f]"] Cons.prems by auto
  then show ?case
    by (subst receive_list_loop.simps) (auto simp: step e)
qed

subsection \<open>User and group names\<close>

fun id_entry_bytes :: "(int \<times> string) option \<Rightarrow> byte list" where
  "id_entry_bytes None = le_bytes 4 0"
| "id_entry_bytes (Some (i, name)) = le_bytes 4 i @ word_of_int (int (length name)) # bytes_of_string name"

fun id_entry_ok :: "(int \<times> string) option \<Rightarrow> bool" where
  "id_entry_ok None \<longleftrightarrow> True"
| "id_entry_ok (Some (i, name)) \<longleftrightarrow> i \<noteq> 0 \<and> is_i32 i \<and> length name < 256"

interpretation id_entry: wire_codec id_entry_bytes recv_id_entry id_entry_ok
proof
  fix x and c :: "'z conn_scheme" and r
  assume ok: "id_entry_ok x" and c: "c_in c = id_entry_bytes x @ r"
  show "recv_id_entry c = (Inr x, c\<lparr>c_in := r\<rparr>)"
  proof (cases x)
    case None
    then have "read_int32 c = (Inr 0, c\<lparr>c_in := r\<rparr>)" using c by (simp add: read_int32_le_bytes is_i32_def)
    then show ?thesis by (simp add: recv_id_entry_def run None)
  next
    case (Some p)
    obtain i name where x: "x = Some (i, name)" using Some by (cases p) simp
    let ?l = "word_of_int (int (length name)) :: byte"
    have l: "unat ?l = length name" using ok x by (simp add: unat_of_nat take_bit_nat_eq_self)
    have 1: "read_int32 c = (Inr i, c\<lparr>c_in := ?l # bytes_of_string name @ r\<rparr>)"
      using c ok x by (simp add: read_int32_le_bytes)
    have 2: "read_byte (c\<lparr>c_in := ?l # bytes_of_string name @ r\<rparr>) = (Inr ?l, c\<lparr>c_in := bytes_of_string name @ r\<rparr>)"
      by (simp add: run)
    have 3: "read_full (unat ?l) (c\<lparr>c_in := bytes_of_string name @ r\<rparr>) = (Inr (bytes_of_string name), c\<lparr>c_in := r\<rparr>)"
      by (rule read_full_next) (simp only: l length_bytes_of_string)
    show ?thesis
      unfolding recv_id_entry_def
      apply (rule bnd_step, rule 1)
      using ok x apply (simp only: id_entry_ok.simps if_False)
      apply (rule bnd_step, rule 2, rule bnd_step, rule 3)
      by (simp add: ret_def x)
  qed
qed

lemma recv_ids_bytes:
  assumes "ids_ok ids" "\<forall>(i, n) \<in> set ids. length n < 256"
    and "c_in c = concat (map (\<lambda>x. id_entry_bytes (Some x)) ids) @ le_bytes 4 0 @ z"
  shows "\<exists>m'. recv_id_mapping1 loc m c = (Inr m', c\<lparr>c_in := z\<rparr>) \<and>
     (\<forall>i. i \<notin> fst ` set ids \<longrightarrow> m' i = m i) \<and> (\<forall>(i, n) \<in> set ids. m' i = Some \<lparr>im_Name = n, im_LocalId = loc i n\<rparr>)"
  using assms
proof (induction ids arbitrary: m c)
  case Nil
  then have "recv_id_entry c = (Inr None, c\<lparr>c_in := z\<rparr>)"
    by (intro id_entry.dec_enc) simp_all
  then show ?case by (subst recv_id_mapping1.simps) simp
next
  case (Cons x ids)
  obtain i n where x: "x = (i, n)" by (cases x)
  let ?c = "c\<lparr>c_in := concat (map (\<lambda>x. id_entry_bytes (Some x)) ids) @ le_bytes 4 0 @ z\<rparr>"
  have ok: "ids_ok ids" "i \<notin> fst ` set ids" "i \<noteq> 0" "is_i32 i" "length n < 256" "\<forall>(i, n) \<in> set ids. length n < 256"
    using Cons.prems(1,2) by (auto simp: x ids_ok_def)
  have "recv_id_entry c = (Inr (Some (i, n)), ?c)"
    by (rule id_entry.dec_enc) (use ok Cons.prems(3) in \<open>simp_all add: x\<close>)
  then have "recv_id_mapping1 loc m c = recv_id_mapping1 loc (m(i \<mapsto> \<lparr>im_Name = n, im_LocalId = loc i n\<rparr>)) ?c"
    by (subst recv_id_mapping1.simps) simp
  moreover have "c_in ?c = concat (map (\<lambda>x. id_entry_bytes (Some x)) ids) @ le_bytes 4 0 @ z" by simp
  then obtain m' where "recv_id_mapping1 loc (m(i \<mapsto> \<lparr>im_Name = n, im_LocalId = loc i n\<rparr>)) ?c = (Inr m', ?c\<lparr>c_in := z\<rparr>)"
    and m': "\<forall>j. j \<notin> fst ` set ids \<longrightarrow> m' j = (m(i \<mapsto> \<lparr>im_Name = n, im_LocalId = loc i n\<rparr>)) j"
      "\<forall>(i, n) \<in> set ids. m' i = Some \<lparr>im_Name = n, im_LocalId = loc i n\<rparr>"
    using Cons.IH [OF ok(1,6), of ?c "m(i \<mapsto> \<lparr>im_Name = n, im_LocalId = loc i n\<rparr>)"] by blast
  moreover have "m' i = Some \<lparr>im_Name = n, im_LocalId = loc i n\<rparr>" using m'(1) ok(2) by simp
  ultimately show ?case using m' by (intro exI [of _ m']) (simp add: x)
qed

lemma fold_id_bytes: "fold id_bytes ids fec = fec @ concat (map (\<lambda>x. id_entry_bytes (Some x)) ids)"
  by (induction ids arbitrary: fec) (auto simp: id_bytes_def buf_defs)

definition id_set :: "bool \<Rightarrow> (int \<times> string) list \<Rightarrow> byte list" where
  "id_set preserve ids =
     (if preserve then concat (map (\<lambda>x. id_entry_bytes (Some x)) ids) @ le_bytes 4 0 else [])"

lemma list_end_bytes:
  "list_end os shuffle w = 0 # id_set (opt_PreserveUid os) (shuffle (w_uidMap w)) @
     id_set (opt_PreserveGid os) (shuffle (w_gidMap w)) @ le_bytes 4 (w_ioErrors w)"
  by (simp add: list_end_def id_set_bytes_def id_set_def fold_id_bytes buf_defs)

lemma recv_id_set:
  assumes "ids_ok ids" "\<forall>p \<in> set ids. length (snd p) < 256" "c_in r = id_set b ids @ z"
  shows "\<exists>m. (if b then recv_id_mapping1 loc Map.empty else ret Map.empty) r = (Inr m, r\<lparr>c_in := z\<rparr>) \<and>
     (b \<longrightarrow> (\<forall>(i, n) \<in> set ids. map_option im_Name (m i) = Some n))"
proof (cases b)
  case True
  then have "c_in r = concat (map (\<lambda>x. id_entry_bytes (Some x)) ids) @ le_bytes 4 0 @ z"
    using assms(3) by (simp add: id_set_def)
  from recv_ids_bytes [OF assms(1) _ this, of loc Map.empty] assms(2) True show ?thesis by fastforce
qed (use assms(3) in \<open>simp add: ret_def id_set_def\<close>)

text \<open>The tables of names, read by one call.\<close>

lemma recv_id_list_bytes:
  assumes "ids_ok us" "ids_ok gs" "\<forall>p \<in> set us \<union> set gs. length (snd p) < 256"
    and "c_in r = id_set (PreserveUid opts) us @ id_set (PreserveGid opts) gs @ z"
  shows "\<exists>um gm. recv_id_list opts r = (Inr (um, gm), r\<lparr>c_in := z\<rparr>) \<and>
     (PreserveUid opts \<longrightarrow> (\<forall>(i, n) \<in> set us. map_option im_Name (um i) = Some n)) \<and>
     (PreserveGid opts \<longrightarrow> (\<forall>(i, n) \<in> set gs. map_option im_Name (gm i) = Some n))"
proof -
  let ?r = "r\<lparr>c_in := id_set (PreserveGid opts) gs @ z\<rparr>"
  obtain um where um: "(if PreserveUid opts then recv_id_mapping1 (local_id (rt_lookup r True)) Map.empty
      else ret Map.empty) r = (Inr um, ?r)"
    "PreserveUid opts \<longrightarrow> (\<forall>(i, n) \<in> set us. map_option im_Name (um i) = Some n)"
    using recv_id_set [OF assms(1) _ assms(4)] assms(3) by blast
  obtain gm where gm: "(if PreserveGid opts then recv_id_mapping1 (local_id (rt_lookup r False)) Map.empty
      else ret Map.empty) ?r = (Inr gm, r\<lparr>c_in := z\<rparr>)"
    "PreserveGid opts \<longrightarrow> (\<forall>(i, n) \<in> set gs. map_option im_Name (gm i) = Some n)"
    using recv_id_set [OF assms(2), of ?r "PreserveGid opts" z] assms(3) by fastforce
  have "recv_id_list opts r = (Inr (um, gm), r\<lparr>c_in := z\<rparr>)"
    unfolding recv_id_list_def
    apply (rule bnd_step, rule get_apply, rule bnd_step, rule um(1), rule bnd_step, rule gm(1))
    by (simp add: ret_def)
  with um(2) gm(2) show ?thesis by blast
qed

subsection \<open>Both sides sort alike\<close>

lemma map_sort_key: "map h (sort_key (\<lambda>z. f (h z)) zs) = sort_key f (map h zs)"
proof -
  have "map h (insort_key (\<lambda>z. f (h z)) z zs) = insort_key f (h z) (map h zs)" for z zs
    by (induction zs) auto
  then show ?thesis by (induction zs) simp_all
qed

lemma sort_keys_cong:
  assumes "\<forall>x \<in> set xs. f x = g x"
  shows "sort_key f xs = sort_key g xs"
proof -
  have "insort_key f z zs = insort_key g z zs" if "\<forall>x \<in> insert z (set zs). f x = g x" for z zs
    using that by (induction zs) auto
  with assms show ?thesis by (induction xs) simp_all
qed

lemma sort_key_pairs:
  assumes "\<forall>p \<in> set ps. f (fst p) = g (snd p)"
  shows "sort_key f (map fst ps) = map fst (sort_key (\<lambda>p. f (fst p)) ps)"
    "sort_key g (map snd ps) = map snd (sort_key (\<lambda>p. f (fst p)) ps)"
proof -
  have "sort_key (\<lambda>p. g (snd p)) ps = sort_key (\<lambda>p. f (fst p)) ps"
    using assms by (intro sort_keys_cong) simp
  then show "sort_key f (map fst ps) = map fst (sort_key (\<lambda>p. f (fst p)) ps)"
    "sort_key g (map snd ps) = map snd (sort_key (\<lambda>p. f (fst p)) ps)"
    using map_sort_key [of fst f ps] map_sort_key [of snd g ps] by simp_all
qed

lemma sum_list_sort: "sum_list (map g (sort_key k xs)) = (sum_list (map g xs) :: int)"
  by (metis mset_map mset_sort sum_mset_sum_list)

lemma progress_lines:
  assumes "Progress opts \<longrightarrow> HasStdout opts"
  shows "\<exists>out. when_do (Progress opts) (bnd (print_out opts m) (\<lambda>_. print_out opts m')) r = (Inr (), r\<lparr>rt_out := out\<rparr>)"
    "\<exists>out. when_do (Progress opts) (show_count opts fmt fl) r = (Inr (), r\<lparr>rt_out := out\<rparr>)"
  using assms by (auto simp: when_do_def bnd_def ret_def print_out_def show_count_def intro: exI [of _ "rt_out r"])

lemma receive_file_list_bytes:
  assumes es: "\<forall>e \<in> set es. entry_ok opts (snd e)" and out: "Progress opts \<longrightarrow> HasStdout opts"
    and ids: "ids_ok us" "ids_ok gs" "\<forall>p \<in> set us \<union> set gs. length (snd p) < 256" "is_i32 ioe"
    and c: "c_in r = concat (map (\<lambda>(tp, f). entry_bytes opts tp f) es) @ 0 # id_set (PreserveUid opts) us @
       id_set (PreserveGid opts) gs @ le_bytes 4 ioe @ z"
  shows "\<exists>r'. receive_file_list opts r = (Inr (sort_file_list (map snd es)), r') \<and> c_in r' = z \<and> rt_fs r' = rt_fs r \<and>
     IOErrors r' = ioe \<and>
     (PreserveUid opts \<longrightarrow> (\<forall>(i, n) \<in> set us. map_option im_Name (rt_Users r' i) = Some n)) \<and>
     (PreserveGid opts \<longrightarrow> (\<forall>(i, n) \<in> set gs. map_option im_Name (rt_Groups r' i) = Some n))"
proof -
  let ?fin = "le_bytes 4 ioe @ z" and ?fl = "map snd es"
  let ?ids = "id_set (PreserveUid opts) us @ id_set (PreserveGid opts) gs @ ?fin"
  obtain o1 where 1: "when_do (Progress opts) (bnd (print_out opts (Message (''receiving file list...'' @ [CHR 0x0A]) []))
      (\<lambda>_. print_out opts (Message ''0 files to consider'' []))) r = (Inr (), r\<lparr>rt_out := o1\<rparr>)"
    using progress_lines(1) [OF out] by blast
  obtain o2 where 2: "receive_list_loop opts zero_file [] (r\<lparr>rt_out := o1\<rparr>) =
      (Inr ?fl, r\<lparr>rt_out := o1\<rparr>\<lparr>c_in := ?ids, rt_out := o2\<rparr>)"
    using receive_list_bytes [OF es out, of "r\<lparr>rt_out := o1\<rparr>" ?ids zero_file "[]"] c by auto
  let ?r2 = "r\<lparr>rt_out := o1\<rparr>\<lparr>c_in := ?ids, rt_out := o2\<rparr>"
  obtain o3 where 3: "when_do (Progress opts)
      (show_count opts (CHR 0x0D # ''%d files to consider'' @ [CHR 0x0A]) ?fl) ?r2 = (Inr (), ?r2\<lparr>rt_out := o3\<rparr>)"
    using progress_lines(2) [OF out] by blast
  let ?r3 = "?r2\<lparr>rt_out := o3\<rparr>"
  have "c_in ?r3 = ?ids" by simp
  from recv_id_list_bytes [OF ids(1-3) this]
  obtain um gm where um: "recv_id_list opts ?r3 = (Inr (um, gm), ?r3\<lparr>c_in := ?fin\<rparr>)"
     "PreserveUid opts \<longrightarrow> (\<forall>(i, n) \<in> set us. map_option im_Name (um i) = Some n)"
     "PreserveGid opts \<longrightarrow> (\<forall>(i, n) \<in> set gs. map_option im_Name (gm i) = Some n)"
    by blast
  let ?set = "when_do (PreserveUid opts \<or> PreserveGid opts)
      (bnd (recv_id_list opts) (\<lambda>(users, groups). modify (\<lambda>s. s\<lparr>rt_Users := users, rt_Groups := groups\<rparr>)))"
  obtain r4 where 4: "?set ?r3 = (Inr (), r4)" "c_in r4 = ?fin" "rt_fs r4 = rt_fs r"
     "PreserveUid opts \<longrightarrow> (\<forall>(i, n) \<in> set us. map_option im_Name (rt_Users r4 i) = Some n)"
     "PreserveGid opts \<longrightarrow> (\<forall>(i, n) \<in> set gs. map_option im_Name (rt_Groups r4 i) = Some n)"
  proof (cases "PreserveUid opts \<or> PreserveGid opts")
    case True
    then have "?set ?r3 = (Inr (), ?r3\<lparr>c_in := ?fin\<rparr>\<lparr>rt_Users := um, rt_Groups := gm\<rparr>)"
      by (subst when_do_True, assumption) (rule bnd_step, rule um(1), simp add: modify_def)
    then show ?thesis by (rule that) (use um(2,3) in simp_all)
  next
    case False
    then have "?set ?r3 = (Inr (), ?r3)" by (simp add: when_do_def ret_def)
    then show ?thesis by (rule that) (use False in \<open>simp_all add: id_set_def\<close>)
  qed
  have 5: "read_int32 r4 = (Inr ioe, r4\<lparr>c_in := z\<rparr>)" using read_int32_le_bytes [OF 4(2)] ids(4) by simp
  have "receive_file_list opts r = (Inr (sort_file_list ?fl), r4\<lparr>c_in := z\<rparr>\<lparr>IOErrors := ioe\<rparr>)"
    unfolding receive_file_list_def
    by (rule bnd_step, rule 1, rule bnd_step, rule 2, rule bnd_step, rule 3, rule bnd_step, rule 4, rule bnd_step,
        rule 5, rule bnd_step, rule modify_apply, rule ret_apply)
  with 4 show ?thesis by simp
qed

text \<open>What the sender has written, in terms of the entries.\<close>

lemma send_file_list_bytes:
  assumes run: "send_file_list depth md4 os lookup shuffle excl source open_root localDir paths w = (Inr (files, tot), w')"
    and fresh: "w = search.extend s (walker.fields [] 0 [] [] 0)" "c_budget s = None" "c_out s = []"
    and agree: "agree os opts" and md4: "\<forall>x. length (md4 x) = 16"
    and sane: "\<forall>src. source = Some src \<longrightarrow> sane_source src" "\<forall>d src. open_root d = Inr src \<longrightarrow> sane_source src"
  obtains es where "\<forall>e \<in> set es. sent md4 os opts e" "files = map fst es" "tot = sum_list (map (\<lambda>e. Length (fst (snd e))) es)"
    "out_bytes w' = concat (map (\<lambda>e. snd (snd e)) es) @ 0 # id_set (opt_PreserveUid os) (shuffle (w_uidMap w')) @
       id_set (opt_PreserveGid os) (shuffle (w_gidMap w')) @ le_bytes 4 (w_ioErrors w')"
    "ids_ok (w_uidMap w')" "ids_ok (w_gidMap w')" "is_i32 (w_ioErrors w')"
proof -
  have w: "w_Files w = []" "w_TotalSize w = 0" "w_uidMap w = []" "w_gidMap w = []" "w_ioErrors w = 0"
    "c_budget w = None" "out_bytes w = []"
    using fresh by (simp_all add: search.defs walker.defs out_bytes_def)
  obtain w1 where walk: "for_each (walk_path depth md4 os lookup excl source open_root localDir) paths w = (Inr (), w1)"
    and rest: "write_string (string_of_bytes (list_end os shuffle w1)) w1 = (Inr (), w')"
      "files = w_Files w'" "tot = w_TotalSize w'"
    using run by (auto simp: send_file_list_def bnd_eq_Inr get_def ret_def)
  have "walk_rel md4 os opts w w1"
    using walks.yieldsD [OF walks.yield_for_each walk] walk_path_sends [OF agree sane md4] by blast
  then obtain es where es: "\<forall>e \<in> set es. sent md4 os opts e" "w_Files w1 = map fst es"
      "w_TotalSize w1 = sum_list (map (\<lambda>e. Length (fst (snd e))) es)" "c_budget w1 = None"
      "out_bytes w1 = concat (map (\<lambda>e. snd (snd e)) es)"
    and ids: "ids_ok (w_uidMap w1)" "ids_ok (w_gidMap w1)" "is_i32 (w_ioErrors w1)"
    using w by (auto simp: walk_rel_def ids_ok_def is_i32_def [of 0])
  have w': "w' = w1\<lparr>c_out := c_out w1 @ [list_end os shuffle w1]\<rparr>"
    using rest(1) es(4) by (simp add: write_string_ok)
  show ?thesis
    by (rule that [OF es(1)]) (use es ids rest(2,3) in \<open>simp_all add: w' out_bytes_def list_end_bytes\<close>)
qed

text \<open>
  C2: the file list round trip.  What the sender writes while it walks the requested paths, the
  receiver reads to the last byte; the two sorted lists agree position by position, each entry
  carrying the attributes of its file, so that the indices of the rest of the protocol mean the
  same file on both sides.  The names of users and groups and the I/O error flag arrive, the
  announced total is that of the list.
\<close>

theorem file_list_roundtrip:
  assumes run: "send_file_list depth md4 os lookup shuffle excl source open_root localDir paths w = (Inr (files, tot), w')"
    and fresh: "w = search.extend s (walker.fields [] 0 [] [] 0)" "c_budget s = None" "c_out s = []"
    and agree: "agree os opts" and md4: "\<forall>x. length (md4 x) = 16" "\<forall>ids. mset (shuffle ids) = mset ids"
    and sane: "\<forall>src. source = Some src \<longrightarrow> sane_source src" "\<forall>d src. open_root d = Inr src \<longrightarrow> sane_source src"
    and names: "\<forall>f \<in> set files. name_ok (Wpath f)" "\<forall>p \<in> set (w_uidMap w') \<union> set (w_gidMap w'). length (snd p) < 256"
    and r: "Progress opts \<longrightarrow> HasStdout opts" "c_in r = out_bytes w' @ z"
  shows "\<exists>fl r'. receive_file_list opts r = (Inr fl, r') \<and> c_in r' = z \<and> rt_fs r' = rt_fs r \<and>
     map Name fl = map Wpath (sort_files files) \<and> tot = sum_list (map Length fl) \<and>
     list_all2 (\<lambda>sf rf. \<exists>info. rf = entry_file md4 os (sf_source sf) (sf_path sf) (Wpath sf) info \<and>
       sf_Length sf = fi_size info) (sort_files files) fl \<and>
     IOErrors r' = w_ioErrors w' \<and>
     (opt_PreserveUid os \<longrightarrow> (\<forall>(i, n) \<in> set (w_uidMap w'). map_option im_Name (rt_Users r' i) = Some n)) \<and>
     (opt_PreserveGid os \<longrightarrow> (\<forall>(i, n) \<in> set (w_gidMap w'). map_option im_Name (rt_Groups r' i) = Some n))"
proof -
  obtain es where es: "\<forall>e \<in> set es. sent md4 os opts e" "files = map fst es" "tot = sum_list (map (\<lambda>e. Length (fst (snd e))) es)"
    and bytes: "out_bytes w' = concat (map (\<lambda>e. snd (snd e)) es) @ 0 # id_set (opt_PreserveUid os) (shuffle (w_uidMap w')) @
       id_set (opt_PreserveGid os) (shuffle (w_gidMap w')) @ le_bytes 4 (w_ioErrors w')"
    and ids: "ids_ok (w_uidMap w')" "ids_ok (w_gidMap w')" "is_i32 (w_ioErrors w')"
    using send_file_list_bytes [OF run fresh agree md4(1) sane] by metis
  have shuffle: "ids_ok (shuffle ids) \<longleftrightarrow> ids_ok ids" "set (shuffle ids) = set ids" for ids
    using md4(2) mset_eq_imp_distinct_iff [of "map fst (shuffle ids)" "map fst ids"] mset_eq_setD [of "shuffle ids" ids]
    by (auto simp: ids_ok_def)
  let ?ps = "map (\<lambda>e. (fst e, fst (snd e))) es"
  let ?ws = "map (\<lambda>(sf, rf). (sf_path sf = ''.'', rf)) ?ps"
  have ok: "\<forall>e \<in> set ?ws. entry_ok opts (snd e)" using es(1,2) names(1) by (fastforce simp: sent_def)
  have "map (\<lambda>e. snd (snd e)) es = map (\<lambda>(tp, f). entry_bytes opts tp f) ?ws"
    using es(1,2) names(1) by (fastforce simp: sent_def)
  then have c: "c_in r = concat (map (\<lambda>(tp, f). entry_bytes opts tp f) ?ws) @ 0 #
      id_set (PreserveUid opts) (shuffle (w_uidMap w')) @ id_set (PreserveGid opts) (shuffle (w_gidMap w')) @
      le_bytes 4 (w_ioErrors w') @ z"
    unfolding r(2) bytes agreeD [OF agree] by (simp only: append_assoc append_Cons)
  have ids': "ids_ok (shuffle (w_uidMap w'))" "ids_ok (shuffle (w_gidMap w'))"
    "\<forall>p \<in> set (shuffle (w_uidMap w')) \<union> set (shuffle (w_gidMap w')). length (snd p) < 256"
    using ids names(2) by (simp_all only: shuffle)
  from receive_file_list_bytes [OF ok r(1) ids' ids(3) c, unfolded shuffle agreeD [OF agree]]
  obtain r' where r': "receive_file_list opts r = (Inr (sort_file_list (map snd ?ws)), r')" "c_in r' = z"
      "rt_fs r' = rt_fs r" "IOErrors r' = w_ioErrors w'"
     "opt_PreserveUid os \<longrightarrow> (\<forall>(i, n) \<in> set (w_uidMap w'). map_option im_Name (rt_Users r' i) = Some n)"
     "opt_PreserveGid os \<longrightarrow> (\<forall>(i, n) \<in> set (w_gidMap w'). map_option im_Name (rt_Groups r' i) = Some n)"
    by blast
  let ?sorted = "sort_key (\<lambda>p. Wpath (fst p)) ?ps"
  have keys: "\<forall>p \<in> set ?ps. Wpath (fst p) = Name (snd p)" using es(1) by (auto simp: sent_def entry_file_def)
  have lists: "sort_files files = map fst ?sorted" "sort_file_list (map snd ?ws) = map snd ?sorted"
    using sort_key_pairs [of ?ps Wpath Name] keys by (simp_all add: sort_files_def sort_file_list_def es(2) comp_def case_prod_beta)
  have "map Name (map snd ?sorted) = map Wpath (map fst ?sorted)" using keys by simp
  moreover have "tot = sum_list (map Length (map snd ?sorted))"
    by (simp add: sum_list_sort es(3) comp_def)
  moreover have "list_all2 (\<lambda>sf rf. \<exists>info. rf = entry_file md4 os (sf_source sf) (sf_path sf) (Wpath sf) info \<and>
       sf_Length sf = fi_size info) (map fst ?sorted) (map snd ?sorted)"
    using es(1) by (simp add: list.rel_map list_all2_same) (fastforce simp: sent_def)
  ultimately show ?thesis using r' unfolding lists by blast
qed

definition sample_os :: options where
  "sample_os = \<lparr>o_table = [], o_int = (\<lambda>k. if k = ''recurse'' \<or> k = ''xfer_dirs'' \<or> k = ''preserve_links'' then 1 else 0),
     o_str = (\<lambda>_. ''''), o_info = [], o_debug = [], filterRules = []\<rparr>"

definition sample_info :: "int \<Rightarrow> int \<Rightarrow> file_info" where
  "sample_info m n = \<lparr>fi_mode = m, fi_size = n, fi_mtime = \<lparr>t_sec = 5, t_nsec = 0\<rparr>, fi_sys = None\<rparr>"

definition sample_walk :: file_source where
  "sample_walk = \<lparr>src_open = (\<lambda>n. Inl (NotExist n)), src_reopen = (\<lambda>n. Inl (NotExist n)),
     src_stat = (\<lambda>n. if n = ''.'' then Inr \<lparr>de_dir = True, de_info = Inr (sample_info ModeDir 64)\<rparr> else Inl (NotExist n)),
     src_readdir = (\<lambda>n. if n = ''.'' then Inr [(''a'', \<lparr>de_dir = False, de_info = Inr (sample_info 0 3)\<rparr>)] else Inl (NotExist n)),
     src_readlink = (\<lambda>n. Inl (NotExist n))\<rparr>"

definition sample_walker :: walker where
  "sample_walker = search.extend sample_search (walker.fields [] 0 [] [] 0)"

definition sample_send :: "(go_error + sfile list \<times> int) \<times> walker" where
  "sample_send = send_file_list (Suc (Suc 0)) toy_md4 sample_os (\<lambda>_ _. None) (\<lambda>x. x) [] (Some sample_walk)
     (\<lambda>d. Inl (NotExist d)) ''m'' [''/''] sample_walker"

definition sample_listed :: "string \<Rightarrow> bool \<Rightarrow> int \<Rightarrow> sfile" where
  "sample_listed n reg len = \<lparr>sf_source = sample_walk, sf_path = n, Wpath = n, sf_regular = reg, sf_Length = len\<rparr>"

lemma sample_source_calls:
  "src_stat sample_walk ''.'' = Inr \<lparr>de_dir = True, de_info = Inr (sample_info ModeDir 64)\<rparr>"
  "src_readdir sample_walk ''.'' = Inr [(''a'', \<lparr>de_dir = False, de_info = Inr (sample_info 0 3)\<rparr>)]"
  by (simp_all add: sample_walk_def)

lemma sample_opts_values:
  "opt_PreserveUid sample_os = False" "opt_PreserveGid sample_os = False" "opt_PreserveLinks sample_os = True"
  "opt_AlwaysChecksum sample_os = False" "opt_PreserveDevices sample_os = False" "opt_PreserveSpecials sample_os = False"
  "opt_Recurse sample_os = True" "opt_XferDirs sample_os = 1"
  by (simp_all add: sample_os_def accessors)

lemma sample_names:
  "walk_start ''/'' = ''.''" "get_strip ''/'' = ''''" "join2 ''.'' ''a'' = ''a''"
  "wire_name '''' ''.'' = ''.''" "wire_name '''' ''a'' = ''a''" "scope ''m'' ''/'' = (''m'', ''/'')"
  "clean ''.'' = ''.''" "clean ''a'' = ''a''"
  by (simp_all add: walk_start_def get_strip_def join2_def wire_name_def scope_def FileSystemRoot_def clean_def
      clean_comps_def has_prefix_def trim_prefix_def Let_def)

lemma sample_walk_file:
  assumes "c_budget w = None"
  shows "walk_file toy_md4 sample_os l [] sample_walk '''' n (sample_info m k) w =
    (case entry_of toy_md4 sample_os sample_walk n (wire_name '''' n) (sample_info m k) of
       Inl e \<Rightarrow> (Inl e, snd (add_file sample_walk n (wire_name '''' n) (sample_info m k) w))
     | Inr fec \<Rightarrow> (Inr Continue, snd (add_file sample_walk n (wire_name '''' n) (sample_info m k) w)
           \<lparr>c_out := c_out w @ [fec]\<rparr>))"
  using assms
  by (auto simp: walk_file_def sample_opts_values Let_def bnd_def note_ids_def when_do_def ret_def throw_def add_file_def
      modify_def write_string_def conn_write_def split: sum.split)

lemma sample_entries:
  "\<not> has_type (sample_info ModeDir k) ModeSymlink" "\<not> has_type (sample_info 0 k) ModeSymlink"
  "fi_is_dir (sample_info ModeDir k)" "\<not> fi_is_dir (sample_info 0 k)" "fi_size (sample_info m k) = k"
  "is_regular (fi_mode (sample_info 0 k))" "\<not> is_regular (fi_mode (sample_info ModeDir k))"
  by (simp_all add: has_type_def sample_info_def fi_is_dir_def is_regular_def go_mode_bits ModeType_def)

lemma sample_send_result:
  "\<exists>w'. sample_send = (Inr ([sample_listed ''.'' False 64, sample_listed ''a'' True 3], 4099), w') \<and>
     w_uidMap w' = [] \<and> w_gidMap w' = []"
proof -
  have w: "c_budget sample_walker = None" "w_Files sample_walker = []" "w_TotalSize sample_walker = 0"
    "w_uidMap sample_walker = []" "w_gidMap sample_walker = []"
    by (simp_all add: sample_walker_def sample_search_def search.defs walker.defs)
  have "snd (add_file sample_walk n m i s) = s\<lparr>w_Files := w_Files s @ [\<lparr>sf_source = sample_walk, sf_path = n, Wpath = m,
         sf_regular = is_regular (fi_mode i), sf_Length = fi_size i\<rparr>], w_TotalSize := w_TotalSize s + send_size i\<rparr>" for n m i s
    by (simp add: add_file_def modify_def)
  note add = this
  let ?e = "\<lambda>n i. entry_ids sample_os i (entry_head n n i [])"
  have fec: "entry_of toy_md4 sample_os sample_walk n n (sample_info m k) = Inr (?e n (sample_info m k))"
    if "\<not> has_type (sample_info m k) ModeSymlink" for n m k
    using that by (simp add: entry_of_def entry_link_def entry_sum_def sample_opts_values)
  show ?thesis
    unfolding sample_send_def send_file_list_def walk_path_def
    by (simp add: run w sample_names walk_source_def walk_root_def ask_def sample_source_calls attempt_def
        walk_fn_def sample_walk_file fec sample_entries add send_size_def sample_listed_def
        list_end_def write_string_def conn_write_def)
qed

lemma sample_sane: "sane_source sample_walk" "agree sample_os sample_opts"
  by (auto simp: sane_source_def sane_entry_def sane_info_def sane_mode_def sample_walk_def sample_info_def is_i64_def
      go_mode_bits ModeType_def agree_def sample_opts_values sample_opts_def split: if_splits)

theorem file_list_roundtrip_witness:
  "\<exists>w' fl r'. sample_send = (Inr ([sample_listed ''.'' False 64, sample_listed ''a'' True 3], 4099), w') \<and>
     receive_file_list sample_opts (sample_recv\<lparr>c_in := out_bytes w' @ [7]\<rparr>) = (Inr fl, r') \<and> c_in r' = [7] \<and>
     map Name fl = [''.'', ''a'']"
proof -
  obtain w' where run: "sample_send = (Inr ([sample_listed ''.'' False 64, sample_listed ''a'' True 3], 4099), w')"
    and ids: "w_uidMap w' = []" "w_gidMap w' = []"
    using sample_send_result by blast
  have sorted: "map Wpath (sort_files [sample_listed ''.'' False 64, sample_listed ''a'' True 3]) = [''.'', ''a'']"
    by (simp add: sort_files_def sample_listed_def less_eq_char_def less_char_def)
  have "\<exists>fl r'. receive_file_list sample_opts (sample_recv\<lparr>c_in := out_bytes w' @ [7]\<rparr>) = (Inr fl, r') \<and> c_in r' = [7] \<and>
      rt_fs r' = rt_fs (sample_recv\<lparr>c_in := out_bytes w' @ [7]\<rparr>) \<and> map Name fl = map Wpath (sort_files [sample_listed ''.'' False 64, sample_listed ''a'' True 3]) \<and>
      4099 = sum_list (map Length fl) \<and>
      list_all2 (\<lambda>sf rf. \<exists>info. rf = entry_file toy_md4 sample_os (sf_source sf) (sf_path sf) (Wpath sf) info \<and>
       sf_Length sf = fi_size info) (sort_files [sample_listed ''.'' False 64, sample_listed ''a'' True 3]) fl \<and>
      IOErrors r' = w_ioErrors w' \<and>
     (opt_PreserveUid sample_os \<longrightarrow> (\<forall>(i, n) \<in> set (w_uidMap w'). map_option im_Name (rt_Users r' i) = Some n)) \<and>
     (opt_PreserveGid sample_os \<longrightarrow> (\<forall>(i, n) \<in> set (w_gidMap w'). map_option im_Name (rt_Groups r' i) = Some n))"
    by (rule file_list_roundtrip [OF run [unfolded sample_send_def] sample_walker_def _ _ sample_sane(2)])
      (use ids sample_sane(1) in \<open>auto simp: sample_search_def toy_md4_def name_ok_def PATH_MAX_def sample_listed_def
        sample_names sample_opts_def\<close>)
  then show ?thesis using run sorted by auto
qed

end
