(* ===== verification/Flist_Errors.thy ===== *)
theory Flist_Errors
  imports Flist
begin

text \<open>
  Where the file list goes wrong: fields that only one side counts with, lengths that the
  receiver does not check, and names that the sender does not strip.
\<close>

subsection \<open>Device numbers\<close>

definition no_devices :: "options \<Rightarrow> options" where
  "no_devices os = os\<lparr>o_int := (o_int os)(''preserve_devices'' := 0)\<rparr>"

lemma no_devices_opts:
  "opt_PreserveUid (no_devices os) = opt_PreserveUid os" "opt_PreserveGid (no_devices os) = opt_PreserveGid os"
  "opt_PreserveLinks (no_devices os) = opt_PreserveLinks os" "opt_AlwaysChecksum (no_devices os) = opt_AlwaysChecksum os"
  "opt_PreserveSpecials (no_devices os) = opt_PreserveSpecials os" "\<not> opt_PreserveDevices (no_devices os)"
  by (simp_all add: no_devices_def accessors)

lemma special_not_dev:
  "sane_mode (fi_mode info) \<Longrightarrow> send_is_special info \<Longrightarrow> \<not> send_is_dev info \<and> \<not> has_type info ModeSymlink"
  unfolding sane_mode_def
  by (elim insertE emptyE; simp add: send_is_special_def send_is_dev_def has_type_def go_mode_bits)

lemma no_devices_entry:
  assumes "\<not> send_is_dev info"
  shows "entry_of md4 (no_devices os) src path name info = entry_of md4 os src path name info"
    "entry_file md4 (no_devices os) src path name info = entry_file md4 os src path name info"
proof -
  have eqs: "entry_sum md4 (no_devices os) = entry_sum md4 os" "entry_link (no_devices os) = entry_link os"
    by (intro ext; simp add: entry_sum_def entry_link_def no_devices_opts)+
  show "entry_of md4 (no_devices os) src path name info = entry_of md4 os src path name info"
    unfolding entry_of_def eqs entry_ids_def no_devices_opts using assms no_devices_opts(6) by simp
qed (use assms in \<open>simp add: entry_file_def no_devices_opts\<close>)

text \<open>
  C22: \<open>--devices\<close> without \<open>--specials\<close> puts the streams out of step.  For a FIFO or a socket the
  sender writes a device number only with \<open>--specials\<close>, the receiver reads one with \<open>--devices\<close>:
  it takes four bytes of what follows, the next entry, for the number.
\<close>

theorem specials_desync:
  assumes "opt_PreserveDevices os" "\<not> opt_PreserveSpecials os" "PreserveDevices opts" "\<not> opt_AlwaysChecksum os"
    and "agree (no_devices os) (opts\<lparr>PreserveDevices := False\<rparr>)"
    and "sane_source src" "sane_info info" "send_is_special info" "name_ok name" "\<forall>x. length (md4 x) = 16"
    and "entry_of md4 os src path name info = Inr fec" "c_in r = fec @ le_bytes 4 x @ z" "is_i32 x"
  shows "receive_entry opts prev r = (Inr ((entry_file md4 os src path name info)\<lparr>Rdev := x\<rparr>), r\<lparr>c_in := z\<rparr>)"
proof -
  let ?f = "entry_file md4 os src path name info" and ?opts = "opts\<lparr>PreserveDevices := False\<rparr>"
  have sane: "sane_mode (fi_mode info)" using assms(7) by (simp add: sane_info_def)
  have nd: "\<not> send_is_dev info" "\<not> has_type info ModeSymlink" using special_not_dev [OF sane assms(8)] by simp_all
  have fec: "fec = entry_bytes ?opts (path = ''.'') ?f" "entry_ok ?opts ?f"
    using entry_of_bytes [OF assms(5-7,9) _ assms(10), of path fec] assms(11) by (simp_all add: no_devices_entry [OF nd(1)])
  have f: "is_special (Mode ?f)" "type_of (Mode ?f) \<noteq> S_IFLNK" "\<not> AlwaysChecksum opts"
    using assms(4,8) nd(2) agreeD(4) [OF assms(5)] by (simp_all add: entry_file_def sent_kinds [OF sane] no_devices_opts)
  have "c_in r = entry_bytes opts (path = ''.'') (?f\<lparr>Rdev := x\<rparr>) @ z"
    using assms(3,12) f by (simp add: fec(1) entry_bytes_def)
  moreover have "entry_ok opts (?f\<lparr>Rdev := x\<rparr>)" using assms(3,13) f fec(2) by (simp add: entry_ok_def)
  ultimately show ?thesis by (intro receive_entry_bytes)
qed

definition sample_fifo :: file_info where
  "sample_fifo = sample_info ModeNamedPipe 0"

definition devices_os :: options where
  "devices_os = sample_os\<lparr>o_int := (o_int sample_os)(''preserve_devices'' := 1)\<rparr>"

theorem specials_desync_witness:
  "\<exists>fec. entry_of toy_md4 devices_os sample_walk ''p'' ''p'' sample_fifo = Inr fec \<and>
     receive_entry (sample_opts\<lparr>PreserveDevices := True\<rparr>) zero_file (sample_recv\<lparr>c_in := fec @ le_bytes 4 0x61 @ [9]\<rparr>) =
       (Inr ((entry_file toy_md4 devices_os sample_walk ''p'' ''p'' sample_fifo)\<lparr>Rdev := 0x61\<rparr>), sample_recv\<lparr>c_in := [9]\<rparr>)"
proof -
  have os: "opt_PreserveDevices devices_os" "\<not> opt_PreserveSpecials devices_os" "\<not> opt_AlwaysChecksum devices_os"
    "agree (no_devices devices_os) (sample_opts\<lparr>PreserveDevices := True\<rparr>\<lparr>PreserveDevices := False\<rparr>)"
    by (simp_all add: devices_os_def no_devices_def sample_os_def accessors agree_def sample_opts_def)
  have info: "sane_info sample_fifo" "send_is_special sample_fifo" "\<not> has_type sample_fifo ModeSymlink" "name_ok ''p''"
    by (simp_all add: sane_info_def sane_mode_def sample_fifo_def sample_info_def is_i64_def go_mode_bits ModeType_def
        send_is_special_def has_type_def name_ok_def PATH_MAX_def clean_def clean_comps_def has_prefix_def Let_def)
  obtain fec where fec: "entry_of toy_md4 devices_os sample_walk ''p'' ''p'' sample_fifo = Inr fec"
    using os(3) info(3) by (simp add: entry_of_def entry_link_def entry_sum_def)
  have "receive_entry (sample_opts\<lparr>PreserveDevices := True\<rparr>) zero_file (sample_recv\<lparr>c_in := fec @ le_bytes 4 0x61 @ [9]\<rparr>) =
      (Inr ((entry_file toy_md4 devices_os sample_walk ''p'' ''p'' sample_fifo)\<lparr>Rdev := 0x61\<rparr>),
       sample_recv\<lparr>c_in := fec @ le_bytes 4 0x61 @ [9]\<rparr>\<lparr>c_in := [9]\<rparr>)"
    by (rule specials_desync [OF os(1,2) _ os(3,4) sample_sane(1) info(1,2,4) _ fec])
      (simp_all add: toy_md4_def is_i32_def)
  with fec show ?thesis by auto
qed

subsection \<open>Lengths\<close>

text \<open>
  What an entry must not contain, because the receiver does not survive it: a name or the
  target of a symbolic link of negative length makes it panic.
\<close>

theorem entry_panics:
  assumes "long_flags n" "is_i32 l" "l < 0" "c_in r = le_bytes 4 l @ z"
  shows "fst (receive_file_entry opts n prev r) = Inl (Panic ''makeslice: len out of range'') \<and>
     fst (receive_link r) = Inl (Panic ''makeslice: len out of range'')"
proof
  have rd: "read_int32 r = (Inr l, r\<lparr>c_in := z\<rparr>)" using read_int32_le_bytes [OF assms(4)] assms(2) by simp
  have "receive_name n prev r = (Inl (Panic ''makeslice: len out of range''), r\<lparr>c_in := z\<rparr>)"
    using assms(1,3) by (simp add: receive_name_def long_flags_def run rd PATH_MAX_def)
  then show "fst (receive_file_entry opts n prev r) = Inl (Panic ''makeslice: len out of range'')"
    by (simp add: receive_file_entry_def run)
  from rd show "fst (receive_link r) = Inl (Panic ''makeslice: len out of range'')"
    using assms(3) by (simp add: receive_link_def run)
qed

theorem entry_panics_witness:
  "fst (receive_link (sample_recv\<lparr>c_in := le_bytes 4 (-1) @ []\<rparr>)) = Inl (Panic ''makeslice: len out of range'')"
  using entry_panics [of XMIT_LONG_NAME "-1" "sample_recv\<lparr>c_in := le_bytes 4 (-1) @ []\<rparr>" "[]" sample_opts zero_file]
  by (simp add: long_flags_def xmit_flags is_i32_def)

subsection \<open>A directory with a trailing slash\<close>

text \<open>
  A module's subdirectory that is requested with a trailing slash.  The sender strips the
  directory from the names of what is in it, but not from its own entry: the receiver gets the
  contents and, next to them, a directory of that name in place of the top directory \<open>.\<close>, from
  which \<open>--delete\<close> would start.
\<close>

theorem subdir_not_stripped:
  assumes "proper d" "d \<noteq> ''..''" "requested = CHR ''/'' # d @ ''/''"
  shows "walk_start requested = d \<and> wire_name (get_strip requested) d = d \<and> d \<noteq> ''.'' \<and>
     (\<not> has_prefix b ''/'' \<longrightarrow> wire_name (get_strip requested) (d @ CHR ''/'' # b) = b)"
proof -
  have d: "CHR ''/'' \<notin> set d" "d \<noteq> ''''" "d \<noteq> ''.''" using assms(1) by (auto simp: proper_def)
  have sep: "split_on (CHR ''/'') (d @ ''/'') = [d, '''']" using split_on_append [OF d(1), of "''''"] by simp
  have d0: "\<not> has_prefix d ''/''" using d by (cases d) (auto simp: has_prefix_def)
  have start: "walk_start requested = d"
    using d assms(2) sep by (simp add: assms(3) walk_start_def has_prefix_def clean_def clean_comps_def Let_def)
  have abs: "clean requested = CHR ''/'' # d"
    using d assms(2) sep by (simp add: assms(3) has_prefix_def clean_def clean_comps_def Let_def)
  then have strip: "get_strip requested = d @ ''/''"
    using d(2) by (simp add: get_strip_def assms(3) has_suffix_def has_prefix_def trim_prefix_def)
  have "\<not> has_prefix d (d @ ''/'')" by (simp add: has_prefix_def)
  then have "wire_name (get_strip requested) d = d" using d0 by (simp add: strip wire_name_def trim_prefix_def)
  moreover have "wire_name (get_strip requested) (d @ CHR ''/'' # b) = b" if "\<not> has_prefix b ''/''"
    using that by (simp add: strip wire_name_def trim_prefix_def has_prefix_def)
  ultimately show ?thesis using start d(3) by blast
qed

theorem subdir_not_stripped_witness:
  "walk_start ''/d/'' = ''d'' \<and> wire_name (get_strip ''/d/'') ''d'' = ''d'' \<and> wire_name (get_strip ''/d/'') ''d/a'' = ''a''"
  using subdir_not_stripped [of "''d''" "''/d/''" "''a''"] by (simp add: proper_def has_prefix_def)

end
