(* ===== verification/Options.thy ===== *)
theory Options
  imports Opt_Tables
begin

text \<open>
  \<open>internal/rsyncopts/rsyncopts.go\<close>: the words of \<open>--info\<close> and \<open>--debug\<close>, and \<open>ParseArguments\<close>.
  Printing help or the version ends the program, \<open>Exit 0\<close>.
\<close>

subsection \<open>Output words\<close>

definition W_CLI :: int where "W_CLI = 1"
definition W_SRV :: int where "W_SRV = 2"
definition W_SND :: int where "W_SND = 4"
definition W_REC :: int where "W_REC = 8"

text \<open>A word and the sides it concerns, in the order of the source.\<close>

definition infoWords :: "(string \<times> int) list" where
  "infoWords =
     [(''BACKUP'', W_REC), (''COPY'', W_REC), (''DEL'', W_REC),
      (''FLIST'', W_CLI), (''MISC'', W_SND OR W_REC), (''MOUNT'', W_SND OR W_REC),
      (''NAME'', W_SND OR W_REC), (''NONREG'', W_REC), (''PROGRESS'', W_CLI),
      (''REMOVE'', W_SND), (''SKIP'', W_REC), (''STATS'', W_CLI OR W_SRV),
      (''SYMSAFE'', W_SND OR W_REC)]"

definition debugWords :: "(string \<times> int) list" where
  "debugWords =
     [(''ACL'', W_SND OR W_REC), (''BACKUP'', W_REC), (''CHDIR'', W_CLI OR W_SRV),
      (''BIND'', W_CLI), (''CONNECT'', W_CLI), (''CMD'', W_CLI),
      (''DEL'', W_REC), (''DELTASUM'', W_SND OR W_REC), (''DUP'', W_REC),
      (''EXIT'', W_CLI OR W_SRV), (''FILTER'', W_SND OR W_REC), (''FLIST'', W_SND OR W_REC),
      (''FUZZY'', W_REC), (''GENR'', W_REC), (''HASH'', W_SND OR W_REC),
      (''HLINK'', W_SND OR W_REC), (''ICONV'', W_CLI OR W_SRV), (''IO'', W_CLI OR W_SRV),
      (''NSTR'', W_CLI OR W_SRV), (''OWN'', W_REC), (''PROTO'', W_CLI OR W_SRV),
      (''RECV'', W_REC), (''SEND'', W_SND), (''TIME'', W_REC)]"

text \<open>
  \<open>strings.ToLower\<close>: among the characters outside ASCII only the Kelvin sign and the dotted
  capital I become ASCII letters; the case of the others is left.
\<close>

fun to_lower :: "string \<Rightarrow> string" where
  "to_lower (a # b # c # s) =
     (if [a, b, c] = kelvin then CHR ''k'' # to_lower s
      else if [a, b] = [CHR 0xC4, CHR 0xB0] then CHR ''i'' # to_lower (c # s)
      else ascii_lower a # to_lower (b # c # s))"
| "to_lower [a, b] = (if [a, b] = [CHR 0xC4, CHR 0xB0] then ''i'' else [ascii_lower a, ascii_lower b])"
| "to_lower [a] = [ascii_lower a]"
| "to_lower [] = []"

text \<open>\<open>strings.TrimRightFunc(s, unicode.IsNumber)\<close> for ASCII digits.\<close>

definition is_digit :: "char \<Rightarrow> bool" where
  "is_digit c \<longleftrightarrow> 48 \<le> (of_char c :: int) \<and> (of_char c :: int) \<le> 57"

definition trim_digits :: "string \<Rightarrow> string" where
  "trim_digits s = rev (dropWhile is_digit (rev s))"

fun set_word :: "(string \<times> int) list \<Rightarrow> string \<Rightarrow> int \<Rightarrow> int list \<Rightarrow> int list option" where
  "set_word ((name, sides) # ws) w lev (l # ls) =
     (if to_lower name = w then Some (lev # ls) else map_option (Cons l) (set_word ws w lev ls))"
| "set_word ws w lev ls = None"

definition parse_output_word ::
  "(string \<times> int) list \<Rightarrow> string \<Rightarrow> int list \<Rightarrow> opt_error + int list" where
  "parse_output_word ws s levels =
     (if trim_space s = '''' then Inr levels else
      let trimmed = trim_digits s; num = drop (length trimmed) s
      in case (if num = '''' then Some 1 else atoi num) of
           None \<Rightarrow> Inl (OtherError (Errorf ''strconv.Atoi: parsing %q'' [FStr num]))
         | Some lev \<Rightarrow>
             let w = to_lower trimmed; lev = (if w = ''none'' then 0 else lev)
             in if w = ''help'' then Inl (Exit 0)
                else if w = ''all'' then Inr (map (\<lambda>_. lev mod 2 ^ 16) levels)
                else case set_word ws w (lev mod 2 ^ 16) levels of
                  None \<Rightarrow> Inl (OtherError (Errorf ''unknown --info/--debug item: %q'' [FStr w]))
                | Some levels' \<Rightarrow> Inr levels')"

fun parse_words :: "(string \<times> int) list \<Rightarrow> string list \<Rightarrow> int list \<Rightarrow> opt_error + int list" where
  "parse_words ws [] levels = Inr levels"
| "parse_words ws (s # ss) levels =
     (case parse_output_word ws s levels of Inl e \<Rightarrow> Inl e | Inr levels' \<Rightarrow> parse_words ws ss levels')"

definition parse_output_words :: "(string \<times> int) list \<Rightarrow> int list \<Rightarrow> string \<Rightarrow> opt_error + int list" where
  "parse_output_words ws levels str = parse_words ws (split_on (CHR '','') str) levels"

definition debugVerbosity :: "string list" where
  "debugVerbosity =
     ['''',
      '''',
      ''BIND,CMD,CONNECT,DEL,DELTASUM,DUP,FILTER,FLIST,ICONV'',
      ''ACL,BACKUP,CONNECT2,DELTASUM2,DEL2,EXIT,FILTER2,FLIST2,FUZZY,GENR,OWN,RECV,SEND,TIME'',
      ''CMD2,DELTASUM3,DEL3,EXIT2,FLIST3,ICONV2,OWN2,PROTO,TIME2'',
      ''CHDIR,DELTASUM4,FLIST4,FUZZY2,HASH,HLINK'']"

definition infoVerbosity :: "string list" where
  "infoVerbosity =
     [''NONREG'',
      ''COPY,DEL,FLIST,MISC,NAME,STATS,SYMSAFE'',
      ''BACKUP,MISC2,MOUNT,NAME2,REMOVE,SKIP'']"

definition verbosity_level :: "nat \<Rightarrow> options \<Rightarrow> opt_error + options" where
  "verbosity_level j os =
     (case (if j < length infoVerbosity
            then parse_output_words infoWords (o_info os) (infoVerbosity ! j) else Inr (o_info os)) of
        Inl e \<Rightarrow> Inl e
      | Inr info \<Rightarrow>
          (case (if j < length debugVerbosity
                 then parse_output_words debugWords (o_debug os) (debugVerbosity ! j) else Inr (o_debug os)) of
             Inl e \<Rightarrow> Inl e
           | Inr debug \<Rightarrow> Inr (os\<lparr>o_info := info, o_debug := debug\<rparr>)))"

fun verbosity_levels :: "nat list \<Rightarrow> options \<Rightarrow> opt_error + options" where
  "verbosity_levels [] os = Inr os"
| "verbosity_levels (j # js) os =
     (case verbosity_level j os of Inl e \<Rightarrow> Inl e | Inr os' \<Rightarrow> verbosity_levels js os')"

definition set_output_verbosity :: "options \<Rightarrow> opt_error + options" where
  "set_output_verbosity os = verbosity_levels [0..<nat (o_int os ''verbose'' + 1)] os"

subsection \<open>Special options\<close>

definition set_int :: "string \<Rightarrow> int \<Rightarrow> options \<Rightarrow> options" where
  "set_int x v os = os\<lparr>o_int := (o_int os)(x := v)\<rparr>"

definition set_str :: "string \<Rightarrow> string \<Rightarrow> options \<Rightarrow> options" where
  "set_str x v os = os\<lparr>o_str := (o_str os)(x := v)\<rparr>"

definition bump :: "string \<Rightarrow> options \<Rightarrow> options" where
  "bump x os = set_int x (o_int os x + 1) os"

definition with_opts :: "(options \<Rightarrow> options) \<Rightarrow> popt_context \<Rightarrow> opt_error + popt_context" where
  "with_opts f pc = Inr (pc\<lparr>Opts := f (Opts pc)\<rparr>)"

definition not_implemented :: opt_error where
  "not_implemented = OtherError (Errorf ''option not yet implemented in gorsync'' [])"

definition add_rule :: "string \<Rightarrow> popt_context \<Rightarrow> opt_error + popt_context" where
  "add_rule prefix pc =
     (let (a, pc) = popt_get_opt_arg pc
      in with_opts (\<lambda>os. os\<lparr>filterRules := filterRules os @ [prefix @ a]\<rparr>) pc)"

definition archive :: "options \<Rightarrow> options" where
  "archive os =
     set_int ''preserve_specials'' 1 (set_int ''preserve_devices'' 1 (set_int ''preserve_uid'' 1
     (set_int ''preserve_gid'' 1 (set_int ''preserve_mtimes'' 1 (set_int ''preserve_perms'' 1
     (set_int ''preserve_links'' 1
       (if o_int os ''recurse'' = 0 then set_int ''recurse'' 1 os else os)))))))"

definition unimplemented_opts :: "int list" where
  "unimplemented_opts =
     [OPT_INCLUDE_FROM, OPT_EXCLUDE_FROM, rune (CHR ''y''), rune (CHR ''F''), OPT_OLD_ARGS, rune (CHR ''M''),
      OPT_WRITE_BATCH, OPT_ONLY_WRITE_BATCH, OPT_READ_BATCH, OPT_BLOCK_SIZE, OPT_MAX_SIZE, OPT_MIN_SIZE,
      OPT_APPEND, OPT_LINK_DEST, OPT_COPY_DEST, OPT_COMPARE_DEST, OPT_CHMOD, OPT_USERMAP, OPT_GROUPMAP,
      OPT_CHOWN, OPT_STOP_AFTER, OPT_STOP_AT, OPT_STDERR]"

definition counted_opts :: "(int \<times> string) list" where
  "counted_opts =
     [(rune (CHR ''h''), ''human_readable''), (rune (CHR ''i''), ''itemize_changes''),
      (rune (CHR ''v''), ''verbose''), (rune (CHR ''q''), ''quiet''), (rune (CHR ''x''), ''one_file_system''),
      (rune (CHR ''z''), ''do_compression''), (rune (CHR ''X''), ''preserve_xattrs'')]"

definition handle_opt :: "int \<Rightarrow> popt_context \<Rightarrow> opt_error + popt_context" where
  "handle_opt opt pc =
     (if opt = 0 then Inr pc
      else if opt = OPT_SERVER then with_opts (set_int ''am_server'' 1) pc
      else if opt = OPT_SENDER then
        if o_int (Opts pc) ''am_server'' = 0
        then Inl (OtherError (Errorf ''--sender only allowed with --server'' []))
        else with_opts (set_int ''am_sender'' 1) pc
      else if opt = OPT_FILTER then add_rule '''' pc
      else if opt = OPT_EXCLUDE then add_rule ''- '' pc
      else if opt = OPT_INCLUDE then add_rule ''+ '' pc
      else if opt = OPT_BWLIMIT then
        let (a, pc) = popt_get_opt_arg pc
        in case atoi a of
             None \<Rightarrow> Inl (OtherError (Errorf ''invalid --bwlimit argument %q: %v'' [FStr a]))
           | Some v \<Rightarrow> with_opts (set_int ''bwlimit'' v) pc
      else if opt \<in> set unimplemented_opts then Inl not_implemented
      else if opt = rune (CHR ''a'') then with_opts archive pc
      else if opt = rune (CHR ''D'') then
        with_opts (\<lambda>os. set_int ''preserve_specials'' 1 (set_int ''preserve_devices'' 1 os)) pc
      else if opt = OPT_NO_D then
        with_opts (\<lambda>os. set_int ''preserve_specials'' 0 (set_int ''preserve_devices'' 0 os)) pc
      else if opt = rune (CHR ''H'') then with_opts (set_int ''preserve_hard_links'' 1) pc
      else if opt = rune (CHR ''U'') then
        with_opts (\<lambda>os. let os = bump ''preserve_atimes'' os
          in if o_int os ''preserve_atimes'' > 1 then set_int ''open_noatime'' 1 os else os) pc
      else if opt = rune (CHR ''P'') then
        with_opts (\<lambda>os. set_int ''keep_partial'' 1 (set_int ''do_progress'' 1 os)) pc
      else if opt = OPT_OLD_COMPRESS then with_opts (set_str ''compress_choice'' ''zlib'') pc
      else if opt = OPT_NEW_COMPRESS then with_opts (set_str ''compress_choice'' ''zlibx'') pc
      else if opt = OPT_NO_COMPRESS then
        with_opts (\<lambda>os. set_str ''compress_choice'' '''' (set_int ''do_compression'' 0 os)) pc
      else if opt = OPT_INFO then
        let (a, pc) = popt_get_opt_arg pc
        in case parse_output_words infoWords (o_info (Opts pc)) a of
             Inl e \<Rightarrow> Inl e | Inr l \<Rightarrow> with_opts (\<lambda>os. os\<lparr>o_info := l\<rparr>) pc
      else if opt = OPT_DEBUG then
        let (a, pc) = popt_get_opt_arg pc
        in case parse_output_words debugWords (o_debug (Opts pc)) a of
             Inl e \<Rightarrow> Inl e | Inr l \<Rightarrow> with_opts (\<lambda>os. os\<lparr>o_debug := l\<rparr>) pc
      else if opt = OPT_HELP then Inl (Exit 0)
      else if opt = rune (CHR ''A'') then
        Inl (OtherError (Errorf ''ACLs are not supported by gokrazy/rsync'' []))
      else case map_of counted_opts opt of
        Some x \<Rightarrow> with_opts (bump x) pc
      | None \<Rightarrow> Inl (OtherError (Errorf ''unhandled special case opt: %v'' [FInt opt])))"

subsection \<open>Daemon mode\<close>

fun in_daemon_mode :: "opt_error \<Rightarrow> opt_error" where
  "in_daemon_mode (PoptError n e d) = PoptError n e True"
| "in_daemon_mode e = e"

definition handle_daemon_opt :: "int \<Rightarrow> popt_context \<Rightarrow> opt_error + popt_context" where
  "handle_daemon_opt opt pc =
     (if opt = rune (CHR ''h'') then Inl (Exit 0)
      else if opt = rune (CHR ''M'') then Inl not_implemented
      else if opt = rune (CHR ''v'') then with_opts (bump ''verbose'') pc
      else Inl (OtherError (Errorf ''unhandled special case opt: %v'' [FInt opt])))"

lemma with_opts_pending: "with_opts f pc = Inr pc' \<Longrightarrow> pending pc' = pending pc"
  by (auto simp: with_opts_def pending_def)

lemma add_rule_pending: "add_rule p pc = Inr pc' \<Longrightarrow> pending pc' = pending pc"
  by (auto simp: add_rule_def popt_get_opt_arg_def with_opts_def pending_def)

lemma handle_daemon_opt_pending: "handle_daemon_opt opt pc = Inr pc' \<Longrightarrow> pending pc' = pending pc"
  by (auto simp: handle_daemon_opt_def dest: with_opts_pending split: if_splits)

lemma handle_opt_pending:
  assumes "handle_opt opt pc = Inr pc'"
  shows "pending pc' = pending pc"
proof -
  have arg: "pending (snd (popt_get_opt_arg pc)) = pending pc" by (simp add: popt_get_opt_arg_def pending_def)
  show ?thesis
    using assms arg unfolding handle_opt_def
    by (auto simp: popt_get_opt_arg_def Let_def dest!: with_opts_pending add_rule_pending
        split: if_splits option.splits sum.splits prod.splits)
qed

lemma next_opt_pending: "popt_get_next_opt pc = Inr (v, pc') \<Longrightarrow> v \<noteq> -1 \<Longrightarrow> pending pc' < pending pc"
  using popt_get_next_opt_pending by blast

function daemon_loop :: "popt_context \<Rightarrow> opt_error + popt_context" where
  "daemon_loop pc =
     (case popt_get_next_opt pc of
        Inl e \<Rightarrow> Inl (in_daemon_mode e)
      | Inr (opt, pc') \<Rightarrow>
          if opt = -1 then Inr pc'
          else case handle_daemon_opt opt pc' of Inl e \<Rightarrow> Inl e | Inr pc'' \<Rightarrow> daemon_loop pc'')"
  by pat_completeness auto
termination
  by (relation "measure pending") (auto dest!: next_opt_pending handle_daemon_opt_pending)

declare daemon_loop.simps [simp del]

subsection \<open>\<open>ParseArguments\<close>\<close>

text \<open>
  The result of the loop: the context, how often the version was asked for, and whether the
  line was parsed again as that of a daemon.
\<close>

function parse_loop :: "string list \<Rightarrow> int \<Rightarrow> popt_context \<Rightarrow> opt_error + (popt_context \<times> int \<times> bool)" where
  "parse_loop args version_opt_cnt pc =
     (case popt_get_next_opt pc of
        Inl e \<Rightarrow> Inl e
      | Inr (opt, pc') \<Rightarrow>
          if opt = -1 then Inr (pc', version_opt_cnt, False)
          else if opt = rune (CHR ''V'') then parse_loop args (version_opt_cnt + 1) pc'
          else if opt = OPT_DAEMON then
            (case daemon_loop (daemon_popt_context (Opts pc') args) of
               Inl e \<Rightarrow> Inl e
             | Inr dc \<Rightarrow> Inr (pc'\<lparr>Opts := set_int ''am_daemon'' 1 (Opts dc)\<rparr>, version_opt_cnt, True))
          else case handle_opt opt pc' of
            Inl e \<Rightarrow> Inl e
          | Inr pc'' \<Rightarrow> parse_loop args version_opt_cnt pc'')"
  by pat_completeness auto
termination
  by (relation "measure (pending \<circ> snd \<circ> snd)") (auto dest!: next_opt_pending handle_opt_pending)

declare parse_loop.simps [simp del]

definition settle_dirs :: "options \<Rightarrow> options" where
  "settle_dirs os =
     (let os = (if o_int os ''recurse'' \<noteq> 0 then set_int ''xfer_dirs'' 1 os else os)
      in if o_int os ''xfer_dirs'' < 0
         then set_int ''xfer_dirs'' (if o_int os ''list_only'' \<noteq> 0 then 1 else 0) os else os)"

definition settle_paths :: "options \<Rightarrow> options" where
  "settle_paths os =
     (let os = (if o_int os ''relative_paths'' < 0
                then set_int ''relative_paths'' (if o_str os ''files_from'' \<noteq> '''' then 1 else 0) os else os);
          os = (if o_int os ''relative_paths'' = 0 then set_int ''implied_dirs'' 0 os else os)
      in if o_int os ''missing_args'' = 3 then set_int ''missing_args'' 2 os else os)"

definition settle_backup :: "options \<Rightarrow> options" where
  "settle_backup os =
     (let os = (if o_str os ''backup_suffix'' = '''' \<and> o_str os ''backup_dir'' = ''''
                then set_str ''backup_suffix'' ''~'' os else os)
      in if o_str os ''backup_dir'' \<noteq> '''' then set_int ''make_backups'' 1 os else os)"

definition settle_output :: "options \<Rightarrow> options" where
  "settle_output os =
     (let os = (if o_int os ''do_progress'' \<noteq> 0 \<and> o_int os ''am_server'' = 0 then
                  let info = (if o_info os ! INFO_NAME = 0 then (o_info os)[INFO_NAME := 1] else o_info os)
                  in os\<lparr>o_info := info[INFO_FLIST := 2, INFO_PROGRESS := 1]\<rparr>
                else os)
      in if o_info os ! INFO_NAME \<ge> 1 \<and> o_str os ''stdout_format'' = ''''
         then set_str ''stdout_format'' ''%n%L'' os else os)"

definition settle :: "options \<Rightarrow> options" where
  "settle os = settle_output (settle_backup (settle_paths (settle_dirs os)))"

definition finish_options :: "string list \<Rightarrow> int \<Rightarrow> options \<Rightarrow> opt_error + options" where
  "finish_options args version_opt_cnt os =
     (if version_opt_cnt > 0 then Inl (Exit 0)
      else if o_int os ''human_readable'' > 1 \<and> length args = 1 then Inl (Exit 0)
      else case set_output_verbosity os of
        Inl e \<Rightarrow> Inl (case e of Exit n \<Rightarrow> Exit n | _ \<Rightarrow> Exit 1)
      | Inr os' \<Rightarrow> Inr (settle os'))"

definition parse_arguments :: "string list \<Rightarrow> popt_context \<Rightarrow> opt_error + popt_context" where
  "parse_arguments args pc =
     (case parse_loop args 0 (pc\<lparr>c_args := args\<rparr>) of
        Inl e \<Rightarrow> Inl e
      | Inr (pc', version_opt_cnt, daemon) \<Rightarrow>
          if daemon then Inr pc'
          else case finish_options args version_opt_cnt (Opts pc') of
            Inl e \<Rightarrow> Inl e
          | Inr os \<Rightarrow> Inr (pc'\<lparr>Opts := os\<rparr>))"

subsection \<open>The built-in verbosity levels\<close>

text \<open>Whether the words are accepted depends on the number of levels only.\<close>

lemma set_word_length: "set_word ws w lev ls = Some ls' \<Longrightarrow> length ls' = length ls"
  by (induction ws w lev ls arbitrary: ls' rule: set_word.induct) (auto split: if_splits)

lemma set_word_None_cong:
  "length ls = length ls' \<Longrightarrow> set_word ws w lev ls = None \<longleftrightarrow> set_word ws w lev ls' = None"
proof (induction ws w lev ls arbitrary: ls' rule: set_word.induct)
  case (1 name sides ws w lev l ls)
  then show ?case by (cases ls') auto
qed auto

lemma set_word_cong:
  assumes "set_word ws w lev ls = Some k" "length ls = length ls'"
  shows "\<exists>k'. set_word ws w lev ls' = Some k' \<and> length k' = length k \<and> length k = length ls"
proof -
  obtain k' where "set_word ws w lev ls' = Some k'"
    using set_word_None_cong [OF assms(2), of ws w lev] assms(1) by (cases "set_word ws w lev ls'") auto
  then show ?thesis using set_word_length assms by metis
qed

lemma parse_output_word_cong:
  assumes "length ls = length ls'" "parse_output_word ws s ls = Inr k"
  shows "\<exists>k'. parse_output_word ws s ls' = Inr k' \<and> length k' = length k \<and> length k = length ls"
proof (cases "trim_space s = ''''")
  case True
  with assms show ?thesis by (simp add: parse_output_word_def)
next
  case False
  let ?num = "drop (length (trim_digits s)) s" and ?w = "to_lower (trim_digits s)"
  from assms(2) False obtain lev where lev: "(if ?num = '''' then Some 1 else atoi ?num) = Some lev"
    by (auto simp: parse_output_word_def Let_def split: option.splits)
  let ?lev = "(if ?w = ''none'' then 0 else lev) mod 2 ^ 16"
  have run: "parse_output_word ws s l = (if ?w = ''help'' then Inl (Exit 0)
      else if ?w = ''all'' then Inr (map (\<lambda>_. ?lev) l)
      else case set_word ws ?w ?lev l of
        None \<Rightarrow> Inl (OtherError (Errorf ''unknown --info/--debug item: %q'' [FStr ?w])) | Some l' \<Rightarrow> Inr l')" for l
    unfolding parse_output_word_def Let_def lev using False by simp
  show ?thesis
    using assms(2) unfolding run
    by (auto simp: assms(1) split: if_splits option.splits dest: set_word_cong [OF _ assms(1)])
qed

lemma parse_words_cong:
  "parse_words ws ss ls = Inr k \<Longrightarrow> length ls = length ls' \<Longrightarrow>
     \<exists>k'. parse_words ws ss ls' = Inr k' \<and> length k' = length ls'"
proof (induction ss arbitrary: ls ls')
  case (Cons s ss)
  then obtain l where l: "parse_output_word ws s ls = Inr l" "parse_words ws ss l = Inr k"
    by (auto split: sum.splits)
  from parse_output_word_cong [OF Cons.prems(2) l(1)]
  obtain l' where l': "parse_output_word ws s ls' = Inr l'" "length l' = length l" "length l = length ls" by blast
  from Cons.IH [OF l(2) l'(2) [symmetric]] obtain k' where "parse_words ws ss l' = Inr k'" "length k' = length l'"
    by blast
  then show ?case using l' Cons.prems(2) by simp
qed simp

definition levels_ok :: "options \<Rightarrow> bool" where
  "levels_ok os \<longleftrightarrow> length (o_info os) = COUNT_INFO \<and> length (o_debug os) = COUNT_DEBUG"

definition accepted :: "(string \<times> int) list \<Rightarrow> nat \<Rightarrow> string \<Rightarrow> bool" where
  "accepted ws n s \<longleftrightarrow> (case parse_output_words ws (replicate n 0) s of Inl e \<Rightarrow> False | Inr l \<Rightarrow> True)"

lemma built_in_accepted:
  "list_all (accepted infoWords COUNT_INFO) infoVerbosity" "list_all (accepted debugWords COUNT_DEBUG) debugVerbosity"
  by code_simp+

lemma acceptedD:
  assumes "accepted ws n s" "length ls = n"
  shows "\<exists>k. parse_output_words ws ls s = Inr k \<and> length k = n"
proof -
  obtain l where "parse_words ws (split_on (CHR '','') s) (replicate n 0) = Inr l"
    using assms(1) by (auto simp: accepted_def parse_output_words_def split: sum.splits)
  from parse_words_cong [OF this, of ls] assms(2) show ?thesis by (auto simp: parse_output_words_def)
qed

lemma verbosity_level_ok:
  assumes "levels_ok os"
  shows "\<exists>i d. verbosity_level j os = Inr (os\<lparr>o_info := i, o_debug := d\<rparr>) \<and> levels_ok (os\<lparr>o_info := i, o_debug := d\<rparr>)"
proof -
  have "\<exists>i. (if j < length infoVerbosity then parse_output_words infoWords (o_info os) (infoVerbosity ! j)
      else Inr (o_info os)) = Inr i \<and> length i = COUNT_INFO"
    using built_in_accepted(1) acceptedD [of infoWords COUNT_INFO "infoVerbosity ! j" "o_info os"] assms
    by (cases "j < length infoVerbosity") (auto simp: levels_ok_def list_all_length)
  then obtain i where i: "(if j < length infoVerbosity then parse_output_words infoWords (o_info os) (infoVerbosity ! j)
      else Inr (o_info os)) = Inr i" "length i = COUNT_INFO" by blast
  have "\<exists>d. (if j < length debugVerbosity then parse_output_words debugWords (o_debug os) (debugVerbosity ! j)
      else Inr (o_debug os)) = Inr d \<and> length d = COUNT_DEBUG"
    using built_in_accepted(2) acceptedD [of debugWords COUNT_DEBUG "debugVerbosity ! j" "o_debug os"] assms
    by (cases "j < length debugVerbosity") (auto simp: levels_ok_def list_all_length)
  then obtain d where d: "(if j < length debugVerbosity then parse_output_words debugWords (o_debug os) (debugVerbosity ! j)
      else Inr (o_debug os)) = Inr d" "length d = COUNT_DEBUG" by blast
  have "verbosity_level j os = Inr (os\<lparr>o_info := i, o_debug := d\<rparr>)"
    unfolding verbosity_level_def i(1) d(1) by simp
  then show ?thesis using i(2) d(2) by (auto simp: levels_ok_def)
qed

lemma verbosity_levels_ok:
  "levels_ok os \<Longrightarrow>
     \<exists>i d. verbosity_levels js os = Inr (os\<lparr>o_info := i, o_debug := d\<rparr>) \<and> levels_ok (os\<lparr>o_info := i, o_debug := d\<rparr>)"
proof (induction js arbitrary: os)
  case Nil
  have "os = os\<lparr>o_info := o_info os, o_debug := o_debug os\<rparr>" by simp
  with Nil show ?case by (metis verbosity_levels.simps(1))
next
  case (Cons j js)
  obtain i d where id: "verbosity_level j os = Inr (os\<lparr>o_info := i, o_debug := d\<rparr>)"
    "levels_ok (os\<lparr>o_info := i, o_debug := d\<rparr>)" using verbosity_level_ok [OF Cons.prems] by blast
  from Cons.IH [OF id(2)] id(1) show ?case by auto
qed

lemma set_output_verbosity_ok:
  "levels_ok os \<Longrightarrow>
     \<exists>i d. set_output_verbosity os = Inr (os\<lparr>o_info := i, o_debug := d\<rparr>) \<and> levels_ok (os\<lparr>o_info := i, o_debug := d\<rparr>)"
  unfolding set_output_verbosity_def by (rule verbosity_levels_ok)

text \<open>What the settling of the defaults does not touch.\<close>

definition settled_ints :: "string list" where
  "settled_ints = [''xfer_dirs'', ''relative_paths'', ''implied_dirs'', ''missing_args'', ''make_backups'']"

definition settled_strs :: "string list" where
  "settled_strs = [''backup_suffix'', ''stdout_format'']"

lemma settle_steps_frame:
  "x \<notin> set settled_ints \<Longrightarrow> o_int (settle_dirs os) x = o_int os x" "o_str (settle_dirs os) = o_str os"
  "x \<notin> set settled_ints \<Longrightarrow> o_int (settle_paths os) x = o_int os x" "o_str (settle_paths os) = o_str os"
  "x \<notin> set settled_ints \<Longrightarrow> o_int (settle_backup os) x = o_int os x"
  "y \<notin> set settled_strs \<Longrightarrow> o_str (settle_backup os) y = o_str os y"
  "o_int (settle_output os) = o_int os" "y \<notin> set settled_strs \<Longrightarrow> o_str (settle_output os) y = o_str os y"
  by (simp_all add: settle_dirs_def settle_paths_def settle_backup_def settle_output_def Let_def
      set_int_def set_str_def settled_ints_def settled_strs_def)

lemma settle_frame:
  "x \<notin> set settled_ints \<Longrightarrow> o_int (settle os) x = o_int os x"
  "y \<notin> set settled_strs \<Longrightarrow> o_str (settle os) y = o_str os y"
  unfolding settle_def by (simp_all add: settle_steps_frame)

lemma settle_steps_levels:
  "o_info (settle_dirs os) = o_info os" "o_debug (settle_dirs os) = o_debug os"
  "o_info (settle_paths os) = o_info os" "o_debug (settle_paths os) = o_debug os"
  "o_info (settle_backup os) = o_info os" "o_debug (settle_backup os) = o_debug os"
  "length (o_info (settle_output os)) = length (o_info os)" "o_debug (settle_output os) = o_debug os"
  by (simp_all add: settle_dirs_def settle_paths_def settle_backup_def settle_output_def Let_def set_int_def set_str_def)

lemma levels_ok_settle: "levels_ok os \<Longrightarrow> levels_ok (settle os)"
  by (simp add: levels_ok_def settle_def settle_steps_levels)

lemma settle_output_nonreg: "o_info (settle_output os) ! INFO_NONREG = o_info os ! INFO_NONREG"
  by (simp add: settle_output_def Let_def set_str_def INFO_NONREG_def INFO_NAME_def INFO_FLIST_def INFO_PROGRESS_def)

end
