(* ===== verification/Option_Safety.thy ===== *)
theory Option_Safety
  imports Options
begin

text \<open>
  Invariants of the option parser: the tables are well typed, so no type assertion of the
  scanner fails, and the levels of \<open>--info\<close> and \<open>--debug\<close> keep their number.
\<close>

subsection \<open>Well-typed tables\<close>

definition entry_ok :: "popt_option \<Rightarrow> bool" where
  "entry_ok opt \<longleftrightarrow>
     (let ty = argInfo opt AND POPT_ARG_MASK in
      (case arg opt of
         None \<Rightarrow> ty = POPT_ARG_NONE \<or> ty = POPT_ARG_VAL \<or> ty = POPT_ARG_STRING
       | Some (IntField x) \<Rightarrow>
           (ty = POPT_ARG_NONE \<or> ty = POPT_ARG_VAL \<or> ty = POPT_ARG_INT) \<and>
           (x = ''verbose'' \<longrightarrow> argInfo opt = POPT_ARG_VAL \<and> 0 \<le> val opt)
       | Some (StrField x) \<Rightarrow> ty = POPT_ARG_STRING))"

definition table_ok :: "popt_option list \<Rightarrow> bool" where
  "table_ok table \<longleftrightarrow> (\<forall>opt \<in> set table. entry_ok opt)"

text \<open>The tables only point to fields of \<open>Options\<close>.\<close>

definition declared :: "popt_option \<Rightarrow> bool" where
  "declared opt =
     (case arg opt of
        Some (IntField x) \<Rightarrow> x \<in> set int_fields
      | Some (StrField x) \<Rightarrow> x \<in> set str_fields
      | None \<Rightarrow> True)"

lemma entries_declared:
  "list_all declared rsync_table_1"
  "list_all declared rsync_table_2"
  "list_all declared client_table"
  "list_all declared custom_daemon_table"
  "list_all declared daemon_table"
  by code_simp+

lemma tables_ok: "table_ok (client_table @ rsync_table)" "table_ok (client_table @ tridge_table)"
  "table_ok (custom_daemon_table @ daemon_table)"
proof -
  have "list_all entry_ok (client_table @ rsync_table)" "list_all entry_ok (client_table @ tridge_table)"
    "list_all entry_ok (custom_daemon_table @ daemon_table)" by code_simp+
  then show "table_ok (client_table @ rsync_table)" "table_ok (client_table @ tridge_table)"
    "table_ok (custom_daemon_table @ daemon_table)" by (simp_all add: table_ok_def list_all_iff)
qed

subsection \<open>The invariant of a run\<close>

definition opts_inv :: "options \<Rightarrow> bool" where
  "opts_inv os \<longleftrightarrow> levels_ok os \<and> 0 \<le> o_int os ''verbose''"

definition pc_ok :: "popt_context \<Rightarrow> bool" where
  "pc_ok pc \<longleftrightarrow> table_ok (c_table pc) \<and> opts_inv (Opts pc)"

text \<open>An error that is no panic, or a context that is still well formed.\<close>

fun fine :: "('a \<Rightarrow> popt_context) \<Rightarrow> opt_error + 'a \<Rightarrow> bool" where
  "fine f (Inl (OtherError e)) \<longleftrightarrow> \<not> fatal e"
| "fine f (Inl (PoptError n e d)) \<longleftrightarrow> True"
| "fine f (Inl (Exit n)) \<longleftrightarrow> True"
| "fine f (Inr a) \<longleftrightarrow> pc_ok (f a)"

fun is_popt :: "opt_error \<Rightarrow> bool" where
  "is_popt (PoptError n m d) \<longleftrightarrow> True"
| "is_popt e \<longleftrightarrow> False"

definition popt_only :: "opt_error + 'a \<Rightarrow> bool" where
  "popt_only r \<longleftrightarrow> (\<forall>e. r = Inl e \<longrightarrow> is_popt e)"

lemma opts_inv_set_int: "opts_inv os \<Longrightarrow> x \<noteq> ''verbose'' \<or> 0 \<le> v \<Longrightarrow> opts_inv (set_int x v os)"
  by (auto simp: opts_inv_def levels_ok_def set_int_def)

lemma opts_inv_set_str: "opts_inv os \<Longrightarrow> opts_inv (set_str x v os)"
  by (simp add: opts_inv_def levels_ok_def set_str_def)

lemma opts_inv_bump: "opts_inv os \<Longrightarrow> opts_inv (bump x os)"
  by (auto simp: bump_def opts_inv_def levels_ok_def set_int_def)

lemma find_option_ok: "table_ok t \<Longrightarrow> find_option t l s = Some opt \<Longrightarrow> entry_ok opt"
  by (auto simp: find_option_def table_ok_def find_Some_iff dest: nth_mem)

lemma fetch_ok:
  assumes "pc_ok pc"
  shows "popt_only (fetch pc)" "fetch pc = Inr (Operand pc') \<Longrightarrow> pc_ok pc'"
    "fetch pc = Inr (Option opt la pc') \<Longrightarrow> pc_ok pc' \<and> entry_ok opt"
  using assms find_option_ok [of "c_table pc"]
  by (auto simp: fetch_def fetch_long_def fetch_short_def bad_opt_def popt_only_def pc_ok_def Let_def
      split: if_splits option.splits list.splits prod.splits)

lemma store_flag_ok:
  assumes "pc_ok pc" "entry_ok opt" "no_value opt"
  shows "popt_only (store_flag opt la pc)" "store_flag opt la pc = Inr pc' \<Longrightarrow> pc_ok pc'"
proof -
  have s: "\<exists>os. popt_save_int opt v (Opts pc) = Inr os \<and> opts_inv os"
    if a: "arg opt \<noteq> None" and v: "v = (if argInfo opt AND POPT_ARG_MASK = POPT_ARG_VAL then val opt else 1)" for v
  proof -
    obtain x where x: "arg opt = Some (IntField x)"
      using a assms(2,3) by (auto simp: entry_ok_def no_value_def Let_def popt_arg_defs split: field.splits)
    then have "x = ''verbose'' \<Longrightarrow> argInfo opt = POPT_ARG_VAL \<and> 0 \<le> val opt"
      using assms(2) by (auto simp: entry_ok_def Let_def)
    then show ?thesis
      using x v assms(1) by (auto simp: popt_save_int_def pc_ok_def opts_inv_def levels_ok_def popt_arg_defs)
  qed
  show "popt_only (store_flag opt la pc)" "store_flag opt la pc = Inr pc' \<Longrightarrow> pc_ok pc'"
    using s assms(1) by (auto simp: store_flag_def popt_only_def pc_ok_def split: if_splits sum.splits)
qed

lemma popt_save_arg_ok:
  assumes "opts_inv os" "entry_ok opt" "\<not> no_value opt" "arg opt \<noteq> None"
  shows "(\<exists>n. popt_save_arg opt a os = Inr (Inl n)) \<or> (\<exists>os'. popt_save_arg opt a os = Inr (Inr os') \<and> opts_inv os')"
proof (cases "the (arg opt)")
  case (IntField x)
  with assms have "argInfo opt AND POPT_ARG_MASK = POPT_ARG_INT" "x \<noteq> ''verbose''"
    by (auto simp: entry_ok_def no_value_def Let_def popt_arg_defs)
  with IntField assms(1,4) show ?thesis
    by (auto simp: popt_save_arg_def popt_save_int_def opts_inv_def levels_ok_def split: option.split)
next
  case (StrField x)
  with assms have "argInfo opt AND POPT_ARG_MASK = POPT_ARG_STRING"
    by (auto simp: entry_ok_def Let_def)
  with StrField assms(1,4) show ?thesis
    by (auto simp: popt_save_arg_def opts_inv_def levels_ok_def POPT_ARG_STRING_def POPT_ARG_INT_def)
qed

lemma store_ok:
  assumes "pc_ok pc" "entry_ok opt"
  shows "popt_only (store opt la pc)" "store opt la pc = Inr pc' \<Longrightarrow> pc_ok pc'"
proof -
  have v: "popt_only (store_value opt la pc)" "store_value opt la pc = Inr pc' \<Longrightarrow> pc_ok pc'" if nv: "\<not> no_value opt"
  proof -
    have t: "popt_only (take_arg opt la pc)"
      and k: "take_arg opt la pc = Inr (a, pc1) \<Longrightarrow> c_table pc1 = c_table pc \<and> Opts pc1 = Opts pc" for a pc1
      by (auto simp: take_arg_def popt_only_def split: if_splits list.splits)
    show "popt_only (store_value opt la pc)" "store_value opt la pc = Inr pc' \<Longrightarrow> pc_ok pc'"
    proof (atomize (full), cases "take_arg opt la pc")
      case (Inl e)
      with t show "popt_only (store_value opt la pc) \<and> (store_value opt la pc = Inr pc' \<longrightarrow> pc_ok pc')"
        by (simp add: store_value_def popt_only_def)
    next
      case (Inr x)
      obtain a pc1 where x: "x = (a, pc1)" by fastforce
      have k1: "c_table pc1 = c_table pc" "Opts pc1 = Opts pc" using k Inr x by simp_all
      show "popt_only (store_value opt la pc) \<and> (store_value opt la pc = Inr pc' \<longrightarrow> pc_ok pc')"
      proof (cases "arg opt = None")
        case True
        with Inr x k1 assms(1) show ?thesis by (auto simp: store_value_def popt_only_def pc_ok_def)
      next
        case False
        have "opts_inv (Opts pc1)" using assms(1) k1 by (simp add: pc_ok_def)
        from popt_save_arg_ok [OF this assms(2) nv False, of a] False Inr x k1 assms(1) show ?thesis
          by (auto simp: store_value_def popt_only_def pc_ok_def)
      qed
    qed
  qed
  show "popt_only (store opt la pc)" "store opt la pc = Inr pc' \<Longrightarrow> pc_ok pc'"
    using v store_flag_ok [OF assms] by (auto simp: store_def split: if_splits)
qed

lemma popt_get_next_opt_ok:
  "pc_ok pc \<Longrightarrow> popt_only (popt_get_next_opt pc) \<and> (\<forall>v pc'. popt_get_next_opt pc = Inr (v, pc') \<longrightarrow> pc_ok pc')"
proof (induction pc rule: popt_get_next_opt.induct)
  case (1 pc)
  note f = fetch_ok [OF 1(3)]
  show ?case
  proof (cases "fetch pc")
    case (Inl e)
    with f(1) show ?thesis by (subst (1 2) popt_get_next_opt.simps) (auto simp: popt_only_def)
  next
    case (Inr x)
    show ?thesis
    proof (cases x)
      case Done
      with Inr 1(3) show ?thesis by (subst (1 2) popt_get_next_opt.simps) (simp add: popt_only_def)
    next
      case (Operand pc1)
      with Inr f(2) have "pc_ok pc1" by simp
      from 1(1) [OF Inr Operand this] Inr Operand show ?thesis by (subst (1 2) popt_get_next_opt.simps) simp
    next
      case (Option opt la pc1)
      with Inr f(3) have ok: "pc_ok pc1" "entry_ok opt" by simp_all
      note s = store_ok [OF ok, of la]
      show ?thesis
      proof (cases "store opt la pc1")
        case (Inl e)
        with s(1) Inr Option show ?thesis by (subst (1 2) popt_get_next_opt.simps) (auto simp: popt_only_def)
      next
        case st: (Inr pc2)
        with s(2) have ok2: "pc_ok pc2" by simp
        show ?thesis
          using 1(2) [OF Inr Option st _ ok2] Inr Option st ok2
          by (subst (1 2) popt_get_next_opt.simps) (auto simp: popt_only_def)
      qed
    qed
  qed
qed

subsection \<open>The special options keep the invariant\<close>

lemma parse_output_word_result:
  "parse_output_word ws s ls = Inl e \<Longrightarrow> e = Exit 0 \<or> (\<exists>f a. e = OtherError (Errorf f a))"
  "parse_output_word ws s ls = Inr l \<Longrightarrow> length l = length ls"
  by (auto simp: parse_output_word_def Let_def dest: set_word_length split: if_splits option.splits)

lemma parse_words_result:
  "parse_words ws ss ls = Inl e \<Longrightarrow> e = Exit 0 \<or> (\<exists>f a. e = OtherError (Errorf f a))"
  "parse_words ws ss ls = Inr l \<Longrightarrow> length l = length ls"
proof (induction ws ss ls rule: parse_words.induct)
  case (2 ws s ss ls)
  {
    case 1
    then show ?case using 2 parse_output_word_result(1) [of ws s ls] by (auto split: sum.splits)
  next
    case 2
    then show ?case using "2.IH"(2) parse_output_word_result(2) [of ws s ls] by (auto split: sum.splits)
  }
qed auto

lemma fine_words:
  assumes "pc_ok pc" "\<And>l. length l = length ls \<Longrightarrow> opts_inv (f l (Opts pc))"
  shows "fine id (case parse_output_words ws ls a of Inl e \<Rightarrow> Inl e | Inr l \<Rightarrow> with_opts (f l) pc)"
proof (cases "parse_output_words ws ls a")
  case (Inl e)
  then have "e = Exit 0 \<or> (\<exists>f a. e = OtherError (Errorf f a))"
    using parse_words_result(1) by (simp add: parse_output_words_def)
  with Inl show ?thesis by auto
next
  case (Inr l)
  then have "length l = length ls" using parse_words_result(2) by (auto simp: parse_output_words_def)
  with assms Inr show ?thesis by (simp add: with_opts_def pc_ok_def)
qed

lemma fine_with_opts: "pc_ok pc \<Longrightarrow> opts_inv (f (Opts pc)) \<Longrightarrow> fine id (with_opts f pc)"
  by (simp add: with_opts_def pc_ok_def)

lemma pc_ok_nextArg: "pc_ok pc \<Longrightarrow> pc_ok (pc\<lparr>nextArg := a\<rparr>)"
  by (simp add: pc_ok_def)

lemma fine_add_rule: "pc_ok pc \<Longrightarrow> fine id (add_rule p pc)"
  by (simp add: add_rule_def popt_get_opt_arg_def with_opts_def pc_ok_def opts_inv_def levels_ok_def)

lemma opts_inv_archive: "opts_inv os \<Longrightarrow> opts_inv (archive os)"
  unfolding archive_def by (intro opts_inv_set_int) (auto intro: opts_inv_set_int)

lemma fine_if: "(b \<Longrightarrow> fine f m) \<Longrightarrow> (\<not> b \<Longrightarrow> fine f m') \<Longrightarrow> fine f (if b then m else m')"
  by simp

lemma handle_opt_fine:
  assumes "pc_ok pc"
  shows "fine id (handle_opt opt pc)"
proof -
  let ?p = "pc\<lparr>nextArg := ''''\<rparr>"
  have inv: "opts_inv (Opts pc)" "opts_inv (Opts ?p)" and ok: "pc_ok ?p" using assms by (simp_all add: pc_ok_def)
  have info: "fine id (case parse_output_words infoWords (o_info (Opts ?p)) a of Inl e \<Rightarrow> Inl e
      | Inr l \<Rightarrow> with_opts (\<lambda>os. os\<lparr>o_info := l\<rparr>) ?p)" for a
    by (rule fine_words [OF ok]) (use inv in \<open>simp add: opts_inv_def levels_ok_def\<close>)
  have debug: "fine id (case parse_output_words debugWords (o_debug (Opts ?p)) a of Inl e \<Rightarrow> Inl e
      | Inr l \<Rightarrow> with_opts (\<lambda>os. os\<lparr>o_debug := l\<rparr>) ?p)" for a
    by (rule fine_words [OF ok]) (use inv in \<open>simp add: opts_inv_def levels_ok_def\<close>)
  have bw: "fine id (case atoi a of None \<Rightarrow> Inl (OtherError (Errorf m as)) | Some v \<Rightarrow> with_opts (set_int ''bwlimit'' v) ?p)" for a m as
    using fine_with_opts [OF ok] opts_inv_set_int [OF inv(2)] by (simp split: option.split)
  have counted: "fine id (case map_of counted_opts opt of Some x \<Rightarrow> with_opts (bump x) pc
      | None \<Rightarrow> Inl (OtherError (Errorf m as)))" for m as
    using fine_with_opts [OF assms] opts_inv_bump [OF inv(1)] by (simp split: option.split)
  show ?thesis
    unfolding handle_opt_def popt_get_opt_arg_def not_implemented_def Let_def prod.case
    by (intro fine_if fine_add_rule fine_with_opts assms info debug bw counted opts_inv_archive opts_inv_set_int
        opts_inv_set_str opts_inv_bump inv)
      (auto simp: assms inv intro!: opts_inv_set_int opts_inv_bump)
qed

lemma handle_daemon_opt_fine: "pc_ok pc \<Longrightarrow> fine id (handle_daemon_opt opt pc)"
  unfolding handle_daemon_opt_def not_implemented_def
  by (intro fine_if fine_with_opts) (auto simp: pc_ok_def opts_inv_bump)

lemma popt_only_fine: "popt_only r \<Longrightarrow> (\<And>a. r = Inr a \<Longrightarrow> pc_ok (f a)) \<Longrightarrow> fine f r"
  by (cases "(f, r)" rule: fine.cases) (auto simp: popt_only_def)

lemma fine_Inl: "fine f (Inl e) \<Longrightarrow> fine g (Inl e)"
  by (cases e) auto

lemma in_daemon_mode_fine: "is_popt e \<Longrightarrow> fine f (Inl (in_daemon_mode e))"
  by (cases e) auto

lemma daemon_loop_fine: "pc_ok pc \<Longrightarrow> fine id (daemon_loop pc)"
proof (induction pc rule: daemon_loop.induct)
  case (1 pc)
  note n = popt_get_next_opt_ok [OF 1(2)]
  show ?case
  proof (cases "popt_get_next_opt pc")
    case (Inl e)
    with n show ?thesis by (subst daemon_loop.simps) (simp add: popt_only_def in_daemon_mode_fine)
  next
    case (Inr x)
    obtain opt pc1 where x: "x = (opt, pc1)" by fastforce
    with n Inr have ok: "pc_ok pc1" by simp
    show ?thesis
    proof (cases "opt = -1")
      case True
      with Inr x ok show ?thesis by (subst daemon_loop.simps) simp
    next
      case False
      note h = handle_daemon_opt_fine [OF ok, of opt]
      show ?thesis
      proof (cases "handle_daemon_opt opt pc1")
        case (Inl e)
        with Inr x False h show ?thesis by (subst daemon_loop.simps) simp
      next
        case (Inr pc2)
        with h have "pc_ok pc2" by simp
        from 1(1) [OF \<open>popt_get_next_opt pc = Inr x\<close> x [symmetric] False Inr this] \<open>popt_get_next_opt pc = Inr x\<close> x False Inr
        show ?thesis by (subst daemon_loop.simps) (simp add: id_def)
      qed
    qed
  qed
qed

lemma parse_loop_fine: "pc_ok pc \<Longrightarrow> fine fst (parse_loop args n pc)"
proof (induction args n pc rule: parse_loop.induct)
  case (1 args n pc)
  note nx = popt_get_next_opt_ok [OF 1(3)]
  show ?case
  proof (cases "popt_get_next_opt pc")
    case (Inl e)
    with popt_only_fine [of "popt_get_next_opt pc" snd] nx show ?thesis
      by (subst parse_loop.simps) (auto intro: fine_Inl)
  next
    case (Inr x)
    obtain opt pc1 where x: "x = (opt, pc1)" by fastforce
    note pr = Inr [unfolded x]
    have ok: "pc_ok pc1" using nx pr by simp
    consider "opt = -1" | "opt \<noteq> -1" "opt = rune (CHR ''V'')" | "opt \<noteq> -1" "opt \<noteq> rune (CHR ''V'')" "opt = OPT_DAEMON"
      | "opt \<noteq> -1" "opt \<noteq> rune (CHR ''V'')" "opt \<noteq> OPT_DAEMON" by blast
    then show ?thesis
    proof cases
      case 1
      with pr ok show ?thesis by (subst parse_loop.simps) simp
    next
      case 2
      with 1(1) [OF Inr x [symmetric] 2 ok] pr show ?thesis by (subst parse_loop.simps) simp
    next
      case 3
      have "pc_ok (daemon_popt_context (Opts pc1) args)"
        using ok tables_ok(3) by (simp add: pc_ok_def daemon_popt_context_def)
      note d = daemon_loop_fine [OF this]
      show ?thesis
      proof (cases "daemon_loop (daemon_popt_context (Opts pc1) args)")
        case (Inl e)
        with d pr 3 show ?thesis by (subst parse_loop.simps) (auto intro: fine_Inl simp: OPT_DAEMON_def)
      next
        case (Inr dc)
        with d have "pc_ok dc" by simp
        then have "pc_ok (pc1\<lparr>Opts := set_int ''am_daemon'' 1 (Opts dc)\<rparr>)"
          using ok by (simp add: pc_ok_def opts_inv_set_int)
        with Inr pr 3 show ?thesis by (subst parse_loop.simps) (simp add: OPT_DAEMON_def)
      qed
    next
      case 4
      note h = handle_opt_fine [OF ok, of opt]
      show ?thesis
      proof (cases "handle_opt opt pc1")
        case (Inl e)
        with h pr 4 show ?thesis by (subst parse_loop.simps) (auto intro: fine_Inl)
      next
        case (Inr pc2)
        with h have "pc_ok pc2" by simp
        from 1(2) [OF \<open>popt_get_next_opt pc = Inr x\<close> x [symmetric] 4 Inr this] pr 4 Inr show ?thesis
          by (subst parse_loop.simps) simp
      qed
    qed
  qed
qed

lemma new_context_ok:
  assumes "os \<in> {new_options, new_options_with_defaults}"
  shows "pc_ok (new_popt_context os\<lparr>c_args := args\<rparr>)"
  using assms tables_ok(1,2)
  by (auto simp: pc_ok_def new_popt_context_def new_options_def new_options_with_defaults_def opts_inv_def
      levels_ok_def tridgeDefaults_def defaultOptions_def)

text \<open>
  C32: for every command line the parser returns options, a usage error, or the request to exit:
  it terminates and no type assertion, nil pointer or index of its code panics; the levels of
  \<open>--info\<close> and \<open>--debug\<close> keep their number.
\<close>

theorem parse_arguments_safe:
  assumes "os \<in> {new_options, new_options_with_defaults}"
  shows "case parse_arguments args (new_popt_context os) of
           Inl (OtherError e) \<Rightarrow> \<not> fatal e
         | Inl _ \<Rightarrow> True
         | Inr pc \<Rightarrow> levels_ok (Opts pc)"
proof -
  have f: "fine fst (parse_loop args 0 (new_popt_context os\<lparr>c_args := args\<rparr>))"
    by (rule parse_loop_fine [OF new_context_ok [OF assms]])
  show ?thesis
  proof (cases "parse_loop args 0 (new_popt_context os\<lparr>c_args := args\<rparr>)")
    case (Inl e)
    with f show ?thesis by (cases e) (auto simp: parse_arguments_def)
  next
    case (Inr x)
    obtain pc n d where x: "x = (pc, n, d)" by (metis prod_cases3)
    with f Inr have inv: "opts_inv (Opts pc)" by (simp add: pc_ok_def)
    then have lv: "levels_ok (Opts pc)" by (simp add: opts_inv_def)
    from set_output_verbosity_ok [OF lv] obtain i g where
      v: "set_output_verbosity (Opts pc) = Inr (Opts pc\<lparr>o_info := i, o_debug := g\<rparr>)" "levels_ok (Opts pc\<lparr>o_info := i, o_debug := g\<rparr>)"
      by blast
    have "levels_ok (settle (Opts pc\<lparr>o_info := i, o_debug := g\<rparr>))"
      using v(2) by (rule levels_ok_settle)
    then show ?thesis using Inr x lv v(1) by (simp add: parse_arguments_def finish_options_def)
  qed
qed

theorem parse_arguments_safe_witness:
  "case parse_arguments [''-avz'', ''--info=none''] (new_popt_context new_options_with_defaults) of
     Inl (OtherError e) \<Rightarrow> \<not> fatal e | Inl _ \<Rightarrow> True | Inr pc \<Rightarrow> levels_ok (Opts pc)"
  by (rule parse_arguments_safe) simp

subsection \<open>Levels that a user cannot choose\<close>

lemma parse_loop_daemon: "parse_loop args n pc = Inr (pc', m, True) \<Longrightarrow> o_int (Opts pc') ''am_daemon'' = 1"
proof (induction args n pc rule: parse_loop.induct)
  case (1 args n pc)
  show ?case
    using 1(3) 1(1,2)
    by (subst (asm) parse_loop.simps) (auto simp: set_int_def split: sum.splits prod.splits if_splits)
qed

lemma nonreg_first: "length ls = COUNT_INFO \<Longrightarrow>
  \<exists>l. parse_output_words infoWords ls (infoVerbosity ! 0) = Inr l \<and> l ! INFO_NONREG = 1"
proof -
  assume "length ls = COUNT_INFO"
  then obtain a0 a1 a2 a3 a4 a5 a6 a7 a8 a9 a10 a11 a12 where
    "ls = [a0, a1, a2, a3, a4, a5, a6, a7, a8, a9, a10, a11, a12]"
    by (auto simp: COUNT_INFO_def length_Suc_conv numeral_eq_Suc)
  moreover have "parse_output_words infoWords [a0, a1, a2, a3, a4, a5, a6, a7, a8, a9, a10, a11, a12] (infoVerbosity ! 0) =
      Inr [a0, a1, a2, a3, a4, a5, a6, 1, a8, a9, a10, a11, a12]" by code_simp
  ultimately show ?thesis by (simp add: INFO_NONREG_def)
qed

lemma nonreg_later: "length ls = COUNT_INFO \<Longrightarrow> j = 1 \<or> j = 2 \<Longrightarrow>
  \<exists>l. parse_output_words infoWords ls (infoVerbosity ! j) = Inr l \<and> l ! INFO_NONREG = ls ! INFO_NONREG"
proof -
  assume "length ls = COUNT_INFO" and j: "j = 1 \<or> j = 2"
  then obtain a0 a1 a2 a3 a4 a5 a6 a7 a8 a9 a10 a11 a12 where
    ls: "ls = [a0, a1, a2, a3, a4, a5, a6, a7, a8, a9, a10, a11, a12]"
    by (auto simp: COUNT_INFO_def length_Suc_conv numeral_eq_Suc)
  have "parse_output_words infoWords [a0, a1, a2, a3, a4, a5, a6, a7, a8, a9, a10, a11, a12] (infoVerbosity ! 1) =
      Inr [a0, 1, 1, 1, 1, a5, 1, a7, a8, a9, a10, 1, 1]" by code_simp
  moreover have "parse_output_words infoWords [a0, a1, a2, a3, a4, a5, a6, a7, a8, a9, a10, a11, a12] (infoVerbosity ! 2) =
      Inr [1, a1, a2, a3, 2, 1, 2, a7, a8, 1, 1, a11, a12]" by code_simp
  ultimately show ?thesis using j by (auto simp: ls INFO_NONREG_def)
qed

lemma verbosity_level_nonreg:
  assumes "verbosity_level j os = Inr os'" "levels_ok os"
  shows "j = 0 \<Longrightarrow> o_info os' ! INFO_NONREG = 1" "j \<noteq> 0 \<Longrightarrow> o_info os' ! INFO_NONREG = o_info os ! INFO_NONREG"
proof -
  have l: "length (o_info os) = COUNT_INFO" using assms(2) by (simp add: levels_ok_def)
  have iv: "length infoVerbosity = 3" by (simp add: infoVerbosity_def)
  show "j = 0 \<Longrightarrow> o_info os' ! INFO_NONREG = 1"
    using assms(1) nonreg_first [OF l] iv by (auto simp: verbosity_level_def split: sum.splits if_splits)
  have "j < 3 \<Longrightarrow> j \<noteq> 0 \<Longrightarrow> j = 1 \<or> j = 2" by linarith
  then show "j \<noteq> 0 \<Longrightarrow> o_info os' ! INFO_NONREG = o_info os ! INFO_NONREG"
    using assms(1) nonreg_later [OF l, of j] iv by (auto simp: verbosity_level_def split: sum.splits if_splits)
qed

lemma verbosity_levels_nonreg:
  "verbosity_levels js os = Inr os' \<Longrightarrow> levels_ok os \<Longrightarrow> 0 \<notin> set js \<Longrightarrow>
     o_info os' ! INFO_NONREG = o_info os ! INFO_NONREG"
proof (induction js arbitrary: os)
  case (Cons j js)
  then obtain os1 where o: "verbosity_level j os = Inr os1" "verbosity_levels js os1 = Inr os'"
    by (auto split: sum.splits)
  then have "levels_ok os1" using verbosity_level_ok [OF Cons.prems(2), of j] by auto
  with Cons o verbosity_level_nonreg(2) [OF o(1) Cons.prems(2)] show ?case by auto
qed simp

lemma set_output_verbosity_nonreg:
  assumes "set_output_verbosity os = Inr os'" "opts_inv os"
  shows "o_info os' ! INFO_NONREG = 1"
proof -
  have inv: "levels_ok os" "0 \<le> o_int os ''verbose''" using assms(2) by (simp_all add: opts_inv_def)
  then have "[0..<nat (o_int os ''verbose'' + 1)] = 0 # [1..<nat (o_int os ''verbose'' + 1)]"
    by (simp add: upt_conv_Cons)
  with assms(1) obtain os1 where o: "verbosity_level 0 os = Inr os1"
    "verbosity_levels [1..<nat (o_int os ''verbose'' + 1)] os1 = Inr os'"
    by (auto simp: set_output_verbosity_def split: sum.splits)
  then have "levels_ok os1" using verbosity_level_ok [OF inv(1), of 0] by auto
  from verbosity_levels_nonreg [OF o(2) this] verbosity_level_nonreg(1) [OF o(1) inv(1)] show ?thesis by simp
qed

lemma settle_nonreg: "o_info (settle os) ! INFO_NONREG = o_info os ! INFO_NONREG"
  by (simp add: settle_def settle_output_nonreg settle_steps_levels)

text \<open>
  Whatever the user asks for, after a successful parse outside the daemon mode the level
  \<open>NONREG\<close> is 1: the built-in levels are applied last and \<open>parseOutputWords\<close> ignores the
  priority, so \<open>--info=nonreg0\<close> has no effect.
\<close>

theorem nonreg_always_on:
  assumes "os \<in> {new_options, new_options_with_defaults}"
    and "parse_arguments args (new_popt_context os) = Inr pc" "o_int (Opts pc) ''am_daemon'' = 0"
  shows "o_info (Opts pc) ! INFO_NONREG = 1"
proof -
  obtain pc1 n d where l: "parse_loop args 0 (new_popt_context os\<lparr>c_args := args\<rparr>) = Inr (pc1, n, d)"
    using assms(2) by (auto simp: parse_arguments_def split: sum.splits)
  have d: "\<not> d"
  proof
    assume d
    with l have "parse_loop args 0 (new_popt_context os\<lparr>c_args := args\<rparr>) = Inr (pc1, n, True)" by simp
    from parse_loop_daemon [OF this] this assms(2,3) show False by (simp add: parse_arguments_def)
  qed
  have "fine fst (parse_loop args 0 (new_popt_context os\<lparr>c_args := args\<rparr>))"
    by (rule parse_loop_fine [OF new_context_ok [OF assms(1)]])
  with l have inv: "opts_inv (Opts pc1)" by (simp add: pc_ok_def)
  obtain os' where v: "set_output_verbosity (Opts pc1) = Inr os'" "Opts pc = settle os'"
    using assms(2) l d by (auto simp: parse_arguments_def finish_options_def split: sum.splits if_splits)
  from set_output_verbosity_nonreg [OF v(1) inv] show ?thesis by (simp add: v(2) settle_nonreg)
qed

theorem nonreg_always_on_witness:
  "\<exists>pc. parse_arguments [''--info=nonreg0''] (new_popt_context new_options_with_defaults) = Inr pc \<and>
        o_info (Opts pc) ! INFO_NONREG = 1"
proof -
  let ?r = "parse_arguments [''--info=nonreg0''] (new_popt_context new_options_with_defaults)"
  have "case ?r of Inl e \<Rightarrow> False | Inr pc \<Rightarrow> o_int (Opts pc) ''am_daemon'' = 0" by code_simp
  then obtain pc where pc: "?r = Inr pc" "o_int (Opts pc) ''am_daemon'' = 0" by (cases ?r) auto
  from nonreg_always_on [OF _ pc] pc(1) show ?thesis by simp
qed

lemma info_none_rejected:
  "parse_output_words infoWords (replicate COUNT_INFO 0) ''none'' =
     Inl (OtherError (Errorf ''unknown --info/--debug item: %q'' [FStr ''none'']))"
  by code_simp

lemma debug_bind_sets_chdir:
  "parse_output_words debugWords (replicate COUNT_DEBUG 0) ''bind'' =
     Inr ((replicate COUNT_DEBUG 0)[DEBUG_CHDIR := 1])"
  by code_simp

lemma empty_value_takes_next:
  "case parse_arguments [''--exclude='', ''x''] (new_popt_context new_options_with_defaults) of
     Inl e \<Rightarrow> False | Inr pc \<Rightarrow> filterRules (Opts pc) = [''- x''] \<and> RemainingArgs pc = []"
  by code_simp

text \<open>
  Three slips of the option parser.  \<open>--info=none\<close> is rejected, since no word is named so;
  the order of \<open>debugWords\<close> is not that of the constants, so \<open>--debug=bind\<close> sets the level of
  \<open>CHDIR\<close>; and an option whose value after \<open>=\<close> is empty takes the next argument instead.
\<close>

theorem option_slips:
  "parse_output_words infoWords (replicate COUNT_INFO 0) ''none'' =
     Inl (OtherError (Errorf ''unknown --info/--debug item: %q'' [FStr ''none''])) \<and>
   parse_output_words debugWords (replicate COUNT_DEBUG 0) ''bind'' =
     Inr ((replicate COUNT_DEBUG 0)[DEBUG_CHDIR := 1]) \<and>
   (case parse_arguments [''--exclude='', ''x''] (new_popt_context new_options_with_defaults) of
      Inl e \<Rightarrow> False | Inr pc \<Rightarrow> filterRules (Opts pc) = [''- x''] \<and> RemainingArgs pc = [])"
  using info_none_rejected debug_bind_sets_chdir empty_value_takes_next by simp

end
