(* ===== verification/First_Match.thy ===== *)
theory First_Match
  imports Prelude
begin

text \<open>
  Rule lists that are decided by their first matching entry: filter rules, access rules, the
  lines of a secrets file, the modules of a server.  What they have in common is proved once.
\<close>

locale first_match =
  fixes decide :: "'r list \<Rightarrow> 'q \<Rightarrow> 'd"
    and hit :: "'r \<Rightarrow> 'q \<Rightarrow> bool"
    and verdict :: "'r \<Rightarrow> 'q \<Rightarrow> 'd"
    and fallback :: "'q \<Rightarrow> 'd"
  assumes decide_nil: "decide [] q = fallback q"
    and decide_hit: "hit r q \<Longrightarrow> decide (r # rs) q = verdict r q"
    and decide_miss: "\<not> hit r q \<Longrightarrow> decide (r # rs) q = decide rs q"
begin

lemma decide_find: "decide rs q = (case find (\<lambda>r. hit r q) rs of None \<Rightarrow> fallback q | Some r \<Rightarrow> verdict r q)"
  by (induction rs) (simp_all add: decide_nil decide_hit decide_miss)

lemma decide_none: "\<forall>r \<in> set rs. \<not> hit r q \<Longrightarrow> decide rs q = fallback q"
  by (induction rs) (simp_all add: decide_nil decide_miss)

lemma decide_append:
  "decide (rs @ rs') q = (if \<exists>r \<in> set rs. hit r q then decide rs q else decide rs' q)"
  by (induction rs) (auto simp: decide_hit decide_miss, metis decide_hit decide_miss)

text \<open>What comes behind a matching rule never matters.\<close>

lemma decide_shadowed: "r \<in> set rs \<Longrightarrow> hit r q \<Longrightarrow> decide (rs @ rs') q = decide rs q"
  by (auto simp: decide_append)

text \<open>A decision other than the fallback comes from a rule.\<close>

lemma decide_cases:
  assumes "decide rs q = d"
  obtains (none) "\<forall>r \<in> set rs. \<not> hit r q" "d = fallback q"
  | (first) us r vs where "rs = us @ r # vs" "\<forall>u \<in> set us. \<not> hit u q" "hit r q" "d = verdict r q"
  using assms
proof (induction rs arbitrary: thesis)
  case Nil
  then show ?case by (simp add: decide_nil)
next
  case (Cons r rs)
  show ?case
  proof (cases "hit r q")
    case True
    with Cons.prems show ?thesis by (metis append_Nil decide_hit empty_iff empty_set)
  next
    case False
    then have d: "decide rs q = d" using Cons.prems(3) by (simp add: decide_miss)
    show ?thesis
    proof (rule Cons.IH [OF _ _ d])
      assume "\<forall>r \<in> set rs. \<not> hit r q" "d = fallback q"
      then show ?thesis using Cons.prems(1) False by simp
    next
      fix us r' vs assume "rs = us @ r' # vs" "\<forall>u \<in> set us. \<not> hit u q" "hit r' q" "d = verdict r' q"
      then show ?thesis using Cons.prems(2) [of "r # us" r' vs] False by simp
    qed
  qed
qed

end

end
