(* ===== verification/Go_Net.thy ===== *)
theory Go_Net
  imports Go_Strings
begin

text \<open>
  What the program uses of Go's \<open>net\<close> and \<open>encoding/base64\<close>: \<open>SplitHostPort\<close>, \<open>ParseIP\<close>,
  \<open>ParseCIDR\<close>, \<open>IPNet.Contains\<close>; \<open>StdEncoding\<close> without padding.
\<close>

subsection \<open>Addresses\<close>

definition ascii_digit :: "char \<Rightarrow> bool" where
  "ascii_digit c \<longleftrightarrow> CHR ''0'' \<le> c \<and> c \<le> CHR ''9''"

definition dec_value :: "string \<Rightarrow> nat" where
  "dec_value s = foldl (\<lambda>n c. 10 * n + (of_char c - 48)) 0 s"

definition octet :: "string \<Rightarrow> byte option" where
  "octet s =
     (if s = '''' \<or> (\<exists>c \<in> set s. \<not> ascii_digit c) \<or> (length s > 1 \<and> hd s = CHR ''0'') \<or> dec_value s > 255 then None
      else Some (word_of_nat (dec_value s)))"

definition parse_ipv4 :: "string \<Rightarrow> byte list option" where
  "parse_ipv4 s =
     (case map octet (split_on (CHR ''.'') s) of
        [Some a, Some b, Some c, Some d] \<Rightarrow> Some [a, b, c, d]
      | _ \<Rightarrow> None)"

definition hex_digit :: "char \<Rightarrow> nat option" where
  "hex_digit c =
     (if ascii_digit c then Some (of_char c - 48)
      else if CHR ''a'' \<le> c \<and> c \<le> CHR ''f'' then Some (of_char c - 87)
      else if CHR ''A'' \<le> c \<and> c \<le> CHR ''F'' then Some (of_char c - 55)
      else None)"

definition hex_value :: "string \<Rightarrow> nat" where
  "hex_value s = foldl (\<lambda>n c. 16 * n + (case hex_digit c of None \<Rightarrow> 0 | Some v \<Rightarrow> v)) 0 s"

text \<open>
  The groups of an IPv6 address: \<open>acc\<close> are the bytes so far, \<open>ell\<close> the position of the ellipsis.
  The result has what is left of the string.
\<close>

function ipv6_groups :: "byte list \<Rightarrow> nat option \<Rightarrow> string \<Rightarrow> (byte list \<times> nat option \<times> string) option" where
  "ipv6_groups acc ell s =
     (if length acc \<ge> 16 then Some (acc, ell, s) else
      let hex = takeWhile (\<lambda>c. hex_digit c \<noteq> None) s; rest = dropWhile (\<lambda>c. hex_digit c \<noteq> None) s;
          acc' = acc @ [word_of_nat (hex_value hex div 256), word_of_nat (hex_value hex mod 256)]
      in if hex = [] \<or> length hex > 4 then None
         else case rest of
           [] \<Rightarrow> Some (acc', ell, [])
         | c # s' \<Rightarrow>
             if c = CHR ''.'' then
               (if (ell = None \<and> length acc \<noteq> 12) \<or> length acc + 4 > 16 then None
                else case parse_ipv4 s of None \<Rightarrow> None | Some q \<Rightarrow> Some (acc @ q, ell, []))
             else if c \<noteq> CHR '':'' then None
             else case s' of
               [] \<Rightarrow> None
             | c' # s'' \<Rightarrow>
                 if c' = CHR '':'' then
                   (if ell \<noteq> None then None
                    else if s'' = [] then Some (acc', Some (length acc'), [])
                    else ipv6_groups acc' (Some (length acc')) s'')
                 else ipv6_groups acc' ell s')"
  by pat_completeness auto
termination
proof (relation "measure (\<lambda>(acc, ell, s). length s)", goal_cases)
  case (2 acc ell s hex rest acc' c s' c' s'')
  then have "length (c # c' # s'') \<le> length s" using length_dropWhile_le by metis
  with 2 show ?case by simp
next
  case (3 acc ell s hex rest acc' c s' c' s'')
  then have "length (c # c' # s'') \<le> length s" using length_dropWhile_le by metis
  with 3 show ?case by simp
qed simp

declare ipv6_groups.simps [simp del]

definition parse_ipv6 :: "string \<Rightarrow> byte list option" where
  "parse_ipv6 s =
     (if s = ''::'' then Some (replicate 16 0) else
      case (if has_prefix s ''::'' then ipv6_groups [] (Some 0) (drop 2 s) else ipv6_groups [] None s) of
        None \<Rightarrow> None
      | Some (bs, ell, rest) \<Rightarrow>
          if rest \<noteq> [] then None
          else case ell of
            None \<Rightarrow> if length bs = 16 then Some bs else None
          | Some k \<Rightarrow> if length bs \<ge> 16 then None
                     else Some (take k bs @ replicate (16 - length bs) 0 @ drop k bs))"

definition v4_prefix :: "byte list" where
  "v4_prefix = replicate 10 0 @ [0xFF, 0xFF]"

text \<open>An address in its 16 bytes, and whether it was written as an IPv4 address; no zones.\<close>

definition parse_addr :: "string \<Rightarrow> (bool \<times> byte list) option" where
  "parse_addr s =
     (case find (\<lambda>c. c = CHR ''.'' \<or> c = CHR '':'' \<or> c = CHR ''%'') s of
        None \<Rightarrow> None
      | Some c \<Rightarrow>
          if c = CHR ''.'' then map_option (\<lambda>q. (True, v4_prefix @ q)) (parse_ipv4 s)
          else if c = CHR '':'' \<and> CHR ''%'' \<notin> set s then map_option (\<lambda>b. (False, b)) (parse_ipv6 s)
          else None)"

definition parse_ip :: "string \<Rightarrow> byte list option" where
  "parse_ip s = map_option snd (parse_addr s)"

text \<open>\<open>To4\<close>, or the address itself.\<close>

definition short_ip :: "byte list \<Rightarrow> byte list" where
  "short_ip ip = (if take 12 ip = v4_prefix then drop 12 ip else ip)"

subsection \<open>Networks\<close>

record ip_net =
  net_ip :: "byte list"
  net_mask :: "byte list"

definition cidr_mask :: "nat \<Rightarrow> nat \<Rightarrow> byte list" where
  "cidr_mask n bits =
     map (\<lambda>i. if 8 * i + 8 \<le> n then 0xFF else if n \<le> 8 * i then 0 else NOT (drop_bit (n - 8 * i) 0xFF))
       [0..<bits div 8]"

definition parse_cidr :: "string \<Rightarrow> ip_net option" where
  "parse_cidr s =
     (case cut_at (CHR ''/'') s of
        None \<Rightarrow> None
      | Some (addr, plen) \<Rightarrow>
          (case parse_addr addr of
             None \<Rightarrow> None
           | Some (is4, ip) \<Rightarrow>
               let bits = (if is4 then 32 else 128)
               in if plen = '''' \<or> (\<exists>c \<in> set plen. \<not> ascii_digit c) \<or> dec_value plen > bits then None
                  else let m = cidr_mask (dec_value plen) bits;
                           ip' = (if is4 then drop 12 ip else ip)
                       in Some \<lparr>net_ip = map2 (AND) ip' m, net_mask = m\<rparr>))"

definition net_contains :: "ip_net \<Rightarrow> byte list \<Rightarrow> bool" where
  "net_contains net ip =
     (let nn = short_ip (net_ip net);
          m = (if length nn = 4 \<and> length (net_mask net) = 16 then drop 12 (net_mask net) else net_mask net);
          x = short_ip ip
      in length x = length nn \<and> map2 (AND) nn m = map2 (AND) x m)"

subsection \<open>Host and port\<close>

definition split_host_port :: "string \<Rightarrow> string option" where
  "split_host_port hostport =
     (if CHR '':'' \<notin> set hostport then None
      else let before = rev (tl (dropWhile (\<lambda>c. c \<noteq> CHR '':'') (rev hostport)));
               port = rev (takeWhile (\<lambda>c. c \<noteq> CHR '':'') (rev hostport))
           in if has_prefix hostport ''['' then
                (if CHR '']'' \<notin> set hostport then None
                 else let host = takeWhile (\<lambda>c. c \<noteq> CHR '']'') (tl hostport)
                      in if before \<noteq> CHR ''['' # host @ '']'' then None
                         else if CHR ''['' \<in> set (host @ port) \<or> CHR '']'' \<in> set port then None
                         else Some host)
              else if CHR '':'' \<in> set before then None
              else if CHR ''['' \<in> set hostport \<or> CHR '']'' \<in> set hostport then None
              else Some before)"

subsection \<open>Base 64\<close>

definition base64_char :: "nat \<Rightarrow> char" where
  "base64_char n = (''ABCDEFGHIJKLMNOPQRSTUVWXYZabcdefghijklmnopqrstuvwxyz0123456789+/'') ! n"

fun base64 :: "byte list \<Rightarrow> string" where
  "base64 [] = []"
| "base64 [a] = [base64_char (unat a div 4), base64_char (unat a mod 4 * 16)]"
| "base64 [a, b] =
     [base64_char (unat a div 4), base64_char (unat a mod 4 * 16 + unat b div 16), base64_char (unat b mod 16 * 4)]"
| "base64 (a # b # c # bs) =
     [base64_char (unat a div 4), base64_char (unat a mod 4 * 16 + unat b div 16),
      base64_char (unat b mod 16 * 4 + unat c div 64), base64_char (unat c mod 64)] @ base64 bs"

end
