(* ===== verification/Daemon.thy ===== *)
theory Daemon
  imports First_Match Go_Net Go_Path Exclude Options Sender
begin

text \<open>
  \<open>rsyncd/rsyncd.go\<close> up to the transfer, and \<open>internal/rsyncsec\<close>: the modules of a server, who
  may use them, the challenge of the authentication, and the handshake of a daemon connection.
\<close>

subsection \<open>Secrets in memory\<close>

text \<open>The third-party library that encrypts them.\<close>

record secret_lib =
  sl_GenerateKey :: "go_error + string"
  sl_ResolveKey :: "string \<Rightarrow> go_error + byte list"
  sl_EncryptBytes :: "byte list \<Rightarrow> byte list \<Rightarrow> go_error + byte list"
  sl_DecryptBytes :: "byte list \<Rightarrow> byte list \<Rightarrow> go_error + byte list"

record protected_secret =
  ps_key :: "byte list"
  ps_encrypted :: "byte list"

definition new_protected_secret :: "secret_lib \<Rightarrow> string \<Rightarrow> go_error + protected_secret" where
  "new_protected_secret lib rawPass =
     (case sl_GenerateKey lib of
        Inl e \<Rightarrow> Inl (Errorf ''failed generating master key: %w'' [FErr e])
      | Inr keyHex \<Rightarrow> (case sl_ResolveKey lib keyHex of
          Inl e \<Rightarrow> Inl (Errorf ''failed resolving key: %w'' [FErr e])
        | Inr key \<Rightarrow> (case sl_EncryptBytes lib (bytes_of_string rawPass) key of
            Inl e \<Rightarrow> Inl (Errorf ''failed encrypting secret: %w'' [FErr e])
          | Inr enc \<Rightarrow> Inr \<lparr>ps_key = key, ps_encrypted = enc\<rparr>)))"

definition reveal :: "secret_lib \<Rightarrow> protected_secret \<Rightarrow> go_error + byte list" where
  "reveal lib ps =
     (if ps_key ps = [] then Inl (Errorf ''secret unavailable or destroyed'' [])
      else sl_DecryptBytes lib (ps_encrypted ps) (ps_key ps))"

definition destroy :: "protected_secret \<Rightarrow> protected_secret" where
  "destroy ps = \<lparr>ps_key = [], ps_encrypted = []\<rparr>"

subsection \<open>Modules\<close>

text \<open>The fields for a certificate of a module's own are read nowhere and left out.\<close>

record rsync_module =
  m_Name :: string
  m_Comment :: string
  m_Path :: string
  m_FS :: "file_source option"
  m_WritableFS :: bool
  m_ACL :: "string list"
  m_Writable :: bool
  m_AuthUsers :: "string list"
  m_SecretsFile :: string
  m_TLSAllowedCNs :: "string list"

definition validate_module :: "rsync_module \<Rightarrow> go_error + unit" where
  "validate_module m =
     (if m_Name m = '''' then Inl (Errorf ''module has no name'' [])
      else if m_FS m \<noteq> None then
        (if m_Writable m then Inl (Errorf ''module %q: FS modules cannot be writable'' [FStr (m_Name m)])
         else if m_Path m \<noteq> '''' then Inl (Errorf ''module %q: cannot specify both Path and FS'' [FStr (m_Name m)])
         else Inr ())
      else if m_WritableFS m then
        (if m_Path m \<noteq> '''' then Inl (Errorf ''module %q: cannot specify both Path and WritableFS'' [FStr (m_Name m)])
         else Inr ())
      else if m_Path m = '''' then Inl (Errorf ''module %q has empty path'' [FStr (m_Name m)])
      else Inr ())"

fun validate_modules :: "rsync_module list \<Rightarrow> go_error + unit" where
  "validate_modules [] = Inr ()"
| "validate_modules (m # ms) = (case validate_module m of Inl e \<Rightarrow> Inl e | Inr _ \<Rightarrow> validate_modules ms)"

text \<open>What the process is restricted to: the directories it may read, and those it may write.\<close>

fun restrict_to_modules ::
  "(string \<Rightarrow> go_error option) \<Rightarrow> rsync_module list \<Rightarrow> string list \<Rightarrow> string list \<Rightarrow> go_error + string list \<times> string list" where
  "restrict_to_modules mkdir [] ro rw = Inr (ro, rw)"
| "restrict_to_modules mkdir (m # ms) ro rw =
     (if m_FS m \<noteq> None \<or> m_WritableFS m then restrict_to_modules mkdir ms ro rw
      else if m_Writable m then
        (case mkdir (m_Path m) of
           Some e \<Rightarrow> Inl (Errorf ''MkdirAll(mod=%s): %v'' [FStr (m_Name m), FErr e])
         | None \<Rightarrow> restrict_to_modules mkdir ms ro (rw @ [m_Path m]))
      else restrict_to_modules mkdir ms (ro @ [m_Path m]) rw)"

text \<open>\<open>NewServer\<close>: \<open>tlsErr\<close> is what reading the certificates gave.\<close>

definition new_server ::
  "(string \<Rightarrow> go_error option) \<Rightarrow> (string list \<Rightarrow> string list \<Rightarrow> go_error option) \<Rightarrow> bool \<Rightarrow> go_error option \<Rightarrow>
   rsync_module list \<Rightarrow> go_error + rsync_module list" where
  "new_server mkdir restricted dontRestrict tlsErr modules =
     (case validate_modules modules of
        Inl e \<Rightarrow> Inl e
      | Inr _ \<Rightarrow> (case tlsErr of
          Some e \<Rightarrow> Inl e
        | None \<Rightarrow>
            if dontRestrict \<or> modules = [] then Inr modules
            else case restrict_to_modules mkdir modules [] [] of
              Inl e \<Rightarrow> Inl e
            | Inr (ro, rw) \<Rightarrow> (case restricted ro rw of Some e \<Rightarrow> Inl e | None \<Rightarrow> Inr modules)))"

fun get_module :: "rsync_module list \<Rightarrow> string \<Rightarrow> go_error + rsync_module" where
  "get_module [] requested = Inl (Errorf ''no such module: %s'' [FStr requested])"
| "get_module (m # ms) requested = (if m_Name m = requested then Inr m else get_module ms requested)"

definition format_module_list :: "rsync_module list \<Rightarrow> string" where
  "format_module_list ms =
     concat (map (\<lambda>m. m_Name m @ [CHR 0x09] @ (if m_Comment m = '''' then m_Name m else m_Comment m) @ [CHR 0x0A]) ms)"

subsection \<open>Access rules\<close>

definition acl_syntax :: "string \<Rightarrow> go_error" where
  "acl_syntax acl = Errorf ''invalid acl: %q (syntax: allow|deny <all|ipnet>)'' [FStr acl]"

text \<open>One rule: \<open>None\<close> when it does not concern the address.\<close>

definition acl_entry :: "string \<Rightarrow> byte list \<Rightarrow> (go_error + unit) option" where
  "acl_entry acl ip =
     (case cut_at (CHR '' '') acl of
        None \<Rightarrow> Some (Inl (Errorf ''invalid acl: %q (no space found)'' [FStr acl]))
      | Some (action, who) \<Rightarrow>
          if action \<noteq> ''allow'' \<and> action \<noteq> ''deny'' then Some (Inl (acl_syntax acl))
          else let verdict = (if action = ''allow'' then Inr () else Inl (Errorf ''access denied (acl %q)'' [FStr acl]))
          in if who = ''all'' then Some verdict
             else case parse_cidr who of
               None \<Rightarrow> Some (Inl (acl_syntax acl))
             | Some net \<Rightarrow> if net_contains net ip then Some verdict else None)"

fun acl_loop :: "string list \<Rightarrow> byte list \<Rightarrow> go_error + unit" where
  "acl_loop [] ip = Inr ()"
| "acl_loop (acl # acls) ip = (case acl_entry acl ip of Some v \<Rightarrow> v | None \<Rightarrow> acl_loop acls ip)"

definition check_acl :: "string list \<Rightarrow> string \<Rightarrow> go_error + unit" where
  "check_acl acls remoteAddr =
     (if acls = [] then Inr () else
      case split_host_port remoteAddr of
        None \<Rightarrow> Inl (Errorf ''BUG: invalid remote address %q'' [FStr remoteAddr])
      | Some host \<Rightarrow> (case parse_ip host of
          None \<Rightarrow> Inl (Errorf ''BUG: invalid remote host %q'' [FStr host])
        | Some ip \<Rightarrow> acl_loop acls ip))"

definition cn_allowed :: "string list \<Rightarrow> string \<Rightarrow> bool" where
  "cn_allowed cns clientCN \<longleftrightarrow> (\<exists>cn \<in> set cns. cn = clientCN \<or> cn = ''*'')"

subsection \<open>Talking in lines\<close>

text \<open>\<open>bufio.Reader.ReadString\<close> up to a newline.\<close>

definition read_line :: "(string, 'z conn_scheme) act" where
  "read_line c =
     (if 10 \<in> set (c_in c)
      then (Inr (string_of_bytes (takeWhile (\<lambda>b. b \<noteq> 10) (c_in c) @ [10])),
            c\<lparr>c_in := tl (dropWhile (\<lambda>b. b \<noteq> 10) (c_in c))\<rparr>)
      else (Inl EOF, c\<lparr>c_in := []\<rparr>))"

text \<open>A reply whose error nobody looks at, one line of text.\<close>

definition reply :: "string \<Rightarrow> (unit, 'z conn_scheme) act" where
  "reply txt = bnd (attempt (conn_write (bytes_of_string txt))) (\<lambda>_. ret ())"

definition newline :: string where "newline = [CHR 0x0A]"

text \<open>
  What a connection depends on besides its streams: the text of a formatted message
  (\<open>fmt.Sprintf\<close>), MD4, the random bytes of the challenge, the files and the secrets library, the
  common name of a TLS client's certificate, the address of the peer.
\<close>

record daemon_env =
  de_sprintf :: "string \<Rightarrow> fmt_arg list \<Rightarrow> string"
  de_md4 :: "byte list \<Rightarrow> byte list"
  de_random :: "go_error + byte list"
  de_read_file :: "string \<Rightarrow> go_error + string"
  de_secrets :: secret_lib
  de_peer_cn :: "string option"
  de_remote :: string

subsection \<open>Authentication\<close>

definition gen_challenge :: "daemon_env \<Rightarrow> string" where
  "gen_challenge env =
     base64 (de_md4 env ([0, 0, 0, 0] @ (case de_random env of Inl _ \<Rightarrow> map word_of_nat [0..<16] | Inr buf \<Rightarrow> buf)))"

definition auth_hash_secret :: "(byte list \<Rightarrow> byte list) \<Rightarrow> secret_lib \<Rightarrow> protected_secret \<Rightarrow> string \<Rightarrow> go_error + string" where
  "auth_hash_secret md4 lib sec challenge =
     (case reveal lib sec of
        Inl e \<Rightarrow> Inl e
      | Inr revealed \<Rightarrow> Inr (base64 (md4 ([0, 0, 0, 0] @ revealed @ bytes_of_string challenge))))"

text \<open>The lines of a secrets file: the password of the first line for the user.\<close>

definition secret_line :: "string \<Rightarrow> (string \<times> string) option" where
  "secret_line l =
     (let t = trim_space l
      in if t = '''' \<or> hd t = CHR ''#'' then None else cut_at (CHR '':'') t)"

fun find_password :: "string list \<Rightarrow> string \<Rightarrow> string option" where
  "find_password [] user = None"
| "find_password (l # ls) user =
     (case secret_line l of
        None \<Rightarrow> find_password ls user
      | Some (u, p) \<Rightarrow> if u = user then Some (trim_space p) else find_password ls user)"

definition lookup_secret :: "daemon_env \<Rightarrow> string \<Rightarrow> string \<Rightarrow> go_error + protected_secret" where
  "lookup_secret env path user =
     (if path = '''' then Inl (Errorf ''no secrets file configured'' []) else
      case de_read_file env (clean path) of
        Inl e \<Rightarrow> Inl (Errorf ''reading secrets file: %v'' [FErr e])
      | Inr txt \<Rightarrow> (case find_password (split_on (CHR 0x0A) txt) user of
          None \<Rightarrow> Inl (Errorf ''user not found in secrets file'' [])
        | Some pass \<Rightarrow> (case new_protected_secret (de_secrets env) pass of
            Inl e \<Rightarrow> Inl (Errorf ''creating secret handle: %v'' [FErr e])
          | Inr sec \<Rightarrow> Inr sec)))"

definition auth_failed :: go_error where "auth_failed = Errorf ''auth failed'' []"

definition check_response :: "daemon_env \<Rightarrow> rsync_module \<Rightarrow> string \<Rightarrow> string \<Rightarrow> go_error + unit" where
  "check_response env m challenge line =
     (case cut_at (CHR '' '') (trim_space line) of
        None \<Rightarrow> Inl (Errorf ''invalid auth response'' [])
      | Some (user, response) \<Rightarrow>
          if user \<notin> set (m_AuthUsers m) then Inl auth_failed
          else case lookup_secret env (m_SecretsFile m) user of
            Inl _ \<Rightarrow> Inl auth_failed
          | Inr secret \<Rightarrow> (case auth_hash_secret (de_md4 env) (de_secrets env) secret challenge of
              Inl _ \<Rightarrow> Inl auth_failed
            | Inr expected \<Rightarrow> if response \<noteq> expected then Inl auth_failed else Inr ()))"

definition auth_server :: "daemon_env \<Rightarrow> rsync_module \<Rightarrow> (unit, 'z conn_scheme) act" where
  "auth_server env m =
     (let challenge = gen_challenge env in
      bnd (reply (''@RSYNCD: AUTHREQD '' @ challenge @ newline)) (\<lambda>_.
      bnd (wrap_err (\<lambda>e. Errorf ''reading auth response: %v'' [FErr e]) read_line) (\<lambda>line.
      case check_response env m challenge line of Inl e \<Rightarrow> throw e | Inr u \<Rightarrow> ret u)))"

subsection \<open>The handshake\<close>

text \<open>An error that is told to the client and returned.\<close>

definition refuse :: "daemon_env \<Rightarrow> string \<Rightarrow> fmt_arg list \<Rightarrow> go_error \<Rightarrow> ('a, 'z conn_scheme) act" where
  "refuse env fmt as e = bnd (reply (de_sprintf env fmt as)) (\<lambda>_. throw e)"

text \<open>From the module on: every check, then \<open>@RSYNCD: OK\<close>.\<close>

definition admit :: "daemon_env \<Rightarrow> rsync_module \<Rightarrow> (unit, 'z conn_scheme) act" where
  "admit env m =
     (case check_acl (m_ACL m) (de_remote env) of
        Inl e \<Rightarrow> refuse env (''@ERROR: %v'' @ newline) [FErr e] e
      | Inr _ \<Rightarrow>
          let cn = (case de_peer_cn env of None \<Rightarrow> '''' | Some cn \<Rightarrow> cn) in
          if m_TLSAllowedCNs m \<noteq> [] \<and> \<not> cn_allowed (m_TLSAllowedCNs m) cn then
            (let e = Errorf ''access denied (client CN %q not allowed for module %q)'' [FStr cn, FStr (m_Name m)]
             in refuse env (''@ERROR: %v'' @ newline) [FErr e] e)
          else
            bnd (if m_AuthUsers m = [] then ret ()
                 else bnd (attempt (auth_server env m)) (\<lambda>r.
                   case r of
                     Inl e \<Rightarrow> refuse env (''@ERROR: auth failed on module %s'' @ newline) [FStr (m_Name m)] e
                   | Inr _ \<Rightarrow> ret ())) (\<lambda>_.
            reply (''@RSYNCD: OK'' @ newline)))"

text \<open>Up to the module: \<open>None\<close> after a listing.\<close>

definition daemon_open :: "daemon_env \<Rightarrow> rsync_module list \<Rightarrow> (rsync_module option, 'z conn_scheme) act" where
  "daemon_open env modules =
     bnd (reply (''@RSYNCD: 31.0'' @ newline)) (\<lambda>_.
     bnd read_line (\<lambda>greeting.
     if \<not> has_prefix greeting ''@RSYNCD: '' then throw (Errorf ''invalid client greeting: got %q'' [FStr greeting])
     else bnd read_line (\<lambda>line.
       let requested = trim_space line in
       if requested = '''' \<or> requested = ''#list'' then
         bnd (reply (format_module_list modules)) (\<lambda>_.
         bnd (reply (''@RSYNCD: EXIT'' @ newline)) (\<lambda>_.
         ret None))
       else case get_module modules requested of
         Inl e \<Rightarrow> refuse env (''@ERROR: Unknown module %q'' @ newline) [FStr requested] e
       | Inr m \<Rightarrow> bnd (admit env m) (\<lambda>_. ret (Some m)))))"

text \<open>The arguments, one per line, up to an empty line.\<close>

lemma read_line_shorter: "read_line c = (Inr l, c') \<Longrightarrow> length (c_in c') < length (c_in c)"
proof -
  assume "read_line c = (Inr l, c')"
  then have m: "10 \<in> set (c_in c)" and c': "c_in c' = tl (dropWhile (\<lambda>b. b \<noteq> 10) (c_in c))"
    by (auto simp: read_line_def split: if_splits)
  have "dropWhile (\<lambda>b. b \<noteq> 10) (c_in c) \<noteq> []" using m by (simp add: dropWhile_eq_Nil_conv)
  then show ?thesis using c' length_dropWhile_le [of "\<lambda>b. b \<noteq> 10" "c_in c"] by (cases "dropWhile (\<lambda>b. b \<noteq> 10) (c_in c)") auto
qed

function read_flags :: "string list \<Rightarrow> (string list, 'z conn_scheme) act" where
  "read_flags flags c =
     (case read_line c of
        (Inl e, c') \<Rightarrow> (Inl e, c')
      | (Inr line, c') \<Rightarrow>
          let flag = trim_space line
          in if flag = '''' then (Inr flags, c') else read_flags (flags @ [flag]) c')"
  by pat_completeness auto
termination
  by (relation "measure (\<lambda>(flags, c). length (c_in c))") (auto dest!: read_line_shorter [OF sym])

declare read_flags.simps [simp del]

text \<open>
  The module's name is stripped from a requested path, after everything up to the first \<open>@\<close>.
\<close>

definition strip_module :: "string \<Rightarrow> string \<Rightarrow> string" where
  "strip_module name path =
     (let p = (case cut_at (CHR ''@'') path of None \<Rightarrow> path | Some (_, rest) \<Rightarrow> rest);
          trimmed = trim_prefix p name
      in if trimmed = '''' then ''.'' else trimmed)"

text \<open>
  How the handshake ends: with a listing, with the options and paths of a transfer for a module,
  or with the end of the whole process, which the option parser asks for.
\<close>

datatype handshake = Listed | Accepted rsync_module options "string list" | ProcessExit int

definition tell_parse_error :: "daemon_env \<Rightarrow> go_error \<Rightarrow> (unit, 'z conn_scheme) act" where
  "tell_parse_error env e =
     bnd (write_int32 0xEE) (\<lambda>_.
     bnd (attempt (write_msg MsgErrorXfer (bytes_of_string (de_sprintf env (''gorsync [sender]: %v'' @ newline) [FErr e]))))
       (\<lambda>_. ret ()))"

definition opt_go_error :: "opt_error \<Rightarrow> go_error" where
  "opt_go_error e = (case e of PoptError n e' d \<Rightarrow> (if d then Errorf ''%v (in daemon mode)'' [FErr e'] else e') | OtherError e' \<Rightarrow> e' | Exit n \<Rightarrow> Errorf ''exit'' [])"

definition parse_client_args :: "daemon_env \<Rightarrow> rsync_module \<Rightarrow> string list \<Rightarrow> (handshake, 'z conn_scheme) act" where
  "parse_client_args env m flags =
     (case parse_arguments flags (new_popt_context new_options_with_defaults) of
       Inl (Exit n) \<Rightarrow> ret (ProcessExit n)
     | Inl e \<Rightarrow>
         let err = Errorf ''parsing server args: %v'' [FErr (opt_go_error e)]
         in bnd (tell_parse_error env err) (\<lambda>_. throw err)
     | Inr pc \<Rightarrow>
         (case RemainingArgs pc of
            dot # path # paths \<Rightarrow>
              if dot \<noteq> ''.'' then throw (Errorf ''protocol error: got %q, expected %q'' [FStr dot, FStr ''.''])
              else ret (Accepted m (Opts pc) (map (strip_module (m_Name m)) (path # paths)))
          | _ \<Rightarrow> throw (Errorf ''invalid args: at least one directory required'' [])))"

definition daemon_args :: "daemon_env \<Rightarrow> rsync_module \<Rightarrow> (handshake, 'z conn_scheme) act" where
  "daemon_args env m = bnd (read_flags []) (parse_client_args env m)"

definition daemon_handshake :: "daemon_env \<Rightarrow> rsync_module list \<Rightarrow> (handshake, 'z conn_scheme) act" where
  "daemon_handshake env modules =
     bnd (daemon_open env modules) (\<lambda>r.
     case r of None \<Rightarrow> ret Listed | Some m \<Rightarrow> daemon_args env m)"

end
