(* ===== verification/Serve.thy ===== *)
theory Serve
  imports Daemon Send_Flist Recv_Flist Recv_Do
begin

text \<open>
  \<open>rsyncd/rsyncd.go\<close> from \<open>handleConn\<close> on: the seed, the switch to multiplexed writing, and the server
  as sender and as receiver.
\<close>

definition ProtocolVersion :: int where "ProtocolVersion = 27"

text \<open>
  What a session depends on besides its streams: the clock and the process number of the seed, MD4, the
  text of a formatted message, and the files and users of the host, as in the components that use
  them.  \<open>sv_sub_root\<close> opens a directory below the root of the destination, before and after it was
  created.
\<close>

record serve_env =
  sv_md4 :: "byte list \<Rightarrow> byte list"
  sv_now :: int
  sv_pid :: int
  sv_sprintf :: "string \<Rightarrow> fmt_arg list \<Rightarrow> string"
  sv_depth :: nat
  sv_lookup :: "bool \<Rightarrow> int \<Rightarrow> string option"
  sv_shuffle :: "(int \<times> string) list \<Rightarrow> (int \<times> string) list"
  sv_open_source :: "string \<Rightarrow> go_error + file_source"
  sv_counters :: "search \<Rightarrow> int \<times> int"
  sv_mkdir_all :: "string \<Rightarrow> go_error option"
  sv_open_root :: "string \<Rightarrow> go_error option"
  sv_sub_root :: "bool \<Rightarrow> string \<Rightarrow> string \<Rightarrow> go_error option"
  sv_sub_mkdir :: "string \<Rightarrow> string \<Rightarrow> go_error option"
  sv_sys_stat :: bool
  sv_am_root :: bool
  sv_in_group :: "int \<Rightarrow> bool"

definition session_seed :: "serve_env \<Rightarrow> int" where
  "session_seed env = i32 (sv_now env) XOR i32 (i32 (sv_pid env) * 2 ^ 6)"

subsection \<open>Multiplexed writing\<close>

text \<open>
  From the seed on every \<open>Write\<close> goes out as a frame: what was written since \<open>before\<close> is framed.  The
  budget counts a frame as one write.
\<close>

definition in_frames :: "'z conn_scheme \<Rightarrow> 'z conn_scheme \<Rightarrow> 'z conn_scheme" where
  "in_frames start s =
     s\<lparr>c_out := c_out start @ concat (map (\<lambda>p. [le_bytes 4 (uint (mux_header MsgData (length p))), p]) (c_out s))\<rparr>"

definition multiplexed :: "('a, 'z conn_scheme) act \<Rightarrow> ('a, 'z conn_scheme) act" where
  "multiplexed m s = (case m (s\<lparr>c_out := []\<rparr>) of (r, s') \<Rightarrow> (r, in_frames s s'))"

text \<open>The deferred message to the client; a panic has no \<open>err\<close> yet.\<close>

definition error_message :: "serve_env \<Rightarrow> string \<Rightarrow> go_error + 'a \<Rightarrow> (unit, 'z conn_scheme) act" where
  "error_message env role r =
     (case r of
        Inr _ \<Rightarrow> ret ()
      | Inl e \<Rightarrow>
          if fatal e then ret ()
          else bnd (attempt (write_msg MsgErrorXfer
                 (bytes_of_string (sv_sprintf env (''gorsync ['' @ role @ '']: %v'' @ newline) [FErr e])))) (\<lambda>_. ret ()))"

text \<open>Up to the switch; only a connection that was not opened by the daemon's handshake negotiates.\<close>

definition start_session :: "serve_env \<Rightarrow> bool \<Rightarrow> (unit, 'z conn_scheme) act" where
  "start_session env negotiate =
     bnd (when_do negotiate (bnd read_int32 (\<lambda>_. write_int32 ProtocolVersion))) (\<lambda>_.
     write_int32 (session_seed env))"

subsection \<open>The server as sender\<close>

definition handle_conn_sender ::
  "serve_env \<Rightarrow> rsync_module option \<Rightarrow> options \<Rightarrow> string list \<Rightarrow> (unit, search) act" where
  "handle_conn_sender env module os paths =
     (let (source, root) = (case module of None \<Rightarrow> (None, FileSystemRoot) | Some m \<Rightarrow> (m_FS m, m_Path m)) in
      bnd recv_filter_list (\<lambda>excl.
      sender_do (sv_depth env) (sv_md4 env) (session_seed env) os (sv_lookup env) (sv_shuffle env) excl source
        (sv_open_source env) (sv_counters env) root paths))"

definition serve_sender ::
  "serve_env \<Rightarrow> bool \<Rightarrow> rsync_module option \<Rightarrow> options \<Rightarrow> string list \<Rightarrow> (unit, search) act" where
  "serve_sender env negotiate module os remaining =
     (if remaining = [] then throw (Panic ''slice bounds out of range'')
      else bnd (start_session env negotiate) (\<lambda>_ s.
        case multiplexed (handle_conn_sender env module os (tl remaining)) s of
          (r, s') \<Rightarrow> (r, snd (error_message env ''sender'' r s'))))"

subsection \<open>The server as receiver\<close>

text \<open>\<open>strings.Trim(p, "/")\<close>.\<close>

definition trim_slashes :: "string \<Rightarrow> string" where
  "trim_slashes p = strip_slashes (dropWhile (\<lambda>c. c = CHR ''/'') p)"

text \<open>The directory below the destination that the client asked for; \<open>None\<close>: the destination itself.\<close>

definition sub_dir :: "string list \<Rightarrow> string option" where
  "sub_dir paths =
     (case paths of
        [p] \<Rightarrow>
          if p = ''/'' then None
          else let d = trim_suffix (clean (trim_slashes p)) ''/''
               in if d = '''' \<or> d = ''.'' then None else Some d
      | _ \<Rightarrow> None)"

definition open_sub :: "serve_env \<Rightarrow> string \<Rightarrow> string \<Rightarrow> go_error + unit" where
  "open_sub env root d =
     (case sv_sub_root env False root d of
        None \<Rightarrow> Inr ()
      | Some (NotExist n) \<Rightarrow>
          (case sv_sub_mkdir env root d of
             Some e \<Rightarrow> Inl (Errorf ''MkdirAll(%s): %v'' [FStr d, FErr e])
           | None \<Rightarrow> (case sv_sub_root env True root d of
               None \<Rightarrow> Inr ()
             | Some e \<Rightarrow> Inl (Errorf ''OpenRoot(%s): %v'' [FStr d, FErr e])))
      | Some e \<Rightarrow> Inl (Errorf ''OpenRoot(%s): %v'' [FStr d, FErr e]))"

text \<open>The destination as far as it can be opened: its path and the part that is below the module.\<close>

definition receiver_root ::
  "serve_env \<Rightarrow> rsync_module option \<Rightarrow> string list \<Rightarrow> go_error + string \<times> string option" where
  "receiver_root env module paths =
     (if module = None \<and> length paths \<noteq> 1
      then Inl (Errorf ''precisely one destination path required, got %q'' (map FStr paths))
      else
        let (root, writable) = (case module of None \<Rightarrow> (hd paths, True) | Some m \<Rightarrow> (m_Path m, m_Writable m)) in
        if \<not> writable then Inl (Errorf ''ERROR: module is read only'' [])
        else case sv_mkdir_all env root of
          Some e \<Rightarrow> Inl (Errorf ''MkdirAll(dest=%s): %v'' [FStr root, FErr e])
        | None \<Rightarrow> (case sv_open_root env root of
            Some e \<Rightarrow> Inl (Errorf ''OpenRoot(dest=%s): %v'' [FStr root, FErr e])
          | None \<Rightarrow>
              if module = None then Inr (root, None)
              else if length paths > 1
                then Inl (Errorf ''module is available, and at most one destination path is allowed, got %q'' (map FStr paths))
              else case sub_dir paths of
                None \<Rightarrow> Inr (root, None)
              | Some d \<Rightarrow> (case open_sub env root d of Inl e \<Rightarrow> Inl e | Inr _ \<Rightarrow> Inr (root, Some d))))"

definition dest_name :: "string \<times> string option \<Rightarrow> string" where
  "dest_name = (\<lambda>(root, d). case d of None \<Rightarrow> root | Some d \<Rightarrow> join2 root d)"

definition server_recv_opts :: "serve_env \<Rightarrow> bool \<Rightarrow> options \<Rightarrow> string \<Rightarrow> recv_opts" where
  "server_recv_opts env writableFS os dest =
     \<lparr>DryRun = opt_DryRun os, Server = opt_Server os, Progress = opt_Progress os, DeleteMode = opt_DeleteMode os,
      PreserveGid = opt_PreserveGid os, PreserveUid = opt_PreserveUid os, PreserveLinks = opt_PreserveLinks os,
      PreservePerms = opt_PreservePerms os, PreserveDevices = opt_PreserveDevices os, PreserveTimes = opt_PreserveMTimes os,
      IgnoreTimes = opt_IgnoreTimes os, SizeOnly = opt_SizeOnly os, AlwaysChecksum = opt_AlwaysChecksum os,
      WholeFile = opt_WholeFile os, WritableFS = writableFS, SysStat = sv_sys_stat env, HasRoot = True, HasStdout = False,
      DestName = dest, amRoot = sv_am_root env, inGroup = sv_in_group env\<rparr>"

text \<open>From the opened destination to the file list.\<close>

definition receive_phase :: "options \<Rightarrow> recv_opts \<Rightarrow> (rfile list, recv) act" where
  "receive_phase os opts =
     bnd (when_do (opt_PreserveHardLinks os) (throw (Errorf ''support for hard links not yet implemented'' []))) (\<lambda>_.
     bnd (when_do (opt_DeleteMode os) (bnd recv_filter_list (\<lambda>_. ret ()))) (\<lambda>_.
     receive_file_list opts))"

text \<open>
  All of \<open>handleConnReceiver\<close>; the state's tree is the one below the opened directory.
\<close>

inductive handle_conn_receiver ::
  "serve_env \<Rightarrow> rsync_module option \<Rightarrow> options \<Rightarrow> string list \<Rightarrow> recv \<Rightarrow> go_error + unit \<Rightarrow> recv \<Rightarrow> bool"
  for env module os paths where
  no_root: "receiver_root env module paths = Inl e \<Longrightarrow> handle_conn_receiver env module os paths s (Inl e) s"
| no_list: "receiver_root env module paths = Inr d \<Longrightarrow>
     receive_phase os (server_recv_opts env (case module of None \<Rightarrow> False | Some m \<Rightarrow> m_WritableFS m) os (dest_name d)) s =
       (Inl e, s') \<Longrightarrow>
     handle_conn_receiver env module os paths s (Inl e) s'"
| transfer: "receiver_root env module paths = Inr d \<Longrightarrow>
     opts = server_recv_opts env (case module of None \<Rightarrow> False | Some m \<Rightarrow> m_WritableFS m) os (dest_name d) \<Longrightarrow>
     receive_phase os opts s = (Inr fl, s1) \<Longrightarrow>
     do_recv (sv_md4 env) (session_seed env) (sv_depth env) opts fl True s1 res s' \<Longrightarrow>
     handle_conn_receiver env module os paths s (map_sum id (\<lambda>_. ()) res) s'"

inductive serve_receiver ::
  "serve_env \<Rightarrow> bool \<Rightarrow> rsync_module option \<Rightarrow> options \<Rightarrow> string list \<Rightarrow> recv \<Rightarrow> go_error + unit \<Rightarrow> recv \<Rightarrow> bool"
  for env negotiate module os remaining where
  no_args: "remaining = [] \<Longrightarrow>
     serve_receiver env negotiate module os remaining s (Inl (Panic ''slice bounds out of range'')) s"
| no_start: "remaining \<noteq> [] \<Longrightarrow> start_session env negotiate s = (Inl e, s') \<Longrightarrow>
     serve_receiver env negotiate module os remaining s (Inl e) s'"
| session: "remaining \<noteq> [] \<Longrightarrow> start_session env negotiate s = (Inr (), s1) \<Longrightarrow>
     handle_conn_receiver env module os (tl remaining) (s1\<lparr>c_out := []\<rparr>) res s2 \<Longrightarrow>
     serve_receiver env negotiate module os remaining s res (snd (error_message env ''receiver'' res (in_frames s1 s2)))"

inductive_cases handle_conn_receiverE: "handle_conn_receiver env module os paths s res s'"
inductive_cases serve_receiverE: "serve_receiver env negotiate module os remaining s res s'"

end
