(* ===== verification/Server_Options.thy ===== *)
theory Server_Options
  imports Options "HOL-Library.Sublist"
begin

text \<open>
  \<open>internal/rsyncopts/serveroptions.go\<close>: the command line a client hands to the server it
  starts, and what the server's \<open>ParseArguments\<close> makes of it.
\<close>

subsection \<open>The command line for the server\<close>

text \<open>\<open>%d\<close> of a positive number.\<close>

fun dec :: "nat \<Rightarrow> string" where
  "dec n = (if n < 10 then [char_of (48 + n)] else dec (n div 10) @ [char_of (48 + n mod 10)])"

declare dec.simps [simp del]

definition flag :: "bool \<Rightarrow> char \<Rightarrow> string" where
  "flag b c = (if b then [c] else [])"

definition argstr :: "options \<Rightarrow> string" where
  "argstr os =
     flag (opt_Verbose os) (CHR ''v'') @ flag (opt_UpdateOnly os) (CHR ''u'') @
     flag (opt_DryRun os) (CHR ''n'') @ flag (opt_PreserveLinks os) (CHR ''l'') @
     flag (o_int os ''whole_file'' > 0) (CHR ''W'') @
     flag (opt_PreserveUid os) (CHR ''o'') @ flag (opt_PreserveGid os) (CHR ''g'') @
     flag (opt_PreserveDevices os) (CHR ''D'') @ flag (opt_PreserveMTimes os) (CHR ''t'') @
     flag (opt_PreservePerms os) (CHR ''p'') @ flag (opt_Recurse os) (CHR ''r'') @
     flag (opt_AlwaysChecksum os) (CHR ''c'') @ flag (opt_IgnoreTimes os) (CHR ''I'') @
     flag (o_int os ''xfer_dirs'' > 0 \<and> \<not> opt_Recurse os) (CHR ''d'')"

definition when_opt :: "bool \<Rightarrow> string \<Rightarrow> string list" where
  "when_opt b a = (if b then [a] else [])"

definition long_options :: "options \<Rightarrow> string list" where
  "long_options os =
     when_opt (o_int os ''io_timeout'' > 0) (''--timeout='' @ dec (nat (o_int os ''io_timeout''))) @
     when_opt (o_int os ''bwlimit'' > 0) (''--bwlimit='' @ dec (nat (o_int os ''bwlimit''))) @
     when_opt (o_str os ''tmpdir'' \<noteq> '''') (''--temp-dir='' @ o_str os ''tmpdir'') @
     (if opt_DeleteExcluded os then [''--delete-excluded'']
      else when_opt (opt_DeleteMode os) ''--delete'')"

definition server_options :: "options \<Rightarrow> string list" where
  "server_options os =
     ''--server'' # when_opt (\<not> opt_Sender os) ''--sender'' @ when_opt (opt_SizeOnly os) ''--size-only'' @
     when_opt (argstr os \<noteq> '''') (CHR ''-'' # argstr os) @ long_options os"

definition command_options :: "options \<Rightarrow> string \<Rightarrow> string list \<Rightarrow> string list" where
  "command_options os path paths = server_options os @ [''.'', path] @ paths"

subsection \<open>Decimal numbers\<close>

definition is_dec_digit :: "nat \<Rightarrow> bool" where
  "is_dec_digit d \<longleftrightarrow> digit_value (char_of (48 + d)) = Some (int d) \<and> char_of (48 + d) \<noteq> CHR ''_'' \<and>
     char_of (48 + d) \<noteq> CHR ''-'' \<and> char_of (48 + d) \<noteq> CHR ''+'' \<and> (char_of (48 + d) = CHR ''0'') = (d = 0) \<and>
     48 \<le> (of_char (ascii_lower (char_of (48 + d))) :: int) \<and> (of_char (ascii_lower (char_of (48 + d))) :: int) \<le> 57"

lemma is_dec_digit: "d < 10 \<Longrightarrow> is_dec_digit d"
proof -
  have "list_all is_dec_digit [0..<10]" by code_simp
  then show "d < 10 \<Longrightarrow> is_dec_digit d" by (simp add: list_all_iff)
qed

lemma dec_step: "10 \<le> n \<Longrightarrow> dec n = dec (n div 10) @ [char_of (48 + n mod 10)]"
  by (subst dec.simps) simp

lemma dec_digit: "n < 10 \<Longrightarrow> dec n = [char_of (48 + n)]"
  by (subst dec.simps) simp

lemma dec_nonempty [simp]: "dec n \<noteq> ''''"
  by (subst dec.simps) simp

lemma digits_value_append:
  "digits_value b us n (xs @ ys) =
     (case digits_value b us n xs of None \<Rightarrow> None | Some m \<Rightarrow> digits_value b us m ys)"
  by (induction b us n xs rule: digits_value.induct) (auto split: option.split)

lemma digits_value_dec: "digits_value 10 us 0 (dec n) = Some (int n)"
proof (induction n rule: less_induct)
  case (less n)
  note d = is_dec_digit [of "n mod 10"]
  show ?case
  proof (cases "n < 10")
    case True
    with d show ?thesis by (simp add: dec_digit is_dec_digit_def)
  next
    case False
    then have "digits_value 10 us 0 (dec (n div 10)) = Some (int (n div 10))" by (intro less) simp
    moreover have "int (n div 10) * 10 + int (n mod 10) = int n"
      by (metis of_nat_add of_nat_mult of_nat_numeral div_mult_mod_eq)
    ultimately show ?thesis using False d
      by (simp add: dec_step digits_value_append is_dec_digit_def)
  qed
qed

lemma underscores_ok_dec: "saw \<noteq> CHR ''_'' \<Longrightarrow> underscores_ok hex saw (dec n @ cs) = underscores_ok hex (CHR ''0'') cs"
proof (induction n arbitrary: cs saw rule: less_induct)
  case (less n)
  note d = is_dec_digit [of "n mod 10"]
  show ?case
  proof (cases "n < 10")
    case True
    with d show ?thesis by (simp add: dec_digit is_dec_digit_def Let_def)
  next
    case False
    then have "underscores_ok hex saw (dec (n div 10) @ [char_of (48 + n mod 10)] @ cs) =
        underscores_ok hex (CHR ''0'') ([char_of (48 + n mod 10)] @ cs)" by (intro less) simp_all
    then show ?thesis using False d by (simp add: dec_step is_dec_digit_def Let_def)
  qed
qed

lemma hd_dec: "0 < n \<Longrightarrow> hd (dec n) \<noteq> CHR ''0'' \<and> hd (dec n) \<noteq> CHR ''-'' \<and> hd (dec n) \<noteq> CHR ''+''"
proof (induction n rule: less_induct)
  case (less n)
  show ?case
  proof (cases "n < 10")
    case True
    with less(2) is_dec_digit [of n] show ?thesis by (simp add: dec_digit is_dec_digit_def)
  next
    case False
    then show ?thesis using less(1) [of "n div 10"] by (simp add: dec_step hd_append)
  qed
qed

lemma parse_int0_dec:
  assumes "0 < n" "is_i64 (int n)"
  shows "parse_int0 (dec n) = Some (int n)" "atoi (dec n) = Some (int n)"
proof -
  obtain c cs where c: "dec n = c # cs" by (metis dec_nonempty neq_Nil_conv)
  note h = hd_dec [OF assms(1)] and v = digits_value_dec [of _ n]
    and u = underscores_ok_dec [of "CHR ''^''" False n "[]"]
  show "parse_int0 (dec n) = Some (int n)"
    using h v [of True] u assms(2) by (simp add: c parse_int0_def signed_def parse_uint0_def is_i64_opt_def)
  show "atoi (dec n) = Some (int n)"
    using h v [of False] assms(2) by (simp add: c atoi_def signed_def is_i64_opt_def)
qed

subsection \<open>Scanning a cluster of short options\<close>

text \<open>The short options that only set a field, as \<open>rsyncTable\<close> has them.\<close>

definition plain_letters :: "(char \<times> string \<times> int) list" where
  "plain_letters =
     [(CHR ''u'', ''update_only'', 1), (CHR ''n'', ''dry_run'', 1), (CHR ''l'', ''preserve_links'', 1),
      (CHR ''W'', ''whole_file'', 1), (CHR ''o'', ''preserve_uid'', 1), (CHR ''g'', ''preserve_gid'', 1),
      (CHR ''t'', ''preserve_mtimes'', 1), (CHR ''p'', ''preserve_perms'', 1), (CHR ''r'', ''recurse'', 2),
      (CHR ''c'', ''always_checksum'', 1), (CHR ''I'', ''ignore_times'', 1), (CHR ''d'', ''xfer_dirs'', 2)]"

definition the_table :: "popt_option list" where
  "the_table = client_table @ rsync_table"

definition plain_entry :: "popt_option option \<Rightarrow> string \<Rightarrow> int \<Rightarrow> bool" where
  "plain_entry r x v \<longleftrightarrow>
     (case r of
        None \<Rightarrow> False
      | Some opt \<Rightarrow> arg opt = Some (IntField x) \<and> no_value opt \<and> \<not> returns opt \<and>
          argInfo opt AND POPT_ARGFLAG_OR = 0 \<and>
          (if argInfo opt AND POPT_ARG_MASK = POPT_ARG_VAL then val opt else 1) = v)"

definition code_entry :: "popt_option option \<Rightarrow> int \<Rightarrow> bool" where
  "code_entry r v \<longleftrightarrow>
     (case r of
        None \<Rightarrow> False
      | Some opt \<Rightarrow> arg opt = None \<and> no_value opt \<and> returns opt \<and> i32 (val opt) = v)"

lemma plain_letters_table: "\<forall>(c, x, v) \<in> set plain_letters. plain_entry (find_option the_table '''' [c]) x v"
proof -
  have "list_all (\<lambda>(c, x, v). plain_entry (find_option the_table '''' [c]) x v) plain_letters" by code_simp
  then show ?thesis by (simp add: list_all_iff)
qed

lemma code_letters_table:
  "code_entry (find_option the_table '''' ''v'') (rune (CHR ''v''))"
  "code_entry (find_option the_table '''' ''D'') (rune (CHR ''D''))"
  by code_simp+

lemma parse_loop_cong:
  "popt_get_next_opt pc = popt_get_next_opt pc' \<Longrightarrow> parse_loop args n pc = parse_loop args n pc'"
  by (subst (1 2) parse_loop.simps) simp

lemma get_next_plain_short:
  assumes "plain_entry (find_option (c_table pc) '''' [c]) x v" "nextCharArg pc = c # cs" "\<not> has_prefix cs ''=''"
  shows "popt_get_next_opt pc = popt_get_next_opt (pc\<lparr>nextCharArg := cs, Opts := set_int x v (Opts pc)\<rparr>)"
proof -
  obtain opt where f: "find_option (c_table pc) '''' [c] = Some opt" and
    o: "arg opt = Some (IntField x)" "no_value opt" "\<not> returns opt" "argInfo opt AND POPT_ARGFLAG_OR = 0"
       "(if argInfo opt AND POPT_ARG_MASK = POPT_ARG_VAL then val opt else 1) = v"
    using assms(1) by (auto simp: plain_entry_def split: option.splits)
  have "fetch pc = Inr (Option opt '''' (pc\<lparr>nextCharArg := cs\<rparr>))"
    by (simp add: fetch_def fetch_short_def assms(2) f)
  moreover have "store opt '''' (pc\<lparr>nextCharArg := cs\<rparr>) = Inr (pc\<lparr>nextCharArg := cs, Opts := set_int x v (Opts pc)\<rparr>)"
    using assms(3) o(1,2,4,5) by (simp add: store_def store_flag_def popt_save_int_def set_int_def)
  ultimately show ?thesis using o(3) by (subst popt_get_next_opt.simps) simp
qed

lemma get_next_code_short:
  assumes "code_entry (find_option (c_table pc) '''' [c]) v" "nextCharArg pc = c # cs" "\<not> has_prefix cs ''=''"
  shows "popt_get_next_opt pc = Inr (v, pc\<lparr>nextCharArg := cs\<rparr>)"
proof -
  obtain opt where f: "find_option (c_table pc) '''' [c] = Some opt" and
    o: "arg opt = None" "no_value opt" "returns opt" "i32 (val opt) = v"
    using assms(1) by (auto simp: code_entry_def split: option.splits)
  have "fetch pc = Inr (Option opt '''' (pc\<lparr>nextCharArg := cs\<rparr>))"
    by (simp add: fetch_def fetch_short_def assms(2) f)
  moreover have "store opt '''' (pc\<lparr>nextCharArg := cs\<rparr>) = Inr (pc\<lparr>nextCharArg := cs\<rparr>)"
    using assms(3) o(1,2) by (simp add: store_def store_flag_def)
  ultimately show ?thesis using o(3,4) by (subst popt_get_next_opt.simps) simp
qed

text \<open>What the letters of a cluster do, one after the other.\<close>

definition apply_letter :: "char \<Rightarrow> options \<Rightarrow> options" where
  "apply_letter c os =
     (if c = CHR ''v'' then bump ''verbose'' os
      else if c = CHR ''D'' then set_int ''preserve_specials'' 1 (set_int ''preserve_devices'' 1 os)
      else case map_of plain_letters c of None \<Rightarrow> os | Some (x, v) \<Rightarrow> set_int x v os)"

definition known_letter :: "char \<Rightarrow> bool" where
  "known_letter c \<longleftrightarrow> c = CHR ''v'' \<or> c = CHR ''D'' \<or> c \<in> fst ` set plain_letters"

lemma handle_codes:
  "handle_opt (rune (CHR ''v'')) pc = with_opts (bump ''verbose'') pc"
  "handle_opt (rune (CHR ''D'')) pc =
     with_opts (\<lambda>os. set_int ''preserve_specials'' 1 (set_int ''preserve_devices'' 1 os)) pc"
  by (simp_all add: handle_opt_def opt_codes rune_def unimplemented_opts_def counted_opts_def)

lemma parse_letter:
  assumes "c_table pc = the_table" "known_letter c" "nextCharArg pc = c # cs" "\<not> has_prefix cs ''=''"
  shows "parse_loop args n pc = parse_loop args n (pc\<lparr>nextCharArg := cs, Opts := apply_letter c (Opts pc)\<rparr>)"
proof -
  have code: "parse_loop args n pc = parse_loop args n (pc\<lparr>nextCharArg := cs, Opts := f (Opts pc)\<rparr>)"
    if "code_entry (find_option the_table '''' [c]) v" "v \<noteq> -1" "v \<noteq> rune (CHR ''V'')" "v \<noteq> OPT_DAEMON"
      "\<And>pc. handle_opt v pc = with_opts f pc" for v f
    using get_next_code_short [of pc c v cs] that assms
    by (subst parse_loop.simps) (simp add: with_opts_def)
  consider "c = CHR ''v''" | "c = CHR ''D''" | "c \<noteq> CHR ''v''" "c \<noteq> CHR ''D''" "c \<in> fst ` set plain_letters"
    using assms(2) by (auto simp: known_letter_def)
  then show ?thesis
  proof cases
    case 1
    then show ?thesis
      using code [of "rune (CHR ''v'')" "bump ''verbose''"] code_letters_table(1) handle_codes(1)
      by (simp add: apply_letter_def rune_def OPT_DAEMON_def)
  next
    case 2
    then show ?thesis
      using code [of "rune (CHR ''D'')" "\<lambda>os. set_int ''preserve_specials'' 1 (set_int ''preserve_devices'' 1 os)"]
        code_letters_table(2) handle_codes(2)
      by (simp add: apply_letter_def rune_def OPT_DAEMON_def)
  next
    case 3
    then obtain x v where xv: "map_of plain_letters c = Some (x, v)" by (metis map_of_eq_None_iff not_None_eq surj_pair)
    then have "(c, x, v) \<in> set plain_letters" by (rule map_of_SomeD)
    then have "plain_entry (find_option (c_table pc) '''' [c]) x v" using plain_letters_table assms(1) by auto
    from parse_loop_cong [OF get_next_plain_short [OF this assms(3,4)]] 3(1,2) xv
    show ?thesis by (simp add: apply_letter_def)
  qed
qed

lemma parse_cluster:
  assumes "c_table pc = the_table" "\<forall>c \<in> set cs. known_letter c" "nextCharArg pc = cs"
  shows "parse_loop args n pc = parse_loop args n (pc\<lparr>nextCharArg := '''', Opts := fold apply_letter cs (Opts pc)\<rparr>)"
  using assms
proof (induction cs arbitrary: pc)
  case Nil
  then have "pc\<lparr>nextCharArg := ''''\<rparr> = pc" by (cases pc) simp
  then show ?case by simp
next
  case (Cons c cs)
  have "\<not> known_letter (CHR ''='')" by (simp add: known_letter_def plain_letters_def)
  then have "\<not> has_prefix cs ''=''" using Cons.prems(2) by (cases cs) (auto simp: has_prefix_def)
  with Cons.prems have "parse_loop args n pc = parse_loop args n (pc\<lparr>nextCharArg := cs, Opts := apply_letter c (Opts pc)\<rparr>)"
    by (intro parse_letter) simp_all
  also have "\<dots> = parse_loop args n ((pc\<lparr>nextCharArg := cs, Opts := apply_letter c (Opts pc)\<rparr>)\<lparr>nextCharArg := '''',
      Opts := fold apply_letter cs (Opts (pc\<lparr>nextCharArg := cs, Opts := apply_letter c (Opts pc)\<rparr>))\<rparr>)"
    by (rule Cons.IH) (use Cons.prems in simp_all)
  finally show ?case by simp
qed

subsection \<open>Scanning long options\<close>

definition rsync_context :: "options \<Rightarrow> string list \<Rightarrow> string \<Rightarrow> popt_context" where
  "rsync_context os as na =
     \<lparr>c_table = the_table, c_args = as, nextCharArg = '''', nextArg = na, Opts = os, RemainingArgs = []\<rparr>"

lemma rsync_context_simps [simp]:
  "c_table (rsync_context os as na) = the_table" "c_args (rsync_context os as na) = as"
  "nextCharArg (rsync_context os as na) = ''''" "nextArg (rsync_context os as na) = na"
  "Opts (rsync_context os as na) = os" "RemainingArgs (rsync_context os as na) = []"
  "rsync_context os as na\<lparr>c_args := as'\<rparr> = rsync_context os as' na"
  "rsync_context os as na\<lparr>nextArg := na'\<rparr> = rsync_context os as na'"
  "rsync_context os as na\<lparr>Opts := os'\<rparr> = rsync_context os' as na"
  by (simp_all add: rsync_context_def)

lemma cut_at_append: "c \<notin> set a \<Longrightarrow> cut_at c (a @ c # b) = Some (a, b)"
  by (induction a) auto

lemma cut_at_none: "c \<notin> set a \<Longrightarrow> cut_at c a = None"
  by (induction a) auto

definition long_name :: "string \<Rightarrow> bool" where
  "long_name w \<longleftrightarrow> w \<noteq> '''' \<and> CHR ''='' \<notin> set w \<and> hd w \<noteq> CHR ''-''"

lemma fetch_long_name:
  assumes "long_name w" "find_option the_table w '''' = Some opt"
  shows "fetch (rsync_context os ((''--'' @ w) # as) na) = Inr (Option opt '''' (rsync_context os as na))"
    and "fetch (rsync_context os ((''--'' @ w @ ''='' @ v) # as) na) = Inr (Option opt v (rsync_context os as na))"
proof -
  have pre: "trim_prefix (CHR ''-'' # CHR ''-'' # w) ''-'' = CHR ''-'' # w" "has_prefix (CHR ''-'' # w) ''-''"
    "trim_prefix (CHR ''-'' # w) ''-'' = w" by (simp_all add: trim_prefix_def has_prefix_def)
  have "cut_at (CHR ''='') (''--'' @ w) = None"
    using assms(1) by (intro cut_at_none) (simp add: long_name_def)
  then show "fetch (rsync_context os ((''--'' @ w) # as) na) = Inr (Option opt '''' (rsync_context os as na))"
    using pre assms by (simp add: fetch_def fetch_long_def)
  have "cut_at (CHR ''='') ((''--'' @ w) @ CHR ''='' # v) = Some (''--'' @ w, v)"
    using assms(1) by (intro cut_at_append) (simp add: long_name_def)
  then show "fetch (rsync_context os ((''--'' @ w @ ''='' @ v) # as) na) = Inr (Option opt v (rsync_context os as na))"
    using pre assms by (simp add: fetch_def fetch_long_def)
qed

lemma parse_plain_long:
  assumes "long_name w" "plain_entry (find_option the_table w '''') x v"
  shows "parse_loop args n (rsync_context os (when_opt b (''--'' @ w) @ as) na) =
         parse_loop args n (rsync_context (if b then set_int x v os else os) as na)"
proof (cases b)
  case True
  obtain opt where f: "find_option the_table w '''' = Some opt" and
    o: "arg opt = Some (IntField x)" "no_value opt" "\<not> returns opt" "argInfo opt AND POPT_ARGFLAG_OR = 0"
       "(if argInfo opt AND POPT_ARG_MASK = POPT_ARG_VAL then val opt else 1) = v"
    using assms(2) by (auto simp: plain_entry_def split: option.splits)
  have "popt_get_next_opt (rsync_context os ((''--'' @ w) # as) na) =
      popt_get_next_opt (rsync_context (set_int x v os) as na)"
    using fetch_long_name(1) [OF assms(1) f, of os as na] o
    by (subst popt_get_next_opt.simps)
      (simp add: store_def store_flag_def popt_save_int_def set_int_def has_prefix_def)
  from parse_loop_cong [OF this] True show ?thesis by (simp add: when_opt_def)
qed (simp add: when_opt_def)

lemma parse_code_long:
  assumes "long_name w" "code_entry (find_option the_table w '''') v"
    and "v \<noteq> -1" "v \<noteq> rune (CHR ''V'')" "v \<noteq> OPT_DAEMON" "handle_opt v (rsync_context os as na) = Inr (rsync_context os' as na)"
  shows "parse_loop args n (rsync_context os ((''--'' @ w) # as) na) = parse_loop args n (rsync_context os' as na)"
proof -
  obtain opt where f: "find_option the_table w '''' = Some opt" and
    o: "arg opt = None" "no_value opt" "returns opt" "i32 (val opt) = v"
    using assms(2) by (auto simp: code_entry_def split: option.splits)
  have "popt_get_next_opt (rsync_context os ((''--'' @ w) # as) na) = Inr (v, rsync_context os as na)"
    using fetch_long_name(1) [OF assms(1) f, of os as na] o
    by (subst popt_get_next_opt.simps) (simp add: store_def store_flag_def has_prefix_def)
  then show ?thesis using assms(3-6) by (subst parse_loop.simps) simp
qed

text \<open>An option with a value after \<open>=\<close>: the pointer it stores to and what it returns.\<close>

definition value_entry :: "popt_option option \<Rightarrow> int \<Rightarrow> field \<Rightarrow> int \<Rightarrow> bool" where
  "value_entry r ty fld v \<longleftrightarrow>
     (case r of
        None \<Rightarrow> False
      | Some opt \<Rightarrow> argInfo opt AND POPT_ARG_MASK = ty \<and> \<not> no_value opt \<and> arg opt = Some fld \<and>
          argInfo opt AND POPT_ARGFLAG_OR = 0 \<and> val opt = v)"

lemma get_next_value:
  assumes "long_name w" "value_entry (find_option the_table w '''') ty fld v" "a \<noteq> ''''"
  shows "ty = POPT_ARG_STRING \<Longrightarrow> fld = StrField x \<Longrightarrow>
           popt_get_next_opt (rsync_context os ((''--'' @ w @ ''='' @ a) # as) na) =
           (let pc = rsync_context (set_str x a os) as a
            in if v \<noteq> 0 then Inr (i32 v, pc) else popt_get_next_opt pc)"
    and "ty = POPT_ARG_INT \<Longrightarrow> fld = IntField x \<Longrightarrow> parse_int0 a = Some i \<Longrightarrow> is_i32 i \<Longrightarrow> v = 0 \<Longrightarrow>
           popt_get_next_opt (rsync_context os ((''--'' @ w @ ''='' @ a) # as) na) =
           popt_get_next_opt (rsync_context (set_int x i os) as a)"
proof -
  obtain opt where f: "find_option the_table w '''' = Some opt" and
    o: "argInfo opt AND POPT_ARG_MASK = ty" "\<not> no_value opt" "arg opt = Some fld"
       "argInfo opt AND POPT_ARGFLAG_OR = 0" "val opt = v"
    using assms(2) by (auto simp: value_entry_def split: option.splits)
  note fetch = fetch_long_name(2) [OF assms(1) f, of os a as na]
  have ret: "returns opt \<longleftrightarrow> v \<noteq> 0" using o(2,5) by (auto simp: returns_def no_value_def)
  show "ty = POPT_ARG_STRING \<Longrightarrow> fld = StrField x \<Longrightarrow>
           popt_get_next_opt (rsync_context os ((''--'' @ w @ ''='' @ a) # as) na) =
           (let pc = rsync_context (set_str x a os) as a
            in if v \<noteq> 0 then Inr (i32 v, pc) else popt_get_next_opt pc)"
    using fetch o assms(3) ret
    by (subst popt_get_next_opt.simps)
      (simp add: store_def store_value_def take_arg_def popt_save_arg_def set_str_def Let_def
        POPT_ARG_STRING_def POPT_ARG_INT_def)
  show "ty = POPT_ARG_INT \<Longrightarrow> fld = IntField x \<Longrightarrow> parse_int0 a = Some i \<Longrightarrow> is_i32 i \<Longrightarrow> v = 0 \<Longrightarrow>
           popt_get_next_opt (rsync_context os ((''--'' @ w @ ''='' @ a) # as) na) =
           popt_get_next_opt (rsync_context (set_int x i os) as a)"
    using fetch o assms(3) ret
    by (subst popt_get_next_opt.simps)
      (simp add: store_def store_value_def take_arg_def popt_save_arg_def popt_save_int_def set_int_def Let_def is_i32_def)
qed

lemma parse_operands:
  assumes "\<forall>a \<in> set as. a \<noteq> '''' \<and> (hd a \<noteq> CHR ''-'' \<or> a = ''-'')" "nextCharArg pc = ''''" "c_args pc = as"
  shows "parse_loop args n pc = Inr (pc\<lparr>c_args := [], RemainingArgs := RemainingArgs pc @ as\<rparr>, n, False)"
  using assms
proof (induction as arbitrary: pc)
  case Nil
  then have "fetch pc = Inr Done" "pc\<lparr>c_args := [], RemainingArgs := RemainingArgs pc @ []\<rparr> = pc"
    by (simp_all add: fetch_def)
  then show ?case by (subst parse_loop.simps, subst popt_get_next_opt.simps) simp
next
  case (Cons a as)
  let ?pc = "pc\<lparr>c_args := as, RemainingArgs := RemainingArgs pc @ [a]\<rparr>"
  have "fetch pc = Inr (Operand ?pc)"
    using Cons.prems by (simp add: fetch_def fetch_long_def)
  then have "popt_get_next_opt pc = popt_get_next_opt ?pc" by (subst popt_get_next_opt.simps) simp
  from parse_loop_cong [OF this] Cons.IH [of ?pc] Cons.prems show ?case by simp
qed

subsection \<open>The round trip\<close>

lemma set_flag [simp]: "set (flag b c) = (if b then {c} else {})"
  by (simp add: flag_def)

lemma subseq_flag: "subseq (flag b c) [c]"
  by (simp add: flag_def)

lemma argstr_subseq: "subseq (argstr os) ''vunlWogDtprcId''"
proof -
  have "subseq (argstr os) ([CHR ''v''] @ [CHR ''u''] @ [CHR ''n''] @ [CHR ''l''] @ [CHR ''W''] @ [CHR ''o''] @
      [CHR ''g''] @ [CHR ''D''] @ [CHR ''t''] @ [CHR ''p''] @ [CHR ''r''] @ [CHR ''c''] @ [CHR ''I''] @ [CHR ''d''])"
    unfolding argstr_def by (intro list_emb_append_mono subseq_flag)
  then show ?thesis by simp
qed

text \<open>No long option is spelled like a cluster, so \<open>-tpr\<close> is not mistaken for one.\<close>

lemma cluster_not_long: "cs \<noteq> '''' \<Longrightarrow> subseq cs ''vunlWogDtprcId'' \<Longrightarrow> find_option the_table cs '''' = None"
proof -
  have "list_all (\<lambda>opt. longName opt = '''' \<or> \<not> subseq (longName opt) ''vunlWogDtprcId'') the_table" by code_simp
  then show "cs \<noteq> '''' \<Longrightarrow> subseq cs ''vunlWogDtprcId'' \<Longrightarrow> find_option the_table cs '''' = None"
    unfolding find_option_def find_None_iff list_all_iff by metis
qed

lemma known_letters: "c \<in> set (argstr os) \<Longrightarrow> known_letter c"
proof -
  have "list_all known_letter ''vunlWogDtprcId''" by code_simp
  then have all: "\<forall>c \<in> set ''vunlWogDtprcId''. known_letter c" by (simp only: list_all_iff)
  have "set (argstr os) \<subseteq> set ''vunlWogDtprcId''" 
    using list_emb_set [OF argstr_subseq] by blast
  with all show "c \<in> set (argstr os) \<Longrightarrow> known_letter c" by blast
qed

lemma parse_argstr:
  "parse_loop args n (rsync_context os (when_opt (argstr src \<noteq> '''') (CHR ''-'' # argstr src) @ as) na) =
   parse_loop args n (rsync_context (fold apply_letter (argstr src) os) as na)"
proof (cases "argstr src = ''''")
  case False
  then obtain c cs where c: "argstr src = c # cs" by (cases "argstr src") auto
  let ?pc = "rsync_context os ((CHR ''-'' # argstr src) # as) na"
  let ?pc1 = "(rsync_context os as na)\<lparr>nextCharArg := argstr src\<rparr>"
  have known: "\<forall>d \<in> set (c # cs). known_letter d" using known_letters c by metis
  have "\<not> known_letter (CHR ''='')" "\<not> known_letter (CHR ''-'')" by (simp_all add: known_letter_def plain_letters_def)
  with known have no: "CHR ''='' \<notin> set (CHR ''-'' # argstr src)" "c \<noteq> CHR ''-''" "c \<noteq> CHR ''=''" using c by auto
  then have "fetch ?pc = fetch_short ?pc1"
    using cluster_not_long [OF _ argstr_subseq, of src] c cut_at_none [OF no(1)]
    by (simp add: fetch_def fetch_long_def trim_prefix_def has_prefix_def)
  also have "\<dots> = fetch ?pc1" using c by (simp add: fetch_def)
  finally have "fetch ?pc = fetch ?pc1" .
  moreover have "fetch ?pc1 \<noteq> Inr Done" using c by (simp add: fetch_def fetch_short_def split: option.split)
  ultimately have "popt_get_next_opt ?pc = popt_get_next_opt ?pc1"
    by (subst (1 2) popt_get_next_opt.simps) (simp split: sum.split fetched.split)
  from parse_loop_cong [OF this] have "parse_loop args n ?pc = parse_loop args n ?pc1" .
  also have "\<dots> = parse_loop args n (?pc1\<lparr>nextCharArg := '''', Opts := fold apply_letter (argstr src) (Opts ?pc1)\<rparr>)"
    by (rule parse_cluster) (use known c in simp_all)
  finally show ?thesis using False by (simp add: when_opt_def rsync_context_def)
qed (simp add: when_opt_def)

lemma long_entries:
  "code_entry (find_option the_table ''server'' '''') OPT_SERVER"
  "code_entry (find_option the_table ''sender'' '''') OPT_SENDER"
  "plain_entry (find_option the_table ''size-only'' '''') ''size_only'' 1"
  "plain_entry (find_option the_table ''delete'' '''') ''delete_mode'' 1"
  "value_entry (find_option the_table ''timeout'' '''') POPT_ARG_INT (IntField ''io_timeout'') 0"
  "value_entry (find_option the_table ''bwlimit'' '''') POPT_ARG_STRING (StrField ''bwlimit_arg'') OPT_BWLIMIT"
  "value_entry (find_option the_table ''temp-dir'' '''') POPT_ARG_STRING (StrField ''tmpdir'') 0"
  by code_simp+

lemma long_names: "long_name ''server''" "long_name ''sender''" "long_name ''size-only''" "long_name ''delete''"
  "long_name ''timeout''" "long_name ''bwlimit''" "long_name ''temp-dir''"
  by (simp_all add: long_name_def)

lemma parse_server_sender:
  "parse_loop args n (rsync_context os (''--server'' # when_opt b ''--sender'' @ as) na) =
   parse_loop args n (rsync_context
     (let os = set_int ''am_server'' 1 os in if b then set_int ''am_sender'' 1 os else os) as na)"
proof -
  have h: "handle_opt OPT_SERVER (rsync_context os as na) = Inr (rsync_context (set_int ''am_server'' 1 os) as na)" for os as
    by (simp add: handle_opt_def opt_codes with_opts_def)
  have "handle_opt OPT_SENDER (rsync_context (set_int ''am_server'' 1 os) as na) =
      Inr (rsync_context (set_int ''am_sender'' 1 (set_int ''am_server'' 1 os)) as na)"
    by (simp add: handle_opt_def opt_codes with_opts_def set_int_def)
  from parse_code_long [OF long_names(2) long_entries(2) _ _ _ this]
    parse_code_long [OF long_names(1) long_entries(1) _ _ _ h]
  show ?thesis by (cases b) (simp_all add: opt_codes rune_def when_opt_def Let_def)
qed

lemma parse_timeout:
  assumes "is_i32 t"
  shows "parse_loop args n (rsync_context os (when_opt (0 < t) (''--timeout='' @ dec (nat t)) @ as) na) =
    parse_loop args n (rsync_context (if 0 < t then set_int ''io_timeout'' t os else os) as
      (if 0 < t then dec (nat t) else na))"
proof (cases "0 < t")
  case True
  then have "parse_int0 (dec (nat t)) = Some t" using parse_int0_dec(1) [of "nat t"] assms is_i32_is_i64 by auto
  from get_next_value(2) [OF long_names(5) long_entries(5) dec_nonempty _ refl this assms, of os as na]
  have "popt_get_next_opt (rsync_context os ((''--timeout='' @ dec (nat t)) # as) na) =
      popt_get_next_opt (rsync_context (set_int ''io_timeout'' t os) as (dec (nat t)))" by simp
  from parse_loop_cong [OF this] True show ?thesis by (simp add: when_opt_def)
qed (simp add: when_opt_def)

lemma parse_bwlimit:
  assumes "is_i64 l"
  shows "parse_loop args n (rsync_context os (when_opt (0 < l) (''--bwlimit='' @ dec (nat l)) @ as) na) =
    parse_loop args n (rsync_context
      (if 0 < l then set_int ''bwlimit'' l (set_str ''bwlimit_arg'' (dec (nat l)) os) else os) as (if 0 < l then '''' else na))"
proof (cases "0 < l")
  case True
  then have a: "atoi (dec (nat l)) = Some l" using parse_int0_dec(2) [of "nat l"] assms by auto
  let ?pc = "rsync_context (set_str ''bwlimit_arg'' (dec (nat l)) os) as (dec (nat l))"
  have next_opt: "popt_get_next_opt (rsync_context os ((''--bwlimit='' @ dec (nat l)) # as) na) = Inr (OPT_BWLIMIT, ?pc)"
    using get_next_value(1) [OF long_names(6) long_entries(6) dec_nonempty [of "nat l"] refl refl, of os as na]
    by (simp add: OPT_BWLIMIT_def is_i32_def)
  have "handle_opt OPT_BWLIMIT ?pc = Inr (rsync_context (set_int ''bwlimit'' l (set_str ''bwlimit_arg'' (dec (nat l)) os)) as '''')"
    by (simp add: handle_opt_def opt_codes popt_get_opt_arg_def a with_opts_def)
  then show ?thesis using True next_opt by (subst parse_loop.simps) (simp add: when_opt_def OPT_BWLIMIT_def OPT_DAEMON_def rune_def)
qed (simp add: when_opt_def)

lemma parse_tempdir:
  "parse_loop args n (rsync_context os (when_opt (d \<noteq> '''') (''--temp-dir='' @ d) @ as) na) =
    parse_loop args n (rsync_context (if d \<noteq> '''' then set_str ''tmpdir'' d os else os) as (if d \<noteq> '''' then d else na))"
proof (cases "d = ''''")
  case False
  from get_next_value(1) [OF long_names(7) long_entries(7) False refl refl, of os as na]
  have "popt_get_next_opt (rsync_context os ((''--temp-dir='' @ d) # as) na) =
      popt_get_next_opt (rsync_context (set_str ''tmpdir'' d os) as d)" by (simp add: Let_def)
  from parse_loop_cong [OF this] False show ?thesis by (simp add: when_opt_def)
qed (simp add: when_opt_def)

text \<open>The options the server's scan ends with.\<close>

definition server_flags :: "options \<Rightarrow> options" where
  "server_flags os =
     (let s = set_int ''am_server'' 1 new_options_with_defaults;
          s = (if \<not> opt_Sender os then set_int ''am_sender'' 1 s else s);
          s = (if opt_SizeOnly os then set_int ''size_only'' 1 s else s)
      in fold apply_letter (argstr os) s)"

definition server_view :: "options \<Rightarrow> options" where
  "server_view os =
     (let s = server_flags os;
          s = (if 0 < o_int os ''io_timeout'' then set_int ''io_timeout'' (o_int os ''io_timeout'') s else s);
          s = (if 0 < o_int os ''bwlimit''
               then set_int ''bwlimit'' (o_int os ''bwlimit'') (set_str ''bwlimit_arg'' (dec (nat (o_int os ''bwlimit''))) s)
               else s);
          s = (if o_str os ''tmpdir'' \<noteq> '''' then set_str ''tmpdir'' (o_str os ''tmpdir'') s else s)
      in if opt_DeleteMode os then set_int ''delete_mode'' 1 s else s)"

lemma parse_server_options:
  assumes "\<not> opt_DeleteExcluded os" "is_i32 (o_int os ''io_timeout'')" "is_i64 (o_int os ''bwlimit'')"
  shows "\<exists>na. parse_loop args n (rsync_context new_options_with_defaults (server_options os @ as) '''') =
              parse_loop args n (rsync_context (server_view os) as na)"
proof -
  let ?t = "o_int os ''io_timeout''" and ?l = "o_int os ''bwlimit''" and ?d = "o_str os ''tmpdir''"
  have so: "server_options os @ as = ''--server'' # when_opt (\<not> opt_Sender os) ''--sender'' @
      when_opt (opt_SizeOnly os) (''--'' @ ''size-only'') @ when_opt (argstr os \<noteq> '''') (CHR ''-'' # argstr os) @
      when_opt (0 < ?t) (''--timeout='' @ dec (nat ?t)) @ when_opt (0 < ?l) (''--bwlimit='' @ dec (nat ?l)) @
      when_opt (?d \<noteq> '''') (''--temp-dir='' @ ?d) @ when_opt (opt_DeleteMode os) (''--'' @ ''delete'') @ as"
    using assms(1) by (simp add: server_options_def long_options_def)
  show ?thesis
    unfolding so parse_server_sender parse_plain_long [OF long_names(3) long_entries(3)] parse_argstr
      parse_timeout [OF assms(2)] parse_bwlimit [OF assms(3)] parse_tempdir
      parse_plain_long [OF long_names(4) long_entries(4)]
    by (auto simp: server_view_def server_flags_def Let_def)
qed

lemma letter_field:
  "\<forall>(c, x, v) \<in> set plain_letters. \<forall>d. o_int (apply_letter d s) x = (if d = c then v else o_int s x)"
  by (simp add: plain_letters_def apply_letter_def set_int_def bump_def)

lemma fold_letter_field:
  "(c, x, v) \<in> set plain_letters \<Longrightarrow> o_int (fold apply_letter cs s) x = (if c \<in> set cs then v else o_int s x)"
proof (induction cs arbitrary: s)
  case (Cons d cs)
  then have "o_int (apply_letter d s) x = (if d = c then v else o_int s x)" using letter_field [of s] by blast
  with Cons show ?case by auto
qed simp

definition plain_fields :: "string list" where
  "plain_fields = ''verbose'' # map (fst \<circ> snd) plain_letters"

lemma apply_letter_cases:
  assumes "d \<noteq> CHR ''D''"
  shows "apply_letter d s = s \<or> (\<exists>x v. x \<in> set plain_fields \<and> apply_letter d s = set_int x v s)"
proof (cases "map_of plain_letters d")
  case None
  with assms show ?thesis by (auto simp: apply_letter_def bump_def plain_fields_def)
next
  case (Some xv)
  obtain x v where xv: "xv = (x, v)" by fastforce
  have "x \<in> set (map (fst \<circ> snd) plain_letters)" using map_of_SomeD [OF Some] xv by force
  then have "x \<in> set plain_fields" by (simp add: plain_fields_def)
  moreover have "''verbose'' \<in> set plain_fields" by (simp add: plain_fields_def)
  ultimately show ?thesis using Some xv assms by (auto simp: apply_letter_def bump_def)
qed

lemma apply_letter_D:
  "apply_letter (CHR ''D'') s = set_int ''preserve_specials'' 1 (set_int ''preserve_devices'' 1 s)"
  by (simp add: apply_letter_def)

lemma plain_fields_D: "''preserve_devices'' \<notin> set plain_fields" "''preserve_specials'' \<notin> set plain_fields"
  by (simp_all add: plain_fields_def plain_letters_def)

lemma apply_letter_frame:
  "y \<notin> set plain_fields \<Longrightarrow> d \<noteq> CHR ''D'' \<Longrightarrow> o_int (apply_letter d s) y = o_int s y"
  "o_str (apply_letter d s) = o_str s" "o_info (apply_letter d s) = o_info s" "o_debug (apply_letter d s) = o_debug s"
  using apply_letter_cases [of d s] apply_letter_D [of s] by (cases "d = CHR ''D''"; auto simp: set_int_def)+

lemma fold_letter_D:
  "x = ''preserve_devices'' \<or> x = ''preserve_specials'' \<Longrightarrow>
     o_int (fold apply_letter cs s) x = (if CHR ''D'' \<in> set cs then 1 else o_int s x)"
proof (induction cs arbitrary: s)
  case (Cons d cs)
  then have "x \<notin> set plain_fields" using plain_fields_D by blast
  then have "o_int (apply_letter d s) x = (if d = CHR ''D'' then 1 else o_int s x)"
    using Cons.prems apply_letter_frame(1) apply_letter_D by (auto simp: set_int_def)
  with Cons show ?case by auto
qed simp

lemma fold_letter_verbose:
  "o_int (fold apply_letter cs s) ''verbose'' = o_int s ''verbose'' + int (count_list cs (CHR ''v''))"
proof (induction cs arbitrary: s)
  case (Cons d cs)
  have "o_int (apply_letter d s) ''verbose'' = o_int s ''verbose'' + (if d = CHR ''v'' then 1 else 0)"
    by (simp add: plain_letters_def apply_letter_def set_int_def bump_def)
  with Cons show ?case by simp
qed simp

definition letter_fields :: "string list" where
  "letter_fields = ''preserve_devices'' # ''preserve_specials'' # plain_fields"

lemma letter_fields_frame: "y \<notin> set letter_fields \<Longrightarrow> o_int (apply_letter d s) y = o_int s y"
  using apply_letter_frame(1) [of y d s] apply_letter_D [of s]
  by (cases "d = CHR ''D''") (simp_all add: letter_fields_def set_int_def)

lemma fold_letter_frame:
  "y \<notin> set letter_fields \<Longrightarrow> o_int (fold apply_letter cs s) y = o_int s y"
  "o_str (fold apply_letter cs s) = o_str s" "o_info (fold apply_letter cs s) = o_info s"
  "o_debug (fold apply_letter cs s) = o_debug s"
  by (induction cs arbitrary: s) (simp_all add: apply_letter_frame(2-) letter_fields_frame)

lemma argstr_letters:
  "CHR ''v'' \<in> set (argstr os) \<longleftrightarrow> opt_Verbose os" "CHR ''u'' \<in> set (argstr os) \<longleftrightarrow> opt_UpdateOnly os"
  "CHR ''n'' \<in> set (argstr os) \<longleftrightarrow> opt_DryRun os" "CHR ''l'' \<in> set (argstr os) \<longleftrightarrow> opt_PreserveLinks os"
  "CHR ''W'' \<in> set (argstr os) \<longleftrightarrow> o_int os ''whole_file'' > 0" "CHR ''o'' \<in> set (argstr os) \<longleftrightarrow> opt_PreserveUid os"
  "CHR ''g'' \<in> set (argstr os) \<longleftrightarrow> opt_PreserveGid os" "CHR ''D'' \<in> set (argstr os) \<longleftrightarrow> opt_PreserveDevices os"
  "CHR ''t'' \<in> set (argstr os) \<longleftrightarrow> opt_PreserveMTimes os" "CHR ''p'' \<in> set (argstr os) \<longleftrightarrow> opt_PreservePerms os"
  "CHR ''r'' \<in> set (argstr os) \<longleftrightarrow> opt_Recurse os" "CHR ''c'' \<in> set (argstr os) \<longleftrightarrow> opt_AlwaysChecksum os"
  "CHR ''I'' \<in> set (argstr os) \<longleftrightarrow> opt_IgnoreTimes os"
  "CHR ''d'' \<in> set (argstr os) \<longleftrightarrow> o_int os ''xfer_dirs'' > 0 \<and> \<not> opt_Recurse os"
  by (simp_all add: argstr_def)

lemma count_flag: "count_list (flag b d) c = (if b \<and> d = c then 1 else 0)"
  by (simp add: flag_def)

lemma argstr_verbose: "count_list (argstr os) (CHR ''v'') = (if opt_Verbose os then 1 else 0)"
  by (simp add: argstr_def count_flag)

lemma letters: "(CHR ''u'', ''update_only'', 1) \<in> set plain_letters" "(CHR ''n'', ''dry_run'', 1) \<in> set plain_letters"
  "(CHR ''l'', ''preserve_links'', 1) \<in> set plain_letters" "(CHR ''W'', ''whole_file'', 1) \<in> set plain_letters"
  "(CHR ''o'', ''preserve_uid'', 1) \<in> set plain_letters" "(CHR ''g'', ''preserve_gid'', 1) \<in> set plain_letters"
  "(CHR ''t'', ''preserve_mtimes'', 1) \<in> set plain_letters" "(CHR ''p'', ''preserve_perms'', 1) \<in> set plain_letters"
  "(CHR ''r'', ''recurse'', 2) \<in> set plain_letters" "(CHR ''c'', ''always_checksum'', 1) \<in> set plain_letters"
  "(CHR ''I'', ''ignore_times'', 1) \<in> set plain_letters" "(CHR ''d'', ''xfer_dirs'', 2) \<in> set plain_letters"
  by (simp_all add: plain_letters_def)

lemma untouched: "''am_server'' \<notin> set letter_fields" "''am_sender'' \<notin> set letter_fields" "''size_only'' \<notin> set letter_fields"
  "''human_readable'' \<notin> set letter_fields" "''io_timeout'' \<notin> set letter_fields" "''bwlimit'' \<notin> set letter_fields"
  "''delete_mode'' \<notin> set letter_fields" "''list_only'' \<notin> set letter_fields"
  by (simp_all add: letter_fields_def plain_fields_def plain_letters_def)

definition server_base :: "options \<Rightarrow> options" where
  "server_base os =
     (let s = set_int ''am_server'' 1 new_options_with_defaults;
          s = (if \<not> opt_Sender os then set_int ''am_sender'' 1 s else s)
      in if opt_SizeOnly os then set_int ''size_only'' 1 s else s)"

lemma server_base_int:
  "o_int (server_base os) x =
     (if x = ''size_only'' \<and> opt_SizeOnly os then 1 else if x = ''am_sender'' \<and> \<not> opt_Sender os then 1
      else if x = ''am_server'' then 1 else o_int defaultOptions x)"
  by (simp add: server_base_def set_int_def new_options_with_defaults_def Let_def)

lemma server_base_other:
  "o_str (server_base os) = o_str defaultOptions" "o_info (server_base os) = replicate COUNT_INFO 0"
  "o_debug (server_base os) = replicate COUNT_DEBUG 0"
  by (simp_all add: server_base_def set_int_def new_options_with_defaults_def Let_def defaultOptions_def)

lemma server_flags_base: "server_flags os = fold apply_letter (argstr os) (server_base os)"
  by (simp add: server_flags_def server_base_def Let_def)

lemma server_view_int:
  "o_int (server_view os) x =
     (if x = ''delete_mode'' \<and> opt_DeleteMode os then 1
      else if x = ''bwlimit'' \<and> 0 < o_int os ''bwlimit'' then o_int os ''bwlimit''
      else if x = ''io_timeout'' \<and> 0 < o_int os ''io_timeout'' then o_int os ''io_timeout''
      else o_int (server_flags os) x)"
  by (simp add: server_view_def set_int_def set_str_def Let_def)

lemma server_view_other:
  "o_info (server_view os) = replicate COUNT_INFO 0" "o_debug (server_view os) = replicate COUNT_DEBUG 0"
  "o_str (server_view os) ''tmpdir'' = o_str os ''tmpdir''"
  by (simp_all add: server_view_def set_int_def set_str_def Let_def server_flags_base fold_letter_frame server_base_other
      defaultOptions_def)

text \<open>What both ends of a transfer have to agree on.\<close>

definition same_transfer :: "options \<Rightarrow> options \<Rightarrow> bool" where
  "same_transfer os s \<longleftrightarrow>
     opt_Server s \<and> (opt_Sender s \<longleftrightarrow> \<not> opt_Sender os) \<and>
     (opt_Verbose s \<longleftrightarrow> opt_Verbose os) \<and> (opt_UpdateOnly s \<longleftrightarrow> opt_UpdateOnly os) \<and>
     (opt_DryRun s \<longleftrightarrow> opt_DryRun os) \<and> (opt_PreserveLinks s \<longleftrightarrow> opt_PreserveLinks os) \<and>
     (opt_WholeFile s \<longleftrightarrow> opt_WholeFile os) \<and> (opt_PreserveUid s \<longleftrightarrow> opt_PreserveUid os) \<and>
     (opt_PreserveGid s \<longleftrightarrow> opt_PreserveGid os) \<and> (opt_PreserveDevices s \<longleftrightarrow> opt_PreserveDevices os) \<and>
     (opt_PreserveMTimes s \<longleftrightarrow> opt_PreserveMTimes os) \<and> (opt_PreservePerms s \<longleftrightarrow> opt_PreservePerms os) \<and>
     (opt_Recurse s \<longleftrightarrow> opt_Recurse os) \<and> (opt_AlwaysChecksum s \<longleftrightarrow> opt_AlwaysChecksum os) \<and>
     (opt_IgnoreTimes s \<longleftrightarrow> opt_IgnoreTimes os) \<and> (opt_SizeOnly s \<longleftrightarrow> opt_SizeOnly os) \<and>
     (opt_DeleteMode s \<longleftrightarrow> opt_DeleteMode os) \<and> opt_TempDir s = opt_TempDir os \<and>
     opt_IOTimeoutSeconds s = max 0 (opt_IOTimeoutSeconds os) \<and> opt_BWLimit s = max 0 (opt_BWLimit os)"

lemma server_flags_int:
  "o_int (server_flags os) ''am_server'' = 1" "o_int (server_flags os) ''am_sender'' = (if opt_Sender os then 0 else 1)"
  "o_int (server_flags os) ''verbose'' = (if opt_Verbose os then 1 else 0)"
  "o_int (server_flags os) ''update_only'' = (if opt_UpdateOnly os then 1 else 0)"
  "o_int (server_flags os) ''dry_run'' = (if opt_DryRun os then 1 else 0)"
  "o_int (server_flags os) ''preserve_links'' = (if opt_PreserveLinks os then 1 else 0)"
  "o_int (server_flags os) ''whole_file'' = (if o_int os ''whole_file'' > 0 then 1 else -1)"
  "o_int (server_flags os) ''preserve_uid'' = (if opt_PreserveUid os then 1 else 0)"
  "o_int (server_flags os) ''preserve_gid'' = (if opt_PreserveGid os then 1 else 0)"
  "o_int (server_flags os) ''preserve_devices'' = (if opt_PreserveDevices os then 1 else 0)"
  "o_int (server_flags os) ''preserve_specials'' = (if opt_PreserveDevices os then 1 else 0)"
  "o_int (server_flags os) ''preserve_mtimes'' = (if opt_PreserveMTimes os then 1 else 0)"
  "o_int (server_flags os) ''preserve_perms'' = (if opt_PreservePerms os then 1 else 0)"
  "o_int (server_flags os) ''recurse'' = (if opt_Recurse os then 2 else 0)"
  "o_int (server_flags os) ''always_checksum'' = (if opt_AlwaysChecksum os then 1 else 0)"
  "o_int (server_flags os) ''ignore_times'' = (if opt_IgnoreTimes os then 1 else 0)"
  "o_int (server_flags os) ''size_only'' = (if opt_SizeOnly os then 1 else 0)"
  "o_int (server_flags os) ''delete_mode'' = 0" "o_int (server_flags os) ''io_timeout'' = 0"
  "o_int (server_flags os) ''bwlimit'' = 0" "o_int (server_flags os) ''human_readable'' = 1"
  by (simp_all add: server_flags_base fold_letter_field [OF letters(1)] fold_letter_field [OF letters(2)]
      fold_letter_field [OF letters(3)] fold_letter_field [OF letters(4)] fold_letter_field [OF letters(5)]
      fold_letter_field [OF letters(6)] fold_letter_field [OF letters(7)] fold_letter_field [OF letters(8)]
      fold_letter_field [OF letters(9)] fold_letter_field [OF letters(10)] fold_letter_field [OF letters(11)]
      fold_letter_field [OF letters(12)] fold_letter_D fold_letter_verbose argstr_letters argstr_verbose
      fold_letter_frame(1) untouched server_base_int defaultOptions_def)

lemma same_transfer_view: "same_transfer os (server_view os)"
  unfolding same_transfer_def
  by (intro conjI; simp add: accessors server_view_int server_view_other server_flags_int)

lemma parse_command_options:
  assumes "\<not> opt_DeleteExcluded os" "is_i32 (o_int os ''io_timeout'')" "is_i64 (o_int os ''bwlimit'')"
    and "\<forall>a \<in> set (path # paths). a \<noteq> '''' \<and> (hd a \<noteq> CHR ''-'' \<or> a = ''-'')"
  shows "\<exists>pc. parse_arguments (command_options os path paths) (new_popt_context new_options_with_defaults) = Inr pc \<and>
           RemainingArgs pc = ''.'' # path # paths \<and> same_transfer os (Opts pc) \<and>
           (opt_PreserveSpecials (Opts pc) \<longleftrightarrow> opt_PreserveDevices os)"
proof -
  let ?args = "command_options os path paths" and ?rest = "[''.'', path] @ paths"
  have ctx: "new_popt_context new_options_with_defaults\<lparr>c_args := ?args\<rparr> =
      rsync_context new_options_with_defaults (server_options os @ ?rest) ''''"
    by (simp add: new_popt_context_def rsync_context_def command_options_def the_table_def new_options_with_defaults_def)
  obtain na where "parse_loop ?args 0 (rsync_context new_options_with_defaults (server_options os @ ?rest) '''') =
      parse_loop ?args 0 (rsync_context (server_view os) ?rest na)"
    using parse_server_options [OF assms(1-3)] by blast
  also have "\<dots> = Inr (rsync_context (server_view os) [] na\<lparr>RemainingArgs := ?rest\<rparr>, 0, False)"
    by (subst parse_operands [where as = ?rest]) (use assms(4) in auto)
  finally have loop: "parse_loop ?args 0 (new_popt_context new_options_with_defaults\<lparr>c_args := ?args\<rparr>) = \<dots>"
    unfolding ctx .
  have "levels_ok (server_view os)" by (simp add: levels_ok_def server_view_other)
  then obtain i d where v: "set_output_verbosity (server_view os) = Inr (server_view os\<lparr>o_info := i, o_debug := d\<rparr>)"
    using set_output_verbosity_ok by blast
  have "finish_options ?args 0 (server_view os) = Inr (settle (server_view os\<lparr>o_info := i, o_debug := d\<rparr>))"
    using v by (simp add: finish_options_def server_view_int server_flags_int)
  moreover have "same_transfer os (settle (server_view os\<lparr>o_info := i, o_debug := d\<rparr>))"
    using same_transfer_view [of os]
    by (simp add: same_transfer_def accessors settle_frame settled_ints_def settled_strs_def)
  moreover have "opt_PreserveSpecials (settle (server_view os\<lparr>o_info := i, o_debug := d\<rparr>)) \<longleftrightarrow> opt_PreserveDevices os"
    by (simp add: accessors settle_frame settled_ints_def server_view_int server_flags_int)
  ultimately show ?thesis using loop by (simp add: parse_arguments_def)
qed

text \<open>
  C31: the server parses the command line its client made without error, takes the file names
  as they are, plays the other role, and agrees with the client on every option of the
  transfer; \<open>-D\<close> stands for devices and special files alike.
\<close>

theorem server_options_roundtrip:
  assumes "\<not> opt_DeleteExcluded os" "is_i32 (o_int os ''io_timeout'')" "is_i64 (o_int os ''bwlimit'')"
    and "\<forall>a \<in> set (path # paths). a \<noteq> '''' \<and> (hd a \<noteq> CHR ''-'' \<or> a = ''-'')"
  shows "\<exists>pc. parse_arguments (command_options os path paths) (new_popt_context new_options_with_defaults) = Inr pc \<and>
           RemainingArgs pc = ''.'' # path # paths \<and> same_transfer os (Opts pc) \<and>
           (opt_PreserveSpecials (Opts pc) \<longleftrightarrow> opt_PreserveDevices os)"
  using assms by (rule parse_command_options)

theorem server_options_roundtrip_witness:
  "\<exists>pc. parse_arguments (command_options (archive new_options_with_defaults) ''src'' [])
          (new_popt_context new_options_with_defaults) = Inr pc \<and> opt_PreserveSpecials (Opts pc)"
  using server_options_roundtrip [of "archive new_options_with_defaults" "''src''" "[]"]
  by (auto simp: accessors archive_def set_int_def new_options_with_defaults_def defaultOptions_def is_i32_def is_i64_def)

end
