(* ===== verification/Hostspec.thy ===== *)
theory Hostspec
  imports Daemon Server_Options
begin

text \<open>
  \<open>internal/maincmd/options.go\<close> and the decisions of \<open>clientmaincmd.go\<close>: which argument names a
  remote host, how it is reached, and the command line that is started there.
\<close>

subsection \<open>Host specifications\<close>

text \<open>The port of a URL, and the index behind it.  \<open>unicode.IsDigit\<close>
  also holds for digits outside ASCII, which \<open>ParseInt\<close> then refuses; here they
  end the number and are refused as what follows it, with another error text.
\<close>

definition finish_port :: "string \<Rightarrow> int \<Rightarrow> nat \<Rightarrow> go_error + int \<times> nat" where
  "finish_port src port i =
     (if i < length src \<and> src ! i \<noteq> CHR ''/''
      then Inl (Errorf ''expected / or end, got %q'' [FStr (drop i src)])
      else Inr (port, if i < length src then i + 1 else i))"

definition scan_port :: "string \<Rightarrow> nat \<Rightarrow> go_error + int \<times> nat" where
  "scan_port src i =
     (let digits = takeWhile ascii_digit (drop i src)
      in if digits = '''' then finish_port src 0 i
         else case parse_int0 digits of
           None \<Rightarrow> Inl (Errorf ''strconv.ParseInt: parsing %q'' [FStr digits])
         | Some p \<Rightarrow> finish_port src p (i + length digits))"

text \<open>The closing bracket of an address in brackets.\<close>

definition scan_bracket :: "string \<Rightarrow> nat \<Rightarrow> nat" where
  "scan_bracket src i = i + length (takeWhile (\<lambda>c. c \<noteq> CHR '']'' \<and> c \<noteq> CHR ''/'') (drop i src))"

text \<open>\<open>[USER@]HOST:PATH\<close> and \<open>[USER@]HOST::MODULE\<close>: the scan up to the path.\<close>

record host_scan =
  hs_userlen :: nat
  hs_hostlen :: nat
  hs_hoststart :: nat

function scan_host :: "bool \<Rightarrow> string \<Rightarrow> nat \<Rightarrow> host_scan \<Rightarrow> go_error + host_scan \<times> int \<times> nat" where
  "scan_host parsingURL src i h =
     (if length src \<le> i then
        if \<not> parsingURL then Inl (Errorf ''ran out of string'' [])
        else Inr (if hs_hostlen h = 0 then h\<lparr>hs_hostlen := length src - hs_hoststart h\<rparr> else h, 0, i)
      else let s = src ! i in
        if s = CHR '':'' \<or> s = CHR ''/'' then
          let h = (if hs_hostlen h = 0 then h\<lparr>hs_hostlen := i - hs_hoststart h\<rparr> else h) in
          if s = CHR ''/'' \<and> \<not> parsingURL then Inl (Errorf ''/, but not parsing URL'' [])
          else if s = CHR '':'' \<and> parsingURL then map_sum id (Pair h) (scan_port src (i + 1))
          else Inr (h, 0, i + 1)
        else if s = CHR ''@'' then scan_host parsingURL src (i + 1) (h\<lparr>hs_userlen := i + 1, hs_hoststart := i + 1\<rparr>)
        else if s = CHR ''['' then
          if i \<noteq> hs_hoststart h then Inl (Errorf ''brackets not at host position'' [])
          else let j = scan_bracket src i in
            if length src \<le> j then Inl (Panic ''slice bounds out of range'')
            else if src ! j \<noteq> CHR '']'' \<or> (j + 1 < length src \<and> src ! (j + 1) \<noteq> CHR ''/'' \<and> src ! (j + 1) \<noteq> CHR '':'') \<or>
                    j + 1 - (i + 1) = 0
            then Inl (Errorf ''WTF'' [])
            else scan_host parsingURL src (j + 1) (h\<lparr>hs_hoststart := i + 1, hs_hostlen := j + 1 - (i + 1)\<rparr>)
        else scan_host parsingURL src (i + 1) h)"
  by pat_completeness auto
termination
  by (relation "measure (\<lambda>(u, src, i, h). Suc (length src) - i)") (auto simp: scan_bracket_def Let_def)

declare scan_host.simps [simp del]

definition drive_letter :: "string \<Rightarrow> bool" where
  "drive_letter host \<longleftrightarrow>
     length host = 1 \<and> (let n = of_char (hd host) :: int in (65 \<le> n \<and> n \<le> 90) \<or> (97 \<le> n \<and> n \<le> 122))"

definition parse_hostspec :: "string \<Rightarrow> bool \<Rightarrow> go_error + string \<times> string \<times> int" where
  "parse_hostspec src parsingURL =
     (case scan_host parsingURL src 0 \<lparr>hs_userlen = 0, hs_hostlen = 0, hs_hoststart = 0\<rparr> of
        Inl e \<Rightarrow> Inl e
      | Inr (h, port, i) \<Rightarrow>
          let hostlen = hs_hostlen h + hs_userlen h;
              host = take (hs_userlen h) src @ drop (hs_hoststart h) (take hostlen src)
          in if hostlen < hs_hoststart h \<or> length src < hostlen then Inl (Panic ''slice bounds out of range'')
             else if drive_letter host then
               if length src \<le> i then Inl (Panic ''index out of range'')
               else if src ! i = CHR ''/'' \<or> src ! i = CHR 0x5C then Inl (Errorf ''local disk path detected'' [])
               else Inr (host, drop i src, port)
             else Inr (host, drop i src, port))"

text \<open>What is used of the result of \<open>url.Parse\<close>, which is a parameter.\<close>

record url =
  u_Hostname :: string
  u_User :: "(string \<times> string option) option"
  u_Path :: string
  u_Port :: string

definition url_port :: "string \<Rightarrow> int" where
  "url_port s = (if s \<noteq> '''' \<and> (\<forall>c \<in> set s. ascii_digit c) \<and> dec_value s < 2 ^ 63 then int (dec_value s) else -1)"

definition url_host :: "url \<Rightarrow> string" where
  "url_host u =
     (case u_User u of
        None \<Rightarrow> u_Hostname u
      | Some (user, pass) \<Rightarrow>
          if user = '''' then u_Hostname u
          else case pass of
            None \<Rightarrow> user @ ''@'' @ u_Hostname u
          | Some p \<Rightarrow> user @ '':'' @ p @ ''@'' @ u_Hostname u)"

definition is_rsync_url :: "string \<Rightarrow> bool" where
  "is_rsync_url src \<longleftrightarrow> has_prefix src ''rsync://'' \<or> has_prefix src ''rsyncts://''"

definition rsync_url :: "(string \<Rightarrow> url option) \<Rightarrow> string \<Rightarrow> url option" where
  "rsync_url parse_url src =
     (if is_rsync_url src
      then case parse_url src of
             None \<Rightarrow> None
           | Some u \<Rightarrow> if u_Hostname u \<noteq> '''' then Some u else None
      else None)"

definition check_for_hostspec :: "(string \<Rightarrow> url option) \<Rightarrow> string \<Rightarrow> go_error + string \<times> string \<times> int" where
  "check_for_hostspec parse_url src =
     (case rsync_url parse_url src of
        Some u \<Rightarrow> Inr (url_host u, trim_prefix (u_Path u) ''/'', url_port (u_Port u))
      | None \<Rightarrow> (case parse_hostspec src False of
          Inl e \<Rightarrow> Inl e
        | Inr (host, path, port) \<Rightarrow>
            if has_prefix path '':'' then Inr (host, trim_prefix path '':'', if port = 0 then -1 else port)
            else Inr (host, path, 0)))"

subsection \<open>Which side is remote\<close>

text \<open>
  The decisions of \<open>rsyncMain\<close>: the options as they are changed, whether a daemon is reached
  over a socket (-1), over a remote shell (1) or not at all (0), the remote host and path, the
  local paths and the directories the process is restricted to.
\<close>

record plan =
  pl_opts :: options
  pl_daemon :: int
  pl_host :: string
  pl_path :: string
  pl_port :: int
  pl_paths :: "string list"
  pl_ro :: "string list"
  pl_rw :: "string list"

definition set_tls :: "bool \<Rightarrow> options \<Rightarrow> options" where
  "set_tls v os = os\<lparr>o_int := (o_int os)(''tls'' := if v then 1 else 0)\<rparr>"

definition daemon_connection :: "options \<Rightarrow> int \<Rightarrow> int" where
  "daemon_connection os port =
     (if port \<noteq> 0 then (if opt_ShellCommand os \<noteq> '''' then 1 else -1) else 0)"

text \<open>The remote side; an error of the second \<open>checkForHostspec\<close> only shows as an empty path.\<close>

definition remote_side ::
  "(string \<Rightarrow> url option) \<Rightarrow> options \<Rightarrow> string \<Rightarrow> string \<Rightarrow> go_error + options \<times> int \<times> string \<times> string \<times> int" where
  "remote_side parse_url os src dest =
     (case check_for_hostspec parse_url src of
        Inr (host, path, port) \<Rightarrow> Inr (os, daemon_connection os port, host, path, port)
      | Inl e \<Rightarrow>
          if fatal e then Inl e
          else let os = set_sender os in
            case check_for_hostspec parse_url dest of
              Inl e' \<Rightarrow> if fatal e' then Inl e' else Inr (set_local_server os, 0, '''', dest, 0)
            | Inr (host, path, port) \<Rightarrow>
                if path = '''' then Inr (set_local_server os, 0, '''', dest, 0)
                else Inr (os, daemon_connection os port, host, path, port))"

definition source_dirs :: "string \<Rightarrow> string list" where
  "source_dirs src = src # (if has_suffix src ''/'' then [] else [dir_of src])"

definition client_plan ::
  "(string \<Rightarrow> url option) \<Rightarrow> (string \<Rightarrow> go_error option) \<Rightarrow> options \<Rightarrow> string list \<Rightarrow> string \<Rightarrow> go_error + plan" where
  "client_plan parse_url mkdir os sources dest =
     (let src = hd sources;
          os = (if has_prefix src ''rsyncts://'' \<or> has_prefix dest ''rsyncts://'' then set_tls True os else os)
      in case remote_side parse_url os src dest of
        Inl e \<Rightarrow> Inl e
      | Inr (os, conn, host, path, port) \<Rightarrow>
          case (if dest \<noteq> '''' \<and> (\<not> opt_Sender os \<or> opt_LocalServer os) then mkdir dest else None) of
            Some e \<Rightarrow> Inl e
          | None \<Rightarrow> Inr \<lparr>
              pl_opts = os, pl_daemon = conn, pl_host = host, pl_path = path, pl_port = port,
              pl_paths = (if opt_Sender os then sources else [dest]),
              pl_ro = (if opt_Sender os then concat (map source_dirs sources) else []),
              pl_rw = (if opt_Sender os then (if opt_LocalServer os then [dest] else [])
                       else if dest \<noteq> '''' then [dest] else [])\<rparr>)"

text \<open>\<open>clientMain\<close>: without a destination the sources are only listed.\<close>

definition client_args :: "options \<Rightarrow> string list \<Rightarrow> go_error + options \<times> string list \<times> string" where
  "client_args os remaining =
     (if remaining = [] then Inl (Errorf ''rsync error: syntax or usage error'' [])
      else if length remaining = 1 then Inr (set_list_only os, remaining, '''')
      else Inr (os, butlast remaining, last remaining))"

text \<open>
  The command of \<open>doCmd\<close>: for a remote shell, which \<open>shlex\<close> (third party) splits, or for the server
  in this process.
\<close>

definition shell_words :: "(string \<Rightarrow> go_error + string list) \<Rightarrow> (string \<Rightarrow> string) \<Rightarrow> options \<Rightarrow> go_error + string list" where
  "shell_words shlex getenv os =
     shlex (if opt_ShellCommand os \<noteq> '''' then opt_ShellCommand os
            else if getenv ''RSYNC_RSH'' \<noteq> '''' then getenv ''RSYNC_RSH'' else ''ssh'')"

definition command_tail :: "options \<Rightarrow> int \<Rightarrow> string \<Rightarrow> string list" where
  "command_tail os conn path =
     (if conn > 0 then [''--server'', ''--daemon''] else server_options os) @ [''.''] @
     (if conn = 0 then [path] else [])"

definition do_cmd_args ::
  "(string \<Rightarrow> go_error + string list) \<Rightarrow> (string \<Rightarrow> string) \<Rightarrow> string \<Rightarrow> options \<Rightarrow> string \<Rightarrow> string \<Rightarrow> string \<Rightarrow> int \<Rightarrow>
   go_error + string list" where
  "do_cmd_args shlex getenv arg0 os machine user path conn =
     (if opt_LocalServer os then Inr (arg0 # command_tail os conn path)
      else case shell_words shlex getenv os of
        Inl e \<Rightarrow> Inl e
      | Inr ws \<Rightarrow> Inr (ws @ (if user \<noteq> '''' \<and> conn = 0 then [''-l'', user] else []) @ [machine] @
          [if opt_RSYNCPath os = '''' then ''rsync'' else opt_RSYNCPath os] @ command_tail os conn path))"

text \<open>\<open>[USER@]HOST\<close> for the remote shell.\<close>

definition machine_user :: "string \<Rightarrow> string \<times> string" where
  "machine_user host =
     (case cut_at (CHR ''@'') host of None \<Rightarrow> (host, '''') | Some (user, machine) \<Rightarrow> (machine, user))"

text \<open>Where \<open>socketClient\<close> connects to, and the path it asks for there.\<close>

definition dial_host :: "options \<Rightarrow> string \<Rightarrow> int \<Rightarrow> string" where
  "dial_host os host port =
     (let h = (case cut_at (CHR ''@'') host of None \<Rightarrow> host | Some (_, rest) \<Rightarrow> rest)
      in h @ (if port < 0 then
                (if opt_RsyncPort os > 0 then CHR '':'' # dec (nat (opt_RsyncPort os)) else '':873'')
              else CHR '':'' # dec (nat port)))"

definition full_path :: "string \<Rightarrow> string \<Rightarrow> string" where
  "full_path host remotePath =
     (case cut_at (CHR ''@'') host of None \<Rightarrow> remotePath | Some (info, _) \<Rightarrow> info @ ''@'' @ remotePath)"

subsection \<open>What the scan finds\<close>

definition plain_name :: "string \<Rightarrow> bool" where
  "plain_name h \<longleftrightarrow> h \<noteq> '''' \<and> (\<forall>c \<in> set h. c \<notin> {CHR '':'', CHR ''/'', CHR ''@'', CHR ''['', CHR 0x5C})"

lemma scan_plain:
  assumes "drop i src = h @ z" "\<forall>c \<in> set h. c \<notin> {CHR '':'', CHR ''/'', CHR ''@'', CHR ''['', CHR 0x5C}"
  shows "scan_host u src i st = scan_host u src (i + length h) st"
  using assms
proof (induction h arbitrary: i)
  case (Cons c h)
  then have i: "i < length src" by (metis append_Cons drop_all leI list.distinct(1))
  with Cons.prems(1) have "src ! i = c" "drop (Suc i) src = h @ z"
    by (metis append_Cons nth_via_drop, metis append_Cons drop_Suc list.sel(3) tl_drop)
  with Cons i show ?case by (subst scan_host.simps) simp
qed simp

lemma scan_colon: "drop i src = CHR '':'' # path \<Longrightarrow> scan_host False src i st =
    Inr (if hs_hostlen st = 0 then st\<lparr>hs_hostlen := i - hs_hoststart st\<rparr> else st, 0, i + 1)"
proof -
  assume d: "drop i src = CHR '':'' # path"
  then have "i < length src" by (metis drop_all leI list.distinct(1))
  moreover have "src ! i = CHR '':''" using d by (rule nth_via_drop)
  ultimately show ?thesis by (subst scan_host.simps) simp
qed

text \<open>The part of a user in front of a host.\<close>

definition user_part :: "string option \<Rightarrow> string" where
  "user_part user = (case user of None \<Rightarrow> '''' | Some u \<Rightarrow> u @ ''@'')"

lemma scan_user:
  assumes "plain_name h" "\<forall>u. user = Some u \<longrightarrow> plain_name u"
  shows "scan_host False (user_part user @ h @ CHR '':'' # path) 0 \<lparr>hs_userlen = 0, hs_hostlen = 0, hs_hoststart = 0\<rparr> =
    Inr (\<lparr>hs_userlen = length (user_part user), hs_hostlen = length h, hs_hoststart = length (user_part user)\<rparr>, 0,
      length (user_part user) + length h + 1)"
proof -
  let ?src = "user_part user @ h @ CHR '':'' # path" and ?n = "length (user_part user)"
  have host: "scan_host False ?src ?n \<lparr>hs_userlen = ?n, hs_hostlen = 0, hs_hoststart = ?n\<rparr> =
      Inr (\<lparr>hs_userlen = ?n, hs_hostlen = length h, hs_hoststart = ?n\<rparr>, 0, ?n + length h + 1)"
    using assms(1) by (subst scan_plain [where h = h and z = "CHR '':'' # path"])
      (auto simp: plain_name_def scan_colon [where path = path])
  show ?thesis
  proof (cases user)
    case None
    then show ?thesis using host by (simp add: user_part_def)
  next
    case (Some u)
    have "scan_host False ?src 0 \<lparr>hs_userlen = 0, hs_hostlen = 0, hs_hoststart = 0\<rparr> =
        scan_host False ?src (length u) \<lparr>hs_userlen = 0, hs_hostlen = 0, hs_hoststart = 0\<rparr>"
      using assms(2) Some by (subst scan_plain [where h = u and z = "CHR ''@'' # h @ CHR '':'' # path"])
        (auto simp: plain_name_def user_part_def)
    also have "\<dots> = scan_host False ?src ?n \<lparr>hs_userlen = ?n, hs_hostlen = 0, hs_hoststart = ?n\<rparr>"
      using Some by (subst scan_host.simps) (simp add: user_part_def nth_append)
    finally show ?thesis using host by simp
  qed
qed

lemma hostspec_plain:
  assumes "plain_name h" "\<forall>u. user = Some u \<longrightarrow> plain_name u" "user \<noteq> None \<or> 1 < length h"
    and "\<not> is_rsync_url (user_part user @ h @ CHR '':'' # path)"
  shows "check_for_hostspec parse_url (user_part user @ h @ CHR '':'' # path) =
    Inr (user_part user @ h, trim_prefix path '':'', if has_prefix path '':'' then -1 else 0)"
proof -
  let ?src = "user_part user @ h @ CHR '':'' # path"
  have "length (user_part user @ h) \<noteq> 1"
    using assms(1,3) by (cases user; cases h) (simp_all add: user_part_def plain_name_def)
  then have "\<not> drive_letter (user_part user @ h)" by (simp add: drive_letter_def)
  then have "parse_hostspec ?src False = Inr (user_part user @ h, path, 0)"
    unfolding parse_hostspec_def scan_user [OF assms(1,2)] by (simp add: Let_def)
  then show ?thesis using assms(4) by (simp add: check_for_hostspec_def rsync_url_def trim_prefix_def)
qed

text \<open>
  C30: a host in front of a colon, with or without a user, is found as it was written, whatever the
  path; a second colon makes it the module of a daemon, without one it is reached through a remote
  shell.
\<close>

theorem hostspec_roundtrip:
  assumes "plain_name h" "\<forall>u. user = Some u \<longrightarrow> plain_name u" "user \<noteq> None \<or> 1 < length h"
    and "\<not> is_rsync_url (user_part user @ h @ CHR '':'' # path)"
  shows "check_for_hostspec parse_url (user_part user @ h @ CHR '':'' # path) =
    Inr (user_part user @ h, trim_prefix path '':'', if has_prefix path '':'' then -1 else 0)"
  using assms by (rule hostspec_plain)

theorem hostspec_roundtrip_witness:
  "check_for_hostspec (\<lambda>_. None) ''me@host::mod/x'' = Inr (''me@host'', ''mod/x'', -1)"
  using hostspec_roundtrip [of "''host''" "Some ''me''" "'':mod/x''" "\<lambda>_. None"]
  by (simp add: plain_name_def user_part_def is_rsync_url_def has_prefix_def trim_prefix_def)

lemma no_slash:
  assumes "CHR ''/'' \<notin> set s"
  shows "\<not> has_prefix s ''rsync://''" "\<not> has_prefix s ''rsyncts://''"
  using assms by (auto elim!: has_prefixE)

text \<open>
  The home directory of a remote host as the destination, \<open>host:\<close>, is taken for a local directory
  of that name: the empty path is confused with the absence of a host, nothing is sent to the host,
  and both ends of the transfer run locally.
\<close>

theorem remote_home_is_local:
  assumes "check_for_hostspec parse_url src = Inl e" "\<not> fatal e" "plain_name h" "1 < length h"
    and "mkdir (h @ '':'') = None" "\<not> has_prefix src ''rsyncts://''"
  shows "\<exists>p. client_plan parse_url mkdir os [src] (h @ '':'') = Inr p \<and> opt_LocalServer (pl_opts p) \<and> pl_daemon p = 0 \<and>
    pl_host p = '''' \<and> pl_path p = h @ '':'' \<and> pl_rw p = [h @ '':'']"
proof -
  have url: "\<not> has_prefix (h @ '':'') ''rsync://''" "\<not> has_prefix (h @ '':'') ''rsyncts://''"
    using no_slash [of "h @ '':''"] assms(3) by (auto simp: plain_name_def)
  have "check_for_hostspec parse_url (h @ '':'') = Inr (h, '''', 0)"
    using hostspec_plain [of h None "''''" parse_url] assms(3,4) url
    by (simp add: user_part_def is_rsync_url_def trim_prefix_def has_prefix_def)
  then show ?thesis
    using assms url
    by (simp add: client_plan_def remote_side_def set_sender_def set_local_server_def accessors)
qed

definition sample_options :: options where "sample_options = new_options_with_defaults"

theorem remote_home_is_local_witness:
  "\<exists>p. client_plan (\<lambda>_. None) (\<lambda>_. None) sample_options [''/src''] ''box:'' = Inr p \<and> opt_LocalServer (pl_opts p) \<and>
     pl_rw p = [''box:'']"
proof -
  have "check_for_hostspec (\<lambda>_. None) ''/src'' = Inl (Errorf ''/, but not parsing URL'' [])" by code_simp
  from remote_home_is_local [OF this, of "''box''" "\<lambda>_. None" sample_options] show ?thesis
    by (auto simp: plain_name_def has_prefix_def)
qed

end
