(* ===== verification/Client.thy ===== *)
theory Client
  imports Hostspec
begin

text \<open>
  \<open>internal/maincmd/auth.go\<close> and \<open>clientserver.go\<close>: the client's side of a daemon handshake.
\<close>

subsection \<open>Users and passwords\<close>

definition extract_user_pass :: "string \<Rightarrow> string \<times> string" where
  "extract_user_pass path =
     (let s = (if has_prefix path ''rsync://'' then trim_prefix path ''rsync://''
               else if has_prefix path ''rsyncts://'' then trim_prefix path ''rsyncts://''
               else path)
      in case cut_at (CHR ''@'') s of
        None \<Rightarrow> ('''', '''')
      | Some (userInfo, _) \<Rightarrow>
          (case cut_at (CHR '':'') userInfo of Some up \<Rightarrow> up | None \<Rightarrow> (userInfo, '''')))"

text \<open>
  What the client depends on besides its connection: MD4 and the secrets library (third party),
  the environment, the current user, and the files: \<open>ce_stat\<close> gives whether a file is a directory, and its permissions.
\<close>

record client_env =
  ce_md4 :: "byte list \<Rightarrow> byte list"
  ce_secrets :: secret_lib
  ce_getenv :: "string \<Rightarrow> string"
  ce_current_user :: "go_error + string"
  ce_stat :: "string \<Rightarrow> go_error + bool \<times> int"
  ce_read_file :: "string \<Rightarrow> go_error + string"

definition resolve_username :: "client_env \<Rightarrow> string \<Rightarrow> string" where
  "resolve_username env urlUser =
     (if urlUser \<noteq> '''' then urlUser
      else if ce_getenv env ''RSYNC_USERNAME'' \<noteq> '''' then ce_getenv env ''RSYNC_USERNAME''
      else case ce_current_user env of
        Inr u \<Rightarrow> if u \<noteq> '''' then u else ''nobody''
      | Inl _ \<Rightarrow> ''nobody'')"

definition check_password_file_permissions :: "client_env \<Rightarrow> string \<Rightarrow> go_error + unit" where
  "check_password_file_permissions env path =
     (case ce_stat env path of
        Inl e \<Rightarrow> Inl (Errorf ''password file stat: %v'' [FErr e])
      | Inr (isDir, perm) \<Rightarrow>
          if isDir then Inl (Errorf ''password file %q is a directory'' [FStr path])
          else if perm AND 0x3F \<noteq> 0 then
            Inl (Errorf ''password file %q must not be group or world readable (mode %04o)'' [FStr path, FInt perm])
          else Inr ())"

text \<open>An \<open>ExitError\<close>, by the text its \<open>Error\<close> method gives.\<close>

definition exit_error :: "int \<Rightarrow> go_error \<Rightarrow> go_error" where
  "exit_error code e = Errorf ''exit code %d: %v'' [FInt code, FErr e]"

definition ExitCodeSyntax :: int where "ExitCodeSyntax = 1"
definition ExitCodeFileIO :: int where "ExitCodeFileIO = 11"

definition raw_password :: "client_env \<Rightarrow> options \<Rightarrow> string \<Rightarrow> go_error + string" where
  "raw_password env os urlPass =
     (if urlPass \<noteq> '''' then Inr urlPass
      else if opt_PasswordFile os \<noteq> '''' then
        let path = clean (opt_PasswordFile os)
        in case check_password_file_permissions env path of
          Inl e \<Rightarrow> Inl (exit_error ExitCodeSyntax e)
        | Inr _ \<Rightarrow> (case ce_read_file env path of
            Inl e \<Rightarrow> Inl (exit_error ExitCodeFileIO (Errorf ''reading password file: %v'' [FErr e]))
          | Inr contents \<Rightarrow> Inr (trim_space (hd (split_on (CHR 0x0A) contents))))
      else if ce_getenv env ''RSYNC_PASSWORD'' \<noteq> '''' then Inr (ce_getenv env ''RSYNC_PASSWORD'')
      else Inl (Errorf ''no password supplied (set RSYNC_PASSWORD or use --password-file)'' []))"

definition get_password_secret :: "client_env \<Rightarrow> options \<Rightarrow> string \<Rightarrow> go_error + protected_secret" where
  "get_password_secret env os urlPass =
     (case raw_password env os urlPass of
        Inl e \<Rightarrow> Inl e
      | Inr rawPass \<Rightarrow> (case new_protected_secret (ce_secrets env) rawPass of
          Inl e \<Rightarrow> Inl (Errorf ''creating protected secret handle: %v'' [FErr e])
        | Inr sec \<Rightarrow> Inr sec))"

definition generate_auth_hash_secret ::
  "(byte list \<Rightarrow> byte list) \<Rightarrow> secret_lib \<Rightarrow> protected_secret \<Rightarrow> string \<Rightarrow> go_error + string" where
  "generate_auth_hash_secret md4 lib sec challenge =
     (case reveal lib sec of
        Inl e \<Rightarrow> Inl e
      | Inr revealed \<Rightarrow> Inr (base64 (md4 ([0, 0, 0, 0] @ revealed @ bytes_of_string challenge))))"

definition generate_auth_hash :: "(byte list \<Rightarrow> byte list) \<Rightarrow> secret_lib \<Rightarrow> string \<Rightarrow> string \<Rightarrow> string" where
  "generate_auth_hash md4 lib password challenge =
     (case new_protected_secret lib password of
        Inl _ \<Rightarrow> ''''
      | Inr sec \<Rightarrow> (case generate_auth_hash_secret md4 lib sec challenge of Inl _ \<Rightarrow> '''' | Inr h \<Rightarrow> h))"

subsection \<open>The module of a path\<close>

fun behind :: "string \<Rightarrow> string \<Rightarrow> string option" where
  "behind p [] = (if p = [] then Some [] else None)"
| "behind p (c # s) = (if has_prefix (c # s) p then Some (drop (length p) (c # s)) else behind p s)"

definition module_of :: "string \<Rightarrow> string" where
  "module_of remotePath =
     (let m = (case cut_at (CHR ''@'') remotePath of None \<Rightarrow> remotePath | Some (_, rest) \<Rightarrow> rest);
          m = (case behind ''://'' m of
                 None \<Rightarrow> m
               | Some rest \<Rightarrow> (case cut_at (CHR ''/'') rest of None \<Rightarrow> rest | Some (_, p) \<Rightarrow> p))
      in case cut_at (CHR ''/'') m of None \<Rightarrow> m | Some (md, _) \<Rightarrow> md)"

subsection \<open>The handshake\<close>

text \<open>What is shown to the user: the line, and whether it goes to the standard error.\<close>

record talk = conn +
  shown :: "(bool \<times> string) list"

text \<open>
  \<open>fmt.Sscanf\<close> with \<open>%d.%d\<close> and then with \<open>%d\<close> into an \<open>int32\<close>: the first number decides, the second
  attempt gives the same one.  The text of the error it gives is left out.
\<close>

definition scan_int32 :: "string \<Rightarrow> int option" where
  "scan_int32 s =
     (let t = strip_front (length s) spaces s;
          (neg, u) = (if t = '''' then (False, t) else if hd t = CHR ''-'' then (True, tl t)
                      else if hd t = CHR ''+'' then (False, tl t) else (False, t));
          digits = takeWhile ascii_digit u;
          n = (if neg then - int (dec_value digits) else int (dec_value digits))
      in if digits = '''' \<or> \<not> is_i32 n then None else Some n)"

definition check_server_greeting :: "string \<Rightarrow> go_error + int" where
  "check_server_greeting line =
     (let greeting = trim_space line in
      if \<not> has_prefix greeting ''@RSYNCD: '' then Inl (Errorf ''invalid server greeting: got %q'' [FStr greeting])
      else case scan_int32 (trim_prefix greeting ''@RSYNCD: '') of
        None \<Rightarrow> Inl (Errorf ''reading server greeting: %v'' [])
      | Some remoteProtocol \<Rightarrow>
          if remoteProtocol < 27 then Inl (Errorf ''server version %d too old'' [FInt remoteProtocol])
          else Inr remoteProtocol)"

definition answer_challenge ::
  "client_env \<Rightarrow> options \<Rightarrow> string \<times> string \<Rightarrow> string \<Rightarrow> (unit, 'z conn_scheme) act" where
  "answer_challenge env os = (\<lambda>(urlUser, urlPass) challenge.
     case get_password_secret env os urlPass of
       Inl e \<Rightarrow> throw (Errorf ''auth error: %v'' [FErr e])
     | Inr passSec \<Rightarrow> (case generate_auth_hash_secret (ce_md4 env) (ce_secrets env) passSec challenge of
         Inl e \<Rightarrow> throw (Errorf ''auth hash error: %v'' [FErr e])
       | Inr hash \<Rightarrow> reply (resolve_username env urlUser @ '' '' @ hash @ newline)))"

definition show_line :: "bool \<Rightarrow> string \<Rightarrow> (unit, talk) act" where
  "show_line toStderr line = modify (\<lambda>c. c\<lparr>shown := shown c @ [(toStderr, line)]\<rparr>)"

text \<open>One line of the server: \<open>Some done\<close> ends the loop.\<close>

definition startup_line :: "client_env \<Rightarrow> options \<Rightarrow> string \<times> string \<Rightarrow> string \<Rightarrow> (bool option, talk) act" where
  "startup_line env os up line =
     (if has_prefix line ''@RSYNCD: AUTHREQD '' then
        bnd (answer_challenge env os up (trim_prefix line ''@RSYNCD: AUTHREQD '')) (\<lambda>_. ret None)
      else if line = ''@RSYNCD: OK'' then ret (Some False)
      else if line = ''@RSYNCD: EXIT'' then ret (Some True)
      else if has_prefix line ''@ERROR'' then
        bnd (show_line True line) (\<lambda>_. throw (Errorf ''abort (rsync fatal error)'' []))
      else if opt_OutputMOTD os then bnd (show_line False line) (\<lambda>_. ret None)
      else ret None)"

lemma reply_in: "reply txt' c = (r, c') \<Longrightarrow> c_in c' = c_in c"
  by (auto simp: reply_def bnd_def attempt_def ret_def conn_write_def split: if_splits)

lemma startup_line_in: "startup_line env os up line c = (r, c') \<Longrightarrow> c_in c' = c_in c"
proof -
  assume s: "startup_line env os up line c = (r, c')"
  have "answer_challenge env os up ch d = (r', d') \<Longrightarrow> c_in d' = c_in d" for ch r' and d d' :: talk
    by (auto simp: answer_challenge_def throw_def reply_in split: prod.splits sum.splits)
  with s show ?thesis
    by (auto simp: startup_line_def bnd_def ret_def throw_def show_line_def modify_def split: if_splits prod.splits sum.splits)
qed

function startup_loop :: "client_env \<Rightarrow> options \<Rightarrow> string \<times> string \<Rightarrow> (bool, talk) act" where
  "startup_loop env os up c =
     (case wrap_err (\<lambda>e. Errorf ''did not get server startup line: %v'' [FErr e]) read_line c of
        (Inl e, c1) \<Rightarrow> (Inl e, c1)
      | (Inr line, c1) \<Rightarrow>
          (case startup_line env os up (trim_space line) c1 of
             (Inl e, c2) \<Rightarrow> (Inl e, c2)
           | (Inr (Some finished), c2) \<Rightarrow> (Inr finished, c2)
           | (Inr None, c2) \<Rightarrow> startup_loop env os up c2))"
  by pat_completeness auto
termination
proof (relation "measure (\<lambda>(env, os, up, c). length (c_in c))", goal_cases)
  case (2 env os up c r c1 line r' c2 x)
  then have "read_line c = (Inr line, c1)"
    by (auto simp: wrap_err_def split: prod.splits sum.splits if_splits)
  from read_line_shorter [OF this] have "length (c_in c1) < length (c_in c)" .
  moreover have "c_in c2 = c_in c1" using startup_line_in 2 by metis
  ultimately show ?case by simp
qed simp

declare startup_loop.simps [simp del]

text \<open>The lines that ask for the transfer.\<close>

definition request_args :: "options \<Rightarrow> string \<Rightarrow> string list" where
  "request_args os remotePath = server_options os @ [''.'', remotePath]"

definition start_inband_exchange :: "client_env \<Rightarrow> options \<Rightarrow> string \<Rightarrow> (bool, talk) act" where
  "start_inband_exchange env os remotePath =
     bnd (reply (''@RSYNCD: '' @ dec (nat (protocol_version os)) @ ''.0'' @ newline)) (\<lambda>_.
     bnd (wrap_err (\<lambda>e. Errorf ''ReadString: %v'' [FErr e]) read_line) (\<lambda>greeting.
     bnd (case check_server_greeting greeting of Inl e \<Rightarrow> throw e | Inr p \<Rightarrow> ret p) (\<lambda>_.
     bnd (reply (module_of remotePath @ newline)) (\<lambda>_.
     bnd (startup_loop env os (extract_user_pass remotePath)) (\<lambda>finished.
     if finished then ret True
     else bnd (for_each (\<lambda>a. reply (a @ newline)) (request_args os remotePath)) (\<lambda>_.
          bnd (reply newline) (\<lambda>_.
          ret False)))))))"

end
