(* ===== verification/Daemon_Safety.thy ===== *)
theory Daemon_Safety
  imports Daemon
begin

text \<open>
  Who gets access: the first-match readings of modules, access rules, filter rules and secrets,
  and what a completed handshake proves about the client.
\<close>

subsection \<open>First match decides\<close>

interpretation modules: first_match get_module "\<lambda>m n. m_Name m = n" "\<lambda>m n. Inr m"
    "\<lambda>n. Inl (Errorf ''no such module: %s'' [FStr n])"
  by unfold_locales simp_all


interpretation filters: first_match list_matches rule_matches "\<lambda>fr _. fr_flag fr AND filtruleInclude = 0" "\<lambda>_. False"
  by unfold_locales simp_all

interpretation secrets: first_match find_password "\<lambda>l user. map_option fst (secret_line l) = Some user"
    "\<lambda>l _. map_option (\<lambda>(u, p). trim_space p) (secret_line l)" "\<lambda>_. None"
proof
  fix l ls user
  show "map_option fst (secret_line l) = Some user \<Longrightarrow>
      find_password (l # ls) user = map_option (\<lambda>(u, p). trim_space p) (secret_line l)"
    by (cases "secret_line l") auto
  show "map_option fst (secret_line l) \<noteq> Some user \<Longrightarrow> find_password (l # ls) user = find_password ls user"
    by (cases "secret_line l") auto
qed simp

subsection \<open>The access rules\<close>



subsection \<open>Authentication\<close>

text \<open>What is relied on of the secrets library: it gives back what was put in.\<close>

definition keeps_secrets :: "secret_lib \<Rightarrow> bool" where
  "keeps_secrets lib \<longleftrightarrow> (\<forall>p k e b. sl_EncryptBytes lib p k = Inr e \<longrightarrow> sl_DecryptBytes lib e k = Inr b \<longrightarrow> b = p)"

definition auth_response :: "(byte list \<Rightarrow> byte list) \<Rightarrow> string \<Rightarrow> string \<Rightarrow> string" where
  "auth_response md4 password challenge = base64 (md4 ([0, 0, 0, 0] @ bytes_of_string password @ bytes_of_string challenge))"

lemma revealed:
  assumes "keeps_secrets lib" "new_protected_secret lib p = Inr ps" "reveal lib ps = Inr b"
  shows "b = bytes_of_string p"
  using assms by (auto simp: new_protected_secret_def reveal_def keeps_secrets_def split: sum.splits if_splits)

lemma check_response_sound:
  assumes "keeps_secrets (de_secrets env)" "check_response env m challenge line = Inr ()"
  shows "\<exists>user password contents. user \<in> set (m_AuthUsers m) \<and> de_read_file env (clean (m_SecretsFile m)) = Inr contents \<and>
     find_password (split_on (CHR 0x0A) contents) user = Some password \<and>
     cut_at (CHR '' '') (trim_space line) = Some (user, auth_response (de_md4 env) password challenge)"
proof -
  obtain user response where cut: "cut_at (CHR '' '') (trim_space line) = Some (user, response)"
    and user: "user \<in> set (m_AuthUsers m)"
    using assms(2) by (auto simp: check_response_def split: option.splits if_splits)
  obtain secret where sec: "lookup_secret env (m_SecretsFile m) user = Inr secret"
    and hash: "auth_hash_secret (de_md4 env) (de_secrets env) secret challenge = Inr response"
    using assms(2) by (auto simp: check_response_def cut user split: sum.splits if_splits)
  obtain contents password where contents: "de_read_file env (clean (m_SecretsFile m)) = Inr contents"
    "find_password (split_on (CHR 0x0A) contents) user = Some password"
    "new_protected_secret (de_secrets env) password = Inr secret"
    using sec by (auto simp: lookup_secret_def split: if_splits sum.splits option.splits)
  obtain b where "reveal (de_secrets env) secret = Inr b" "response = base64 (de_md4 env ([0, 0, 0, 0] @ b @ bytes_of_string challenge))"
    using hash by (auto simp: auth_hash_secret_def split: sum.splits)
  with revealed [OF assms(1) contents(3)]
  have "cut_at (CHR '' '') (trim_space line) = Some (user, auth_response (de_md4 env) password challenge)"
    using cut by (simp add: auth_response_def)
  with user contents(1,2) show ?thesis by blast
qed

lemma case_unit_sum: "(case r of Inl e \<Rightarrow> throw e | Inr u \<Rightarrow> ret u) c = (Inr v, c') \<longleftrightarrow> r = Inr () \<and> c' = c"
  by (cases r) (auto simp: ret_def throw_def)

text \<open>One line of the input, as \<open>ReadString\<close> returns it.\<close>

definition full_line :: "string \<Rightarrow> bool" where
  "full_line l \<longleftrightarrow> (\<exists>l'. l = l' @ [CHR 0x0A] \<and> CHR 0x0A \<notin> set l')"

lemma read_line_Inr:
  assumes "read_line c = (Inr l, c')"
  shows "c_in c = bytes_of_string l @ c_in c' \<and> full_line l"
proof -
  let ?u = "takeWhile (\<lambda>b. b \<noteq> 10) (c_in c)" and ?v = "dropWhile (\<lambda>b. b \<noteq> 10) (c_in c)"
  have m: "10 \<in> set (c_in c)" and l: "l = string_of_bytes (?u @ [10])" and c': "c_in c' = tl ?v"
    using assms by (auto simp: read_line_def split: if_splits)
  from m have "?v \<noteq> []" by (simp add: dropWhile_eq_Nil_conv)
  with hd_dropWhile [OF this] c' have v: "?v = [10] @ c_in c'" by (cases ?v) simp_all
  have nl: "char_of (10 :: nat) = CHR 0x0A" by code_simp
  have "string_of_bytes (xs @ [10]) = string_of_bytes xs @ [CHR 0x0A]" for xs
    by (simp add: string_of_bytes_def nl)
  moreover have "CHR 0x0A \<notin> set (string_of_bytes ?u)"
  proof
    assume "CHR 0x0A \<in> set (string_of_bytes ?u)"
    then obtain w where w: "w \<in> set ?u" "char_of (unat w) = CHR 0x0A" by (auto simp: string_of_bytes_def)
    from w(1) have "w \<noteq> 10" by (auto dest: set_takeWhileD)
    moreover have "string_of_bytes [w] = string_of_bytes [10]"
      using w(2) nl by (simp add: string_of_bytes_def)
    then have "[w] = [10]" by (metis bytes_of_string_of_bytes)
    ultimately show False by simp
  qed
  ultimately have "full_line l" by (auto simp: full_line_def l)
  moreover have "c_in c = bytes_of_string l @ c_in c'"
    unfolding l bytes_of_string_of_bytes
    using takeWhile_dropWhile_id [of "\<lambda>b. b \<noteq> 10" "c_in c"] v by (metis append_assoc)
  ultimately show ?thesis by blast
qed

lemma reply_input: "reply w c = (Inr (), c') \<Longrightarrow> c_in c' = c_in c"
  by (auto simp: reply_def bnd_eq_Inr ret_def attempt_def conn_write_def split: prod.splits sum.splits if_splits)

text \<open>The answer to the challenge, the next line of the input, is right for one of the users.\<close>

definition answered :: "daemon_env \<Rightarrow> rsync_module \<Rightarrow> byte list \<Rightarrow> bool" where
  "answered env m input \<longleftrightarrow>
     (\<exists>line rest user password contents. input = bytes_of_string line @ rest \<and> full_line line \<and>
        user \<in> set (m_AuthUsers m) \<and> de_read_file env (clean (m_SecretsFile m)) = Inr contents \<and>
        find_password (split_on (CHR 0x0A) contents) user = Some password \<and>
        cut_at (CHR '' '') (trim_space line) = Some (user, auth_response (de_md4 env) password (gen_challenge env)))"

lemma wrap_err_returns: "wrap_err f m c = (Inr a, c') \<longleftrightarrow> m c = (Inr a, c')"
  by (auto simp: wrap_err_def split: prod.splits sum.splits if_splits)

lemma auth_server_sound:
  fixes c :: "'z conn_scheme"
  assumes "keeps_secrets (de_secrets env)" "auth_server env m c = (Inr (), c')"
  shows "answered env m (c_in c)"
proof -
  obtain line and c1 c2 :: "'z conn_scheme" where c1: "reply (''@RSYNCD: AUTHREQD '' @ gen_challenge env @ newline) c = (Inr (), c1)"
    and line: "read_line c1 = (Inr line, c2)" and check: "check_response env m (gen_challenge env) line = Inr ()"
    using assms(2) unfolding auth_server_def Let_def bnd_eq_Inr wrap_err_returns case_unit_sum by auto
  from read_line_Inr [OF line] reply_input [OF c1]
  have "c_in c = bytes_of_string line @ c_in c2" "full_line line" by simp_all
  with check_response_sound [OF assms(1) check] show ?thesis unfolding answered_def by blast
qed

subsection \<open>A completed handshake\<close>

lemma attempt_Inr_iff: "attempt m s = (Inr (Inr a), t) \<longleftrightarrow> m s = (Inr a, t)"
  by (auto simp: attempt_def split: prod.splits sum.splits if_splits)

lemma refuse_not_Inr: "refuse env fmt as e c \<noteq> (Inr a, c')"
  by (simp add: refuse_def bnd_eq_Inr throw_def)

lemma case_refuse: "(case r of Inl e \<Rightarrow> refuse env fmt as' e | Inr u \<Rightarrow> ret u) c = (Inr v, c') \<longleftrightarrow> r = Inr () \<and> c' = c"
  by (cases r) (auto simp: ret_def refuse_not_Inr)

lemma admit_sound:
  fixes c :: "'z conn_scheme"
  assumes "admit env m c = (Inr (), c')"
  shows "check_acl (m_ACL m) (de_remote env) = Inr () \<and>
    (m_TLSAllowedCNs m \<noteq> [] \<longrightarrow> cn_allowed (m_TLSAllowedCNs m) (case de_peer_cn env of None \<Rightarrow> '''' | Some cn \<Rightarrow> cn)) \<and>
    (m_AuthUsers m \<noteq> [] \<longrightarrow> (\<exists>c'. auth_server env m c = (Inr (), c')))"
proof (cases "check_acl (m_ACL m) (de_remote env)")
  case (Inl e)
  then show ?thesis using assms by (simp add: admit_def refuse_not_Inr)
next
  case (Inr u)
  note adm = assms [unfolded admit_def Inr sum.case Let_def]
  have cn: "m_TLSAllowedCNs m \<noteq> [] \<longrightarrow> cn_allowed (m_TLSAllowedCNs m) (case de_peer_cn env of None \<Rightarrow> '''' | Some cn \<Rightarrow> cn)"
    using adm by (auto simp: refuse_not_Inr split: if_splits)
  have "m_AuthUsers m \<noteq> [] \<longrightarrow> (\<exists>c'. auth_server env m c = (Inr (), c'))"
  proof
    assume users: "m_AuthUsers m \<noteq> []"
    with adm cn obtain c1 where "attempt (auth_server env m) c = (Inr (Inr ()), c1)"
      by (auto simp: bnd_eq_Inr refuse_not_Inr case_refuse split: if_splits)
    then have "auth_server env m c = (Inr (), c1)" by (simp only: attempt_Inr_iff)
    then show "\<exists>c'. auth_server env m c = (Inr (), c')" by blast
  qed
  with Inr cn show ?thesis by simp
qed

lemma parsed_module:
  assumes "parse_client_args env m flags c = (Inr (Accepted m' os ps), c')"
  shows "m' = m"
proof (cases "parse_arguments flags (new_popt_context new_options_with_defaults)")
  case (Inl e)
  then show ?thesis using assms
    by (cases e) (simp_all add: parse_client_args_def bnd_eq_Inr ret_def throw_def Let_def)
next
  case (Inr pc)
  note parsed = assms [unfolded parse_client_args_def Inr sum.case]
  obtain dot path paths where "RemainingArgs pc = dot # path # paths"
    using parsed by (cases "RemainingArgs pc" rule: remdups_adj.cases) (simp_all add: throw_def)
  then show ?thesis using parsed by (simp add: ret_def throw_def split: if_splits)
qed

lemma daemon_args_module: "daemon_args env m c = (Inr (Accepted m' os ps), c') \<Longrightarrow> m' = m"
  by (auto simp: daemon_args_def bnd_eq_Inr parsed_module)

text \<open>The greeting and the name of the module are the first two lines of the input.\<close>

definition requested :: "byte list \<Rightarrow> string \<Rightarrow> byte list \<Rightarrow> bool" where
  "requested input name rest \<longleftrightarrow>
     (\<exists>greeting line. input = bytes_of_string greeting @ bytes_of_string line @ rest \<and> full_line greeting \<and>
        full_line line \<and> has_prefix greeting ''@RSYNCD: '' \<and> name = trim_space line)"

lemma daemon_open_module:
  fixes c :: "'z conn_scheme"
  assumes "daemon_open env modules c = (Inr (Some m), c')"
  shows "\<exists>name. \<exists>c1 c2 :: 'z conn_scheme. get_module modules name = Inr m \<and> requested (c_in c) name (c_in c1) \<and> admit env m c1 = (Inr (), c2)"
proof -
  obtain greeting line and c0 c1 c2 :: "'z conn_scheme" where c0: "reply (''@RSYNCD: 31.0'' @ newline) c = (Inr (), c0)"
    and g: "read_line c0 = (Inr greeting, c1)" and l: "read_line c1 = (Inr line, c2)"
    and pre: "has_prefix greeting ''@RSYNCD: ''"
    and run: "(case get_module modules (trim_space line) of
       Inl e \<Rightarrow> refuse env (''@ERROR: Unknown module %q'' @ newline) [FStr (trim_space line)] e
     | Inr m \<Rightarrow> bnd (admit env m) (\<lambda>_. ret (Some m))) c2 = (Inr (Some m), c')"
    using assms by (auto simp: daemon_open_def bnd_eq_Inr ret_def throw_def Let_def split: if_splits)
  have "requested (c_in c) (trim_space line) (c_in c2)"
    using read_line_Inr [OF g] read_line_Inr [OF l] reply_input [OF c0] pre unfolding requested_def by metis
  with run show ?thesis
    by (cases "get_module modules (trim_space line)") (auto simp: bnd_eq_Inr ret_def refuse_not_Inr)
qed

lemma handshake_open:
  fixes c :: "'z conn_scheme"
  assumes "daemon_handshake env modules c = (Inr (Accepted m os paths), c')"
  shows "\<exists>name. \<exists>c1 c2 :: 'z conn_scheme. get_module modules name = Inr m \<and> requested (c_in c) name (c_in c1) \<and> admit env m c1 = (Inr (), c2)"
proof -
  obtain r c1 where r: "daemon_open env modules c = (Inr r, c1)"
    "(case r of None \<Rightarrow> ret Listed | Some m \<Rightarrow> daemon_args env m) c1 = (Inr (Accepted m os paths), c')"
    using assms by (auto simp: daemon_handshake_def bnd_eq_Inr)
  then obtain m' where "r = Some m'" by (cases r) (auto simp: ret_def)
  with r have "daemon_open env modules c = (Inr (Some m), c1)" by (auto dest: daemon_args_module)
  then show ?thesis by (rule daemon_open_module)
qed

text \<open>
  C7: when the daemon accepts a connection, the client has sent a greeting and the name of a module,
  the module is the first of that name and every check has passed: its access rules let the peer in,
  the certificate's name is one of the allowed, and, if it has users, the client's next line answers
  the challenge with the hash of the password that the secrets file has for one of them.
\<close>

theorem daemon_access:
  fixes c :: "'z conn_scheme"
  assumes "daemon_handshake env modules c = (Inr (Accepted m os paths), c')" "keeps_secrets (de_secrets env)"
  shows "\<exists>rest. requested (c_in c) (m_Name m) rest \<and>
    (\<exists>us vs. modules = us @ m # vs \<and> (\<forall>m' \<in> set us. m_Name m' \<noteq> m_Name m)) \<and>
    check_acl (m_ACL m) (de_remote env) = Inr () \<and>
    (m_TLSAllowedCNs m \<noteq> [] \<longrightarrow> cn_allowed (m_TLSAllowedCNs m) (case de_peer_cn env of None \<Rightarrow> '''' | Some cn \<Rightarrow> cn)) \<and>
    (m_AuthUsers m \<noteq> [] \<longrightarrow> answered env m rest)"
proof -
  obtain name and c1 c2 :: "'z conn_scheme" where m: "get_module modules name = Inr m"
    and req: "requested (c_in c) name (c_in c1)" and admit: "admit env m c1 = (Inr (), c2)"
    using handshake_open [OF assms(1)] by blast
  from m have "name = m_Name m \<and> (\<exists>us vs. modules = us @ m # vs \<and> (\<forall>m' \<in> set us. m_Name m' \<noteq> m_Name m))"
    by (cases rule: modules.decide_cases) auto
  with req admit_sound [OF admit] auth_server_sound [OF assms(2)] show ?thesis by blast
qed

end
