(* ===== verification/Handshake.thy ===== *)
theory Handshake
  imports Client Daemon_Safety
begin

text \<open>
  Both ends of a daemon handshake together: what the client sends is what the daemon expects, and
  the two agree on the module, the options and the path of the transfer.
\<close>

subsection \<open>Lines of text\<close>

definition text_of :: "string list \<Rightarrow> byte list" where
  "text_of ls = concat (map (\<lambda>l. bytes_of_string (l @ newline)) ls)"

text \<open>A line that arrives as it was sent.\<close>

definition is_line :: "string \<Rightarrow> bool" where
  "is_line a \<longleftrightarrow> a \<noteq> '''' \<and> CHR 0x0A \<notin> set a \<and> trim_space (a @ newline) = a"

definition graphic :: "char \<Rightarrow> bool" where
  "graphic c \<longleftrightarrow> 33 \<le> (of_char c :: nat) \<and> (of_char c :: nat) \<le> 126"

lemma text_of_simps [simp]:
  "text_of [] = []" "text_of (l # ls) = bytes_of_string (l @ newline) @ text_of ls" "text_of (as @ bs) = text_of as @ text_of bs"
  by (simp_all add: text_of_def)

lemma bytes_of_string_append [simp]: "bytes_of_string (a @ b) = bytes_of_string a @ bytes_of_string b"
  by (simp add: bytes_of_string_def)

lemma bytes_newline [simp]: "bytes_of_string newline = [10]"
  by (simp add: bytes_of_string_def newline_def)

lemma newline_byte: "10 \<in> set (bytes_of_string a) \<longleftrightarrow> CHR 0x0A \<in> set a"
proof -
  have "of_char c = (10 :: byte) \<longleftrightarrow> c = CHR 0x0A" for c
    by (metis char_of_of_char_byte of_char_char_of_byte bytes_newline bytes_of_string_def newline_def list.inject list.simps(8,9))
  then show ?thesis by (force simp: bytes_of_string_def)
qed

lemma read_line_text:
  assumes "CHR 0x0A \<notin> set a" "c_in c = bytes_of_string (a @ newline) @ rest"
  shows "read_line c = (Inr (a @ newline), c\<lparr>c_in := rest\<rparr>)"
proof -
  have n: "10 \<notin> set (bytes_of_string a)" using assms(1) by (simp add: newline_byte)
  have "takeWhile (\<lambda>b. b \<noteq> 10) (c_in c) = bytes_of_string a" "dropWhile (\<lambda>b. b \<noteq> 10) (c_in c) = 10 # rest"
    using n assms(2) by (auto simp: takeWhile_append dropWhile_append)
  moreover have "string_of_bytes (bytes_of_string a @ [10]) = a @ newline"
    using string_of_bytes_of_string [of "a @ newline"] by simp
  ultimately show ?thesis using assms(2) by (simp add: read_line_def)
qed

lemma strip_front_stop: "find (\<lambda>p. has_prefix s p) ps = None \<Longrightarrow> strip_front n ps s = s"
  by (cases n) simp_all

lemma no_prefix:
  assumes "s \<noteq> ''''" "\<forall>p \<in> set ps. p \<noteq> '''' \<and> hd p \<noteq> hd s"
  shows "find (\<lambda>p. has_prefix s p) ps = None"
  using assms by (auto simp: find_None_iff has_prefix_def) (metis hd_take length_greater_0_conv)

lemma graphic_starts:
  assumes "graphic c"
  shows "\<forall>p \<in> set spaces. p \<noteq> '''' \<and> hd p \<noteq> c" "\<forall>p \<in> set (map rev spaces). p \<noteq> '''' \<and> hd p \<noteq> c"
  using assms by (auto simp: spaces_def graphic_def)

lemma graphic_line:
  assumes "a \<noteq> ''''" "graphic (hd a)" "graphic (last a)"
  shows "trim_space (a @ newline) = a"
proof -
  have "find (\<lambda>p. has_prefix (a @ newline) p) spaces = None"
    using assms graphic_starts(1) [OF assms(2)] by (intro no_prefix) auto
  then have front: "strip_front (length (a @ newline)) spaces (a @ newline) = a @ newline" by (rule strip_front_stop)
  have "find (\<lambda>p. has_prefix (rev a) p) (map rev spaces) = None"
    using assms graphic_starts(2) [OF assms(3)] by (intro no_prefix) (auto simp: hd_rev)
  then have "strip_front (length a) (map rev spaces) (rev a) = rev a" by (rule strip_front_stop)
  moreover have "find (\<lambda>p. has_prefix (CHR 0x0A # rev a) p) (map rev spaces) = Some [CHR 0x0A]"
    by (simp add: spaces_def has_prefix_def)
  ultimately have "strip_front (length (a @ newline)) (map rev spaces) (rev (a @ newline)) = rev a"
    by (simp add: newline_def)
  with front show ?thesis by (simp add: trim_space_def)
qed

lemma graphic_is_line: "a \<noteq> '''' \<Longrightarrow> \<forall>c \<in> set a. graphic c \<Longrightarrow> is_line a"
  by (auto simp: is_line_def graphic_def intro!: graphic_line)

lemma blank_trimmed [simp]: "trim_space newline = ''''"
  by (simp add: trim_space_def newline_def spaces_def has_prefix_def)

subsection \<open>What the server options look like on the wire\<close>

lemma graphic_dec: "\<forall>c \<in> set (dec n). graphic c"
proof (induction n rule: dec.induct)
  case (1 n)
  have d: "graphic (char_of (48 + k))" if "k < 10" for k :: nat
    using that by (simp add: graphic_def)
  show ?case
  proof (cases "n < 10")
    case True
    then show ?thesis using d by (simp add: Server_Options.dec_digit)
  next
    case False
    then show ?thesis using 1 d [of "n mod 10"] by (simp add: dec_step)
  qed
qed

lemma graphic_argstr: "\<forall>c \<in> set (argstr os). graphic c"
  by (auto simp: argstr_def graphic_def)

definition visible :: "string \<Rightarrow> bool" where
  "visible a \<longleftrightarrow> a \<noteq> '''' \<and> (\<forall>c \<in> set a. graphic c)"

lemma visible_is_line: "visible a \<Longrightarrow> is_line a"
  by (simp add: visible_def graphic_is_line)

lemma visible_append: "visible a \<Longrightarrow> \<forall>c \<in> set b. graphic c \<Longrightarrow> visible (a @ b)"
  by (auto simp: visible_def)

lemma visible_words:
  "visible ''--server''" "visible ''--sender''" "visible ''--size-only''" "visible ''-''" "visible ''--timeout=''"
  "visible ''--bwlimit=''" "visible ''--delete-excluded''" "visible ''--delete''" "visible ''.''"
  by (simp_all add: visible_def graphic_def)

lemma when_opt_ball: "(\<forall>a \<in> set (when_opt b x). P a) \<longleftrightarrow> (b \<longrightarrow> P x)"
  by (cases b) (simp_all add: when_opt_def)

lemma server_option_lines:
  assumes "o_str os ''tmpdir'' = '''' \<or> is_line (''--temp-dir='' @ o_str os ''tmpdir'')"
  shows "\<forall>a \<in> set (server_options os). is_line a"
proof -
  note w = visible_words [THEN visible_is_line] visible_words [THEN visible_append, THEN visible_is_line]
  have letters: "is_line (CHR ''-'' # argstr os)" using w(13) [OF graphic_argstr [of os]] by simp
  have timeout: "is_line (''--timeout='' @ dec n)" for n using w(14) [OF graphic_dec [of n]] by simp
  have bwlimit: "is_line (''--bwlimit='' @ dec n)" for n using w(15) [OF graphic_dec [of n]] by simp
  have "\<forall>a \<in> set (long_options os). is_line a"
    unfolding long_options_def set_append ball_Un when_opt_ball
    using assms timeout bwlimit w(7,8) by (auto simp del: append.simps simp: when_opt_ball)
  then show ?thesis
    unfolding server_options_def list.set ball_simps set_append ball_Un when_opt_ball
    using letters w(1-3) by blast
qed

subsection \<open>Talking\<close>

text \<open>A connection that never fails, from which and to which something has been read and written.\<close>

definition says :: "string list \<Rightarrow> 'z conn_scheme \<Rightarrow> 'z conn_scheme" where
  "says ls c = c\<lparr>c_out := c_out c @ map (\<lambda>l. bytes_of_string (l @ newline)) ls\<rparr>"

lemma says_simps [simp]:
  "c_in (says ls c) = c_in c" "c_budget (says ls c) = c_budget c" "says [] c = c"
  "says bs (says as c) = says (as @ bs) c" "out_bytes (says ls c) = out_bytes c @ text_of ls"
  "(says ls c)\<lparr>c_in := x\<rparr> = says ls (c\<lparr>c_in := x\<rparr>)"
  by (simp_all add: says_def out_bytes_def text_of_def)

lemma reply_says: "c_budget c = None \<Longrightarrow> reply (l @ newline) c = (Inr (), says [l] c)"
  by (simp add: reply_def bnd_def attempt_def ret_def conn_write_def says_def)

lemma reply_line: "c_budget c = None \<Longrightarrow> reply (x @ l @ newline) c = (Inr (), says [x @ l] c)"
  using reply_says [of c "x @ l"] by simp

lemma reply_blank: "c_budget c = None \<Longrightarrow> reply newline c = (Inr (), says [''''] c)"
  using reply_says [of c "''''"] by simp

lemma for_each_reply:
  "c_budget c = None \<Longrightarrow> for_each (\<lambda>a. reply (a @ newline)) as c = (Inr (), says as c)"
proof (induction as arbitrary: c)
  case (Cons a as)
  then show ?case by (simp add: bnd_def reply_says)
qed (simp add: ret_def)

lemma read_flags_text:
  assumes "\<forall>a \<in> set as. is_line a" "c_in c = text_of (as @ ['''']) @ rest"
  shows "read_flags fs c = (Inr (fs @ as), c\<lparr>c_in := rest\<rparr>)"
  using assms
proof (induction as arbitrary: fs c)
  case Nil
  have "read_line c = (Inr ('''' @ newline), c\<lparr>c_in := rest\<rparr>)"
    by (rule read_line_text) (use Nil in simp_all)
  then show ?case by (subst read_flags.simps) simp
next
  case (Cons a as)
  have "read_line c = (Inr (a @ newline), c\<lparr>c_in := text_of (as @ ['''']) @ rest\<rparr>)"
    by (rule read_line_text) (use Cons.prems in \<open>simp_all add: is_line_def\<close>)
  moreover have "trim_space (a @ newline) = a" "a \<noteq> ''''" using Cons.prems by (simp_all add: is_line_def)
  ultimately show ?case
    using Cons.IH [of "c\<lparr>c_in := text_of (as @ ['''']) @ rest\<rparr>" "fs @ [a]"] Cons.prems
    by (subst read_flags.simps) simp
qed

subsection \<open>Secrets and hashes\<close>

text \<open>The secrets library works: what it is given can be revealed again.\<close>

definition secrets_work :: "secret_lib \<Rightarrow> bool" where
  "secrets_work lib \<longleftrightarrow> (\<forall>p. \<exists>ps. new_protected_secret lib p = Inr ps \<and> reveal lib ps = Inr (bytes_of_string p))"

lemma alphabet_length: "length ''ABCDEFGHIJKLMNOPQRSTUVWXYZabcdefghijklmnopqrstuvwxyz0123456789+/'' = 64"
  by simp

lemma sextets:
  fixes m n :: nat
  assumes "m < 256"
  shows "n mod 4 * 16 + m div 16 < 64" "n mod 16 * 4 + m div 64 < 64"
proof -
  have "m div 16 < 16" "m div 64 < 4" using assms by (simp_all add: less_mult_imp_div_less)
  moreover have "n mod 4 < 4" "n mod 16 < 16" by simp_all
  ultimately show "n mod 4 * 16 + m div 16 < 64" "n mod 16 * 4 + m div 64 < 64" by linarith+
qed

lemma graphic_base64: "\<forall>c \<in> set (base64 bs). graphic c"
proof -
  have "\<forall>c \<in> set ''ABCDEFGHIJKLMNOPQRSTUVWXYZabcdefghijklmnopqrstuvwxyz0123456789+/''. graphic c"
    by (simp add: graphic_def)
  then have "\<forall>n < 64. graphic (base64_char n)"
    unfolding base64_char_def by (metis (no_types, lifting) nth_mem alphabet_length)
  moreover have "unat (a :: byte) < 256" for a using unsigned_less [of a, where 'a = nat] by simp
  ultimately have c: "graphic (base64_char (unat a div 4))" "graphic (base64_char (unat a mod 4 * 16))"
    "graphic (base64_char (unat a mod 4 * 16 + unat b div 16))" "graphic (base64_char (unat b mod 16 * 4))"
    "graphic (base64_char (unat b mod 16 * 4 + unat d div 64))" "graphic (base64_char (unat d mod 64))" for a b d :: byte
    using sextets by (auto simp: less_mult_imp_div_less)
  show ?thesis by (induction bs rule: base64.induct) (simp_all add: c)
qed

lemma base64_nonempty: "bs \<noteq> [] \<Longrightarrow> base64 bs \<noteq> ''''"
  by (cases bs rule: base64.cases) simp_all

subsection \<open>The client's part\<close>

text \<open>What either side says, given the challenge, if the module asks for one.\<close>

definition daemon_lines :: "string option \<Rightarrow> string list" where
  "daemon_lines ch =
     ''@RSYNCD: 31.0'' # (case ch of None \<Rightarrow> [] | Some x \<Rightarrow> [''@RSYNCD: AUTHREQD '' @ x]) @ [''@RSYNCD: OK'']"

definition credentials :: "client_env \<Rightarrow> string \<Rightarrow> string \<Rightarrow> string \<Rightarrow> string" where
  "credentials env path password x =
     resolve_username env (fst (extract_user_pass path)) @ '' '' @ auth_response (ce_md4 env) password x"

definition client_lines :: "client_env \<Rightarrow> options \<Rightarrow> string \<Rightarrow> string \<Rightarrow> string option \<Rightarrow> string list" where
  "client_lines env os path password ch =
     [''@RSYNCD: '' @ dec (nat (protocol_version os)) @ ''.0'', module_of path] @
     (case ch of None \<Rightarrow> [] | Some x \<Rightarrow> [credentials env path password x]) @ request_args os path @ ['''']"

lemma greeting_accepted: "check_server_greeting (''@RSYNCD: 31.0'' @ newline) = Inr 31"
proof -
  have "trim_space (''@RSYNCD: 31.0'' @ newline) = ''@RSYNCD: 31.0''"
    by (rule graphic_line) (simp_all add: graphic_def)
  moreover have "strip_front (length ''31.0'') spaces ''31.0'' = ''31.0''"
    by (intro strip_front_stop no_prefix graphic_starts) (simp_all add: graphic_def)
  ultimately show ?thesis
    by (simp add: check_server_greeting_def has_prefix_def trim_prefix_def scan_int32_def Let_def ascii_digit_def
        dec_value_def is_i32_def)
qed

lemma startup_line_ok:
  assumes "CHR 0x0A \<notin> set l" "trim_space (l @ newline) = l" "c_in c = bytes_of_string (l @ newline) @ rest"
  shows "startup_loop env os up c =
    (case startup_line env os up l (c\<lparr>c_in := rest\<rparr>) of
       (Inl e, c2) \<Rightarrow> (Inl e, c2)
     | (Inr (Some finished), c2) \<Rightarrow> (Inr finished, c2)
     | (Inr None, c2) \<Rightarrow> startup_loop env os up c2)"
  using read_line_text [OF assms(1,3)] assms(2)
  by (subst startup_loop.simps) (simp add: wrap_err_def)

lemma startup_ok:
  assumes "c_in c = text_of [''@RSYNCD: OK''] @ rest"
  shows "startup_loop env os up c = (Inr False, c\<lparr>c_in := rest\<rparr>)"
proof -
  have "trim_space (''@RSYNCD: OK'' @ newline) = ''@RSYNCD: OK''"
    by (rule graphic_line) (simp_all add: graphic_def)
  then show ?thesis
    using startup_line_ok [of "''@RSYNCD: OK''" c rest env os up] assms
    by (simp add: startup_line_def has_prefix_def ret_def)
qed

lemma startup_auth:
  assumes "c_budget c = None" "c_in c = text_of [''@RSYNCD: AUTHREQD '' @ x, ''@RSYNCD: OK''] @ rest" "visible x"
    and "raw_password env os (snd up) = Inr password" "secrets_work (ce_secrets env)"
  shows "startup_loop env os up c =
    (Inr False, says [resolve_username env (fst up) @ '' '' @ auth_response (ce_md4 env) password x] (c\<lparr>c_in := rest\<rparr>))"
proof -
  let ?l = "''@RSYNCD: AUTHREQD '' @ x"
  have l: "CHR 0x0A \<notin> set ?l" "trim_space (?l @ newline) = ?l"
    using assms(3) graphic_line [of ?l] by (auto simp: visible_def graphic_def)
  obtain ps where ps: "new_protected_secret (ce_secrets env) password = Inr ps" "reveal (ce_secrets env) ps = Inr (bytes_of_string password)"
    using assms(5) by (auto simp: secrets_work_def)
  let ?c = "c\<lparr>c_in := text_of [''@RSYNCD: OK''] @ rest\<rparr>"
  have "answer_challenge env os up x ?c =
      (Inr (), says [resolve_username env (fst up) @ '' '' @ auth_response (ce_md4 env) password x] ?c)"
    using reply_line [of ?c "resolve_username env (fst up) @ '' '' @ auth_response (ce_md4 env) password x" "''''"] assms(1,4) ps
    by (cases up) (simp add: answer_challenge_def get_password_secret_def generate_auth_hash_secret_def auth_response_def)
  then have "startup_line env os up ?l ?c =
      (Inr None, says [resolve_username env (fst up) @ '' '' @ auth_response (ce_md4 env) password x] ?c)"
    by (simp add: startup_line_def trim_prefix_def has_prefix_def bnd_def ret_def)
  then show ?thesis
    using startup_line_ok [OF l, of c "text_of [''@RSYNCD: OK''] @ rest" env os up] assms(2)
    by (simp add: startup_ok)
qed

lemma client_exchange:
  assumes "c_budget c = None" "c_in c = text_of (daemon_lines ch) @ rest"
    and "\<forall>x. ch = Some x \<longrightarrow> visible x \<and> raw_password env os (snd (extract_user_pass path)) = Inr password \<and>
           secrets_work (ce_secrets env)"
  shows "start_inband_exchange env os path c = (Inr False, says (client_lines env os path password ch) (c\<lparr>c_in := rest\<rparr>))"
proof -
  let ?up = "extract_user_pass path" and ?p = "dec (nat (protocol_version os))"
  let ?mid = "text_of (tl (daemon_lines ch)) @ rest"
  let ?auth = "case ch of None \<Rightarrow> [] | Some x \<Rightarrow> [credentials env path password x]"
  have in0: "c_in c = bytes_of_string (''@RSYNCD: 31.0'' @ newline) @ ?mid"
    using assms(2) by (simp add: daemon_lines_def del: append.simps)
  have greet: "reply (''@RSYNCD: '' @ ?p @ ''.0'' @ newline) c = (Inr (), says [''@RSYNCD: '' @ ?p @ ''.0''] c)"
    using reply_says [OF assms(1), of "''@RSYNCD: '' @ ?p @ ''.0''"] by simp
  have line: "read_line (says ls c) = (Inr (''@RSYNCD: 31.0'' @ newline), says ls (c\<lparr>c_in := ?mid\<rparr>))" for ls
    using read_line_text [of "''@RSYNCD: 31.0''" "says ls c" ?mid] in0 by simp
  have start: "startup_loop env os ?up (says ls (c\<lparr>c_in := ?mid\<rparr>)) = (Inr False, says (ls @ ?auth) (c\<lparr>c_in := rest\<rparr>))" for ls
  proof (cases ch)
    case None
    then show ?thesis using startup_ok [of "says ls (c\<lparr>c_in := ?mid\<rparr>)" rest env os ?up] by (simp add: daemon_lines_def)
  next
    case (Some x)
    then show ?thesis
      using startup_auth [of "says ls (c\<lparr>c_in := ?mid\<rparr>)" x rest env os ?up password] assms(1,3)
      by (simp add: daemon_lines_def credentials_def)
  qed
  show ?thesis
    unfolding start_inband_exchange_def
    by (simp only: bnd_def greet prod.case sum.case wrap_err_def line greeting_accepted ret_def)
       (simp add: assms(1) reply_says reply_blank start for_each_reply bnd_def ret_def client_lines_def)
qed

subsection \<open>The daemon's part\<close>

definition asked :: "daemon_env \<Rightarrow> rsync_module \<Rightarrow> string option" where
  "asked env m = (if m_AuthUsers m = [] then None else Some (gen_challenge env))"

text \<open>The module lets the client in: address, certificate, and the user's password in its secrets file.\<close>

definition admits :: "daemon_env \<Rightarrow> client_env \<Rightarrow> rsync_module \<Rightarrow> string \<Rightarrow> string \<Rightarrow> bool" where
  "admits env cenv m path password \<longleftrightarrow>
     check_acl (m_ACL m) (de_remote env) = Inr () \<and>
     (m_TLSAllowedCNs m = [] \<or> cn_allowed (m_TLSAllowedCNs m) (case de_peer_cn env of None \<Rightarrow> '''' | Some cn \<Rightarrow> cn)) \<and>
     (m_AuthUsers m \<noteq> [] \<longrightarrow>
        (let user = resolve_username cenv (fst (extract_user_pass path)) in
         visible user \<and> user \<in> set (m_AuthUsers m) \<and> m_SecretsFile m \<noteq> '''' \<and> secrets_work (de_secrets env) \<and>
         (\<exists>contents. de_read_file env (clean (m_SecretsFile m)) = Inr contents \<and>
            find_password (split_on (CHR 0x0A) contents) user = Some password)))"

lemma cut_at_visible: "visible a \<Longrightarrow> cut_at (CHR '' '') (a @ CHR '' '' # b) = Some (a, b)"
  by (rule cut_at_append) (auto simp: visible_def graphic_def)

lemma response_accepted:
  assumes "admits env cenv m path password" "m_AuthUsers m \<noteq> []"
    and "ce_md4 cenv = de_md4 env" "\<forall>x. de_md4 env x \<noteq> []"
  shows "CHR 0x0A \<notin> set (credentials cenv path password (gen_challenge env))"
    and "check_response env m (gen_challenge env) (credentials cenv path password (gen_challenge env) @ newline) = Inr ()"
proof -
  let ?user = "resolve_username cenv (fst (extract_user_pass path))"
  let ?hash = "auth_response (de_md4 env) password (gen_challenge env)"
  obtain contents where user: "visible ?user" "?user \<in> set (m_AuthUsers m)" and path: "m_SecretsFile m \<noteq> ''''"
    and lib: "secrets_work (de_secrets env)" and contents: "de_read_file env (clean (m_SecretsFile m)) = Inr contents"
      "find_password (split_on (CHR 0x0A) contents) ?user = Some password"
    using assms(1,2) by (auto simp: admits_def Let_def)
  have hash: "visible ?hash"
    using assms(4) by (simp add: visible_def auth_response_def graphic_base64 base64_nonempty)
  have cred: "credentials cenv path password (gen_challenge env) = ?user @ '' '' @ ?hash"
    by (simp add: credentials_def assms(3))
  show "CHR 0x0A \<notin> set (credentials cenv path password (gen_challenge env))"
    using user(1) hash by (auto simp: cred visible_def graphic_def)
  have "trim_space ((?user @ '' '' @ ?hash) @ newline) = ?user @ '' '' @ ?hash"
    using user(1) hash by (intro graphic_line) (auto simp: visible_def)
  moreover obtain ps where "new_protected_secret (de_secrets env) password = Inr ps"
      "reveal (de_secrets env) ps = Inr (bytes_of_string password)"
    using lib by (auto simp: secrets_work_def)
  ultimately show "check_response env m (gen_challenge env) (credentials cenv path password (gen_challenge env) @ newline) = Inr ()"
    unfolding cred using user path contents
    by (simp add: check_response_def cut_at_visible lookup_secret_def auth_hash_secret_def auth_response_def)
qed

lemma admit_ok:
  assumes "c_budget c = None" "admits env cenv m path password"
    and "ce_md4 cenv = de_md4 env" "\<forall>x. de_md4 env x \<noteq> []"
    and "c_in c = text_of (case asked env m of None \<Rightarrow> [] | Some x \<Rightarrow> [credentials cenv path password x]) @ rest"
  shows "admit env m c = (Inr (), says (tl (daemon_lines (asked env m))) (c\<lparr>c_in := rest\<rparr>))"
proof (cases "m_AuthUsers m = []")
  case True
  then have "c_in c = rest" using assms(5) by (simp add: asked_def)
  then have "c\<lparr>c_in := rest\<rparr> = c" by (rule conn_unchanged)
  then show ?thesis
    using assms(1,2) True reply_says [of c "''@RSYNCD: OK''"]
    by (auto simp: admit_def admits_def asked_def daemon_lines_def bnd_def ret_def Let_def)
next
  case False
  note resp = response_accepted [OF assms(2) False assms(3,4)]
  let ?ch = "''@RSYNCD: AUTHREQD '' @ gen_challenge env"
  have read: "read_line (says [?ch] c) =
      (Inr (credentials cenv path password (gen_challenge env) @ newline), says [?ch] (c\<lparr>c_in := rest\<rparr>))"
    using read_line_text [of "credentials cenv path password (gen_challenge env)" "says [?ch] c" rest] resp(1) assms(5) False
    by (simp add: asked_def)
  have "auth_server env m c = (Inr (), says [?ch] (c\<lparr>c_in := rest\<rparr>))"
    unfolding auth_server_def Let_def using reply_line [OF assms(1), of "''@RSYNCD: AUTHREQD ''" "gen_challenge env"]
    by (simp add: bnd_def wrap_err_def read resp(2) ret_def del: append.simps append_Cons)
  then show ?thesis
    using assms(1,2) False reply_says [of "says [?ch] (c\<lparr>c_in := rest\<rparr>)" "''@RSYNCD: OK''"]
    by (auto simp: admit_def admits_def asked_def daemon_lines_def bnd_def attempt_def ret_def Let_def)
qed

lemma request_lines:
  assumes "o_str os ''tmpdir'' = '''' \<or> is_line (''--temp-dir='' @ o_str os ''tmpdir'')" "is_line path"
  shows "\<forall>a \<in> set (request_args os path). is_line a"
  using server_option_lines [OF assms(1)] assms(2) visible_words(9) [THEN visible_is_line]
  by (simp add: request_args_def)

lemma daemon_args_ok:
  assumes "\<not> opt_DeleteExcluded os" "is_i32 (o_int os ''io_timeout'')" "is_i64 (o_int os ''bwlimit'')"
    and "o_str os ''tmpdir'' = '''' \<or> is_line (''--temp-dir='' @ o_str os ''tmpdir'')"
    and "is_line path" "hd path \<noteq> CHR ''-''"
    and "c_in c = text_of (request_args os path @ ['''']) @ rest"
  shows "\<exists>os'. same_transfer os os' \<and>
    daemon_args env m c = (Inr (Accepted m os' [strip_module (m_Name m) path]), c\<lparr>c_in := rest\<rparr>)"
proof -
  have "path \<noteq> ''''" using assms(5) by (simp add: is_line_def)
  with assms(6) have "\<forall>a \<in> set [path]. a \<noteq> '''' \<and> (hd a \<noteq> CHR ''-'' \<or> a = ''-'')" by simp
  then obtain pc where pc: "parse_arguments (command_options os path []) (new_popt_context new_options_with_defaults) = Inr pc"
      "RemainingArgs pc = [''.'', path]" "same_transfer os (Opts pc)"
    using parse_command_options [OF assms(1-3), of path "[]"] by auto
  have "read_flags [] c = (Inr (command_options os path []), c\<lparr>c_in := rest\<rparr>)"
    using read_flags_text [OF request_lines [OF assms(4,5)] assms(7), of "[]"]
    by (simp add: request_args_def command_options_def)
  with pc show ?thesis by (auto simp: daemon_args_def bnd_def parse_client_args_def ret_def)
qed

lemma daemon_open_lines:
  assumes "c_budget c = None" "get_module modules n = Inr m" "is_line n" "n \<noteq> ''#list''"
    and "CHR 0x0A \<notin> set g" "has_prefix (g @ newline) ''@RSYNCD: ''" "c_in c = text_of [g, n] @ tail"
    and "admit env m (says [''@RSYNCD: 31.0''] (c\<lparr>c_in := tail\<rparr>)) = (Inr (), s)"
  shows "daemon_open env modules c = (Inr (Some m), s)"
proof -
  let ?d = "says [''@RSYNCD: 31.0''] c"
  have r1: "read_line ?d = (Inr (g @ newline), ?d\<lparr>c_in := text_of [n] @ tail\<rparr>)"
    using read_line_text [OF assms(5), of ?d] assms(7) by simp
  have r2: "read_line (?d\<lparr>c_in := text_of [n] @ tail\<rparr>) = (Inr (n @ newline), ?d\<lparr>c_in := tail\<rparr>)"
    using assms(3) by (subst read_line_text) (auto simp: is_line_def)
  have n: "trim_space (n @ newline) = n" "n \<noteq> ''''" using assms(3) by (auto simp: is_line_def)
  have adm: "admit env m (?d\<lparr>c_in := tail\<rparr>) = (Inr (), s)" using assms(8) by simp
  have "reply (''@RSYNCD: 31.0'' @ newline) c = (Inr (), ?d)" by (rule reply_says [OF assms(1)])
  then show ?thesis
    unfolding daemon_open_def
    by (simp only: bnd_def prod.case sum.case r1 assms(6) not_True_eq_False if_False r2 Let_def n assms(2,4) adm ret_def simp_thms)
qed

lemma daemon_open_ok:
  assumes "c_budget c = None" "get_module modules (module_of path) = Inr m"
    and "is_line (module_of path)" "module_of path \<noteq> ''#list''"
    and "admits env cenv m path password" "ce_md4 cenv = de_md4 env" "\<forall>x. de_md4 env x \<noteq> []"
    and "c_in c = text_of (client_lines cenv os path password (asked env m)) @ rest"
  shows "daemon_open env modules c =
    (Inr (Some m), says (daemon_lines (asked env m)) (c\<lparr>c_in := text_of (request_args os path @ ['''']) @ rest\<rparr>))"
proof -
  let ?g = "''@RSYNCD: '' @ dec (nat (protocol_version os)) @ ''.0''"
  let ?auth = "case asked env m of None \<Rightarrow> [] | Some x \<Rightarrow> [credentials cenv path password x]"
  let ?rest = "text_of (request_args os path @ ['''']) @ rest"
  have g: "CHR 0x0A \<notin> set ?g" using graphic_dec [of "nat (protocol_version os)"] by (auto simp: graphic_def)
  have p: "has_prefix (?g @ newline) ''@RSYNCD: ''" by (simp add: has_prefix_def)
  have c_in: "c_in c = text_of [?g, module_of path] @ text_of ?auth @ ?rest"
    using assms(8) by (simp add: client_lines_def)
  have "admit env m (says [''@RSYNCD: 31.0''] (c\<lparr>c_in := text_of ?auth @ ?rest\<rparr>)) =
      (Inr (), says (tl (daemon_lines (asked env m))) (says [''@RSYNCD: 31.0''] (c\<lparr>c_in := ?rest\<rparr>)))"
    using assms(1) admit_ok [OF _ assms(5,6,7), of "says [''@RSYNCD: 31.0''] (c\<lparr>c_in := text_of ?auth @ ?rest\<rparr>)" ?rest] by simp
  then have "admit env m (says [''@RSYNCD: 31.0''] (c\<lparr>c_in := text_of ?auth @ ?rest\<rparr>)) =
      (Inr (), says (daemon_lines (asked env m)) (c\<lparr>c_in := ?rest\<rparr>))"
    by (simp add: daemon_lines_def)
  then show ?thesis by (rule daemon_open_lines [OF assms(1-4) g p c_in])
qed

subsection \<open>Both together\<close>

lemma daemon_accepts:
  fixes d :: "'z conn_scheme"
  assumes "get_module modules (module_of path) = Inr m" "is_line (module_of path)" "module_of path \<noteq> ''#list''"
    and "admits env cenv m path password" "ce_md4 cenv = de_md4 env" "\<forall>x. de_md4 env x \<noteq> []"
    and "\<not> opt_DeleteExcluded os" "is_i32 (o_int os ''io_timeout'')" "is_i64 (o_int os ''bwlimit'')"
    and "o_str os ''tmpdir'' = '''' \<or> is_line (''--temp-dir='' @ o_str os ''tmpdir'')"
    and "is_line path" "hd path \<noteq> CHR ''-''"
    and "c_budget d = None" "c_in d = text_of (client_lines cenv os path password (asked env m)) @ from_client"
  shows "\<exists>os'. same_transfer os os' \<and> daemon_handshake env modules d =
    (Inr (Accepted m os' [strip_module (m_Name m) path]), says (daemon_lines (asked env m)) (d\<lparr>c_in := from_client\<rparr>))"
proof -
  let ?d = "says (daemon_lines (asked env m)) (d\<lparr>c_in := text_of (request_args os path @ ['''']) @ from_client\<rparr>)"
  have "c_in ?d = text_of (request_args os path @ ['''']) @ from_client" by simp
  then obtain os' where os': "same_transfer os os'"
    "daemon_args env m ?d = (Inr (Accepted m os' [strip_module (m_Name m) path]), ?d\<lparr>c_in := from_client\<rparr>)"
    using daemon_args_ok [OF assms(7-12), of ?d from_client env m] by auto
  have "daemon_handshake env modules d = (Inr (Accepted m os' [strip_module (m_Name m) path]), ?d\<lparr>c_in := from_client\<rparr>)"
    unfolding daemon_handshake_def bnd_def daemon_open_ok [OF assms(13,1-6,14)]
    by (simp only: prod.case sum.case option.case os'(2))
  with os'(1) show ?thesis by auto
qed

text \<open>
  C4: when the module exists and admits the client, and the client has the password
  if one is asked for, what each side writes is what the other expects: the client's exchange
  ends with the request for the transfer, the daemon accepts it for this module and the path
  below it, and the options the daemon parsed agree with the client's.
\<close>

theorem handshake_agrees:
  fixes cl :: talk and d :: "'z conn_scheme"
  assumes "get_module modules (module_of path) = Inr m" "is_line (module_of path)" "module_of path \<noteq> ''#list''"
    and "admits env cenv m path password" "ce_md4 cenv = de_md4 env" "\<forall>x. de_md4 env x \<noteq> []"
    and "m_AuthUsers m \<noteq> [] \<longrightarrow>
      raw_password cenv os (snd (extract_user_pass path)) = Inr password \<and> secrets_work (ce_secrets cenv)"
    and "\<not> opt_DeleteExcluded os" "is_i32 (o_int os ''io_timeout'')" "is_i64 (o_int os ''bwlimit'')"
    and "o_str os ''tmpdir'' = '''' \<or> is_line (''--temp-dir='' @ o_str os ''tmpdir'')"
    and "is_line path" "hd path \<noteq> CHR ''-''"
    and "c_budget cl = None" "c_in cl = text_of (daemon_lines (asked env m)) @ from_daemon"
    and "c_budget d = None" "c_in d = text_of (client_lines cenv os path password (asked env m)) @ from_client"
  shows "\<exists>os' cl' d'.
    start_inband_exchange cenv os path cl = (Inr False, cl') \<and>
    out_bytes cl' = out_bytes cl @ text_of (client_lines cenv os path password (asked env m)) \<and> c_in cl' = from_daemon \<and>
    daemon_handshake env modules d = (Inr (Accepted m os' [strip_module (m_Name m) path]), d') \<and>
    out_bytes d' = out_bytes d @ text_of (daemon_lines (asked env m)) \<and> c_in d' = from_client \<and>
    same_transfer os os'"
proof -
  have challenge: "visible (gen_challenge env)"
    using assms(6) by (simp add: gen_challenge_def visible_def graphic_base64 base64_nonempty)
  have client: "start_inband_exchange cenv os path cl =
      (Inr False, says (client_lines cenv os path password (asked env m)) (cl\<lparr>c_in := from_daemon\<rparr>))"
    using assms(7) challenge by (intro client_exchange assms) (auto simp: asked_def split: if_splits)
  obtain os' where "same_transfer os os'" "daemon_handshake env modules d =
      (Inr (Accepted m os' [strip_module (m_Name m) path]), says (daemon_lines (asked env m)) (d\<lparr>c_in := from_client\<rparr>))"
    using daemon_accepts [OF assms(1-6,8-13,16,17)] by blast
  with client show ?thesis by (auto simp: out_bytes_def says_def text_of_def)
qed

text \<open>A sample daemon and client: the secrets library keeps everything as it is, MD4 is constant.\<close>

definition sample_lib :: secret_lib where
  "sample_lib = \<lparr>sl_GenerateKey = Inr ''k'', sl_ResolveKey = \<lambda>_. Inr [1], sl_EncryptBytes = \<lambda>p _. Inr p,
     sl_DecryptBytes = \<lambda>e _. Inr e\<rparr>"

definition sample_daemon :: daemon_env where
  "sample_daemon = \<lparr>de_sprintf = \<lambda>fmt _. fmt, de_md4 = \<lambda>_. [7], de_random = Inr [1, 2],
     de_read_file = \<lambda>_. Inr ''alice:pw'', de_secrets = sample_lib, de_peer_cn = None, de_remote = ''10.0.0.1:99''\<rparr>"

definition sample_client :: client_env where
  "sample_client = \<lparr>ce_md4 = \<lambda>_. [7], ce_secrets = sample_lib, ce_getenv = \<lambda>_. '''', ce_current_user = Inr '''',
     ce_stat = Inl \<circ> NotExist, ce_read_file = Inl \<circ> NotExist\<rparr>"

definition sample_module :: rsync_module where
  "sample_module = \<lparr>m_Name = ''m'', m_Comment = '''', m_Path = ''/srv'', m_FS = None, m_WritableFS = False,
     m_ACL = [''allow 10.0.0.0/8'', ''deny all''], m_Writable = False, m_AuthUsers = [''alice''],
     m_SecretsFile = ''s'', m_TLSAllowedCNs = []\<rparr>"

definition sample_talk :: "byte list \<Rightarrow> talk" where
  "sample_talk input = \<lparr>c_in = input, c_out = [], c_budget = None, shown = []\<rparr>"

lemma sample_secrets: "secrets_work sample_lib" "keeps_secrets sample_lib"
  by (simp_all add: secrets_work_def keeps_secrets_def sample_lib_def new_protected_secret_def reveal_def)

lemma sample_admits: "admits sample_daemon sample_client sample_module ''alice:pw@m/x'' ''pw''"
proof -
  have "check_acl (m_ACL sample_module) (de_remote sample_daemon) = Inr ()" by code_simp
  moreover have "fst (extract_user_pass ''alice:pw@m/x'') = ''alice''" by code_simp
  moreover have "find_password (split_on (CHR 0x0A) ''alice:pw'') ''alice'' = Some ''pw''" by code_simp
  moreover have "visible ''alice''" by (simp add: visible_def graphic_def)
  ultimately show ?thesis
    by (simp add: admits_def sample_module_def sample_daemon_def resolve_username_def sample_secrets)
qed

lemma sample_path: "module_of ''alice:pw@m/x'' = ''m''" "extract_user_pass ''alice:pw@m/x'' = (''alice'', ''pw'')"
  "is_line ''alice:pw@m/x''" "is_line ''m''"
proof -
  show "module_of ''alice:pw@m/x'' = ''m''" "extract_user_pass ''alice:pw@m/x'' = (''alice'', ''pw'')" by code_simp+
  show "is_line ''alice:pw@m/x''" "is_line ''m''" by (simp_all add: visible_is_line visible_def graphic_def)
qed

definition sample_defaults :: options where "sample_defaults = new_options_with_defaults"

lemma sample_defaults: "\<not> opt_DeleteExcluded sample_defaults" "o_int sample_defaults ''io_timeout'' = 0"
  "o_int sample_defaults ''bwlimit'' = 0" "o_str sample_defaults ''tmpdir'' = ''''" "o_str sample_defaults ''password_file'' = ''''"
  by (simp_all add: sample_defaults_def accessors new_options_with_defaults_def defaultOptions_def)

lemma sample_fields [simp]:
  "m_Name sample_module = ''m''" "m_AuthUsers sample_module \<noteq> []" "ce_md4 sample_client = de_md4 sample_daemon"
  "de_md4 sample_daemon x \<noteq> []" "ce_secrets sample_client = sample_lib" "de_secrets sample_daemon = sample_lib"
  "c_budget (sample_talk b) = None" "c_in (sample_talk b) = b" "c_budget (sample_conn b) = None" "c_in (sample_conn b) = b"
  by (simp_all add: sample_module_def sample_client_def sample_daemon_def sample_talk_def sample_conn_def)

theorem handshake_agrees_witness:
  "\<exists>os' cl' d'.
    start_inband_exchange sample_client sample_defaults ''alice:pw@m/x''
      (sample_talk (text_of (daemon_lines (Some (gen_challenge sample_daemon))))) = (Inr False, cl') \<and>
    daemon_handshake sample_daemon [sample_module]
      (sample_conn (text_of (client_lines sample_client sample_defaults ''alice:pw@m/x'' ''pw'' (Some (gen_challenge sample_daemon))))) =
      (Inr (Accepted sample_module os' [''/x'']), d') \<and> c_in d' = []"
proof -
  have "asked sample_daemon sample_module = Some (gen_challenge sample_daemon)"
    by (simp add: asked_def sample_module_def)
  moreover have "strip_module ''m'' ''alice:pw@m/x'' = ''/x''" by code_simp
  ultimately show ?thesis
    using handshake_agrees [of "[sample_module]" "''alice:pw@m/x''" sample_module sample_daemon sample_client "''pw''" sample_defaults
        "sample_talk (text_of (daemon_lines (asked sample_daemon sample_module)))" "[]"
        "sample_conn (text_of (client_lines sample_client sample_defaults ''alice:pw@m/x'' ''pw'' (asked sample_daemon sample_module)))" "[]"]
    by (auto simp: sample_path sample_admits sample_defaults is_i32_def is_i64_def sample_secrets raw_password_def)
qed

text \<open>
  What else the completed handshake shows: everything \<open>daemon_access\<close> states is met by the sample,
  so its conclusion is not empty.
\<close>

theorem daemon_access_witness:
  "\<exists>rest. requested (text_of (client_lines sample_client sample_defaults ''alice:pw@m/x'' ''pw''
       (asked sample_daemon sample_module))) ''m'' rest \<and> answered sample_daemon sample_module rest"
proof -
  have "asked sample_daemon sample_module = Some (gen_challenge sample_daemon)" by (simp add: asked_def)
  then obtain os' d' where "daemon_handshake sample_daemon [sample_module]
      (sample_conn (text_of (client_lines sample_client sample_defaults ''alice:pw@m/x'' ''pw''
         (asked sample_daemon sample_module)))) =
      (Inr (Accepted sample_module os' [strip_module ''m'' ''alice:pw@m/x'']), d')"
    using daemon_accepts [of "[sample_module]" "''alice:pw@m/x''" sample_module sample_daemon sample_client "''pw''" sample_defaults
        "sample_conn (text_of (client_lines sample_client sample_defaults ''alice:pw@m/x'' ''pw'' (asked sample_daemon sample_module)))" "[]"]
    by (auto simp: sample_path sample_admits sample_defaults is_i32_def is_i64_def)
  moreover have "m_Name sample_module = ''m''" "m_AuthUsers sample_module \<noteq> []"
    by (simp_all add: sample_module_def)
  ultimately show ?thesis using daemon_access [of sample_daemon "[sample_module]"]
    by (fastforce simp: sample_secrets)
qed

subsection \<open>How a client ends the server\<close>

lemma exit_flags:
  assumes "w \<in> {''--help'', ''--version'', ''--info=help''}"
  shows "is_line w" "parse_arguments [w] (new_popt_context new_options_with_defaults) = Inl (Exit 0)"
proof -
  have "case parse_arguments [''--help''] (new_popt_context new_options_with_defaults) of Inl (Exit n) \<Rightarrow> n = 0 | _ \<Rightarrow> False"
    "case parse_arguments [''--version''] (new_popt_context new_options_with_defaults) of Inl (Exit n) \<Rightarrow> n = 0 | _ \<Rightarrow> False"
    "case parse_arguments [''--info=help''] (new_popt_context new_options_with_defaults) of Inl (Exit n) \<Rightarrow> n = 0 | _ \<Rightarrow> False"
    by code_simp+
  then show "parse_arguments [w] (new_popt_context new_options_with_defaults) = Inl (Exit 0)"
    using assms by (auto split: sum.splits opt_error.splits)
  show "is_line w" using assms by (auto intro!: visible_is_line simp: visible_def graphic_def)
qed

text \<open>
  C26: a client that is let in can end the whole server: with \<open>--help\<close>, \<open>--version\<close> or
  \<open>--info=help\<close> as its argument the option parser of the daemon calls \<open>os.Exit\<close>, which ends every
  connection of the process.
\<close>

theorem daemon_exit:
  assumes "c_budget d = None" "get_module modules name = Inr m" "is_line name" "name \<noteq> ''#list''"
    and "check_acl (m_ACL m) (de_remote env) = Inr ()" "m_TLSAllowedCNs m = []" "m_AuthUsers m = []"
    and "w \<in> {''--help'', ''--version'', ''--info=help''}"
    and "c_in d = text_of [''@RSYNCD: 31.0'', name, w, ''''] @ rest"
  shows "fst (daemon_handshake env modules d) = Inr (ProcessExit 0)"
proof -
  let ?tail = "text_of [w, ''''] @ rest"
  let ?s = "says [''@RSYNCD: OK''] (says [''@RSYNCD: 31.0''] (d\<lparr>c_in := ?tail\<rparr>))"
  have "admit env m (says [''@RSYNCD: 31.0''] (d\<lparr>c_in := ?tail\<rparr>)) = (Inr (), ?s)"
    using assms(1,5-7) reply_says [of "says [''@RSYNCD: 31.0''] (d\<lparr>c_in := ?tail\<rparr>)" "''@RSYNCD: OK''"]
    by (simp add: admit_def bnd_def ret_def)
  then have "daemon_open env modules d = (Inr (Some m), ?s)"
    using daemon_open_lines [OF assms(1-4), of "''@RSYNCD: 31.0''" ?tail env ?s] assms(9)
    by (simp add: has_prefix_def)
  moreover have "read_flags [] ?s = (Inr [w], ?s\<lparr>c_in := rest\<rparr>)"
    using read_flags_text [of "[w]" ?s rest "[]"] exit_flags(1) [OF assms(8)] by simp
  ultimately show ?thesis
    using exit_flags(2) [OF assms(8)]
    by (simp add: daemon_handshake_def bnd_def daemon_args_def parse_client_args_def ret_def)
qed

definition open_module :: rsync_module where
  "open_module = sample_module\<lparr>m_AuthUsers := []\<rparr>"

theorem daemon_exit_witness:
  "fst (daemon_handshake sample_daemon [open_module]
     (sample_conn (text_of [''@RSYNCD: 31.0'', ''m'', ''--version'', '''']))) = Inr (ProcessExit 0)"
proof -
  have "check_acl (m_ACL open_module) (de_remote sample_daemon) = Inr ()" by code_simp
  then show ?thesis
    using daemon_exit [of "sample_conn (text_of [''@RSYNCD: 31.0'', ''m'', ''--version'', ''''])" "[open_module]" "''m''" open_module
        sample_daemon "''--version''" "[]"] sample_path(4)
    by (simp add: open_module_def sample_module_def)
qed

subsection \<open>A password on the wire\<close>

lemma cut_at_Some: "cut_at c s = Some (a, b) \<Longrightarrow> s = a @ c # b"
  by (induction c s arbitrary: a b rule: cut_at.induct) (auto split: if_splits)

lemma password_of_path:
  assumes "extract_user_pass path = (user, password)"
  shows "\<exists>p q. path = p @ password @ q"
proof -
  obtain scheme s where s: "path = scheme @ s" "case cut_at (CHR ''@'') s of None \<Rightarrow> password = ''''
      | Some (info, _) \<Rightarrow> (case cut_at (CHR '':'') info of Some up \<Rightarrow> password = snd up | None \<Rightarrow> password = '''')"
  proof (cases "has_prefix path ''rsync://''")
    case True
    then obtain s where "path = ''rsync://'' @ s" by (rule has_prefixE)
    with assms show ?thesis
      by (intro that [of "''rsync://''" s])
        (auto simp: extract_user_pass_def trim_prefix_def has_prefix_def Let_def split: option.splits)
  next
    case False
    show ?thesis
    proof (cases "has_prefix path ''rsyncts://''")
      case True
      then obtain s where "path = ''rsyncts://'' @ s" by (rule has_prefixE)
      with assms False show ?thesis
        by (intro that [of "''rsyncts://''" s])
          (auto simp: extract_user_pass_def trim_prefix_def has_prefix_def Let_def split: option.splits)
    next
      case no: False
      with assms False show ?thesis
        by (intro that [of "''''" path]) (auto simp: extract_user_pass_def Let_def split: option.splits)
    qed
  qed
  show ?thesis
  proof (cases "password = ''''")
    case True
    then show ?thesis by (intro exI [of _ path] exI [of _ "''''"]) simp
  next
    case False
    with s(2) obtain info tail u where "cut_at (CHR ''@'') s = Some (info, tail)" "cut_at (CHR '':'') info = Some (u, password)"
      by (auto split: option.splits)
    with s(1) have "path = (scheme @ u @ '':'') @ password @ (CHR ''@'' # tail)" by (auto dest!: cut_at_Some)
    then show ?thesis by blast
  qed
qed

lemma reply_budget: "reply x c = (r, c') \<Longrightarrow> c_budget c = None \<Longrightarrow> c_budget c' = None"
  by (auto simp: reply_def bnd_def attempt_def ret_def conn_write_def split: if_splits)

lemma read_line_budget: "read_line c = (r, c') \<Longrightarrow> c_budget c' = c_budget c"
  by (auto simp: read_line_def split: if_splits)

lemma startup_line_budget:
  assumes "startup_line env os up line c = (r, c')" "c_budget c = None"
  shows "c_budget c' = None"
proof -
  have "answer_challenge env os up ch d = (r', d') \<Longrightarrow> c_budget d = None \<Longrightarrow> c_budget d' = None" for ch r' and d d' :: talk
    by (auto simp: answer_challenge_def throw_def dest: reply_budget split: prod.splits sum.splits)
  with assms show ?thesis
    by (auto simp: startup_line_def bnd_def ret_def throw_def show_line_def modify_def split: if_splits prod.splits sum.splits)
qed

lemma startup_loop_budget:
  "startup_loop env os up c = (r, c') \<Longrightarrow> c_budget c = None \<Longrightarrow> c_budget c' = None"
proof (induction env os up c arbitrary: r c' rule: startup_loop.induct)
  case (1 env os up c)
  obtain r1 c1 where read: "wrap_err (\<lambda>e. Errorf ''did not get server startup line: %v'' [FErr e]) read_line c = (r1, c1)"
    by (cases "wrap_err (\<lambda>e. Errorf ''did not get server startup line: %v'' [FErr e]) read_line c")
  then have c1: "c_budget c1 = None" using 1(3)
    by (auto simp: wrap_err_def dest: read_line_budget split: prod.splits sum.splits)
  show ?case
  proof (cases r1)
    case (Inl e)
    with 1(2) read c1 show ?thesis by (simp add: startup_loop.simps)
  next
    case (Inr line)
    obtain r2 c2 where step: "startup_line env os up (trim_space line) c1 = (r2, c2)"
      by (cases "startup_line env os up (trim_space line) c1")
    then have c2: "c_budget c2 = None" using c1 by (rule startup_line_budget)
    show ?thesis
      using 1(2) c2 1(1) [OF read [symmetric] Inr step [symmetric]]
      by (subst (asm) startup_loop.simps) (auto simp: read Inr step split: sum.splits option.splits)
  qed
qed

text \<open>
  C25: a password given in the path of the transfer goes over the connection in clear text: when the
  exchange gets as far as the request, the request ends with the whole path, password
  included, although the challenge and its hashed answer are there to avoid this.
\<close>

theorem password_in_clear:
  assumes "c_budget c = None" "start_inband_exchange env os path c = (Inr False, c')"
    and "extract_user_pass path = (user, password)"
  shows "\<exists>xs p q. path = p @ password @ q \<and> out_bytes c' = xs @ bytes_of_string (p @ password @ q) @ [10, 10]"
proof -
  let ?greet = "''@RSYNCD: '' @ dec (nat (protocol_version os)) @ ''.0'' @ newline"
  obtain c1 c2 c3 c4 c5 u v w p g where steps: "reply ?greet c = (Inr u, c1)"
      "wrap_err (\<lambda>e. Errorf ''ReadString: %v'' [FErr e]) read_line c1 = (Inr g, c2)"
      "(case check_server_greeting g of Inl e \<Rightarrow> throw e | Inr p \<Rightarrow> ret p) c2 = (Inr p, c3)"
      "reply (module_of path @ newline) c3 = (Inr v, c4)" "startup_loop env os (extract_user_pass path) c4 = (Inr w, c5)"
      "(if w then ret True else bnd (for_each (\<lambda>a. reply (a @ newline)) (request_args os path)) (\<lambda>_. bnd (reply newline) (\<lambda>_. ret False))) c5 =
        (Inr False, c')"
    using assms(2) unfolding start_inband_exchange_def bnd_eq_Inr by blast
  have "c_budget c1 = None" using reply_budget [OF steps(1) assms(1)] .
  moreover have "c_budget c2 = c_budget c1" using steps(2)
    by (auto simp: wrap_err_def dest: read_line_budget split: prod.splits sum.splits if_splits)
  ultimately have "c_budget c2 = None" by simp
  moreover have "c3 = c2" using steps(3) by (auto simp: throw_def ret_def split: sum.splits)
  ultimately have "c_budget c5 = None" using steps(4,5) by (blast dest: reply_budget startup_loop_budget)
  moreover have "\<not> w" using steps(6) by (auto simp: ret_def)
  ultimately have "c' = says (request_args os path @ ['''']) c5"
    using steps(6) by (simp add: bnd_def for_each_reply reply_blank ret_def)
  then have "out_bytes c' = (out_bytes c5 @ text_of (server_options os @ [''.''])) @ bytes_of_string path @ [10, 10]"
    by (simp add: request_args_def)
  with password_of_path [OF assms(3)] show ?thesis by metis
qed

theorem password_in_clear_witness:
  "\<exists>c' xs p q. start_inband_exchange sample_client sample_defaults ''alice:pw@m/x''
      (sample_talk (text_of (daemon_lines (Some (gen_challenge sample_daemon))))) = (Inr False, c') \<and>
    ''alice:pw@m/x'' = p @ ''pw'' @ q \<and> out_bytes c' = xs @ bytes_of_string (p @ ''pw'' @ q) @ [10, 10]"
proof -
  let ?c = "sample_talk (text_of (daemon_lines (Some (gen_challenge sample_daemon))))"
  have "visible (gen_challenge sample_daemon)"
    by (simp add: gen_challenge_def visible_def graphic_base64 base64_nonempty)
  then have "start_inband_exchange sample_client sample_defaults ''alice:pw@m/x'' ?c =
      (Inr False, says (client_lines sample_client sample_defaults ''alice:pw@m/x'' ''pw'' (Some (gen_challenge sample_daemon))) (?c\<lparr>c_in := []\<rparr>))"
    by (intro client_exchange) (simp_all add: sample_path sample_secrets raw_password_def)
  from this password_in_clear [OF _ this sample_path(2)] show ?thesis by auto
qed

end
