(* ===== verification/Client_Run.thy ===== *)
theory Client_Run
  imports Serve Handshake
begin

text \<open>
  \<open>ClientRun\<close> of \<open>internal/maincmd/clientmaincmd.go\<close>: the client's end of a session, and what
  the two ends agree on before the file list.
\<close>

subsection \<open>The client's end\<close>

text \<open>The protocol versions, then the seed.\<close>

definition client_start :: "bool \<Rightarrow> (int, 'z conn_scheme) act" where
  "client_start negotiate =
     bnd (when_do negotiate (bnd (write_int32 ProtocolVersion) (\<lambda>_. bnd read_int32 (\<lambda>_. ret ())))) (\<lambda>_.
     wrap_err (\<lambda>e. Errorf ''reading seed: %v'' [FErr e]) read_int32)"

text \<open>
  From here on the client reads the payload of the server's frames through a buffer of 256 KB, up to
  the error that ends it; messages of the other kinds only go to the log.
\<close>

definition payload_of :: "byte list \<Rightarrow> byte list" where
  "payload_of bs = fst (mux_drain maxMessageSize (mux_conn_of bs))"

definition switch_input :: "(unit, 'z conn_scheme) act" where
  "switch_input = modify (\<lambda>s. s\<lparr>c_in := payload_of (c_in s)\<rparr>)"

definition send_rules :: "string list \<Rightarrow> (unit, 'z conn_scheme) act" where
  "send_rules rules =
     bnd (for_each (\<lambda>rule. bnd (write_int32 (i32 (int (length rule)))) (\<lambda>_. write_string rule)) rules) (\<lambda>_.
     write_int32 0)"

text \<open>\<open>filepath.Abs\<close> with the trailing slash kept; \<open>wd\<close> is the working directory.\<close>

definition abs_path :: "string \<Rightarrow> string \<Rightarrow> string" where
  "abs_path wd path =
     (let a = (if has_prefix path ''/'' then clean path else join2 wd path)
      in if has_suffix path ''/'' then a @ ''/'' else a)"

text \<open>The client as sender.\<close>

definition client_send :: "serve_env \<Rightarrow> string \<Rightarrow> bool \<Rightarrow> options \<Rightarrow> string list \<Rightarrow> (unit, search) act" where
  "client_send env wd negotiate os paths =
     bnd (client_start negotiate) (\<lambda>seed.
     bnd switch_input (\<lambda>_.
     bnd (when_do (opt_DeleteMode os) (send_rules (filterRules os))) (\<lambda>_.
     sender_do (sv_depth env) (sv_md4 env) seed os (sv_lookup env) (sv_shuffle env) (parse_filter_rules (filterRules os)) None
       (sv_open_source env) (sv_counters env) FileSystemRoot (map (abs_path wd) paths))))"

text \<open>The client as receiver; \<open>Server\<close> is not among the options it sets.\<close>

definition client_recv_opts :: "serve_env \<Rightarrow> bool \<Rightarrow> options \<Rightarrow> string \<Rightarrow> recv_opts" where
  "client_recv_opts env stdout os dest =
     \<lparr>DryRun = opt_DryRun os, Server = False, Progress = opt_Progress os, DeleteMode = opt_DeleteMode os,
      PreserveGid = opt_PreserveGid os, PreserveUid = opt_PreserveUid os, PreserveLinks = opt_PreserveLinks os,
      PreservePerms = opt_PreservePerms os, PreserveDevices = opt_PreserveDevices os, PreserveTimes = opt_PreserveMTimes os,
      IgnoreTimes = opt_IgnoreTimes os, SizeOnly = opt_SizeOnly os, AlwaysChecksum = opt_AlwaysChecksum os,
      WholeFile = opt_WholeFile os, WritableFS = False, SysStat = sv_sys_stat env, HasRoot = dest \<noteq> '''', HasStdout = stdout,
      DestName = dest, amRoot = sv_am_root env, inGroup = sv_in_group env\<rparr>"

definition client_dest :: "serve_env \<Rightarrow> string list \<Rightarrow> go_error + string" where
  "client_dest env paths =
     (case paths of
        [dest] \<Rightarrow>
          if dest = '''' then Inr dest
          else (case sv_mkdir_all env dest of
            Some e \<Rightarrow> Inl (Errorf ''MkdirAll(dest=%s): %v'' [FStr dest, FErr e])
          | None \<Rightarrow> (case sv_open_root env dest of
              Some e \<Rightarrow> Inl (Errorf ''OpenRoot(dest=%s): %v'' [FStr dest, FErr e])
            | None \<Rightarrow> Inr dest))
      | _ \<Rightarrow> Inl (Errorf ''BUG: expected exactly one path, got %q'' (map FStr paths)))"

definition client_list :: "serve_env \<Rightarrow> bool \<Rightarrow> options \<Rightarrow> string list \<Rightarrow> int \<Rightarrow> (recv_opts \<times> int \<times> rfile list, recv) act" where
  "client_list env stdout os paths seed =
     bnd (case client_dest env paths of Inl e \<Rightarrow> throw e | Inr d \<Rightarrow> ret d) (\<lambda>dest.
     let opts = client_recv_opts env stdout os dest in
     bnd (send_rules (filterRules os)) (\<lambda>_.
     bnd (receive_file_list opts) (\<lambda>fl.
     ret (opts, seed, fl))))"

definition client_prepare :: "serve_env \<Rightarrow> bool \<Rightarrow> bool \<Rightarrow> options \<Rightarrow> string list \<Rightarrow> (recv_opts \<times> int \<times> rfile list, recv) act" where
  "client_prepare env stdout negotiate os paths =
     bnd (client_start negotiate) (\<lambda>seed.
     bnd switch_input (\<lambda>_.
     client_list env stdout os paths seed))"

inductive client_receive ::
  "serve_env \<Rightarrow> bool \<Rightarrow> bool \<Rightarrow> options \<Rightarrow> string list \<Rightarrow> recv \<Rightarrow> go_error + stats option \<Rightarrow> recv \<Rightarrow> bool"
  for env stdout negotiate os paths where
  no_list: "client_prepare env stdout negotiate os paths s = (Inl e, s') \<Longrightarrow>
     client_receive env stdout negotiate os paths s (Inl e) s'"
| transfer: "client_prepare env stdout negotiate os paths s = (Inr (opts, seed, fl), s1) \<Longrightarrow>
     do_recv (sv_md4 env) seed (sv_depth env) opts fl False s1 res s' \<Longrightarrow>
     client_receive env stdout negotiate os paths s res s'"

subsection \<open>Both ends of a session\<close>

text \<open>The bytes of the server in front of the frames, and those of the client in front of the transfer.\<close>

definition session_head :: "bool \<Rightarrow> int \<Rightarrow> byte list" where
  "session_head negotiate seed = (if negotiate then le_bytes 4 ProtocolVersion else []) @ le_bytes 4 seed"

definition rules_bytes :: "string list \<Rightarrow> byte list" where
  "rules_bytes rules = concat (map (\<lambda>l. le_bytes 4 (int (length l)) @ bytes_of_string l) rules) @ le_bytes 4 0"

definition client_head :: "bool \<Rightarrow> byte list" where
  "client_head negotiate = (if negotiate then le_bytes 4 ProtocolVersion else [])"

definition frames_of :: "byte list list \<Rightarrow> byte list" where
  "frames_of ws = concat (map (mux_frame MsgData) ws)"

lemma i32_xor [simp]: "i32 (i32 a XOR i32 b) = i32 a XOR i32 b"
  by (rule bit_eqI) (auto simp: i32_def bit_simps min_def)

lemma session_seed_i32 [simp]: "i32 (session_seed env) = session_seed env"
  by (simp add: session_seed_def)

lemma start_session_ok:
  assumes "c_budget s = None" "c_in s = client_head negotiate @ rest"
  shows "\<exists>s1. start_session env negotiate s = (Inr (), s1) \<and> s1 = s\<lparr>c_in := rest, c_out := c_out s1\<rparr> \<and>
    out_bytes s1 = out_bytes s @ session_head negotiate (session_seed env)"
proof (cases negotiate)
  case True
  then have "read_int32 s = (Inr (i32 ProtocolVersion), s\<lparr>c_in := rest\<rparr>)"
    using assms(2) by (intro read_int32_le_bytes) (simp add: client_head_def)
  with True assms(1) show ?thesis
    by (simp add: start_session_def when_do_def bnd_def write_int32_ok session_head_def out_bytes_def)
next
  case False
  with assms show ?thesis
    by (simp add: start_session_def when_do_def bnd_def ret_def write_int32_ok session_head_def client_head_def
        out_bytes_def conn_unchanged)
qed

lemma client_start_ok:
  assumes "c_budget c = None" "c_in c = session_head negotiate seed @ rest" "i32 seed = seed"
  shows "client_start negotiate c =
    (Inr seed, c\<lparr>c_in := rest, c_out := c_out c @ (if negotiate then [le_bytes 4 ProtocolVersion] else [])\<rparr>)"
  using assms
  by (simp add: client_start_def when_do_def bnd_def ret_def write_int32_ok session_head_def wrap_err_def read_int32_le_bytes)

lemma concat_pairs: "concat (concat (map (\<lambda>l. [f l, g l]) ls)) = concat (map (\<lambda>l. f l @ g l) ls)"
  by (induction ls) simp_all

lemma send_rules_ok:
  assumes "c_budget c = None" "\<forall>l \<in> set rules. int (length l) < 2 ^ 31"
  shows "\<exists>c'. send_rules rules c = (Inr (), c') \<and> c' = c\<lparr>c_out := c_out c'\<rparr> \<and> out_bytes c' = out_bytes c @ rules_bytes rules"
proof -
  have rule: "bnd (write_int32 (i32 (int (length l)))) (\<lambda>_. write_string l) d =
      (Inr (), d\<lparr>c_out := c_out d @ [le_bytes 4 (int (length l)), bytes_of_string l]\<rparr>)"
    if "c_budget d = None" "l \<in> set rules" for l and d :: "'a conn_scheme"
    using that assms(2) by (simp add: bnd_def write_int32_ok write_string_def conn_write_ok is_i32_def)
  have "set xs \<subseteq> set rules \<Longrightarrow> c_budget d = None \<Longrightarrow>
      for_each (\<lambda>rule. bnd (write_int32 (i32 (int (length rule)))) (\<lambda>_. write_string rule)) xs d =
        (Inr (), d\<lparr>c_out := c_out d @ concat (map (\<lambda>l. [le_bytes 4 (int (length l)), bytes_of_string l]) xs)\<rparr>)"
    for xs and d :: "'a conn_scheme"
    by (induction xs arbitrary: d) (simp_all add: ret_def bnd_def [of "bnd _ _"] rule)
  from this [OF order_refl assms(1)] show ?thesis
    using assms(1)
    by (simp add: send_rules_def bnd_def write_int32_ok out_bytes_def rules_bytes_def concat_pairs)
qed

lemma payload_of_frames:
  assumes "\<forall>p \<in> set ws. length p \<le> maxMessageSize" "\<forall>p \<in> set msgs. length p \<le> maxMessageSize"
  shows "payload_of (frames_of ws @ concat (map (mux_frame MsgErrorXfer) msgs)) = concat ws"
proof -
  let ?ms = "map (Pair MsgData) ws @ map (Pair MsgErrorXfer) msgs"
  have tags: "MsgErrorXfer \<noteq> MsgData" by (simp add: msg_tags)
  have "mux_drain maxMessageSize (mux_conn_of (concat (map (\<lambda>(tag, p). mux_frame tag p) ?ms))) =
      (concat (map snd (filter (\<lambda>(tag, p). tag = MsgData) ?ms)), EOF,
       (mux_conn_of (concat (map (\<lambda>(tag, p). mux_frame tag p) ?ms)))\<lparr>c_in := [],
         m_env := Some ([] @ map (\<lambda>(tag, p). log_line tag p) (filter (\<lambda>(tag, p). tag \<noteq> MsgData) ?ms))\<rparr>)"
    using assms by (intro mux_drain_frames) (auto simp: mux_conn_of_def)
  moreover have "concat (map (\<lambda>(tag, p). mux_frame tag p) ?ms) = frames_of ws @ concat (map (mux_frame MsgErrorXfer) msgs)"
    by (simp add: frames_of_def comp_def)
  moreover have "concat (map snd (filter (\<lambda>(tag, p). tag = MsgData) ?ms)) = concat ws"
    using tags by (simp add: filter_map comp_def)
  ultimately show ?thesis by (simp add: payload_of_def)
qed

text \<open>What the server writes when the session ends with \<open>r\<close>.\<close>

definition error_lines :: "serve_env \<Rightarrow> string \<Rightarrow> go_error + 'a \<Rightarrow> byte list list" where
  "error_lines env role r =
     (case r of
        Inl e \<Rightarrow> if fatal e then [] else [bytes_of_string (sv_sprintf env (''gorsync ['' @ role @ '']: %v'' @ newline) [FErr e])]
      | Inr _ \<Rightarrow> [])"

lemma error_message_out:
  assumes "c_budget s = None"
  shows "\<exists>s'. error_message env role r s = (Inr (), s') \<and> s' = s\<lparr>c_out := c_out s'\<rparr> \<and>
    out_bytes s' = out_bytes s @ concat (map (mux_frame MsgErrorXfer) (error_lines env role r))"
  using assms
  by (auto simp: error_message_def error_lines_def ret_def bnd_def attempt_def write_msg_ok out_bytes_def mux_frame_def
      split: sum.split)

lemma in_frames_out: "out_bytes (in_frames s s2) = out_bytes s @ frames_of (c_out s2)"
proof -
  have "concat (concat (map (\<lambda>p. [le_bytes 4 (uint (mux_header MsgData (length p))), p]) ws)) = frames_of ws" for ws
    by (induction ws) (simp_all add: frames_of_def mux_frame_def)
  then show ?thesis by (simp add: in_frames_def out_bytes_def)
qed

text \<open>
  C8: a session of a sending server.  It reads the client's version and filter rules and nothing else
  of the input; the transfer then runs with the rules the client has, and the client, which
  reads the server's version and the seed, has the seed of the server and sees behind its
  demultiplexer exactly what the transfer wrote, whether it succeeded or failed with an error.
\<close>

theorem session_streams:
  fixes s :: search and c :: "'z conn_scheme"
  assumes "remaining \<noteq> []" "c_budget s = None" "c_budget c = None"
    and "c_in s = client_head negotiate @ rules_bytes rules @ rest" "\<forall>l \<in> set rules. l \<noteq> '''' \<and> int (length l) < 2 ^ 31"
    and "sender_do (sv_depth env) (sv_md4 env) (session_seed env) os (sv_lookup env) (sv_shuffle env) (parse_filter_rules rules)
           (m_FS m) (sv_open_source env) (sv_counters env) (m_Path m) (tl remaining) (s\<lparr>c_in := rest, c_out := []\<rparr>) = (r, t)"
    and "c_budget t = None" "\<forall>p \<in> set (c_out t @ error_lines env ''sender'' r). length p \<le> maxMessageSize"
    and "c_in c = session_head negotiate (session_seed env) @ frames_of (c_out t) @
           concat (map (mux_frame MsgErrorXfer) (error_lines env ''sender'' r))"
  shows "\<exists>s' c1. serve_sender env negotiate (Some m) os remaining s = (r, s') \<and> c_in s' = c_in t \<and>
    out_bytes s' = out_bytes s @ c_in c \<and>
    bnd (client_start negotiate) (\<lambda>seed. bnd switch_input (\<lambda>_. ret seed)) c = (Inr (session_seed env), c1) \<and>
    c_in c1 = concat (c_out t) \<and> out_bytes c1 = out_bytes c @ client_head negotiate"
proof -
  obtain s1 where s1: "start_session env negotiate s = (Inr (), s1)" "s1 = s\<lparr>c_in := rules_bytes rules @ rest, c_out := c_out s1\<rparr>"
    "out_bytes s1 = out_bytes s @ session_head negotiate (session_seed env)"
    using start_session_ok [OF assms(2,4), of env] by blast
  have "c_in (s1\<lparr>c_out := []\<rparr>) = concat (map (\<lambda>l. le_bytes 4 (int (length l)) @ bytes_of_string l) rules) @ le_bytes 4 0 @ rest"
    by (subst s1(2)) (simp add: rules_bytes_def)
  from recv_filter_list_wire [OF assms(5) this]
  have "recv_filter_list (s1\<lparr>c_out := []\<rparr>) = (Inr (parse_filter_rules rules), s\<lparr>c_in := rest, c_out := []\<rparr>)"
    by (subst (asm) (2) s1(2)) simp
  then have inner: "multiplexed (handle_conn_sender env (Some m) os (tl remaining)) s1 = (r, in_frames s1 t)"
    using assms(6) by (simp add: multiplexed_def handle_conn_sender_def bnd_def)
  obtain s' where s': "error_message env ''sender'' r (in_frames s1 t) = (Inr (), s')" "s' = (in_frames s1 t)\<lparr>c_out := c_out s'\<rparr>"
    "out_bytes s' = out_bytes (in_frames s1 t) @ concat (map (mux_frame MsgErrorXfer) (error_lines env ''sender'' r))"
    using error_message_out [of "in_frames s1 t" env "''sender''" r] assms(7) by (auto simp: in_frames_def)
  have serve: "serve_sender env negotiate (Some m) os remaining s = (r, s')"
    using assms(1) s1(1) inner s'(1) by (simp add: serve_sender_def bnd_def)
  have "c_in s' = c_in t" by (subst s'(2)) (simp add: in_frames_def)
  moreover have "out_bytes s' = out_bytes s @ c_in c" by (simp add: s'(3) in_frames_out s1(3) assms(9))
  moreover have "payload_of (frames_of (c_out t) @ concat (map (mux_frame MsgErrorXfer) (error_lines env ''sender'' r))) = concat (c_out t)"
    using assms(8) by (intro payload_of_frames) auto
  ultimately show ?thesis
    using serve client_start_ok [OF assms(3,9)]
    by (simp add: bnd_def switch_input_def modify_def ret_def out_bytes_def client_head_def)
qed

definition sample_serve :: serve_env where
  "sample_serve = \<lparr>sv_md4 = \<lambda>_. [7], sv_now = 5, sv_pid = 1, sv_sprintf = \<lambda>fmt _. fmt, sv_depth = 9, sv_lookup = \<lambda>_ _. None,
     sv_shuffle = id, sv_open_source = \<lambda>d. Inl (NotExist d), sv_counters = \<lambda>_. (0, 0), sv_mkdir_all = \<lambda>_. None,
     sv_open_root = \<lambda>_. None, sv_sub_root = \<lambda>_ _ _. None, sv_sub_mkdir = \<lambda>_ _. None, sv_sys_stat = True,
     sv_am_root = False, sv_in_group = \<lambda>_. False\<rparr>"

definition sample_session :: "byte list \<Rightarrow> search" where
  "sample_session input = \<lparr>c_in = input, c_out = [], c_budget = None, s_ms = map_file sample_file 0 1024 700,
     lastMatch = 0, s_hash = []\<rparr>"

lemma sample_sender_do:
  "sender_do 9 (\<lambda>_. [7]) 69 sample_defaults (\<lambda>_ _. None) id excl None (\<lambda>d. Inl (NotExist d)) (\<lambda>_. (0, 0)) root [] (sample_session []) =
     (Inl EOF, (sample_session [])\<lparr>c_out := [[0, 0, 0, 0, 0]]\<rparr>)"
proof -
  have p: "opt_PreserveGid sample_defaults = False" "opt_PreserveUid sample_defaults = False"
    by (simp_all add: sample_defaults_def accessors new_options_with_defaults_def defaultOptions_def)
  let ?w = "search.extend (sample_session []) (walker.fields [] 0 [] [] 0)"
  have "list_end sample_defaults id ?w = [0, 0, 0, 0, 0]"
    by (simp add: list_end_def id_set_bytes_def p buf_write_int32_def buf_write_byte_def search.defs walker.defs numeral_eq_Suc)
  then have "send_file_list 9 (\<lambda>_. [7]) sample_defaults (\<lambda>_ _. None) id excl None (\<lambda>d. Inl (NotExist d)) root [] ?w =
      (Inr ([], 0), ?w\<lparr>c_out := [[0, 0, 0, 0, 0]]\<rparr>)"
    by (simp add: send_file_list_def bnd_def get_def ret_def write_string_def conn_write_def search.defs walker.defs sample_session_def)
  moreover have "read_int32 ((sample_session [])\<lparr>c_out := [[0, 0, 0, 0, 0]]\<rparr>) = (Inl EOF, (sample_session [])\<lparr>c_out := [[0, 0, 0, 0, 0]]\<rparr>)"
    by (subst read_int32_short) (simp_all add: sample_session_def)
  ultimately show ?thesis
    by (simp add: sender_do_def send_do_def send_files_def sort_files_def bnd_def send_files_loop.simps send_files_step_def
        search.defs sample_session_def)
qed

theorem session_streams_witness:
  "\<exists>s' c1. serve_sender sample_serve False (Some open_module) sample_defaults [''.'']
      (sample_session (rules_bytes [''- *.go''])) = (Inl EOF, s') \<and>
    bnd (client_start False) (\<lambda>seed. bnd switch_input (\<lambda>_. ret seed)) (sample_conn (out_bytes s')) = (Inr 69, c1) \<and>
    c_in c1 = [0, 0, 0, 0, 0]"
proof -
  let ?r = "Inl EOF :: go_error + unit" and ?t = "(sample_session [])\<lparr>c_out := [[0, 0, 0, 0, 0]]\<rparr>"
  let ?out = "session_head False 69 @ frames_of [[0, 0, 0, 0, 0]] @ concat (map (mux_frame MsgErrorXfer) (error_lines sample_serve ''sender'' ?r))"
  have seed: "session_seed sample_serve = 69" by code_simp
  have m: "m_FS open_module = None" by (simp add: open_module_def sample_module_def)
  have do: "sender_do (sv_depth sample_serve) (sv_md4 sample_serve) (session_seed sample_serve) sample_defaults (sv_lookup sample_serve)
      (sv_shuffle sample_serve) (parse_filter_rules [''- *.go'']) (m_FS open_module) (sv_open_source sample_serve)
      (sv_counters sample_serve) (m_Path open_module) [] ((sample_session (rules_bytes [''- *.go'']))\<lparr>c_in := [], c_out := []\<rparr>) = (?r, ?t)"
    using sample_sender_do [of "parse_filter_rules [''- *.go'']" "m_Path open_module"]
    unfolding seed m by (simp add: sample_serve_def sample_session_def)
  have err: "error_lines sample_serve ''sender'' ?r = [bytes_of_string (''gorsync [sender]: %v'' @ newline)]"
    by (simp add: error_lines_def sample_serve_def)
  have lens: "\<forall>p \<in> set (c_out ?t @ error_lines sample_serve ''sender'' ?r). length p \<le> maxMessageSize"
    unfolding err by (simp add: maxMessageSize_def newline_def)
  from session_streams [where s = "sample_session (rules_bytes [''- *.go''])" and c = "sample_conn ?out" and remaining = "[''.'']"
      and negotiate = False and rules = "[''- *.go'']" and rest = "[]" and env = sample_serve and os = sample_defaults
      and m = open_module and r = ?r and t = ?t]
  obtain s' c1 where "serve_sender sample_serve False (Some open_module) sample_defaults [''.'']
      (sample_session (rules_bytes [''- *.go''])) = (?r, s')" "out_bytes s' = ?out"
    "bnd (client_start False) (\<lambda>seed. bnd switch_input (\<lambda>_. ret seed)) (sample_conn ?out) = (Inr 69, c1)"
    "c_in c1 = concat (c_out ?t)"
    using do lens by (auto simp: seed sample_session_def sample_conn_def client_head_def out_bytes_def)
  then show ?thesis by (intro exI [of _ s'] exI [of _ c1]) simp
qed

subsection \<open>Modules that are not written\<close>

text \<open>
  C10: a client cannot make the server write to a module that is not writable, whatever it sends and
  whichever paths it asks for: the session ends with an error, and the tree of
  the destination is as it was.
\<close>

theorem read_only_module:
  assumes "serve_receiver env negotiate (Some m) os remaining s res s'" "\<not> m_Writable m"
  shows "rt_fs s' = rt_fs s \<and> (\<exists>e. res = Inl e)"
proof -
  have root: "receiver_root env (Some m) paths = Inl (Errorf ''ERROR: module is read only'' [])" for paths
    using assms(2) by (simp add: receiver_root_def)
  have start: "start_session env negotiate s = (x, s1) \<Longrightarrow> rt_fs s1 = rt_fs s" for x s1
    by (auto simp: start_session_def when_do_def bnd_def ret_def read_int32_def read_full_def write_int32_def conn_write_def
        split: if_splits prod.splits sum.splits)
  have msg: "rt_fs (snd (error_message env role r t)) = rt_fs t" for role t and r :: "go_error + unit"
    by (auto simp: error_message_def ret_def bnd_def attempt_def write_msg_def conn_write_def split: sum.splits)
  from assms(1) show ?thesis
  proof (cases rule: serve_receiver.cases)
    case (session s1 s2)
    from session(4) have "s2 = s1\<lparr>c_out := []\<rparr> \<and> (\<exists>e. res = Inl e)"
      by (rule handle_conn_receiverE) (auto simp: root)
    with session start show ?thesis by (auto simp: msg in_frames_def)
  qed (auto dest: start)
qed

lemma refused_session:
  assumes "receiver_root env module (tl remaining) = Inl e" "remaining \<noteq> []" "start_session env negotiate s = (Inr (), s1)"
  shows "\<exists>s'. serve_receiver env negotiate module os remaining s (Inl e) s'"
  using session [OF assms(2,3) no_root [OF assms(1)]] by blast

theorem read_only_module_witness:
  "\<exists>s'. serve_receiver sample_serve False (Some open_module) sample_defaults [''.'', ''/''] sample_recv
      (Inl (Errorf ''ERROR: module is read only'' [])) s' \<and> rt_fs s' = rt_fs sample_recv"
proof -
  have ro: "\<not> m_Writable open_module" by (simp add: open_module_def sample_module_def)
  have root: "receiver_root sample_serve (Some open_module) (tl [''.'', ''/'']) = Inl (Errorf ''ERROR: module is read only'' [])"
    using ro by (simp add: receiver_root_def)
  have "c_budget sample_recv = None" by (simp add: sample_recv_def)
  then obtain s1 where "start_session sample_serve False sample_recv = (Inr (), s1)"
    by (simp add: start_session_def when_do_def bnd_def ret_def write_int32_ok)
  with refused_session [OF root] obtain s' where "serve_receiver sample_serve False (Some open_module) sample_defaults
      [''.'', ''/''] sample_recv (Inl (Errorf ''ERROR: module is read only'' [])) s'" by blast
  with read_only_module [OF this ro] show ?thesis by blast
qed

text \<open>
  C40: a module that is valid and has a \<open>WritableFS\<close> cannot receive anything: its path is empty, so
  every session ends when the server tries to create and open the directory of that name.
\<close>

theorem writable_fs_refused:
  assumes "validate_module m = Inr ()" "m_WritableFS m" "m_FS m = None" "sv_mkdir_all env '''' = Some e"
    and "handle_conn_receiver env (Some m) os paths s res s'"
  shows "s' = s \<and> (\<exists>e. res = Inl e)"
proof -
  have "m_Path m = ''''" using assms(1-3) by (simp add: validate_module_def split: if_splits)
  then have "\<exists>e. receiver_root env (Some m) paths = Inl e" using assms(4) by (simp add: receiver_root_def)
  with assms(5) show ?thesis by (auto elim: handle_conn_receiverE)
qed

theorem writable_fs_refused_witness:
  "let m = open_module\<lparr>m_Path := '''', m_WritableFS := True, m_Writable := True\<rparr>;
       env = sample_serve\<lparr>sv_mkdir_all := \<lambda>d. if d = '''' then Some (NotExist d) else None\<rparr>
   in \<exists>e. handle_conn_receiver env (Some m) sample_defaults [''/''] sample_recv (Inl e) sample_recv \<and>
          (\<exists>e'. (Inl e :: go_error + unit) = Inl e')"
proof -
  let ?m = "open_module\<lparr>m_Path := '''', m_WritableFS := True, m_Writable := True\<rparr>"
  let ?env = "sample_serve\<lparr>sv_mkdir_all := \<lambda>d. if d = '''' then Some (NotExist d) else None\<rparr>"
  obtain e where root: "receiver_root ?env (Some ?m) [''/''] = Inl e"
    by (simp add: receiver_root_def)
  note run = no_root [OF root, of sample_defaults sample_recv]
  have "validate_module ?m = Inr ()" by (simp add: validate_module_def open_module_def sample_module_def)
  from writable_fs_refused [OF this _ _ _ run] run show ?thesis
    by (auto simp: Let_def open_module_def sample_module_def)
qed

end
