(* ===== verification/Serve_Safety.thy ===== *)
theory Serve_Safety
  imports Client_Run Recv_Delete
begin

text \<open>
  What no client of a receiving server can do, from the first byte of the session on: change a
  name outside the directory that was opened for the session.
\<close>

text \<open>Entries of the destination only change at names below the root, or below such names.\<close>

definition within :: "string \<Rightarrow> bool" where
  "within n \<longleftrightarrow> (\<exists>p. \<not> escapes p \<and> (n = p \<or> (p \<noteq> ''.'' \<and> has_prefix n (p @ ''/''))))"

definition inside :: "recv \<Rightarrow> recv \<Rightarrow> bool" where
  "inside s t \<longleftrightarrow> env_of t = env_of s \<and> (confined s \<longrightarrow> (\<forall>n. rt_fs t n \<noteq> rt_fs s n \<longrightarrow> within n))"

interpretation inside: frame inside
proof
  fix s t u assume "inside s t" "inside t u"
  then show "inside s u" unfolding inside_def using confined_env by metis
qed (simp add: inside_def)

lemma inside_tree: "tree_rel N L s t \<Longrightarrow> \<forall>n \<in> N. \<not> escapes n \<Longrightarrow> inside s t"
  unfolding tree_rel_def inside_def within_def by blast

lemma inside_stays: "stays {} {} m \<Longrightarrow> keeps inside m"
  by (erule keeps_mono) (erule inside_tree, simp)

text \<open>Deletion needs the sorted list in which it looks for a name; the top directory is in it.\<close>

lemma inside_delete_files:
  assumes "delete_files depth opts fl s = (r, s')" "sorted (map Name fl)"
  shows "inside s s'"
proof (cases "IOErrors s \<le> 0 \<and> (\<exists>f \<in> set fl. Name f = ''.'')")
  case True
  then have "delete_loop depth opts fl fl s = (r, s')"
    using assms(1) by (simp add: delete_files_def bnd_def get_def)
  then have "del_rel opts fl s s'" by (rule keepsD [OF del_delete_loop])
  moreover have "find_in_file_list fl ''.''"
    using True find_in_file_list_aux [OF assms(2), of "''.''"] by force
  ultimately show ?thesis unfolding del_rel_def inside_def within_def below_def by metis
next
  case False
  then have "s' = s"
    using assms(1) delete_loop_no_top [of fl depth opts fl]
    by (auto simp: delete_files_def bnd_def get_def ret_def split: if_splits)
  then show ?thesis by (simp add: inside.frame_refl)
qed

lemma inside_do_recv:
  assumes "do_recv md4 seed depth opts fl noReport s res s'" "\<not> WritableFS opts" "sorted (map Name fl)"
  shows "inside s s'"
proof -
  let ?N = "\<Union>f \<in> set fl. touched opts f"
  have N: "\<forall>n \<in> ?N. \<not> escapes n" using assms(2) by (auto simp: touched_def)
  have del: "inside s s1" if "when_do (DeleteMode opts) (delete_files depth opts fl) s = (x, s1)" for x s1
    using that assms(3) by (auto simp: when_do_def ret_def inside.frame_refl split: if_splits dest: inside_delete_files)
  have run: "inside s1 t" if "do_steps md4 seed opts fl (GNext 0 fl, RPhase 0, s1) (g, r, t)" for g r s1 t
    by (rule inside_tree [OF do_steps_stays [OF that] N]) simp
  have fin: "inside s2 t" if "do_finish opts fl noReport s2 = (x, t)" for x s2 t
    by (rule inside_tree [OF keepsD [OF stays_do_finish that] N])
  from assms(1) show ?thesis
    by cases (auto dest!: del run fin intro: inside.frame_trans)
qed

subsection \<open>The file list\<close>

lemma keep_levels: "keeps inside (modify (\<lambda>s. s\<lparr>IOErrors := i\<rparr>))" "keeps inside (modify (\<lambda>s. s\<lparr>rt_Users := u, rt_Groups := g\<rparr>))"
  by (simp_all add: keeps_def modify_def inside_def env_of_def)

lemma keep_show: "keeps inside (show_count opts fmt fl)" "keeps inside (print_out opts line)"
  unfolding show_count_def by (intro inside_stays stays_simple)+

lemma keep_read: "reads m \<Longrightarrow> keeps inside m"
  by (intro inside_stays stays_reads)

lemma inside_list_loop: "inside s (snd (receive_list_loop opts prev acc s))"
proof (induction opts prev acc s rule: receive_list_loop.induct)
  case (1 opts prev acc s)
  have "keeps inside (receive_entry_step opts prev acc)"
    unfolding receive_entry_step_def
    by (intro inside.keep_ret inside.keep_bnd inside.keep_if inside.keep_when_do keep_show keep_read [OF reads_read_byte]
        keep_read [OF reads_receive_file_entry])
  moreover obtain r t where r: "receive_entry_step opts prev acc s = (r, t)"
    by (cases "receive_entry_step opts prev acc s")
  ultimately have "inside s t" by (metis keepsD)
  with 1 r inside.frame_trans show ?case
    by (subst receive_list_loop.simps) (auto split: sum.split option.split)
qed

lemma inside_id_mapping: "inside s (snd (recv_id_mapping1 lookup m s))"
proof (induction lookup m s rule: recv_id_mapping1.induct)
  case (1 lookup m s)
  obtain r t where r: "recv_id_entry s = (r, t)" by (cases "recv_id_entry s")
  have "reads recv_id_entry" unfolding recv_id_entry_def by (intro reads_intro)
  from keepsD [OF keep_read [OF this] r] have t: "inside s t" .
  with 1 r show ?case
    by (subst recv_id_mapping1.simps)
      (auto simp: fun_upd_def split: sum.split option.split intro: inside.frame_trans [OF t])
qed

lemma inside_filter_loop: "inside s (snd (recv_filter_loop rules s))"
proof (induction rules s rule: recv_filter_loop.induct)
  case (1 rules s)
  obtain r t where r: "read_int32 s = (r, t)" by (cases "read_int32 s")
  have t: "inside s t" by (rule keepsD [OF keep_read [OF reads_read_int32] r])
  have u: "inside s u" if "read_full n t = (x, u)" for n x u
    using t keepsD [OF keep_read [OF reads_read_full] that] by (rule inside.frame_trans)
  show ?case
  proof (cases "\<exists>len u line. r = Inr len \<and> 0 < len \<and> read_full (nat len) t = (Inr line, u)")
    case True
    then obtain len v line where x: "r = Inr len" "0 < len" "read_full (nat len) t = (Inr line, v)" by blast
    have "inside v (snd (recv_filter_loop (Exclude.add_rule (parse_filter (string_of_bytes line)) rules) v))"
      by (rule 1 [OF r [symmetric], of len]) (use x in simp_all)
    with u [OF x(3)] have "inside s (snd (recv_filter_loop (Exclude.add_rule (parse_filter (string_of_bytes line)) rules) v))"
      by (rule inside.frame_trans)
    then show ?thesis using r x by (subst recv_filter_loop.simps) simp
  next
    case False
    then show ?thesis
      using r t u by (subst recv_filter_loop.simps) (fastforce split: sum.split prod.split)
  qed
qed

lemma inside_filter_list: "keeps inside recv_filter_list"
  unfolding recv_filter_list_def by (rule keepsI) (rule inside_filter_loop)

lemma inside_receive_file_list: "keeps inside (receive_file_list opts)"
proof -
  have loops: "keeps inside (receive_list_loop opts prev acc)" "keeps inside (recv_id_mapping1 lookup m)" for prev acc lookup m
    by (auto intro: keepsI inside_list_loop inside_id_mapping)
  show ?thesis
    unfolding receive_file_list_def recv_id_list_def
    by (auto intro!: inside.keep_intro loops keep_levels keep_show keep_read [OF reads_read_int32])
qed

lemma inside_receive_phase: "keeps inside (receive_phase os opts)"
  unfolding receive_phase_def
  by (auto intro!: inside.keep_intro inside_receive_file_list inside_filter_list)

lemma receive_phase_sorted:
  assumes "receive_phase os opts s = (Inr fl, s')"
  shows "sorted (map Name fl)"
  using assms
  by (auto simp: receive_phase_def receive_file_list_def bnd_eq_Inr ret_def sort_file_list_def)

subsection \<open>The session\<close>

lemma inside_out: "inside (s\<lparr>c_out := o1\<rparr>) t \<longleftrightarrow> inside s t" "inside s (t\<lparr>c_out := o1\<rparr>) \<longleftrightarrow> inside s t"
  by (simp_all add: inside_def env_of_def confined_def)

lemma inside_start: "keeps inside (start_session env negotiate)"
  unfolding start_session_def
  by (intro inside.keep_intro keep_read [OF reads_read_int32] inside_stays stays_simple)

lemma inside_message: "inside s (snd (error_message env role r s))" for r :: "go_error + unit"
  by (auto simp: error_message_def ret_def bnd_def attempt_def write_msg_def conn_write_def inside_def env_of_def
      split: sum.splits)

lemma inside_handle:
  assumes "handle_conn_receiver env module os paths s res s'" "case module of None \<Rightarrow> True | Some m \<Rightarrow> \<not> m_WritableFS m"
  shows "inside s s'"
  using assms(1)
proof (cases rule: handle_conn_receiver.cases)
  case (transfer d opts fl s1 r)
  have "\<not> WritableFS opts"
    using transfer(3) assms(2) by (auto simp: server_recv_opts_def split: option.splits)
  from inside_do_recv [OF transfer(5) this receive_phase_sorted [OF transfer(4)]]
  have "inside s1 s'" .
  with keepsD [OF inside_receive_phase transfer(4)] show ?thesis by (rule inside.frame_trans)
qed (auto simp: inside.frame_refl dest: keepsD [OF inside_receive_phase])

lemma inside_session:
  assumes "serve_receiver env negotiate module os remaining s res s'" "case module of None \<Rightarrow> True | Some m \<Rightarrow> \<not> m_WritableFS m"
  shows "inside s s'"
  using assms(1)
proof (cases rule: serve_receiver.cases)
  case (session s1 s2)
  have "inside s s1" by (rule keepsD [OF inside_start session(3)])
  moreover have "inside s1 s2" using inside_handle [OF session(4) assms(2)] by (simp add: inside_out)
  moreover have "inside s2 s'" unfolding session(1)
    using inside_message [of "in_frames s1 s2" env "''receiver''" res]
    by (simp add: in_frames_def inside_out inside_def env_of_def confined_def)
  ultimately show ?thesis using inside.frame_trans by blast
qed (auto simp: inside.frame_refl dest: keepsD [OF inside_start])

text \<open>
  Whatever the client of a receiving server sends, with or without deletions, however the session
  ends and the goroutines interleave: below the directory that \<open>receiver_root\<close> has opened no
  name changes that leads out of it.  Which directory that is, the module's or one below it, is up to
  \<open>os.Root.OpenRoot\<close> and not part of the statement.
\<close>

lemma session_within:
  assumes "serve_receiver env negotiate module os remaining s res s'" "confined s"
    and "case module of None \<Rightarrow> True | Some m \<Rightarrow> \<not> m_WritableFS m" "rt_fs s' n \<noteq> rt_fs s n"
  shows "within n"
  using inside_session [OF assms(1,3)] assms(2,4) unfolding inside_def by blast

end
