(* ===== verification/Ssh.thy ===== *)
theory Ssh
  imports Daemon
begin

text \<open>
  \<open>internal/anonssh/anonssh.go\<close>: the SSH listener in front of the daemon, as far as it decides: the host
  key, the authorized keys, who is let in and what a session may ask for.  The SSH protocol itself
  (\<open>golang.org/x/crypto/ssh\<close>), \<open>shlex\<close> and the files are parameters.
\<close>

text \<open>
  \<open>se_parse_authorized\<close> is \<open>ssh.ParseAuthorizedKey\<close>, which gives the type and the wire form of a key, or a
  nil key with an error; \<open>se_gen_key\<close> generates a host key and writes it to the path.
\<close>

record ssh_env =
  se_sprintf :: "string \<Rightarrow> fmt_arg list \<Rightarrow> string"
  se_config_dir :: "go_error + string"
  se_read_file :: "string \<Rightarrow> go_error + string"
  se_mkdir_all :: "string \<Rightarrow> go_error option"
  se_gen_key :: "string \<Rightarrow> go_error + string"
  se_parse_private :: "string \<Rightarrow> go_error + string"
  se_parse_authorized :: "string \<Rightarrow> go_error + string \<times> string"
  se_env_request :: "string \<Rightarrow> go_error + string \<times> string"
  se_exec_request :: "string \<Rightarrow> go_error + string"
  se_shlex :: "string \<Rightarrow> go_error + string list"

text \<open>A listener of the daemon's configuration (\<open>internal/rsyncdconfig/config.go\<close>).\<close>

record listener =
  l_HostKeyPath :: string
  l_Rsyncd :: string
  l_AnonSSH :: string
  l_Address :: string
  l_AuthorizedKeys :: string
  l_TLSCert :: string
  l_TLSKey :: string
  l_TLSAuth :: string
  l_TLSClientCA :: string

text \<open>\<open>anonssh.Listener\<close>; without authorized keys everyone is let in.\<close>

record ssh_listener =
  hostKey :: string
  authorizedKeys :: "string list option"
  authorizedKeysPath :: string

subsection \<open>Keys\<close>

definition load_host_key :: "ssh_env \<Rightarrow> string \<Rightarrow> go_error + string" where
  "load_host_key env path =
     (case se_read_file env (clean path) of
        Inr b \<Rightarrow> se_parse_private env b
      | Inl (NotExist n) \<Rightarrow>
          (case se_mkdir_all env (dir_of path) of
             Some e \<Rightarrow> Inl e
           | None \<Rightarrow> (case se_gen_key env path of Inl e \<Rightarrow> Inl e | Inr b \<Rightarrow> se_parse_private env b))
      | Inl e \<Rightarrow> Inl e)"

text \<open>
  The lines of a \<open>bufio.Scanner\<close>: without the newline and a carriage return before it, no empty line at
  the end; a line of 64 KB or more ends the scan.
\<close>

definition drop_cr :: "string \<Rightarrow> string" where
  "drop_cr l = (if has_suffix l [CHR 0x0D] then butlast l else l)"

definition scan_lines :: "string \<Rightarrow> string list" where
  "scan_lines contents =
     (let ls = split_on (CHR 0x0A) contents in if last ls = '''' then butlast ls else ls)"

definition MaxScanTokenSize :: int where "MaxScanTokenSize = 64 * 1024"

text \<open>The type of a key is looked at before the error that says there is none.\<close>

fun load_lines :: "(string \<Rightarrow> go_error + string \<times> string) \<Rightarrow> string list \<Rightarrow> string list \<Rightarrow> go_error + string list" where
  "load_lines parse [] keys = Inr keys"
| "load_lines parse (l # ls) keys =
     (if int (length l) \<ge> MaxScanTokenSize then Inl (Errorf ''bufio.Scanner: token too long'' [])
      else
        let l' = drop_cr l; tr = trim_space l' in
        if tr = '''' \<or> has_prefix tr ''#'' then load_lines parse ls keys
        else case parse l' of
          Inl e \<Rightarrow> Inl (Panic ''invalid memory address or nil pointer dereference'')
        | Inr (keyType, key) \<Rightarrow> load_lines parse ls (keys @ [key]))"

definition load_authorized_keys :: "ssh_env \<Rightarrow> string \<Rightarrow> go_error + string list" where
  "load_authorized_keys env path =
     (case se_read_file env (clean path) of
        Inl e \<Rightarrow> Inl e
      | Inr contents \<Rightarrow> load_lines (se_parse_authorized env) (scan_lines contents) [])"

definition host_key_path :: "ssh_env \<Rightarrow> listener \<Rightarrow> go_error + string" where
  "host_key_path env cfg =
     (if l_HostKeyPath cfg \<noteq> '''' then Inr (l_HostKeyPath cfg)
      else map_sum id (\<lambda>d. join2 (join2 d ''gokr-rsyncd'') ''ssh_host_ed25519_key'') (se_config_dir env))"

definition listener_from_config :: "ssh_env \<Rightarrow> listener \<Rightarrow> go_error + ssh_listener" where
  "listener_from_config env cfg =
     (case host_key_path env cfg of
        Inl e \<Rightarrow> Inl e
      | Inr path \<Rightarrow> (case load_host_key env path of
          Inl e \<Rightarrow> Inl e
        | Inr key \<Rightarrow>
            if l_Address cfg = '''' then
              Inr \<lparr>hostKey = key, authorizedKeys = None, authorizedKeysPath = l_AuthorizedKeys cfg\<rparr>
            else if l_AuthorizedKeys cfg = '''' then Inl (Errorf ''authorized_keys not specified'' [])
            else case load_authorized_keys env (l_AuthorizedKeys cfg) of
              Inl e \<Rightarrow> Inl e
            | Inr keys \<Rightarrow>
                Inr \<lparr>hostKey = key, authorizedKeys = Some keys, authorizedKeysPath = l_AuthorizedKeys cfg\<rparr>))"

definition public_key_callback :: "ssh_listener \<Rightarrow> string \<Rightarrow> go_error + unit" where
  "public_key_callback ln key =
     (case authorizedKeys ln of
        None \<Rightarrow> Inr ()
      | Some keys \<Rightarrow>
          if key \<in> set keys then Inr ()
          else Inl (Errorf ''public key not found in %s'' [FStr (authorizedKeysPath ln)]))"

subsection \<open>Sessions\<close>

text \<open>What a request of a session leads to: nothing, or a command line for \<open>Main\<close>.\<close>

datatype ssh_action = Ignored | RunCommand "string list"

definition session_request :: "ssh_env \<Rightarrow> string \<Rightarrow> string \<Rightarrow> go_error + ssh_action" where
  "session_request env kind payload =
     (if kind = ''env'' then map_sum id (\<lambda>_. Ignored) (se_env_request env payload)
      else if kind = ''exec'' then
        (case se_exec_request env payload of
           Inl e \<Rightarrow> Inl e
         | Inr cmd \<Rightarrow> map_sum id RunCommand (se_shlex env cmd))
      else Inl (Errorf ''unknown request type: %q'' [FStr kind]))"

text \<open>What the client gets for an error of a request: the message, with a newline at the end.\<close>

definition request_error :: "string \<Rightarrow> go_error + string" where
  "request_error msg =
     (if msg = '''' then Inl (Panic ''index out of range'')
      else Inr (if last msg \<noteq> CHR 0x0A then msg @ newline else msg))"

text \<open>How \<open>exec\<close> ends: what goes to the standard error of the session, and the exit status.\<close>

definition exec_result :: "ssh_env \<Rightarrow> go_error + 'a \<Rightarrow> string \<times> byte list" where
  "exec_result env r =
     (case r of
        Inl e \<Rightarrow> (se_sprintf env (''%s'' @ newline) [FErr e], rev (le_bytes 4 1))
      | Inr _ \<Rightarrow> ('''', rev (le_bytes 4 0)))"

definition channel_accepted :: "string \<Rightarrow> bool" where
  "channel_accepted kind \<longleftrightarrow> kind = ''session''"

subsection \<open>Who is let in\<close>

lemma load_lines_keys:
  assumes "load_lines parse ls acc = Inr keys"
  shows "set keys = set acc \<union>
    {key. \<exists>l \<in> set ls. \<exists>ty. trim_space (drop_cr l) \<noteq> '''' \<and> \<not> has_prefix (trim_space (drop_cr l)) ''#'' \<and>
       parse (drop_cr l) = Inr (ty, key)}"
  using assms
proof (induction ls arbitrary: acc)
  case (Cons l ls)
  show ?case
  proof (cases "trim_space (drop_cr l) = '''' \<or> has_prefix (trim_space (drop_cr l)) ''#''")
    case True
    with Cons show ?thesis by (auto simp: Let_def split: if_splits)
  next
    case False
    with Cons.prems obtain ty key where p: "parse (drop_cr l) = Inr (ty, key)"
      and "load_lines parse ls (acc @ [key]) = Inr keys"
      by (auto simp: Let_def split: if_splits sum.splits)
    from Cons.IH [OF this(2)] p False show ?thesis by auto
  qed
qed simp

text \<open>
  The lines of the file that name a key: not empty, no comment.
\<close>

definition authorized :: "ssh_env \<Rightarrow> string \<Rightarrow> string \<Rightarrow> bool" where
  "authorized env path key \<longleftrightarrow>
     (\<exists>contents ty. se_read_file env (clean path) = Inr contents \<and>
        (\<exists>l \<in> set (scan_lines contents). trim_space (drop_cr l) \<noteq> '''' \<and> \<not> has_prefix (trim_space (drop_cr l)) ''#'' \<and>
           se_parse_authorized env (drop_cr l) = Inr (ty, key)))"

lemma load_authorized_keys_set:
  assumes "load_authorized_keys env path = Inr keys"
  shows "key \<in> set keys \<longleftrightarrow> authorized env path key"
proof -
  obtain contents where "se_read_file env (clean path) = Inr contents"
    "load_lines (se_parse_authorized env) (scan_lines contents) [] = Inr keys"
    using assms by (auto simp: load_authorized_keys_def split: sum.splits)
  with load_lines_keys [OF this(2)] show ?thesis by (auto simp: authorized_def)
qed

lemma listener_lets_in:
  assumes "listener_from_config env cfg = Inr ln" "l_Address cfg \<noteq> ''''"
  shows "public_key_callback ln key = Inr () \<longleftrightarrow> authorized env (l_AuthorizedKeys cfg) key"
proof -
  obtain keys where "load_authorized_keys env (l_AuthorizedKeys cfg) = Inr keys" "authorizedKeys ln = Some keys"
    using assms by (auto simp: listener_from_config_def split: sum.splits if_splits)
  with load_authorized_keys_set [OF this(1)] show ?thesis by (simp add: public_key_callback_def)
qed

text \<open>A line that is no key makes the start of the listener panic.\<close>

lemma malformed_key_panics:
  assumes "trim_space (drop_cr l) \<noteq> ''''" "\<not> has_prefix (trim_space (drop_cr l)) ''#''" "int (length l) < MaxScanTokenSize"
    and "parse (drop_cr l) = Inl e"
  shows "load_lines parse (l # ls) keys = Inl (Panic ''invalid memory address or nil pointer dereference'')"
  using assms by (simp add: Let_def)

end
