(* ===== verification/Main_Cmd.thy ===== *)
theory Main_Cmd
  imports Client_Run Hostspec Ssh
begin

text \<open>
  \<open>Main\<close> of \<open>internal/maincmd/maincmd.go\<close>: what a command line becomes, a client, a server on a pipe, a
  daemon on a pipe or a listening daemon, and how the daemon puts its configuration together.
\<close>

text \<open>\<open>Config\<close> of \<open>internal/rsyncdconfig/config.go\<close>; decoding TOML is third-party code.\<close>

record config =
  cf_Listeners :: "listener list"
  cf_Modules :: "rsync_module list"
  cf_DontNamespace :: bool
  cf_TLSCert :: string
  cf_TLSKey :: string
  cf_TLSAuth :: string
  cf_TLSClientCA :: string

text \<open>
  The environment of \<open>Main\<close>: the texts of errors, the configuration files as they are decoded, the files and
  directories, the restriction of the process, the namespaces (\<open>True\<close> in the parent that only waits),
  the certificates, the listeners.
\<close>

record main_env =
  me_text :: "go_error \<Rightarrow> string"
  me_config_dir :: "go_error + string"
  me_config_file :: "string \<Rightarrow> go_error + config"
  me_mkdir_all :: "string \<Rightarrow> go_error option"
  me_write_file :: "string \<Rightarrow> go_error option"
  me_dont_restrict :: bool
  me_restricted :: "string list \<Rightarrow> string list \<Rightarrow> go_error option"
  me_namespace :: "rsync_module list \<Rightarrow> string \<Rightarrow> go_error + bool"
  me_tls :: "(string \<times> string) option \<Rightarrow> (string \<times> bool) option \<Rightarrow> go_error option"
  me_listeners :: "go_error + nat"
  me_listen :: "string \<Rightarrow> go_error option"
  me_ssh :: ssh_env

subsection \<open>A server on a pipe\<close>

definition ExitCodeProtocol :: int where "ExitCodeProtocol = 2"

fun mkdir_paths :: "(string \<Rightarrow> go_error option) \<Rightarrow> string list \<Rightarrow> go_error option" where
  "mkdir_paths mkdir [] = None"
| "mkdir_paths mkdir (p # ps) = (case mkdir p of Some e \<Rightarrow> Some e | None \<Rightarrow> mkdir_paths mkdir ps)"

definition extract_server_paths :: "main_env \<Rightarrow> options \<Rightarrow> string list \<Rightarrow> go_error + string list" where
  "extract_server_paths env os remaining =
     (case remaining of
        dot # p # ps \<Rightarrow>
          if dot \<noteq> ''.'' then
            Inl (exit_error ExitCodeProtocol (Errorf ''protocol error: got %q, expected %q'' [FStr dot, FStr ''.'']))
          else
            let paths = p # ps in
            (case (if opt_Sender os then None else mkdir_paths (me_mkdir_all env) paths) of
               Some e \<Rightarrow> Inl (exit_error ExitCodeFileIO e)
             | None \<Rightarrow>
                 (case (if me_dont_restrict env then None
                        else me_restricted env (if opt_Sender os then paths else []) (if opt_Sender os then [] else paths)) of
                    Some e \<Rightarrow> Inl (exit_error ExitCodeFileIO e)
                  | None \<Rightarrow> Inr paths))
      | _ \<Rightarrow> Inl (exit_error ExitCodeSyntax (Errorf ''invalid args: at least one directory required'' [])))"

subsection \<open>The configuration of a daemon\<close>

text \<open>
  The options that start with \<open>--gokr.\<close>.  There are two sets of variables for them; the
  option table (\<open>custom_daemon_table\<close>) only writes to the first.
\<close>

record daemon_opts =
  do_Config :: string
  do_Listen :: string
  do_MonitoringListen :: string
  do_AnonSSHListen :: string
  do_ModuleMap :: string

definition daemon_opts_of :: "string \<Rightarrow> options \<Rightarrow> daemon_opts" where
  "daemon_opts_of name os =
     \<lparr>do_Config = o_str os (name @ ''.Config''), do_Listen = o_str os (name @ ''.Listen''),
      do_MonitoringListen = o_str os (name @ ''.MonitoringListen''),
      do_AnonSSHListen = o_str os (name @ ''.AnonSSHListen''), do_ModuleMap = o_str os (name @ ''.ModuleMap'')\<rparr>"

definition from_default_files :: "main_env \<Rightarrow> go_error + config \<times> string" where
  "from_default_files env =
     (case me_config_dir env of
        Inl e \<Rightarrow> Inl e
      | Inr dir \<Rightarrow> let fn = join2 dir ''gokr-rsyncd.toml'' in map_sum id (\<lambda>c. (c, fn)) (me_config_file env fn))"

definition flags_config :: "daemon_opts \<Rightarrow> config" where
  "flags_config d =
     \<lparr>cf_Listeners = [\<lparr>l_HostKeyPath = '''', l_Rsyncd = do_Listen d, l_AnonSSH = do_AnonSSHListen d, l_Address = '''',
        l_AuthorizedKeys = '''', l_TLSCert = '''', l_TLSKey = '''', l_TLSAuth = '''', l_TLSClientCA = ''''\<rparr>],
      cf_Modules = [], cf_DontNamespace = False, cf_TLSCert = '''', cf_TLSKey = '''', cf_TLSAuth = '''',
      cf_TLSClientCA = ''''\<rparr>"

text \<open>The configuration, the name of its file, and the error if the file was not found.\<close>

definition load_config :: "main_env \<Rightarrow> options \<Rightarrow> config option \<Rightarrow> go_error + config \<times> string \<times> go_error option" where
  "load_config env os cfg =
     (case cfg of
        Some c \<Rightarrow> Inr (c, '''', None)
      | None \<Rightarrow>
          let custom = daemon_opts_of ''CustomDaemon'' os;
              d = (if do_Config custom = '''' then daemon_opts_of ''GokrazyDaemon'' os else custom);
              fn = do_Config d
          in case (if fn \<noteq> '''' then map_sum id (\<lambda>c. (c, fn)) (me_config_file env fn) else from_default_files env) of
               Inr (c, fn) \<Rightarrow> Inr (c, fn, None)
             | Inl (NotExist n) \<Rightarrow> Inr (flags_config d, fn, Some (NotExist n))
             | Inl e \<Rightarrow> Inl e)"

definition daemon_flags :: "options \<Rightarrow> daemon_opts" where
  "daemon_flags os =
     (let d = daemon_opts_of ''CustomDaemon'' os in
      if do_Listen d = '''' \<and> do_AnonSSHListen d = '''' \<and> do_ModuleMap d = '''' \<and> do_MonitoringListen d = ''''
      then daemon_opts_of ''GokrazyDaemon'' os else d)"

definition no_address :: "listener \<Rightarrow> bool" where
  "no_address l \<longleftrightarrow> l_Rsyncd l = '''' \<and> l_AnonSSH l = '''' \<and> l_Address l = ''''"

text \<open>The module map to add, after the checks that there is something to listen on.\<close>

definition check_listeners :: "options \<Rightarrow> config \<Rightarrow> string \<Rightarrow> go_error option \<Rightarrow> go_error + string" where
  "check_listeners os cfg fn missing =
     (let d = daemon_flags os in
      case (case missing of
              Some e \<Rightarrow>
                if do_Listen d = '''' \<and> do_AnonSSHListen d = '''' then
                  Inl (Errorf ''neither -gokr.listen nor -gokr.anonssh_listen specified, and config file not found: %v'' [FErr e])
                else Inr (if do_ModuleMap d = '''' then ''nonex=/nonexistant/path'' else do_ModuleMap d)
            | None \<Rightarrow>
                if cf_Listeners cfg = [] \<or> no_address (hd (cf_Listeners cfg)) then
                  Inl (Errorf ''no rsyncd listeners configured, add a [[listener]] to %s'' [FStr fn])
                else Inr (do_ModuleMap d)) of
        Inl e \<Rightarrow> Inl e
      | Inr mapping \<Rightarrow>
          if length (cf_Listeners cfg) \<noteq> 1 \<or> no_address (hd (cf_Listeners cfg)) then
            Inl (Errorf ''not precisely 1 rsyncd listener specified'' [])
          else Inr mapping)"

text \<open>Where to listen, and the keys of an SSH listener.\<close>

definition listen_on :: "main_env \<Rightarrow> listener \<Rightarrow> go_error + string \<times> ssh_listener option" where
  "listen_on env l =
     (if l_Rsyncd l \<noteq> '''' then Inr (l_Rsyncd l, None)
      else map_sum id (\<lambda>s. (if l_AnonSSH l = '''' then l_Address l else l_AnonSSH l, Some s))
             (listener_from_config (me_ssh env) l))"

definition add_module_map :: "string \<Rightarrow> rsync_module list \<Rightarrow> go_error + rsync_module list" where
  "add_module_map mapping modules =
     (if mapping = '''' then Inr modules
      else case split_on (CHR ''='') mapping of
        [name, path] \<Rightarrow>
          Inr (modules @ [\<lparr>m_Name = name, m_Comment = '''', m_Path = path, m_FS = None, m_WritableFS = False, m_ACL = [],
            m_Writable = False, m_AuthUsers = [], m_SecretsFile = '''', m_TLSAllowedCNs = []\<rparr>])
      | _ \<Rightarrow> Inl (Errorf ''malformed -gokr.modulemap parameter %q, expected <modulename>=<path>'' [FStr mapping]))"

subsection \<open>Starting the daemon\<close>

definition can_unexpectedly_write_to :: "main_env \<Rightarrow> string \<Rightarrow> go_error option" where
  "can_unexpectedly_write_to env dir =
     (if me_write_file env (join2 dir ''gokr-rsyncd.unexpectedly_writable'') = None
      then Some (Errorf ''unexpectedly able to write file to %s, exiting'' [FStr dir]) else None)"

fun check_unwritable :: "main_env \<Rightarrow> bool \<Rightarrow> rsync_module list \<Rightarrow> go_error option" where
  "check_unwritable env dontNamespace [] = None"
| "check_unwritable env dontNamespace (m # ms) =
     (if \<not> dontNamespace \<and> \<not> m_Writable m then
        (case can_unexpectedly_write_to env (m_Path m) of
           Some e \<Rightarrow> Some e
         | None \<Rightarrow> check_unwritable env dontNamespace ms)
      else check_unwritable env dontNamespace ms)"

text \<open>The process is confined, or the configuration says not to; \<open>True\<close> in the waiting parent.\<close>

definition enter_namespace :: "main_env \<Rightarrow> config \<Rightarrow> rsync_module list \<Rightarrow> string \<Rightarrow> go_error + bool" where
  "enter_namespace env cfg modules addr =
     (if cf_DontNamespace cfg then
        (let l = hd (cf_Listeners cfg) in
         if l_Rsyncd l \<noteq> '''' \<or> l_AnonSSH l \<noteq> '''' then
           Inl (Errorf ''dont_namespace must be used with authorized_ssh listeners only'' [])
         else Inr False)
      else case me_namespace env modules addr of
        Inl e \<Rightarrow> Inl (Errorf ''namespace: %v'' [FErr e])
      | Inr parent \<Rightarrow> Inr parent)"

definition tls_settings :: "config \<Rightarrow> (string \<times> string) option \<times> (string \<times> bool) option" where
  "tls_settings cfg =
     (let fallback = (cf_TLSCert cfg = '''' \<and> cf_Listeners cfg \<noteq> []);
          l = hd (cf_Listeners cfg);
          cert = (if fallback then l_TLSCert l else cf_TLSCert cfg);
          key = (if fallback then l_TLSKey l else cf_TLSKey cfg);
          auth = (if fallback \<and> cf_TLSAuth cfg = '''' then l_TLSAuth l else cf_TLSAuth cfg);
          ca = (if fallback \<and> cf_TLSClientCA cfg = '''' then l_TLSClientCA l else cf_TLSClientCA cfg)
      in (if cert \<noteq> '''' \<and> key \<noteq> '''' then Some (cert, key) else None,
          if ca \<noteq> '''' \<or> auth \<noteq> '''' then Some (ca, auth = ''require'' \<or> auth = ''RequireAndVerifyClientCert'') else None))"

text \<open>What the daemon then serves.  \<open>Parent\<close> only waits for the process in the namespace.\<close>

datatype service =
    Parent
  | ServeRsync "rsync_module list" string
  | ServeSSH config string ssh_listener

definition serve_ssh :: "config \<Rightarrow> string \<Rightarrow> ssh_listener option \<Rightarrow> go_error + service" where
  "serve_ssh cfg addr ssh =
     (case ssh of
        None \<Rightarrow> Inl (Panic ''invalid memory address or nil pointer dereference'')
      | Some ln \<Rightarrow> Inr (ServeSSH cfg addr ln))"

definition open_listener :: "main_env \<Rightarrow> string \<Rightarrow> go_error option" where
  "open_listener env addr =
     (case me_listeners env of Inl e \<Rightarrow> Some e | Inr n \<Rightarrow> if n > 0 then None else me_listen env addr)"

definition serve_on :: "main_env \<Rightarrow> config \<Rightarrow> string \<Rightarrow> ssh_listener option \<Rightarrow> go_error + service" where
  "serve_on env cfg addr ssh =
     (case new_server (me_mkdir_all env) (me_restricted env) False (case_prod (me_tls env) (tls_settings cfg)) (cf_Modules cfg) of
        Inl e \<Rightarrow> Inl e
      | Inr modules \<Rightarrow> (case open_listener env addr of
          Some e \<Rightarrow> Inl e
        | None \<Rightarrow>
            let l = hd (cf_Listeners cfg) in
            if l_Address l \<noteq> '''' then
              (if l_AuthorizedKeys l = '''' then
                 Inl (Errorf ''misconfiguration: authorized_keys must not be empty when using an authorized_ssh listener'' [])
               else serve_ssh cfg addr ssh)
            else if l_AnonSSH l \<noteq> '''' then serve_ssh cfg addr ssh
            else Inr (ServeRsync modules addr)))"

definition daemon_main :: "main_env \<Rightarrow> options \<Rightarrow> config option \<Rightarrow> go_error + service" where
  "daemon_main env os given =
     (case load_config env os given of
        Inl e \<Rightarrow> Inl e
      | Inr (cfg, fn, missing) \<Rightarrow> (case check_listeners os cfg fn missing of
          Inl e \<Rightarrow> Inl e
        | Inr mapping \<Rightarrow> (case listen_on env (hd (cf_Listeners cfg)) of
            Inl e \<Rightarrow> Inl e
          | Inr (addr, ssh) \<Rightarrow> (case add_module_map mapping (cf_Modules cfg) of
              Inl e \<Rightarrow> Inl e
            | Inr modules \<Rightarrow> (case enter_namespace env cfg modules addr of
                Inl e \<Rightarrow> Inl e
              | Inr True \<Rightarrow> Inr Parent
              | Inr False \<Rightarrow> (case check_unwritable env (cf_DontNamespace cfg) modules of
                  Some e \<Rightarrow> Inl e
                | None \<Rightarrow> serve_on env (cfg\<lparr>cf_Modules := modules\<rparr>) addr ssh))))))"

subsection \<open>\<open>Main\<close>\<close>

text \<open>
  What a command line asks for: the end of the process, a daemon or a server on the standard
  streams, a client, or a listening daemon.
\<close>

datatype main_action =
    ExitProcess int
  | PipeDaemon "rsync_module list"
  | PipeServer options "string list"
  | RunClient options "string list" string
  | Listen service

definition not_a_daemon :: "main_env \<Rightarrow> opt_error \<Rightarrow> go_error" where
  "not_a_daemon env e =
     (case e of
        PoptError n err d \<Rightarrow>
          if n = POPT_ERROR_BADOPT \<and> has_prefix (me_text env (opt_go_error e)) ''--gokr.'' then
            Errorf ''%v (you need to specify --daemon before flags starting with --gokr are available)'' [FErr (opt_go_error e)]
          else opt_go_error e
      | _ \<Rightarrow> opt_go_error e)"

definition main_cmd :: "main_env \<Rightarrow> string list \<Rightarrow> config option \<Rightarrow> go_error + main_action" where
  "main_cmd env args cfg =
     (if args = [] then Inl (Panic ''slice bounds out of range'')
      else case parse_arguments (tl args) (new_popt_context new_options_with_defaults) of
        Inl (Exit n) \<Rightarrow> Inr (ExitProcess n)
      | Inl e \<Rightarrow> Inl (not_a_daemon env e)
      | Inr pc \<Rightarrow>
          let os = Opts pc; remaining = RemainingArgs pc in
          if opt_Daemon os \<and> opt_Server os then
            (case (case cfg of Some c \<Rightarrow> Inr c | None \<Rightarrow> map_sum id fst (from_default_files env)) of
               Inl e \<Rightarrow> Inl e
             | Inr c \<Rightarrow> map_sum id PipeDaemon
                 (new_server (me_mkdir_all env) (me_restricted env) (me_dont_restrict env) None (cf_Modules c)))
          else if opt_Server os then
            map_sum id (PipeServer os) (extract_server_paths env os remaining)
          else if \<not> opt_Daemon os then
            map_sum id (\<lambda>(os, sources, dest). RunClient os sources dest) (client_args os remaining)
          else map_sum id Listen (daemon_main env os cfg))"

end
