(* ===== verification/Main_Safety.thy ===== *)
theory Main_Safety
  imports Main_Cmd
begin

text \<open>
  What a started daemon has checked, who its SSH listener lets in and what they can do, and
  why the flags alone do not start a daemon.
\<close>

subsection \<open>The modules of a started daemon\<close>

lemma check_unwritable_None:
  "check_unwritable env dontNamespace ms = None \<Longrightarrow> \<not> dontNamespace \<Longrightarrow> m \<in> set ms \<Longrightarrow> \<not> m_Writable m \<Longrightarrow>
     can_unexpectedly_write_to env (m_Path m) = None"
  by (induction env dontNamespace ms rule: check_unwritable.induct) (auto split: if_splits option.splits)

lemma daemon_main_Inr:
  assumes "daemon_main env os given = Inr s" "s \<noteq> Parent"
  obtains cfg fn missing mapping addr ssh modules where
    "load_config env os given = Inr (cfg, fn, missing)" "check_listeners os cfg fn missing = Inr mapping"
    "listen_on env (hd (cf_Listeners cfg)) = Inr (addr, ssh)" "add_module_map mapping (cf_Modules cfg) = Inr modules"
    "enter_namespace env cfg modules addr = Inr False" "check_unwritable env (cf_DontNamespace cfg) modules = None"
    "serve_on env (cfg\<lparr>cf_Modules := modules\<rparr>) addr ssh = Inr s"
  using assms by (auto simp: daemon_main_def split: sum.splits bool.splits option.splits)

definition served_modules :: "service \<Rightarrow> rsync_module list" where
  "served_modules s =
     (case s of Parent \<Rightarrow> [] | ServeRsync modules addr \<Rightarrow> modules | ServeSSH cfg addr ln \<Rightarrow> cf_Modules cfg)"

lemma new_server_Inr: "new_server mkdir restr dont tls ms = Inr ms' \<Longrightarrow> ms' = ms \<and> validate_modules ms = Inr ()"
  by (auto simp: new_server_def split: sum.splits option.splits if_splits)

lemma serve_on_modules:
  assumes "serve_on env cfg addr ssh = Inr s"
  shows "served_modules s = cf_Modules cfg \<and> validate_modules (cf_Modules cfg) = Inr ()"
proof -
  obtain ms where "new_server (me_mkdir_all env) (me_restricted env) False (case_prod (me_tls env) (tls_settings cfg)) (cf_Modules cfg) = Inr ms"
    using assms by (auto simp: serve_on_def split: sum.splits)
  with new_server_Inr [OF this] assms show ?thesis
    by (auto simp: serve_on_def served_modules_def serve_ssh_def Let_def split: option.splits if_splits)
qed

text \<open>
  C12: every module that a started daemon serves is valid, and unless the configuration says that the
  process is not to be confined, the attempt to write a file to the directory of a module
  that is not writable has failed.
\<close>

theorem daemon_modules_checked:
  assumes "daemon_main env os given = Inr s" "load_config env os given = Inr (cfg, fn, missing)" "m \<in> set (served_modules s)"
  shows "validate_module m = Inr () \<and>
    (\<not> m_Writable m \<and> \<not> cf_DontNamespace cfg \<longrightarrow>
     me_write_file env (join2 (m_Path m) ''gokr-rsyncd.unexpectedly_writable'') \<noteq> None)"
proof -
  have "s \<noteq> Parent" using assms(3) by (auto simp: served_modules_def)
  with assms(1) obtain cfg' fn' missing' addr ssh modules where "load_config env os given = Inr (cfg', fn', missing')"
    and unwr: "check_unwritable env (cf_DontNamespace cfg') modules = None"
    and serve: "serve_on env (cfg'\<lparr>cf_Modules := modules\<rparr>) addr ssh = Inr s"
    by (rule daemon_main_Inr)
  with assms(2) have cfg: "cfg' = cfg" by simp
  from serve_on_modules [OF serve] assms(3) have m: "m \<in> set modules" "validate_modules modules = Inr ()" by simp_all
  then have "validate_module m = Inr ()"
    by (induction modules) (auto split: sum.splits)
  with check_unwritable_None [OF unwr _ m(1)] cfg show ?thesis
    by (auto simp: can_unexpectedly_write_to_def split: if_splits)
qed

subsection \<open>Who an SSH listener lets in\<close>

text \<open>
  C11: when a daemon serves SSH for a listener that names an address for authorized keys, a client is let in
  exactly if its key stands on a line of the file of authorized keys; for an anonymous
  listener everyone is.
\<close>

theorem authorized_keys_enforced:
  assumes "daemon_main env os given = Inr (ServeSSH cfg addr ln)"
  shows "public_key_callback ln key = Inr () \<longleftrightarrow>
    l_Address (hd (cf_Listeners cfg)) = '''' \<or> authorized (me_ssh env) (l_AuthorizedKeys (hd (cf_Listeners cfg))) key"
proof -
  obtain cfg' ssh modules where on: "listen_on env (hd (cf_Listeners cfg')) = Inr (addr, ssh)"
    and serve: "serve_on env (cfg'\<lparr>cf_Modules := modules\<rparr>) addr ssh = Inr (ServeSSH cfg addr ln)"
  proof -
    from assms obtain cfg' fn missing mapping addr' ssh modules where
      "listen_on env (hd (cf_Listeners cfg')) = Inr (addr', ssh)"
      "serve_on env (cfg'\<lparr>cf_Modules := modules\<rparr>) addr' ssh = Inr (ServeSSH cfg addr ln)"
      by (elim daemon_main_Inr) simp_all
    moreover from this(2) have "addr' = addr"
      by (auto simp: serve_on_def serve_ssh_def Let_def split: sum.splits option.splits if_splits)
    ultimately show ?thesis using that by blast
  qed
  from serve have l: "cf_Listeners cfg = cf_Listeners cfg'" "ssh = Some ln"
    by (auto simp: serve_on_def serve_ssh_def Let_def split: sum.splits option.splits if_splits)
  with on have from_config: "listener_from_config (me_ssh env) (hd (cf_Listeners cfg)) = Inr ln"
    by (auto simp: listen_on_def map_sum_def split: if_splits sum.splits)
  show ?thesis
  proof (cases "l_Address (hd (cf_Listeners cfg)) = ''''")
    case True
    then have "authorizedKeys ln = None"
      using from_config by (auto simp: listener_from_config_def split: sum.splits)
    with True show ?thesis by (simp add: public_key_callback_def)
  next
    case False
    with listener_lets_in [OF from_config False] show ?thesis by simp
  qed
qed

subsection \<open>What the clients of an SSH listener can do\<close>

text \<open>
  C27: the command line that a session of the SSH listener asks for is dispatched by \<open>Main\<close> like the
  one of a process, not only as that of a server: \<open>rsync -e prog h1:x /tmp\<close> makes it a client, the same for
  every configuration of the daemon, and the words with which \<open>doCmd\<close> would start its remote shell
  begin with those of \<open>prog\<close>, the choice of the peer.  The statement ends at these words: whether
  the program can be started is up to the mount namespace and the landlock rules of the
  process, which are not modelled.
\<close>

theorem ssh_session_client:
  assumes "se_exec_request senv payload = Inr cmd" "se_shlex senv cmd = Inr [''rsync'', ''-e'', prog, ''h1:x'', ''/tmp'']"
    and "prog \<noteq> ''''" "shlex prog = Inr ws" "mkdir ''/tmp'' = None"
  shows "session_request senv ''exec'' payload = Inr (RunCommand [''rsync'', ''-e'', prog, ''h1:x'', ''/tmp'']) \<and>
    (\<exists>os p rest. main_cmd env [''rsync'', ''-e'', prog, ''h1:x'', ''/tmp''] (Some cfg) = Inr (RunClient os [''h1:x''] ''/tmp'') \<and>
      client_plan parse_url mkdir os [''h1:x''] ''/tmp'' = Inr p \<and> pl_daemon p = 0 \<and>
      do_cmd_args shlex getenv arg0 (pl_opts p) (pl_host p) '''' (pl_path p) 0 = Inr (ws @ rest))"
proof -
  have "case parse_arguments [''-e'', prog, ''h1:x'', ''/tmp''] (new_popt_context new_options_with_defaults) of
     Inl e \<Rightarrow> False
   | Inr pc \<Rightarrow> o_str (Opts pc) ''shell_cmd'' = prog \<and> o_int (Opts pc) ''am_daemon'' = 0 \<and> o_int (Opts pc) ''am_server'' = 0 \<and>
       o_int (Opts pc) ''local_server'' = 0 \<and> o_int (Opts pc) ''am_sender'' = 0 \<and> RemainingArgs pc = [''h1:x'', ''/tmp'']"
    by code_simp
  then obtain pc where pc: "parse_arguments [''-e'', prog, ''h1:x'', ''/tmp''] (new_popt_context new_options_with_defaults) = Inr pc"
    and os: "opt_ShellCommand (Opts pc) = prog" "\<not> opt_Daemon (Opts pc)" "\<not> opt_Server (Opts pc)" "\<not> opt_LocalServer (Opts pc)"
    "\<not> opt_Sender (Opts pc)" and rem: "RemainingArgs pc = [''h1:x'', ''/tmp'']"
    by (auto simp: accessors split: sum.splits)
  have main: "main_cmd env [''rsync'', ''-e'', prog, ''h1:x'', ''/tmp''] (Some cfg) = Inr (RunClient (Opts pc) [''h1:x''] ''/tmp'')"
    using os(2,3) rem by (simp add: main_cmd_def pc Let_def client_args_def)
  have "check_for_hostspec parse_url ''h1:x'' = Inr (''h1'', ''x'', 0)"
    using hostspec_plain [of "''h1''" None "''x''" parse_url]
    by (simp add: plain_name_def user_part_def is_rsync_url_def has_prefix_def trim_prefix_def)
  then obtain p where "client_plan parse_url mkdir (Opts pc) [''h1:x''] ''/tmp'' = Inr p" "pl_daemon p = 0" "pl_opts p = Opts pc"
    using os assms(5) by (simp add: client_plan_def remote_side_def daemon_connection_def Let_def has_prefix_def)
  moreover from this(3) os(1,4) assms(3,4) have "\<exists>rest. do_cmd_args shlex getenv arg0 (pl_opts p) (pl_host p) '''' (pl_path p) 0 = Inr (ws @ rest)"
    by (simp add: do_cmd_args_def shell_words_def)
  ultimately show ?thesis
    using main assms(1,2) by (auto simp: session_request_def)
qed

subsection \<open>Flags without a configuration file\<close>

text \<open>
  C28: the documented way to start a daemon without a configuration file, with the address and
  the module map as flags, does not work: the flags are stored in one set of variables, the address
  for the listener is taken from the other.
\<close>

theorem listen_flag_refused:
  assumes "me_config_dir env = Inr dir" "me_config_file env (join2 dir ''gokr-rsyncd.toml'') = Inl (NotExist n)" "addr \<noteq> ''''"
  shows "main_cmd env [arg0, ''--daemon'', ''--gokr.listen'', addr, ''--gokr.modulemap'', mapping] None =
    Inl (Errorf ''not precisely 1 rsyncd listener specified'' [])"
proof -
  have "case parse_arguments [''--daemon'', ''--gokr.listen'', addr, ''--gokr.modulemap'', mapping] (new_popt_context new_options_with_defaults) of
     Inl e \<Rightarrow> False
   | Inr pc \<Rightarrow> o_str (Opts pc) ''CustomDaemon.Listen'' = addr \<and> o_str (Opts pc) ''CustomDaemon.Config'' = '''' \<and>
       o_str (Opts pc) ''GokrazyDaemon.Listen'' = '''' \<and> o_str (Opts pc) ''GokrazyDaemon.Config'' = '''' \<and>
       o_str (Opts pc) ''GokrazyDaemon.AnonSSHListen'' = '''' \<and> o_int (Opts pc) ''am_daemon'' \<noteq> 0 \<and> o_int (Opts pc) ''am_server'' = 0"
    by code_simp
  then obtain pc where pc: "parse_arguments [''--daemon'', ''--gokr.listen'', addr, ''--gokr.modulemap'', mapping]
      (new_popt_context new_options_with_defaults) = Inr pc"
    and os: "o_str (Opts pc) ''CustomDaemon.Listen'' = addr" "o_str (Opts pc) ''CustomDaemon.Config'' = ''''"
    "o_str (Opts pc) ''GokrazyDaemon.Listen'' = ''''" "o_str (Opts pc) ''GokrazyDaemon.Config'' = ''''"
    "o_str (Opts pc) ''GokrazyDaemon.AnonSSHListen'' = ''''" "opt_Daemon (Opts pc)" "\<not> opt_Server (Opts pc)"
    by (auto simp: accessors split: sum.splits)
  let ?cfg = "flags_config (daemon_opts_of ''GokrazyDaemon'' (Opts pc))"
  have "load_config env (Opts pc) None = Inr (?cfg, '''', Some (NotExist n))"
    using os assms(1,2) by (simp add: load_config_def daemon_opts_of_def from_default_files_def)
  moreover have "no_address (hd (cf_Listeners ?cfg))"
    using os by (simp add: no_address_def flags_config_def daemon_opts_of_def)
  ultimately have "daemon_main env (Opts pc) None = Inl (Errorf ''not precisely 1 rsyncd listener specified'' [])"
    using os(1) assms(3) by (simp add: daemon_main_def check_listeners_def daemon_flags_def daemon_opts_of_def)
  then show ?thesis
    using os(6,7) by (simp add: main_cmd_def pc Let_def)
qed

subsection \<open>Samples\<close>

definition sample_ssh :: ssh_env where
  "sample_ssh = \<lparr>se_sprintf = \<lambda>fmt _. fmt, se_config_dir = Inr ''/cfg'', se_read_file = \<lambda>p. Inr (if p = ''/keys'' then ''# me'' @ newline @ ''k1'' @ newline else ''host''),
     se_mkdir_all = \<lambda>_. None, se_gen_key = \<lambda>_. Inr ''host'', se_parse_private = Inr, se_parse_authorized = \<lambda>l. Inr (''ssh-ed25519'', l),
     se_env_request = \<lambda>p. Inr (p, ''''), se_exec_request = Inr,
     se_shlex = \<lambda>_. Inr [''rsync'', ''-e'', ''id'', ''h1:x'', ''/tmp'']\<rparr>"

definition sample_main :: main_env where
  "sample_main = \<lparr>me_text = \<lambda>_. '''', me_config_dir = Inr ''/cfg'', me_config_file = \<lambda>fn. Inl (NotExist fn), me_mkdir_all = \<lambda>_. None,
     me_write_file = \<lambda>p. Some (PathError p), me_dont_restrict = False, me_restricted = \<lambda>_ _. None, me_namespace = \<lambda>_ _. Inr False,
     me_tls = \<lambda>_ _. None, me_listeners = Inr 0, me_listen = \<lambda>_. None, me_ssh = sample_ssh\<rparr>"

definition sample_config :: config where
  "sample_config = \<lparr>cf_Listeners = [\<lparr>l_HostKeyPath = ''/host'', l_Rsyncd = '''', l_AnonSSH = '''', l_Address = '':22'',
       l_AuthorizedKeys = ''/keys'', l_TLSCert = '''', l_TLSKey = '''', l_TLSAuth = '''', l_TLSClientCA = ''''\<rparr>],
     cf_Modules = [\<lparr>m_Name = ''m'', m_Comment = '''', m_Path = ''/srv'', m_FS = None, m_WritableFS = False, m_ACL = [],
       m_Writable = False, m_AuthUsers = [], m_SecretsFile = '''', m_TLSAllowedCNs = []\<rparr>],
     cf_DontNamespace = False, cf_TLSCert = '''', cf_TLSKey = '''', cf_TLSAuth = '''', cf_TLSClientCA = ''''\<rparr>"

lemma sample_daemon_main:
  "daemon_main sample_main new_options_with_defaults (Some sample_config) =
     Inr (ServeSSH sample_config '':22'' \<lparr>hostKey = ''host'', authorizedKeys = Some [''k1''], authorizedKeysPath = ''/keys''\<rparr>)"
proof -
  let ?l = "hd (cf_Listeners sample_config)"
  have ssh: "listen_on sample_main ?l =
      Inr ('':22'', Some \<lparr>hostKey = ''host'', authorizedKeys = Some [''k1''], authorizedKeysPath = ''/keys''\<rparr>)"
    by code_simp
  have check: "check_listeners new_options_with_defaults sample_config '''' None = Inr ''''" by code_simp
  show ?thesis
    by (simp add: daemon_main_def load_config_def check ssh add_module_map_def)
      (simp add: sample_config_def sample_main_def enter_namespace_def can_unexpectedly_write_to_def serve_on_def
        new_server_def validate_module_def restrict_to_modules.simps open_listener_def serve_ssh_def tls_settings_def Let_def)
qed

theorem daemon_modules_checked_witness:
  "\<exists>m \<in> set (cf_Modules sample_config). validate_module m = Inr () \<and> \<not> m_Writable m \<and>
     me_write_file sample_main (join2 (m_Path m) ''gokr-rsyncd.unexpectedly_writable'') \<noteq> None"
proof -
  let ?m = "hd (cf_Modules sample_config)"
  have load: "load_config sample_main new_options_with_defaults (Some sample_config) = Inr (sample_config, '''', None)"
    by (simp add: load_config_def)
  have m: "?m \<in> set (cf_Modules sample_config)" "\<not> m_Writable ?m" "\<not> cf_DontNamespace sample_config"
    by (simp_all add: sample_config_def)
  have "?m \<in> set (served_modules (ServeSSH sample_config '':22''
      \<lparr>hostKey = ''host'', authorizedKeys = Some [''k1''], authorizedKeysPath = ''/keys''\<rparr>))"
    using m(1) by (simp add: served_modules_def)
  from daemon_modules_checked [OF sample_daemon_main load this] m show ?thesis by blast
qed

theorem authorized_keys_enforced_witness:
  "authorized sample_ssh ''/keys'' ''k1'' \<and> \<not> authorized sample_ssh ''/keys'' ''# me''"
proof -
  have "l_Address (hd (cf_Listeners sample_config)) = '':22''" "l_AuthorizedKeys (hd (cf_Listeners sample_config)) = ''/keys''"
    "me_ssh sample_main = sample_ssh"
    by (simp_all add: sample_config_def sample_main_def)
  with authorized_keys_enforced [OF sample_daemon_main, of "''k1''"] authorized_keys_enforced [OF sample_daemon_main, of "''# me''"]
  show ?thesis by (simp add: public_key_callback_def)
qed

theorem ssh_session_client_witness:
  "session_request sample_ssh ''exec'' '''' = Inr (RunCommand [''rsync'', ''-e'', ''id'', ''h1:x'', ''/tmp'']) \<and>
   (\<exists>os p rest. main_cmd sample_main [''rsync'', ''-e'', ''id'', ''h1:x'', ''/tmp''] (Some sample_config) =
        Inr (RunClient os [''h1:x''] ''/tmp'') \<and>
      client_plan (\<lambda>_. None) (\<lambda>_. None) os [''h1:x''] ''/tmp'' = Inr p \<and> pl_daemon p = 0 \<and>
      do_cmd_args (\<lambda>w. Inr [w]) (\<lambda>_. '''') ''gokr'' (pl_opts p) (pl_host p) '''' (pl_path p) 0 = Inr ([''id''] @ rest))"
  by (rule ssh_session_client) (simp_all add: sample_ssh_def)

theorem listen_flag_refused_witness:
  "main_cmd sample_main [''gokr-rsync'', ''--daemon'', ''--gokr.listen'', ''localhost:8730'', ''--gokr.modulemap'', ''man=/usr/share/man''] None =
     Inl (Errorf ''not precisely 1 rsyncd listener specified'' [])"
  by (rule listen_flag_refused) (simp_all add: sample_main_def)

end
