(* ===== verification/Rsync_Client.thy ===== *)
theory Rsync_Client
  imports Client_Run
begin

text \<open>
  \<open>rsyncclient/rsyncclient.go\<close>, the client as a library: \<open>New\<close>, \<open>ServerCommandOptions\<close> and
  \<open>ListFiles\<close>.  \<open>Run\<close> is \<open>ClientRun\<close> (\<open>client_send\<close>, \<open>client_receive\<close>), \<open>RunDaemon\<close> the handshake
  (\<open>start_inband_exchange\<close>) and then \<open>Run\<close> without negotiation.
\<close>

definition new_client :: "bool \<Rightarrow> string list \<Rightarrow> opt_error + options" where
  "new_client sender args =
     (case parse_arguments args (new_popt_context new_options_with_defaults) of
        Inl e \<Rightarrow> Inl e
      | Inr pc \<Rightarrow>
          if RemainingArgs pc \<noteq> [] then
            Inl (OtherError (Errorf ''remaining args %q not permitted; specify them in Client.Run()'' (map FStr (RemainingArgs pc))))
          else Inr (if sender then set_sender (Opts pc) else Opts pc))"

record client_file =
  cf_Name :: string
  cf_Length :: int
  cf_ModTime :: time
  cf_Mode :: int
  cf_Uid :: int
  cf_Gid :: int
  cf_LinkTarget :: string

definition client_file_of :: "rfile \<Rightarrow> client_file" where
  "client_file_of f =
     \<lparr>cf_Name = Name f, cf_Length = Length f, cf_ModTime = ModTime f, cf_Mode = file_mode f, cf_Uid = Uid f,
      cf_Gid = Gid f, cf_LinkTarget = LinkTarget f\<rparr>"

text \<open>The options of the transfer that \<open>ListFiles\<close> starts: only the levels are set, which only concern the log.\<close>

definition list_opts :: recv_opts where
  "list_opts =
     \<lparr>DryRun = False, Server = False, Progress = False, DeleteMode = False, PreserveGid = False, PreserveUid = False,
      PreserveLinks = False, PreservePerms = False, PreserveDevices = False, PreserveTimes = False, IgnoreTimes = False,
      SizeOnly = False, AlwaysChecksum = False, WholeFile = False, WritableFS = False, SysStat = False, HasRoot = False,
      HasStdout = True, DestName = '''', amRoot = False, inGroup = \<lambda>_. False\<rparr>"

text \<open>\<open>ListFiles\<close> after the handshake.  The stream is read as it is, without demultiplexing.\<close>

definition list_files :: "(client_file list, recv) act" where
  "list_files =
     bnd read_int32 (\<lambda>seed.
     bnd (receive_file_list list_opts) (\<lambda>rawList.
     ret (map client_file_of rawList)))"

subsection \<open>\<open>ListFiles\<close> and a server wait for each other\<close>

definition same_out :: "recv \<Rightarrow> recv \<Rightarrow> bool" where "same_out s t \<longleftrightarrow> c_out t = c_out s"

interpretation same_out: frame same_out
  by unfold_locales (simp_all add: same_out_def)

lemma same_out_reads: "reads m \<Longrightarrow> keeps same_out m"
proof (rule keepsI)
  fix s assume "reads m"
  obtain r t where m: "m s = (r, t)" by (cases "m s")
  have "c_out t = c_out s" by (subst reads_frame [OF \<open>reads m\<close> m]) simp
  with m show "same_out s (snd (m s))" by (simp add: same_out_def)
qed

lemma same_out_list_loop: "same_out s (snd (receive_list_loop list_opts prev acc s))"
proof (induction list_opts prev acc s rule: receive_list_loop.induct)
  case (1 prev acc s)
  have "keeps same_out (when_do (Progress list_opts \<and> b) m)" for b m
    by (simp add: list_opts_def same_out.keep_ret when_do_def)
  then have "keeps same_out (receive_entry_step list_opts prev acc)"
    unfolding receive_entry_step_def
    by (intro same_out.keep_ret same_out.keep_bnd same_out.keep_if same_out_reads [OF reads_read_byte]
        same_out_reads [OF reads_receive_file_entry])
  moreover obtain r t where r: "receive_entry_step list_opts prev acc s = (r, t)"
    by (cases "receive_entry_step list_opts prev acc s")
  ultimately have "same_out s t" by (metis keepsD)
  with 1 r same_out.frame_trans show ?case
    by (subst receive_list_loop.simps) (auto split: sum.split option.split)
qed

lemma list_files_writes_nothing: "keeps same_out list_files"
proof -
  have "keeps same_out (receive_list_loop list_opts prev acc)" for prev acc
    by (rule keepsI) (rule same_out_list_loop)
  moreover have "keeps same_out (modify (\<lambda>s. s\<lparr>IOErrors := i\<rparr>))" for i
    by (rule keepsI) (simp add: modify_def same_out_def)
  moreover have "receive_file_list list_opts = bnd (receive_list_loop list_opts zero_file []) (\<lambda>fl.
      bnd read_int32 (\<lambda>e. bnd (modify (\<lambda>s. s\<lparr>IOErrors := e\<rparr>)) (\<lambda>_. ret (sort_file_list fl))))"
  proof -
    have "\<not> Progress list_opts" "\<not> PreserveUid list_opts" "\<not> PreserveGid list_opts" by (simp_all add: list_opts_def)
    moreover have "bnd (ret a) f = f a" for a :: unit and f :: "unit \<Rightarrow> (rfile list, recv) act"
      by (rule ext) (simp add: bnd_def ret_def)
    ultimately show ?thesis by (simp add: receive_file_list_def when_do_def)
  qed
  ultimately show ?thesis
    unfolding list_files_def
    by (auto intro!: same_out.keep_bnd same_out.keep_ret same_out_reads [OF reads_read_int32])
qed

text \<open>
  C29: \<open>ListFiles\<close> never works with a server of this repository.  After the handshake it writes nothing, whatever it
  reads, but a sending server sends no list before it has the filter rules: with nothing more
  from the client, the server gets no further than the seed.
\<close>

theorem list_files_starves:
  assumes "list_files r = (res, r')" "remaining \<noteq> []" "c_in s = []" "c_budget s = None"
  shows "c_out r' = c_out r \<and>
    (\<exists>s'. serve_sender env False m os remaining s = (Inl EOF, s') \<and>
       out_bytes s' = out_bytes s @ le_bytes 4 (session_seed env) @
         concat (map (mux_frame MsgErrorXfer) (error_lines env ''sender'' (Inl EOF :: go_error + unit))))"
proof -
  have "c_out r' = c_out r"
    using keepsD [OF list_files_writes_nothing assms(1)] by (simp add: same_out_def)
  moreover obtain s1 where s1: "start_session env False s = (Inr (), s1)" "s1 = s\<lparr>c_in := [], c_out := c_out s1\<rparr>"
    "out_bytes s1 = out_bytes s @ session_head False (session_seed env)"
    using start_session_ok [OF assms(4), of False "[]" env] assms(3) by (auto simp: client_head_def)
  define s2 where "s2 = s1\<lparr>c_out := []\<rparr>"
  have "c_in s1 = []" by (subst s1(2)) simp
  then have c: "c_in s2 = []" by (simp add: s2_def)
  have "c_budget s1 = None" using assms(4) by (subst s1(2)) simp
  then have b: "c_budget s2 = None" by (simp add: s2_def)
  have "s2\<lparr>c_in := []\<rparr> = s2" using c by (metis conn_unchanged)
  then have "recv_filter_list s2 = (Inl EOF, s2)"
    using read_int32_short [of s2] c by (simp add: recv_filter_list_def recv_filter_loop.simps)
  then have inner: "multiplexed (handle_conn_sender env m os (tl remaining)) s1 = (Inl EOF, in_frames s1 s2)"
    by (simp add: multiplexed_def handle_conn_sender_def bnd_def s2_def split: option.split)
  obtain s' where s': "error_message env ''sender'' (Inl EOF :: go_error + unit) (in_frames s1 s2) = (Inr (), s')"
    "out_bytes s' = out_bytes (in_frames s1 s2) @
       concat (map (mux_frame MsgErrorXfer) (error_lines env ''sender'' (Inl EOF :: go_error + unit)))"
    using error_message_out [of "in_frames s1 s2" env "''sender''" "Inl EOF :: go_error + unit"] b by (auto simp: in_frames_def)
  have "serve_sender env False m os remaining s = (Inl EOF, s')"
    using assms(2) s1(1) inner s'(1) by (simp add: serve_sender_def bnd_def)
  moreover have "out_bytes s' = out_bytes s @ le_bytes 4 (session_seed env) @
      concat (map (mux_frame MsgErrorXfer) (error_lines env ''sender'' (Inl EOF :: go_error + unit)))"
    by (simp add: s'(2) in_frames_out s1(3) session_head_def s2_def frames_of_def)
  ultimately show ?thesis by blast
qed

theorem list_files_starves_witness:
  "c_out (snd (list_files sample_recv)) = c_out sample_recv \<and>
   (\<exists>s'. serve_sender sample_serve False (Some open_module) sample_defaults [''.''] (sample_session []) = (Inl EOF, s') \<and>
      out_bytes s' = le_bytes 4 69 @ mux_frame MsgErrorXfer (bytes_of_string (''gorsync [sender]: %v'' @ newline)))"
proof -
  have seed: "session_seed sample_serve = 69" by code_simp
  have err: "error_lines sample_serve ''sender'' (Inl EOF :: go_error + unit) = [bytes_of_string (''gorsync [sender]: %v'' @ newline)]"
    by (simp add: error_lines_def sample_serve_def)
  have out: "out_bytes (sample_session []) = []" by (simp add: sample_session_def out_bytes_def)
  have "list_files sample_recv = (fst (list_files sample_recv), snd (list_files sample_recv))" by simp
  from list_files_starves [OF this, of "[''.'']" "sample_session []" sample_serve "Some open_module" sample_defaults]
  show ?thesis unfolding seed err out append_Nil by (simp add: sample_session_def del: append.simps append_Cons)
qed

end
