(* ===== verification/Spec2Isabelle.thy ===== *)
theory Spec2Isabelle
  imports Recv_Delete Sync_Errors Flist_Errors Option_Safety Serve_Safety Main_Safety Rsync_Client
begin

text \<open>
  A model of gorsync, an implementation of rsync in Go: protocol 27 with its daemon, as client and as server,
  sending and receiving.

  \<^bold>\<open>The program.\<close>  A transfer has a sending and a receiving side.  The sender walks the requested paths and writes
  a list of files (\<open>internal/sender/flist.go\<close>); the receiver reads it (\<open>internal/receiver/flist.go\<close>), and
  both sort it, since from then on files are named by their position.  The receiver runs two goroutines: the
  generator (\<open>generator.go\<close>) creates directories, links and devices and requests
  regular files with the checksums of the blocks it has; the sender answers with the blocks that did not change
  and the bytes in between (\<open>sender.go\<close>, \<open>match.go\<close>, through the window of \<open>fileio.go\<close>); the
  other goroutine (\<open>receiver.go\<close>) rebuilds each file in a temporary one and renames it when its MD4 is the
  one the sender computed.  Before that, client and server agree on a version, a seed and the filter rules
  (\<open>ClientRun\<close>, \<open>handleConn\<close>), and with a daemon on a module, a password and the options
  (\<open>StartInbandExchange\<close>, \<open>HandleDaemonConn\<close>).  From the seed on the server writes in frames, which the client
  takes apart (\<open>internal/rsyncwire/wire.go\<close>).  \<open>Main\<close> decides from the command line which of all this a
  process is.

  \<^bold>\<open>How it is modelled.\<close>  Go's errors are values of \<open>go_error\<close>; panics are the ones for which \<open>fatal\<close> holds.  An
  operation is an action \<open>('a, 's) act\<close>, a function from a state to an error or value and the state after it,
  composed by \<open>bnd\<close>.  The state of a connection (\<open>conn\<close>) is what remains to be read, the pieces that were
  written, and optionally a number of writes after which writing fails; components extend this record: \<open>mux_conn\<close>
  with the log, \<open>search\<close> with the variables of the delta search, \<open>walker\<close> with the list under construction, \<open>recv\<close> with
  the destination tree, \<open>talk\<close> with what is shown to the user.  Signed Go integers are \<open>int\<close> with each
  conversion written out (\<open>i32\<close>, \<open>i64\<close>); bytes and checksums are words.  The destination is a tree of names
  (\<open>Dest\<close>), the source a \<open>file_source\<close>.

  \<^bold>\<open>Theories and code.\<close>
  \<^item> \<open>Prelude\<close>, \<open>First_Match\<close>: actions, the locale \<open>frame\<close> for what a composed action keeps, the locale of rule
    lists that are decided by their first match.  \<open>File_Modes\<close>: \<open>consts.go\<close>.
  \<^item> \<open>Go_Strings\<close>, \<open>Go_Path\<close>, \<open>Go_Walk\<close>, \<open>Go_Net\<close>: what is used of Go's library.
  \<^item> \<open>Wire\<close>, \<open>Varint\<close>, \<open>Checksum\<close>, \<open>Blocks\<close>, \<open>Tokens\<close>: \<open>rsyncwire\<close>, \<open>rsyncchecksum\<close>, \<open>rsynccommon\<close>, the sums of blocks and the
    tokens, with the locale \<open>wire_codec\<close> of encoders and the decoders that read them back.
  \<^item> \<open>File_Map\<close>, \<open>Match\<close>, \<open>Sender\<close>, \<open>Exclude\<close>, \<open>Send_Flist\<close>: \<open>internal/sender\<close>.  The locale \<open>sending\<close> collects what
    every step of answering requests keeps.
  \<^item> \<open>Dest\<close>, \<open>Receiver\<close>, \<open>Generator\<close>, \<open>Recv_Do\<close>, \<open>Recv_Flist\<close>: \<open>internal/receiver\<close>.  \<open>Os_Root\<close>: how \<open>os.Root\<close> looks up a
    name.  The goroutines are the
    inductive relations \<open>do_step\<close> and \<open>do_recv\<close>: a step is one turn of the generator's or of the receiver's
    loop, in any order.
  \<^item> \<open>Popt\<close>, \<open>Opt_Tables\<close>, \<open>Options\<close>, \<open>Server_Options\<close>: \<open>internal/rsyncopts\<close>.
  \<^item> \<open>Daemon\<close>, \<open>Serve\<close>: \<open>rsyncd/rsyncd.go\<close>, \<open>restrictmodules.go\<close>, \<open>rsyncsec\<close>.  \<open>Client\<close>, \<open>Hostspec\<close>, \<open>Client_Run\<close>, \<open>Main_Cmd\<close>:
    \<open>internal/maincmd\<close>; \<open>Ssh\<close>: \<open>internal/anonssh\<close>; \<open>Rsync_Client\<close>: \<open>rsyncclient\<close>.
  \<^item> \<open>Delta\<close>, \<open>Sync\<close>, \<open>Flist\<close>, \<open>Handshake\<close>, \<open>Client_Run\<close>: both sides of the delta transfer, of a whole file,
    of the file list, of the daemon handshake and of a session together.
  \<^item> \<open>Recv_Safety\<close>, \<open>Recv_Delete\<close>, \<open>Option_Safety\<close>, \<open>Daemon_Safety\<close>, \<open>Serve_Safety\<close>, \<open>Main_Safety\<close>: what no input can bring
    about.  \<open>Sync_Errors\<close>, \<open>Flist_Errors\<close> and the errors elsewhere: where the program does something else than it means to.

  \<^bold>\<open>What is proved.\<close>  End to end: what the sender writes for a request is what the receiver consumes, and the
  destination then holds the file (\<open>sync_file\<close>, \<open>delta_transfer\<close>); the lists of both sides agree position by position
  (\<open>file_list_roundtrip\<close>); the daemon accepts what the client sends and both hold the same options
  (\<open>handshake_agrees\<close>); behind the demultiplexer the client has exactly what the server's transfer wrote
  (\<open>session_streams\<close>), and no piece that \<open>SendFiles\<close> writes is longer than a frame may be (\<open>writes_bounded\<close>).  Against any peer: the
  result of \<open>receiveData\<close> tells whether the file was replaced, and then by contents whose checksum was
  received (\<open>receive_data_integrity\<close>); a list that redirects no name by a symbolic link changes nothing outside
  the listed names and the root (\<open>do_confined\<close>), deletion only what is not listed (\<open>delete_only_extraneous\<close>); a
  module is only opened after its checks (\<open>daemon_access\<close>, \<open>read_only_module\<close>), no option
  crashes the parser (\<open>parse_arguments_safe\<close>).  For the algorithms: the search and its table, the window, the wildcard
  matcher against the language of patterns, the binary search, the checksums and the codecs.

  \<^bold>\<open>Fuel and bounds.\<close>  \<open>search_loop\<close> has the fuel \<open>search_fuel\<close>, a step for each byte of the file and one more;
  \<open>hash_search_correct\<close> shows that it never runs out for sums that are well formed.  Walks of directories have a depth:
  \<open>delete_returns\<close> shows that any depth above the nesting of the directories is enough, and in the other results
  on walks it is what the walk needs.  All other loops terminate by a measure, mostly what remains to be read.

  \<^bold>\<open>Parameters.\<close>  MD4; the text of a formatted message (\<open>fmt.Sprintf\<close>); the contents of the source, with short and failing reads;
  the failure of each operation on the destination; users and groups by name; the order of a \<open>range\<close> over a map; the clock and the
  process number of the seed; random bytes; the library for secrets, \<open>url.Parse\<close>, \<open>shlex\<close>, the SSH protocol, TOML, TLS and
  namespaces.  They are arguments or the records \<open>file_source\<close>, \<open>secret_lib\<close>, \<open>daemon_env\<close>, \<open>client_env\<close>, \<open>serve_env\<close>,
  \<open>ssh_env\<close> and \<open>main_env\<close>.  Where a result relies on one of them (that secrets are given back, that MD4 has 16 bytes), it is a
  hypothesis with a witness.

  \<^bold>\<open>Names and links.\<close>  The operations of \<open>Dest\<close> take a name for the entry of this name.  \<open>os.Root\<close> follows symbolic links
  in front of the last component as long as they stay below the root: a peer that lists a link \<open>l\<close> to \<open>sub\<close> and then
  \<open>l/f\<close> writes \<open>sub/f\<close> (\<open>link_redirects\<close>).  \<open>root_resolve\<close> models this lookup; what it finds is below the root
  (\<open>root_resolve_inside\<close>), and a name without links on the way is found as it is (\<open>root_resolve_literal\<close>).  \<open>do_confined\<close> shows
  that a run never leaves this case for lists and destinations that are in it; the results on other operations are to
  be read for names without links on the way.  Which directory a receiving server opens below that of
  a module (\<open>open_sub\<close>) is a parameter, and the tree of the session is the one below it.

  \<^bold>\<open>Simplifications.\<close>  Sorting, of files and of the targets of the search, is stable, where \<open>sort.Slice\<close> need not be: among
  equal keys the program's order may
  be another one.  \<open>RemoveAll\<close> removes everything or nothing.  Entries that \<open>ReadDir\<close> returns together with an error are
  not looked at.  What the local \<open>bufio.Reader\<close> of the handshake has read ahead is not lost.  Of the temporary files of a \<open>WritableFS\<close> the
  names are kept, those of \<open>renameio\<close> are its own.  A write in
  a frame counts as one write of the budget.  A read at the end of the input is an error, which stands for a closed connection as well as for a
  peer that sends nothing more.  The multiplexed input of a client is taken apart at once, up to the error that ends it.

  \<^bold>\<open>Not modelled.\<close>  Log output and progress; the rate limiter (\<open>float64\<close> and the wall clock); the accept loops and goroutines
  of the listeners; system calls of namespaces, privileges, landlock and systemd; the variants for other systems; the worker pool of
  \<open>internal/parallel\<close>, which nothing uses; the entry points in \<open>cmd\<close> and \<open>rsynccmd\<close>, which only pass arguments on; the test helpers.
\<close>

end
